(* ===== verification/Go_Prelude.thy ===== *)
theory Go_Prelude
  imports
    Complex_Main
    "HOL-Library.AList"
    "HOL-Library.Word"
    "HOL-Library.List_Lexorder"
    "HOL-Library.Char_ord"
    "HOL-Library.Sublist"
    "HOL-Library.Multiset"
begin

text \<open>
  The parts of Go and its standard library that the modelled packages rely on, and the
  generic lemmas the component theories share.

  \<^item> Strings are byte strings: \<open>string\<close> (a list of 8-bit characters) ordered
    lexicographically by byte, as Go compares them. \<open>TrimSpace\<close> strips every
    Unicode white-space rune by its UTF-8 encoding. \<open>ToLower\<close> and \<open>EqualFold\<close>
    act on the ASCII letters and leave every other byte alone; the keys, levels and
    codes the program folds are ASCII.
  \<^item> Machine integers are \<open>int\<close> with the 64-bit wrap-around written out
    (\<open>wrap64\<close>), or \<open>64 word\<close> for the unsigned counters.
  \<^item> A \<open>time.Time\<close> is the number of nanoseconds since the zero time, so the zero
    value is \<open>0\<close> and \<open>IsZero\<close>, \<open>Before\<close>, \<open>After\<close>, \<open>Equal\<close> are comparisons.
  \<^item> A Go map is an association list with distinct keys. The order of the list
    stands for the unspecified iteration order of the map, so a statement about all
    lists is a statement about all iteration orders.
\<close>

section \<open>Collections of facts\<close>

named_theorems go_eval \<open>definitions unfolded to evaluate closed terms\<close>
named_theorems amap \<open>lookup and key facts of association-list maps\<close>

section \<open>Integers and time\<close>

type_synonym uint64 = "64 word"
type_synonym time = int
type_synonym duration = int

abbreviation IsZero :: "time \<Rightarrow> bool" where
  "IsZero t \<equiv> t = 0"

definition MaxInt64 :: int where
  "MaxInt64 = 9223372036854775807"

definition MinInt64 :: int where
  "MinInt64 = - 9223372036854775808"

definition in_int64 :: "int \<Rightarrow> bool" where
  "in_int64 x \<longleftrightarrow> MinInt64 \<le> x \<and> x \<le> MaxInt64"

definition wrap64 :: "int \<Rightarrow> int" where
  "wrap64 x = (x + 9223372036854775808) mod 18446744073709551616 - 9223372036854775808"

lemmas int64_defs = MaxInt64_def MinInt64_def in_int64_def

declare MaxInt64_def [go_eval] MinInt64_def [go_eval] wrap64_def [go_eval] in_int64_def [go_eval]

lemma wrap64_id [simp]: "in_int64 x \<Longrightarrow> wrap64 x = x"
  by (simp add: wrap64_def int64_defs)

lemma in_int64_wrap64 [simp]: "in_int64 (wrap64 x)"
proof -
  have "0 \<le> (x + 9223372036854775808) mod 18446744073709551616"
    and "(x + 9223372036854775808) mod 18446744073709551616 < 18446744073709551616"
    by (rule pos_mod_sign, simp, rule pos_mod_bound, simp)
  then show ?thesis
    by (simp add: wrap64_def int64_defs)
qed

lemma in_int64_small: "- 4000000000000000000 \<le> x \<Longrightarrow> x \<le> 4000000000000000000 \<Longrightarrow> in_int64 x"
  by (simp add: int64_defs)

text \<open>\<open>Time.Sub\<close> saturates at the bounds of a \<open>Duration\<close>.\<close>

definition time_Sub :: "time \<Rightarrow> time \<Rightarrow> duration" where
  "time_Sub t u = max MinInt64 (min MaxInt64 (t - u))"

definition Second :: duration where
  "Second = 1000000000"

definition Minute :: duration where
  "Minute = 60 * Second"

definition Hour :: duration where
  "Hour = 60 * Minute"

lemmas duration_defs = Second_def Minute_def Hour_def

declare time_Sub_def [go_eval] duration_defs [go_eval]

text \<open>Go's integer division truncates towards zero.\<close>

definition quot :: "int \<Rightarrow> int \<Rightarrow> int" where
  "quot a b = sgn a * sgn b * (\<bar>a\<bar> div \<bar>b\<bar>)"

lemma quot_nonneg: "0 \<le> a \<Longrightarrow> 0 < b \<Longrightarrow> quot a b = a div b"
  by (cases "a = 0") (simp_all add: quot_def)

section \<open>Strings\<close>

text \<open>The UTF-8 encodings of the runes \<open>unicode.IsSpace\<close> accepts.\<close>

definition go_spaces :: "string list" where
  "go_spaces =
     [[CHR 0x09], [CHR 0x0A], [CHR 0x0B], [CHR 0x0C], [CHR 0x0D], [CHR 0x20],
      [CHR 0xC2, CHR 0x85], [CHR 0xC2, CHR 0xA0],
      [CHR 0xE1, CHR 0x9A, CHR 0x80],
      [CHR 0xE2, CHR 0x80, CHR 0x80], [CHR 0xE2, CHR 0x80, CHR 0x81],
      [CHR 0xE2, CHR 0x80, CHR 0x82], [CHR 0xE2, CHR 0x80, CHR 0x83],
      [CHR 0xE2, CHR 0x80, CHR 0x84], [CHR 0xE2, CHR 0x80, CHR 0x85],
      [CHR 0xE2, CHR 0x80, CHR 0x86], [CHR 0xE2, CHR 0x80, CHR 0x87],
      [CHR 0xE2, CHR 0x80, CHR 0x88], [CHR 0xE2, CHR 0x80, CHR 0x89],
      [CHR 0xE2, CHR 0x80, CHR 0x8A],
      [CHR 0xE2, CHR 0x80, CHR 0xA8], [CHR 0xE2, CHR 0x80, CHR 0xA9],
      [CHR 0xE2, CHR 0x80, CHR 0xAF], [CHR 0xE2, CHR 0x81, CHR 0x9F],
      [CHR 0xE3, CHR 0x80, CHR 0x80]]"

fun strip_prefix :: "string \<Rightarrow> string \<Rightarrow> string option" where
  "strip_prefix [] s = Some s"
| "strip_prefix (c # cs) [] = None"
| "strip_prefix (c # cs) (d # ds) = (if c = d then strip_prefix cs ds else None)"

fun strip_first :: "string list \<Rightarrow> string \<Rightarrow> string option" where
  "strip_first [] s = None"
| "strip_first (p # ps) s = (case strip_prefix p s of Some r \<Rightarrow> Some r | None \<Rightarrow> strip_first ps s)"

lemma strip_prefix_Some: "strip_prefix p s = Some r \<longleftrightarrow> s = p @ r"
  by (induction p s rule: strip_prefix.induct) auto

lemma strip_first_Some: "strip_first ps s = Some r \<Longrightarrow> \<exists>p \<in> set ps. s = p @ r"
  by (induction ps) (auto simp: strip_prefix_Some split: option.splits)

lemma strip_prefix_None: "strip_prefix p s = None \<longleftrightarrow> \<not> prefix p s"
  by (induction p s rule: strip_prefix.induct) auto

lemma strip_first_None: "strip_first ps s = None \<longleftrightarrow> (\<forall>p \<in> set ps. \<not> prefix p s)"
  by (induction ps) (auto simp: strip_prefix_Some strip_prefix_None split: option.splits)

text \<open>The loop strips at most one rune per byte, so the length of the string bounds it.\<close>

fun trim_loop :: "string list \<Rightarrow> nat \<Rightarrow> string \<Rightarrow> string" where
  "trim_loop ps 0 s = s"
| "trim_loop ps (Suc n) s =
     (case strip_first ps s of Some r \<Rightarrow> trim_loop ps n r | None \<Rightarrow> s)"

definition TrimLeftSpace :: "string \<Rightarrow> string" where
  "TrimLeftSpace s = trim_loop go_spaces (length s) s"

definition TrimRightSpace :: "string \<Rightarrow> string" where
  "TrimRightSpace s = rev (trim_loop (map rev go_spaces) (length s) (rev s))"

definition TrimSpace :: "string \<Rightarrow> string" where
  "TrimSpace s = TrimRightSpace (TrimLeftSpace s)"

definition lower_char :: "char \<Rightarrow> char" where
  "lower_char c =
     (let n = of_char c :: nat in if 65 \<le> n \<and> n \<le> 90 then char_of (n + 32) else c)"

definition ToLower :: "string \<Rightarrow> string" where
  "ToLower s = map lower_char s"

definition EqualFold :: "string \<Rightarrow> string \<Rightarrow> bool" where
  "EqualFold s t \<longleftrightarrow> ToLower s = ToLower t"

text \<open>\<open>strings.Contains\<close>.\<close>

fun Contains :: "string \<Rightarrow> string \<Rightarrow> bool" where
  "Contains [] sub = (sub = [])"
| "Contains (c # cs) sub = (strip_prefix sub (c # cs) \<noteq> None \<or> Contains cs sub)"

definition HasPrefix :: "string \<Rightarrow> string \<Rightarrow> bool" where
  "HasPrefix s p \<longleftrightarrow> strip_prefix p s \<noteq> None"

lemma HasPrefix_iff: "HasPrefix s p \<longleftrightarrow> prefix p s"
  by (auto simp: HasPrefix_def prefix_def strip_prefix_Some)

lemma trim_loop_length: "length (trim_loop ps n s) \<le> length s"
proof (induction n arbitrary: s)
  case 0
  then show ?case by simp
next
  case (Suc n)
  show ?case
  proof (cases "strip_first ps s")
    case None
    then show ?thesis by simp
  next
    case (Some r)
    then have "length r \<le> length s" by (auto dest: strip_first_Some)
    with Suc.IH [of r] Some show ?thesis by simp
  qed
qed

text \<open>A loop that has run out of white space stays put.\<close>

lemma trim_loop_stable: "strip_first ps s = None \<Longrightarrow> trim_loop ps n s = s"
  by (cases n) simp_all

lemma trim_loop_done:
  assumes "[] \<notin> set ps" and "length s \<le> n"
  shows "strip_first ps (trim_loop ps n s) = None"
  using assms(2)
proof (induction n arbitrary: s)
  case 0
  then have "s = []" by simp
  with assms(1) show ?case by (auto simp: strip_first_None)
next
  case (Suc n)
  show ?case
  proof (cases "strip_first ps s")
    case None
    then show ?thesis by simp
  next
    case (Some r)
    then obtain p where "p \<in> set ps" "s = p @ r" by (auto dest: strip_first_Some)
    with assms(1) have "length r < length s" by (cases p) auto
    with Suc.prems Suc.IH [of r] Some show ?thesis by simp
  qed
qed

lemma trim_loop_suffix: "\<exists>p. s = p @ trim_loop ps n s"
proof (induction n arbitrary: s)
  case 0
  then show ?case by simp
next
  case (Suc n)
  show ?case
  proof (cases "strip_first ps s")
    case None
    then show ?thesis by simp
  next
    case (Some r)
    then obtain q where "s = q @ r" by (auto dest: strip_first_Some)
    moreover from Suc.IH obtain p where "r = p @ trim_loop ps n r" by blast
    ultimately have "s = (q @ p) @ trim_loop ps n r" by simp
    with Some show ?thesis by auto
  qed
qed

lemma go_spaces_nonempty: "[] \<notin> set go_spaces" "[] \<notin> set (map rev go_spaces)"
  by (simp_all add: go_spaces_def)

lemma TrimSpace_Nil [simp]: "TrimSpace [] = []"
  by (simp add: TrimSpace_def TrimLeftSpace_def TrimRightSpace_def)

text \<open>
  Trimming is idempotent: what is left of \<open>TrimLeftSpace\<close> starts with no space rune,
  and cutting at its right end cannot expose one, because a prefix of a string that
  starts with no space rune starts with none either.
\<close>

lemma strip_first_None_prefix:
  "strip_first ps (s @ t) = None \<Longrightarrow> strip_first ps s = None"
  by (auto simp: strip_first_None prefix_def)

lemma TrimLeftSpace_done: "strip_first go_spaces (TrimLeftSpace s) = None"
  unfolding TrimLeftSpace_def by (rule trim_loop_done) (simp_all add: go_spaces_nonempty)

lemma TrimRightSpace_done: "strip_first (map rev go_spaces) (rev (TrimRightSpace s)) = None"
  unfolding TrimRightSpace_def rev_rev_ident
  by (rule trim_loop_done) (simp_all add: go_spaces_nonempty del: set_map)

lemma TrimRightSpace_prefix: "\<exists>t. s = TrimRightSpace s @ t"
proof -
  obtain p where "rev s = p @ trim_loop (map rev go_spaces) (length s) (rev s)"
    using trim_loop_suffix by blast
  then have "s = rev (trim_loop (map rev go_spaces) (length s) (rev s)) @ rev p"
    by (metis rev_append rev_rev_ident)
  then show ?thesis unfolding TrimRightSpace_def by blast
qed

lemma TrimSpace_done_left: "strip_first go_spaces (TrimSpace s) = None"
proof -
  obtain t where "TrimLeftSpace s = TrimRightSpace (TrimLeftSpace s) @ t"
    using TrimRightSpace_prefix by blast
  with TrimLeftSpace_done [of s] show ?thesis
    unfolding TrimSpace_def by (metis strip_first_None_prefix)
qed

lemma TrimSpace_idem [simp]: "TrimSpace (TrimSpace s) = TrimSpace s"
proof -
  have "TrimLeftSpace (TrimSpace s) = TrimSpace s"
    unfolding TrimLeftSpace_def by (rule trim_loop_stable) (rule TrimSpace_done_left)
  moreover have "TrimRightSpace (TrimSpace s) = TrimSpace s"
    using trim_loop_stable [OF TrimRightSpace_done [of "TrimLeftSpace s"]]
    unfolding TrimRightSpace_def [of "TrimSpace s"] unfolding TrimSpace_def by simp
  ultimately show ?thesis by (simp add: TrimSpace_def [of "TrimSpace s"])
qed

lemma lower_char_idem [simp]: "lower_char (lower_char c) = lower_char c"
proof (cases "65 \<le> (of_char c :: nat) \<and> (of_char c :: nat) \<le> 90")
  case True
  have "of_char (char_of ((of_char c :: nat) + 32) :: char) = (of_char c :: nat) + 32"
    using True by (simp add: of_char_of)
  with True show ?thesis by (simp add: lower_char_def Let_def)
next
  case False
  then show ?thesis by (auto simp: lower_char_def Let_def)
qed

lemma ToLower_idem [simp]: "ToLower (ToLower s) = ToLower s"
  by (simp add: ToLower_def)

lemma ToLower_Nil [simp]: "ToLower [] = []" "ToLower s = [] \<longleftrightarrow> s = []"
  by (simp_all add: ToLower_def)

lemma length_ToLower [simp]: "length (ToLower s) = length s"
  by (simp add: ToLower_def)

lemma EqualFold_refl [simp]: "EqualFold s s"
  by (simp add: EqualFold_def)

section \<open>strconv\<close>

definition digit_val :: "char \<Rightarrow> int option" where
  "digit_val c =
     (let n = of_char c :: int in if 48 \<le> n \<and> n \<le> 57 then Some (n - 48) else None)"

fun digits_val :: "int \<Rightarrow> string \<Rightarrow> int option" where
  "digits_val acc [] = Some acc"
| "digits_val acc (c # cs) =
     (case digit_val c of None \<Rightarrow> None | Some d \<Rightarrow> digits_val (10 * acc + d) cs)"

text \<open>\<open>strconv.ParseInt(s, 10, 64)\<close> (and \<open>strconv.Atoi\<close> on a 64-bit platform): \<open>None\<close> is
  a syntax or range error.\<close>

definition ParseInt64 :: "string \<Rightarrow> int option" where
  "ParseInt64 s =
     (let neg = (s \<noteq> [] \<and> hd s = CHR ''-'');
          ds = (if s \<noteq> [] \<and> (hd s = CHR ''-'' \<or> hd s = CHR ''+'') then tl s else s)
      in if ds = [] then None
         else case digits_val 0 ds of
           None \<Rightarrow> None
         | Some n \<Rightarrow>
             if neg then (if n \<le> 9223372036854775808 then Some (- n) else None)
             else if n \<le> MaxInt64 then Some n else None)"

definition ParseBool :: "string \<Rightarrow> bool option" where
  "ParseBool s =
     (if s \<in> set [''1'', ''t'', ''T'', ''TRUE'', ''true'', ''True''] then Some True
      else if s \<in> set [''0'', ''f'', ''F'', ''FALSE'', ''false'', ''False''] then Some False
      else None)"

lemma digit_val_nonneg: "digit_val c = Some d \<Longrightarrow> 0 \<le> d \<and> d \<le> 9"
  by (auto simp: digit_val_def Let_def split: if_splits)

lemma digits_val_nonneg: "digits_val acc s = Some n \<Longrightarrow> 0 \<le> acc \<Longrightarrow> 0 \<le> n"
proof (induction acc s rule: digits_val.induct)
  case (1 acc)
  then show ?case by simp
next
  case (2 acc c cs)
  then show ?case by (fastforce split: option.splits dest: digit_val_nonneg)
qed

lemma ParseInt64_range: "ParseInt64 s = Some n \<Longrightarrow> in_int64 n"
  by (auto simp: ParseInt64_def Let_def int64_defs dest: digits_val_nonneg
      split: option.splits if_splits)

section \<open>sort.Search\<close>

function sort_search :: "(nat \<Rightarrow> bool) \<Rightarrow> nat \<Rightarrow> nat \<Rightarrow> nat" where
  "sort_search f i j =
     (if i < j then
        let h = (i + j) div 2 in
        if \<not> f h then sort_search f (h + 1) j else sort_search f i h
      else i)"
  by pat_completeness auto
termination
  by (relation "measure (\<lambda>(f, i, j). j - i)") auto

declare sort_search.simps [simp del]

definition sort_Search :: "nat \<Rightarrow> (nat \<Rightarrow> bool) \<Rightarrow> nat" where
  "sort_Search n f = sort_search f 0 n"

text \<open>On a monotone predicate the binary search finds the least index that satisfies it.\<close>

lemma sort_search_spec:
  assumes "i \<le> j"
    and "\<And>k. k < i \<Longrightarrow> \<not> f k"
    and "\<And>k. j \<le> k \<Longrightarrow> k < n \<Longrightarrow> f k"
    and "\<And>a b. a \<le> b \<Longrightarrow> b < n \<Longrightarrow> f a \<Longrightarrow> f b"
    and "j \<le> n"
  shows "sort_search f i j \<le> n
    \<and> (\<forall>k < sort_search f i j. \<not> f k)
    \<and> (\<forall>k. sort_search f i j \<le> k \<longrightarrow> k < n \<longrightarrow> f k)"
  using assms
proof (induction f i j rule: sort_search.induct)
  case (1 f i j)
  show ?case
  proof (cases "i < j")
    case False
    then have "sort_search f i j = i" by (simp add: sort_search.simps [of f i j])
    with False "1.prems" show ?thesis by auto
  next
    case True
    define h where "h = (i + j) div 2"
    have hi: "i \<le> h" and hj: "h < j" using True by (auto simp: h_def)
    have IH1: "\<not> f h \<Longrightarrow> ?thesis"
    proof -
      assume nf: "\<not> f h"
      have low: "\<And>k. k < h + 1 \<Longrightarrow> \<not> f k"
      proof
        fix k
        assume "k < h + 1" and "f k"
        with "1.prems"(4) [of k h] "1.prems"(5) hj nf show False by simp
      qed
      have "sort_search f i j = sort_search f (h + 1) j"
        using True nf by (simp add: sort_search.simps [of f i j] h_def Let_def)
      with "1.IH"(1) [OF True h_def nf _ low "1.prems"(3,4,5)] hj show ?thesis by simp
    qed
    have IH2: "f h \<Longrightarrow> ?thesis"
    proof -
      assume f: "f h"
      have high: "\<And>k. h \<le> k \<Longrightarrow> k < n \<Longrightarrow> f k" using f "1.prems"(4) by blast
      have hn: "h \<le> n" using hj "1.prems"(5) by simp
      have "sort_search f i j = sort_search f i h"
        using True f by (simp add: sort_search.simps [of f i j] h_def Let_def)
      with "1.IH"(2) [OF True h_def _ hi "1.prems"(2) high "1.prems"(4) hn] f show ?thesis by simp
    qed
    from IH1 IH2 show ?thesis by blast
  qed
qed

lemma sort_Search_spec:
  assumes "\<And>a b. a \<le> b \<Longrightarrow> b < n \<Longrightarrow> f a \<Longrightarrow> f b"
  shows "sort_Search n f \<le> n"
    and "k < sort_Search n f \<Longrightarrow> \<not> f k"
    and "sort_Search n f \<le> k \<Longrightarrow> k < n \<Longrightarrow> f k"
  using sort_search_spec [of 0 n f n, OF _ _ _ assms] unfolding sort_Search_def by auto

section \<open>Maps as association lists\<close>

type_synonym ('k, 'v) gomap = "('k \<times> 'v) list"

abbreviation keys :: "('k, 'v) gomap \<Rightarrow> 'k set" where
  "keys m \<equiv> fst ` set m"

abbreviation distinct_keys :: "('k, 'v) gomap \<Rightarrow> bool" where
  "distinct_keys m \<equiv> distinct (map fst m)"

text \<open>A read of a missing key yields the zero value of the element type.\<close>

definition get_str :: "(string, string) gomap \<Rightarrow> string \<Rightarrow> string" where
  "get_str m k = (case map_of m k of Some v \<Rightarrow> v | None \<Rightarrow> [])"

definition get_int :: "('k, int) gomap \<Rightarrow> 'k \<Rightarrow> int" where
  "get_int m k = (case map_of m k of Some v \<Rightarrow> v | None \<Rightarrow> 0)"

lemma map_of_update [amap, simp]:
  "map_of (AList.update k v m) k' = (if k' = k then Some v else map_of m k')"
  by (simp add: update_conv')

lemma map_of_delete [amap, simp]:
  "map_of (AList.delete k m) k' = (if k' = k then None else map_of m k')"
  by (simp add: AList.delete_conv')

lemma keys_update [amap, simp]: "keys (AList.update k v m) = insert k (keys m)"
  using dom_update [of k v m] by (simp add: dom_map_of_conv_image_fst)

lemma keys_delete [amap, simp]: "keys (AList.delete k m) = keys m - {k}"
  by (auto simp: AList.delete_eq)

lemma distinct_keys_update [amap, simp]: "distinct_keys m \<Longrightarrow> distinct_keys (AList.update k v m)"
  by (rule distinct_update)

lemma distinct_keys_delete [amap, simp]: "distinct_keys m \<Longrightarrow> distinct_keys (AList.delete k m)"
  by (rule AList.distinct_delete)

lemma get_int_update [simp]:
  "get_int (AList.update k v m) k' = (if k' = k then v else get_int m k')"
  by (simp add: get_int_def)

lemma map_of_filter_keys:
  "map_of (filter (\<lambda>(k, v). P k) m) k = (if P k then map_of m k else None)"
  by (induction m) auto

text \<open>Filtering a map with distinct keys by key and value.\<close>

lemma map_of_filter_distinct:
  "distinct_keys m \<Longrightarrow>
     map_of (filter P m) k =
       (case map_of m k of Some v \<Rightarrow> (if P (k, v) then Some v else None) | None \<Rightarrow> None)"
proof (induction m)
  case Nil
  then show ?case by simp
next
  case (Cons a m)
  obtain k' v' where a: "a = (k', v')" by (cases a)
  show ?case
  proof (cases "k = k'")
    case True
    with Cons.prems a have "map_of m k = None" by (simp add: map_of_eq_None_iff)
    moreover have "map_of (filter P m) k = None"
      using Cons.prems a True by (auto simp: map_of_eq_None_iff)
    ultimately show ?thesis using a True by simp
  next
    case False
    with Cons a show ?thesis by simp
  qed
qed

text \<open>Maps over the values, and an update of a present key as one of them.\<close>

lemma map_of_map_values: "map_of (map (\<lambda>(k, v). (k, f k v)) m) k = map_option (f k) (map_of m k)"
  by (induction m) auto

lemma fst_map_key [simp]: "fst \<circ> (\<lambda>(k, v). (k, f k v)) = fst"
  by auto

lemma set_update_distinct:
  "distinct_keys m \<Longrightarrow> set (AList.update k v m) = insert (k, v) {(k', v'). (k', v') \<in> set m \<and> k' \<noteq> k}"
  by (induction m) (auto simp: image_iff)

lemma update_as_map:
  assumes "distinct_keys m" and "map_of m k = Some v"
  shows "AList.update k (f v) m = map (\<lambda>(k', v'). (k', if k' = k then f v' else v')) m"
  using assms
proof (induction m)
  case (Cons x m)
  obtain k' v' where x: "x = (k', v')" by (cases x)
  show ?case
  proof (cases "k' = k")
    case True
    with Cons.prems x have "v' = v" "k \<notin> fst ` set m" by auto
    then have "map (\<lambda>(k', v'). (k', if k' = k then f v' else v')) m = m"
      by (intro map_idI) force
    with True x \<open>v' = v\<close> show ?thesis by simp
  next
    case False
    with Cons x show ?thesis by simp
  qed
qed simp

section \<open>Lists\<close>

lemma find_Some_mem: "List.find P xs = Some x \<Longrightarrow> x \<in> set xs \<and> P x"
  by (induction xs) (auto split: if_splits)

lemma find_None_conv: "List.find P xs = None \<longleftrightarrow> (\<forall>x \<in> set xs. \<not> P x)"
  by (induction xs) simp_all

text \<open>
  \<open>sort.Slice\<close> promises some sorted permutation. When the sort key is injective on the
  slice there is only one, so \<open>sort_key\<close> is what every implementation returns.
\<close>

lemma sort_slice_unique:
  assumes "mset ys = mset xs" and "sorted (map f ys)" and "inj_on f (set xs)"
  shows "ys = sort_key f xs"
proof -
  have "inj_on f (set ys)" using assms(1,3) by (metis set_mset_mset)
  then have "filter (\<lambda>x. f k = f x) ys = filter (\<lambda>x. f k = f x) xs" if "k \<in> set ys" for k
  proof -
    have k: "k \<in> set xs" using that assms(1) by (metis set_mset_mset)
    have eq: "mset (filter (\<lambda>x. f k = f x) ys) = mset (filter (\<lambda>x. f k = f x) xs)"
      using assms(1) by simp
    have "set (filter (\<lambda>x. f k = f x) ys) \<subseteq> {k}" "set (filter (\<lambda>x. f k = f x) xs) \<subseteq> {k}"
      using assms(3) \<open>inj_on f (set ys)\<close> that k by (auto dest: inj_onD)
    then have "filter (\<lambda>x. f k = f x) ys = replicate (length (filter (\<lambda>x. f k = f x) ys)) k"
      and "filter (\<lambda>x. f k = f x) xs = replicate (length (filter (\<lambda>x. f k = f x) xs)) k"
      by (metis replicate_length_same singletonD subsetD)+
    moreover have "length (filter (\<lambda>x. f k = f x) ys) = length (filter (\<lambda>x. f k = f x) xs)"
      using eq by (metis size_mset)
    ultimately show ?thesis by simp
  qed
  then show ?thesis
    using assms(1,2) by (intro properties_for_sort_key [symmetric]) auto
qed

lemma sorted_map_nth_mono:
  "sorted (map f xs) \<Longrightarrow> i \<le> j \<Longrightarrow> j < length xs \<Longrightarrow> f (xs ! i) \<le> f (xs ! j)"
  using sorted_nth_mono [of "map f xs" i j] by simp

text \<open>A loop over a map whose rounds each touch their own key only.\<close>

lemma fold_keyed:
  assumes "distinct_keys xs"
    and "\<And>k v m k'. map_of (step (k, v) m) k' = (if k' = k then f k v (map_of m k) else map_of m k')"
  shows "map_of (fold step xs m) k = (case map_of xs k of None \<Rightarrow> map_of m k | Some v \<Rightarrow> f k v (map_of m k))"
  using assms(1)
proof (induction xs arbitrary: m)
  case (Cons x xs)
  obtain k' v where x: "x = (k', v)" by (cases x)
  then have "k' \<notin> fst ` set xs" using Cons.prems by simp
  then have "map_of xs k' = None" by (simp add: map_of_eq_None_iff)
  then show ?case using Cons by (simp add: x assms(2) split: option.splits)
qed simp

end
