(* ===== verification/Thinking_Suffix.thy ===== *)
theory Thinking_Suffix
  imports Go_Prelude
begin

text \<open>
  The thinking suffix of a model name, \<open>model(value)\<close>, as
  \<^verbatim>\<open>internal/thinking/suffix.go\<close> parses it, and the canonical model key that
  \<^verbatim>\<open>sdk/cliproxy/auth/selector.go\<close> derives from it. The lemmas show that the slice
  expressions never run out of range, that parsing inverts the printed form, and when
  the canonical key is stable under a second canonicalisation.
\<close>

section \<open>Types of internal/thinking/types.go\<close>

datatype ThinkingMode = ModeBudget | ModeLevel | ModeNone | ModeAuto

type_synonym ThinkingLevel = string

definition LevelNone :: ThinkingLevel where "LevelNone = ''none''"
definition LevelAuto :: ThinkingLevel where "LevelAuto = ''auto''"
definition LevelMinimal :: ThinkingLevel where "LevelMinimal = ''minimal''"
definition LevelLow :: ThinkingLevel where "LevelLow = ''low''"
definition LevelMedium :: ThinkingLevel where "LevelMedium = ''medium''"
definition LevelHigh :: ThinkingLevel where "LevelHigh = ''high''"
definition LevelXHigh :: ThinkingLevel where "LevelXHigh = ''xhigh''"
definition LevelMax :: ThinkingLevel where "LevelMax = ''max''"

lemmas level_defs = LevelNone_def LevelAuto_def LevelMinimal_def LevelLow_def LevelMedium_def
  LevelHigh_def LevelXHigh_def LevelMax_def

record SuffixResult =
  sr_ModelName :: string
  sr_HasSuffix :: bool
  sr_RawSuffix :: string

section \<open>Parsing\<close>

text \<open>\<open>strings.LastIndex\<close> of a one-byte needle; \<open>None\<close> is \<open>-1\<close>.\<close>

fun LastIndex :: "string \<Rightarrow> char \<Rightarrow> nat option" where
  "LastIndex [] c = None"
| "LastIndex (d # ds) c =
     (case LastIndex ds c of
        Some i \<Rightarrow> Some (Suc i)
      | None \<Rightarrow> if d = c then Some 0 else None)"

text \<open>\<open>s[i:j]\<close>.\<close>

definition slice :: "string \<Rightarrow> nat \<Rightarrow> nat \<Rightarrow> string" where
  "slice s i j = take (j - i) (drop i s)"

definition ParseSuffix :: "string \<Rightarrow> SuffixResult" where
  "ParseSuffix model =
     (case LastIndex model CHR ''('' of
        None \<Rightarrow> \<lparr>sr_ModelName = model, sr_HasSuffix = False, sr_RawSuffix = []\<rparr>
      | Some lastOpen \<Rightarrow>
          if \<not> (model \<noteq> [] \<and> last model = CHR '')'')
          then \<lparr>sr_ModelName = model, sr_HasSuffix = False, sr_RawSuffix = []\<rparr>
          else \<lparr>sr_ModelName = slice model 0 lastOpen, sr_HasSuffix = True,
                sr_RawSuffix = slice model (lastOpen + 1) (length model - 1)\<rparr>)"

text \<open>A pair \<open>(value, ok)\<close> whose value is read only when \<open>ok\<close> holds is an option.\<close>

definition ParseNumericSuffix :: "string \<Rightarrow> int option" where
  "ParseNumericSuffix rawSuffix =
     (if rawSuffix = [] then None
      else case ParseInt64 rawSuffix of
        None \<Rightarrow> None
      | Some value \<Rightarrow> if value < 0 then None else Some value)"

definition ParseSpecialSuffix :: "string \<Rightarrow> ThinkingMode option" where
  "ParseSpecialSuffix rawSuffix =
     (if rawSuffix = [] then None
      else if ToLower rawSuffix = ''none'' then Some ModeNone
      else if ToLower rawSuffix \<in> set [''auto'', ''-1''] then Some ModeAuto
      else None)"

definition ParseLevelSuffix :: "string \<Rightarrow> ThinkingLevel option" where
  "ParseLevelSuffix rawSuffix =
     (if rawSuffix = [] then None
      else if ToLower rawSuffix = ''minimal'' then Some LevelMinimal
      else if ToLower rawSuffix = ''low'' then Some LevelLow
      else if ToLower rawSuffix = ''medium'' then Some LevelMedium
      else if ToLower rawSuffix = ''high'' then Some LevelHigh
      else if ToLower rawSuffix = ''xhigh'' then Some LevelXHigh
      else if ToLower rawSuffix = ''max'' then Some LevelMax
      else None)"

definition canonicalModelKey :: "string \<Rightarrow> string" where
  "canonicalModelKey model =
     (let model = TrimSpace model in
      if model = [] then []
      else let modelName = TrimSpace (sr_ModelName (ParseSuffix model)) in
        if modelName = [] then model else modelName)"

section \<open>Facts\<close>

lemma LastIndex_None: "LastIndex s c = None \<longleftrightarrow> c \<notin> set s"
  by (induction s) (auto split: option.splits)

lemma LastIndex_Some:
  "LastIndex s c = Some i \<longleftrightarrow> i < length s \<and> s ! i = c \<and> c \<notin> set (drop (Suc i) s)"
proof (induction s arbitrary: i)
  case Nil
  then show ?case by simp
next
  case (Cons d s)
  show ?case
  proof (cases "LastIndex s c")
    case None
    moreover from None have "c \<notin> set s" by (simp add: LastIndex_None)
    ultimately show ?thesis by (cases i) (auto dest: in_set_dropD)
  next
    case (Some j)
    then have c: "c \<in> set s" by (metis LastIndex_None option.distinct(1))
    show ?thesis
    proof (cases i)
      case 0
      with Some c show ?thesis by simp
    next
      case (Suc k)
      with Some Cons.IH [of k] show ?thesis by simp
    qed
  qed
qed

text \<open>Both slices of the suffix branch are within the string, so Go does not panic.\<close>

lemma ParseSuffix_slices_in_range:
  assumes "LastIndex model CHR ''('' = Some i" and "model \<noteq> []" and "last model = CHR '')''"
  shows "i + 1 \<le> length model - 1 \<and> length model - 1 \<le> length model"
proof -
  from assms(1) have i: "i < length model" "model ! i = CHR ''(''" by (auto simp: LastIndex_Some)
  with assms(2,3) have "i \<noteq> length model - 1" by (auto simp: last_conv_nth)
  with i show ?thesis by simp
qed

lemma ParseSuffix_split:
  assumes "sr_HasSuffix (ParseSuffix model)"
  shows "model = sr_ModelName (ParseSuffix model) @ ''('' @ sr_RawSuffix (ParseSuffix model) @ '')''
    \<and> CHR ''('' \<notin> set (sr_RawSuffix (ParseSuffix model))"
proof -
  from assms obtain i where i: "LastIndex model CHR ''('' = Some i"
    and ne: "model \<noteq> []" and l: "last model = CHR '')''"
    by (auto simp: ParseSuffix_def split: option.splits if_splits)
  have P: "ParseSuffix model = \<lparr>sr_ModelName = slice model 0 i, sr_HasSuffix = True,
      sr_RawSuffix = slice model (i + 1) (length model - 1)\<rparr>"
    using i ne l by (simp add: ParseSuffix_def)
  from i have i': "i < length model" "model ! i = CHR ''(''" "CHR ''('' \<notin> set (drop (Suc i) model)"
    by (auto simp: LastIndex_Some)
  have r: "slice model (i + 1) (length model - 1) = butlast (drop (Suc i) model)"
    by (simp add: slice_def butlast_conv_take take_drop)
  have lt: "Suc i < length model" using ParseSuffix_slices_in_range [OF i ne l] i'(1) by simp
  then have "drop (Suc i) model = butlast (drop (Suc i) model) @ [CHR '')'']"
    using l by (metis append_butlast_last_id drop_eq_Nil last_drop linorder_not_le)
  moreover have "model = take i model @ CHR ''('' # drop (Suc i) model"
    using i' by (metis id_take_nth_drop)
  ultimately show ?thesis using P r i'(3) by (auto simp: slice_def dest: in_set_butlastD)
qed

lemma ParseSuffix_print:
  assumes "CHR ''('' \<notin> set v"
  shows "ParseSuffix (m @ ''('' @ v @ '')'') =
    \<lparr>sr_ModelName = m, sr_HasSuffix = True, sr_RawSuffix = v\<rparr>"
proof -
  let ?s = "m @ ''('' @ v @ '')''"
  have "LastIndex ?s CHR ''('' = Some (length m)"
    using assms by (simp add: LastIndex_Some nth_append)
  then show ?thesis
    by (simp add: ParseSuffix_def slice_def)
qed

lemma ParseSuffix_no_suffix:
  "\<not> sr_HasSuffix (ParseSuffix m) \<Longrightarrow> sr_ModelName (ParseSuffix m) = m"
  by (auto simp: ParseSuffix_def split: option.splits if_splits)

lemma TrimSpace_eq_Nil_mono: "TrimSpace s \<noteq> [] \<Longrightarrow> TrimSpace (TrimSpace s) \<noteq> []"
  by simp

lemma canonicalModelKey_Nil [simp]: "canonicalModelKey [] = []"
  by (simp add: canonicalModelKey_def)

lemma canonicalModelKey_trimmed: "TrimSpace (canonicalModelKey m) = canonicalModelKey m"
  by (simp add: canonicalModelKey_def Let_def)

lemma canonicalModelKey_Nil_iff: "canonicalModelKey m = [] \<longleftrightarrow> TrimSpace m = []"
  by (simp add: canonicalModelKey_def Let_def)

text \<open>Surrounding white space never changes the key.\<close>

lemma canonicalModelKey_TrimSpace [simp]: "canonicalModelKey (TrimSpace m) = canonicalModelKey m"
  by (simp add: canonicalModelKey_def Let_def)

lemma canonicalModelKey_plain:
  "TrimSpace m = m \<Longrightarrow> \<not> sr_HasSuffix (ParseSuffix m) \<Longrightarrow> canonicalModelKey m = m"
  by (auto simp: canonicalModelKey_def Let_def ParseSuffix_no_suffix)


text \<open>The key of a name with two suffixes carries a suffix itself, so a second application changes it again.\<close>

lemma canonicalModelKey_not_idempotent:
  "canonicalModelKey ''gpt-5(low)(high)'' = ''gpt-5(low)''" "canonicalModelKey (canonicalModelKey ''gpt-5(low)(high)'') = ''gpt-5''"
  by code_simp+

end
