(* ===== verification/Model_Info.thy ===== *)
theory Model_Info
  imports Go_Prelude
begin

text \<open>
  The model metadata of \<^verbatim>\<open>internal/registry/model_registry.go\<close>: the struct
  \<open>ModelInfo\<close> with its nested \<open>ThinkingSupport\<close> and \<open>ModelConfig\<close>. A nil pointer
  is \<open>None\<close>.
\<close>

record ThinkingSupport =
  ts_Min :: int
  ts_Max :: int
  ts_ZeroAllowed :: bool
  ts_DynamicAllowed :: bool
  ts_Levels :: "string list"

record ModelConfig =
  mc_OverrideHeader :: "(string, string) gomap"

record ModelInfo =
  mi_ID :: string
  mi_Object :: string
  mi_Created :: int
  mi_OwnedBy :: string
  mi_Type :: string
  mi_DisplayName :: string
  mi_Name :: string
  mi_Version :: string
  mi_Description :: string
  mi_InputTokenLimit :: int
  mi_OutputTokenLimit :: int
  mi_SupportedGenerationMethods :: "string list"
  mi_ContextLength :: int
  mi_MaxContextLength :: int
  mi_MaxCompletionTokens :: int
  mi_SupportedParameters :: "string list"
  mi_SupportedInputModalities :: "string list"
  mi_SupportedOutputModalities :: "string list"
  mi_Thinking :: "ThinkingSupport option"
  mi_Config :: "ModelConfig option"
  mi_UserDefined :: bool
  mi_IsCompat :: bool

text \<open>The zero value of the struct, the base of the example models.\<close>

definition zero_ModelInfo :: ModelInfo where
  "zero_ModelInfo =
     \<lparr>mi_ID = [], mi_Object = [], mi_Created = 0, mi_OwnedBy = [], mi_Type = [],
      mi_DisplayName = [], mi_Name = [], mi_Version = [], mi_Description = [],
      mi_InputTokenLimit = 0, mi_OutputTokenLimit = 0, mi_SupportedGenerationMethods = [],
      mi_ContextLength = 0, mi_MaxContextLength = 0, mi_MaxCompletionTokens = 0,
      mi_SupportedParameters = [], mi_SupportedInputModalities = [],
      mi_SupportedOutputModalities = [], mi_Thinking = None, mi_Config = None,
      mi_UserDefined = False, mi_IsCompat = False\<rparr>"

end
