(* ===== verification/Thinking_Validate.thy ===== *)
theory Thinking_Validate
  imports Thinking_Suffix Model_Info
begin

text \<open>
  Conversion between thinking levels and token budgets
  (\<^verbatim>\<open>internal/thinking/convert.go\<close>) and the validation of a thinking
  configuration against the capabilities of a model
  (\<^verbatim>\<open>internal/thinking/validate.go\<close>). The lemmas show that a validated level is
  one the model supports, that a validated budget is inside the model's range, that
  clamping picks a nearest supported level, and that same-family requests are never
  clamped silently. Log calls are left out; an error carries the arguments of its
  message instead of the formatted text.
\<close>

section \<open>convert.go\<close>

definition levelToBudgetMap :: "(string, int) gomap" where
  "levelToBudgetMap =
     [(''none'', 0), (''auto'', - 1), (''minimal'', 512), (''low'', 1024), (''medium'', 8192),
      (''high'', 24576), (''xhigh'', 32768), (''max'', 128000)]"

definition ConvertLevelToBudget :: "string \<Rightarrow> int option" where
  "ConvertLevelToBudget level = map_of levelToBudgetMap (ToLower level)"

definition ThresholdMinimal :: int where "ThresholdMinimal = 512"
definition ThresholdLow :: int where "ThresholdLow = 1024"
definition ThresholdMedium :: int where "ThresholdMedium = 8192"
definition ThresholdHigh :: int where "ThresholdHigh = 24576"

lemmas threshold_defs = ThresholdMinimal_def ThresholdLow_def ThresholdMedium_def ThresholdHigh_def

definition ConvertBudgetToLevel :: "int \<Rightarrow> string option" where
  "ConvertBudgetToLevel budget =
     (if budget < - 1 then None
      else if budget = - 1 then Some LevelAuto
      else if budget = 0 then Some LevelNone
      else if budget \<le> ThresholdMinimal then Some LevelMinimal
      else if budget \<le> ThresholdLow then Some LevelLow
      else if budget \<le> ThresholdMedium then Some LevelMedium
      else if budget \<le> ThresholdHigh then Some LevelHigh
      else Some LevelXHigh)"

fun HasLevel :: "string list \<Rightarrow> string \<Rightarrow> bool" where
  "HasLevel [] target = False"
| "HasLevel (level # levels) target =
     (if EqualFold (TrimSpace level) target then True else HasLevel levels target)"

definition MapToClaudeEffort :: "string \<Rightarrow> bool \<Rightarrow> string option" where
  "MapToClaudeEffort level supportsMax =
     (let level = ToLower (TrimSpace level) in
      if level = [] then None
      else if level = ''minimal'' then Some ''low''
      else if level \<in> set [''low'', ''medium'', ''high''] then Some level
      else if level \<in> set [''xhigh'', ''max''] then
        (if supportsMax then Some ''max'' else Some ''high'')
      else if level = ''auto'' then Some ''high''
      else None)"

datatype ModelCapability =
    CapabilityUnknown | CapabilityNone | CapabilityBudgetOnly | CapabilityLevelOnly | CapabilityHybrid

definition detectModelCapability :: "ModelInfo option \<Rightarrow> ModelCapability" where
  "detectModelCapability modelInfo =
     (case modelInfo of
        None \<Rightarrow> CapabilityUnknown
      | Some info \<Rightarrow>
          (case mi_Thinking info of
             None \<Rightarrow> CapabilityNone
           | Some support \<Rightarrow>
               let hasBudget = ts_Min support > 0 \<or> ts_Max support > 0;
                   hasLevels = length (ts_Levels support) > 0
               in if hasBudget \<and> hasLevels then CapabilityHybrid
                  else if hasBudget then CapabilityBudgetOnly
                  else if hasLevels then CapabilityLevelOnly
                  else CapabilityNone))"

section \<open>validate.go: levels\<close>

definition standardLevelOrder :: "ThinkingLevel list" where
  "standardLevelOrder = [LevelMinimal, LevelLow, LevelMedium, LevelHigh, LevelXHigh, LevelMax]"

fun isLevelSupported :: "string \<Rightarrow> string list \<Rightarrow> bool" where
  "isLevelSupported level [] = False"
| "isLevelSupported level (s # supported) =
     (if EqualFold level (TrimSpace s) then True else isLevelSupported level supported)"

text \<open>\<open>-1\<close> when the level is not a standard one.\<close>

fun levelIndexFrom :: "string \<Rightarrow> int \<Rightarrow> ThinkingLevel list \<Rightarrow> int" where
  "levelIndexFrom level i [] = - 1"
| "levelIndexFrom level i (l # ls) =
     (if EqualFold level l then i else levelIndexFrom level (i + 1) ls)"

definition levelIndex :: "string \<Rightarrow> int" where
  "levelIndex level = levelIndexFrom level 0 standardLevelOrder"

definition normalizeLevels :: "string list \<Rightarrow> string list" where
  "normalizeLevels levels = map (\<lambda>l. ToLower (TrimSpace l)) levels"

text \<open>The loop of \<open>clampLevel\<close> over the supported levels, with \<open>bestIdx\<close> and \<open>bestDist\<close>.\<close>

fun nearestLevel :: "int \<Rightarrow> int \<Rightarrow> int \<Rightarrow> string list \<Rightarrow> int" where
  "nearestLevel pos bestIdx bestDist [] = bestIdx"
| "nearestLevel pos bestIdx bestDist (s # supported) =
     (let idx = levelIndex (TrimSpace s) in
      if idx \<noteq> - 1 then
        let dist = \<bar>pos - idx\<bar> in
        if dist < bestDist \<or> (dist = bestDist \<and> idx < bestIdx)
        then nearestLevel pos idx dist supported
        else nearestLevel pos bestIdx bestDist supported
      else nearestLevel pos bestIdx bestDist supported)"

definition supportedLevels :: "ModelInfo option \<Rightarrow> string list" where
  "supportedLevels modelInfo =
     (case modelInfo of
        None \<Rightarrow> []
      | Some info \<Rightarrow> (case mi_Thinking info of None \<Rightarrow> [] | Some support \<Rightarrow> ts_Levels support))"

definition clampLevel :: "ThinkingLevel \<Rightarrow> ModelInfo option \<Rightarrow> ThinkingLevel" where
  "clampLevel level modelInfo =
     (let supported = supportedLevels modelInfo in
      if supported = [] \<or> isLevelSupported level supported then level
      else let pos = levelIndex level in
        if pos = - 1 then level
        else let bestIdx = nearestLevel pos (- 1) (int (length standardLevelOrder) + 1) supported in
          if bestIdx \<ge> 0 then standardLevelOrder ! nat bestIdx else level)"

section \<open>validate.go: budgets and families\<close>

definition clampBudget :: "int \<Rightarrow> ModelInfo option \<Rightarrow> int" where
  "clampBudget value modelInfo =
     (case (case modelInfo of None \<Rightarrow> None | Some info \<Rightarrow> mi_Thinking info) of
        None \<Rightarrow> value
      | Some support \<Rightarrow>
          if value = - 1 then value
          else if value = 0 \<and> \<not> ts_ZeroAllowed support then ts_Min support
          else if ts_Min support = 0 \<and> ts_Max support = 0 then value
          else if value < ts_Min support then
            (if value = 0 \<and> ts_ZeroAllowed support then 0 else ts_Min support)
          else if value > ts_Max support then ts_Max support
          else value)"

definition isBudgetCapableProvider :: "string \<Rightarrow> bool" where
  "isBudgetCapableProvider provider \<longleftrightarrow> provider = ''claude''"

definition isOpenAIFamily :: "string \<Rightarrow> bool" where
  "isOpenAIFamily provider \<longleftrightarrow> provider \<in> set [''openai'', ''openai-response'', ''codex'']"

definition isSameProviderFamily :: "string \<Rightarrow> string \<Rightarrow> bool" where
  "isSameProviderFamily from to \<longleftrightarrow> from = to \<or> isOpenAIFamily from \<and> isOpenAIFamily to"

section \<open>validate.go: ValidateConfig\<close>

record ThinkingConfig =
  tc_Mode :: ThinkingMode
  tc_Budget :: int
  tc_Level :: ThinkingLevel

datatype ThinkingError =
    ErrThinkingNotSupported string
  | ErrUnknownLevel string
  | ErrUnconvertibleBudget int
  | ErrLevelNotSupported string "string list"
  | ErrBudgetOutOfRange int int int

definition convertAutoToMidRange :: "ThinkingConfig \<Rightarrow> ThinkingSupport \<Rightarrow> ThinkingConfig" where
  "convertAutoToMidRange config support =
     (if ts_Levels support \<noteq> [] \<and> ts_Min support = 0 \<and> ts_Max support = 0 then
        config\<lparr>tc_Mode := ModeLevel, tc_Level := LevelMedium, tc_Budget := 0\<rparr>
      else
        let mid = quot (wrap64 (ts_Min support + ts_Max support)) 2 in
        if mid \<le> 0 \<and> ts_ZeroAllowed support then config\<lparr>tc_Mode := ModeNone, tc_Budget := 0\<rparr>
        else if mid \<le> 0 then config\<lparr>tc_Mode := ModeBudget, tc_Budget := ts_Min support\<rparr>
        else config\<lparr>tc_Mode := ModeBudget, tc_Budget := mid\<rparr>)"

definition modelName :: "ModelInfo option \<Rightarrow> string" where
  "modelName modelInfo =
     (case modelInfo of
        None \<Rightarrow> ''unknown''
      | Some info \<Rightarrow> if mi_ID info \<noteq> [] then mi_ID info else ''unknown'')"

text \<open>
  The body of \<open>ValidateConfig\<close> in the order of the code: the family checks, the
  conversion the capability asks for, the special values, the level and budget checks,
  the automatic mode, and the final clamp.
\<close>

definition familyMismatch :: "ModelInfo option \<Rightarrow> string \<Rightarrow> string \<Rightarrow> bool" where
  "familyMismatch modelInfo fromFormat toFormat =
     (case modelInfo of
        None \<Rightarrow> False
      | Some info \<Rightarrow>
          let modelType = ToLower (TrimSpace (mi_Type info)) in
          modelType \<noteq> [] \<and>
          ((fromFormat \<noteq> [] \<and> \<not> isSameProviderFamily fromFormat modelType) \<or>
           (toFormat \<noteq> [] \<and> \<not> isSameProviderFamily toFormat modelType)))"

text \<open>The capability switch; the flag is \<open>budgetDerivedFromLevel\<close>.\<close>

definition convertForCapability ::
  "ThinkingConfig \<Rightarrow> ModelInfo option \<Rightarrow> ThinkingError + (ThinkingConfig \<times> bool)" where
  "convertForCapability config modelInfo =
     (case detectModelCapability modelInfo of
        CapabilityBudgetOnly \<Rightarrow>
          if tc_Mode config = ModeLevel then
            if tc_Level config = LevelAuto then Inr (config, False)
            else (case ConvertLevelToBudget (tc_Level config) of
                    None \<Rightarrow> Inl (ErrUnknownLevel (tc_Level config))
                  | Some budget \<Rightarrow>
                      Inr (config\<lparr>tc_Mode := ModeBudget, tc_Budget := budget, tc_Level := []\<rparr>, True))
          else Inr (config, False)
      | CapabilityLevelOnly \<Rightarrow>
          if tc_Mode config = ModeBudget then
            (case ConvertBudgetToLevel (tc_Budget config) of
               None \<Rightarrow> Inl (ErrUnconvertibleBudget (tc_Budget config))
             | Some level \<Rightarrow>
                 Inr (config\<lparr>tc_Mode := ModeLevel, tc_Level := clampLevel level modelInfo,
                             tc_Budget := 0\<rparr>, False))
          else Inr (config, False)
      | _ \<Rightarrow> Inr (config, False))"

definition normalizeSpecial :: "ThinkingConfig \<Rightarrow> ThinkingConfig" where
  "normalizeSpecial config =
     (let c1 = (if tc_Mode config = ModeLevel \<and> tc_Level config = LevelNone
                then config\<lparr>tc_Mode := ModeNone, tc_Budget := 0, tc_Level := []\<rparr> else config);
          c2 = (if tc_Mode c1 = ModeLevel \<and> tc_Level c1 = LevelAuto
                then c1\<lparr>tc_Mode := ModeAuto, tc_Budget := - 1, tc_Level := []\<rparr> else c1)
      in if tc_Mode c2 = ModeBudget \<and> tc_Budget c2 = 0
         then c2\<lparr>tc_Mode := ModeNone, tc_Level := []\<rparr> else c2)"

definition checkLevel ::
  "ThinkingConfig \<Rightarrow> ThinkingSupport \<Rightarrow> ModelInfo option \<Rightarrow> bool \<Rightarrow> ThinkingError + ThinkingConfig" where
  "checkLevel config support modelInfo allowClamp =
     (if ts_Levels support \<noteq> [] \<and> tc_Mode config = ModeLevel \<and>
         \<not> isLevelSupported (tc_Level config) (ts_Levels support) then
        let config = (if allowClamp
                      then config\<lparr>tc_Level := clampLevel (tc_Level config) modelInfo\<rparr> else config)
        in if \<not> isLevelSupported (tc_Level config) (ts_Levels support)
           then Inl (ErrLevelNotSupported (ToLower (tc_Level config)) (normalizeLevels (ts_Levels support)))
           else Inr config
      else Inr config)"

definition checkBudget :: "ThinkingConfig \<Rightarrow> ThinkingSupport \<Rightarrow> bool \<Rightarrow> ThinkingError + unit" where
  "checkBudget config support strict =
     (if strict \<and> tc_Mode config = ModeBudget \<and>
         (ts_Min support \<noteq> 0 \<or> ts_Max support \<noteq> 0) \<and>
         (tc_Budget config < ts_Min support \<or> tc_Budget config > ts_Max support \<or>
          (tc_Budget config = 0 \<and> \<not> ts_ZeroAllowed support))
      then Inl (ErrBudgetOutOfRange (tc_Budget config) (ts_Min support) (ts_Max support))
      else Inr ())"

definition resolveAuto :: "ThinkingConfig \<Rightarrow> ThinkingSupport \<Rightarrow> ModelInfo option \<Rightarrow> ThinkingConfig" where
  "resolveAuto config support modelInfo =
     (if tc_Mode config = ModeAuto \<and> \<not> ts_DynamicAllowed support then
        let config = convertAutoToMidRange config support in
        if tc_Mode config = ModeLevel \<and> ts_Levels support \<noteq> [] \<and>
           \<not> isLevelSupported (tc_Level config) (ts_Levels support)
        then config\<lparr>tc_Level := clampLevel (tc_Level config) modelInfo\<rparr>
        else config
      else config)"

definition finalClamp :: "ThinkingConfig \<Rightarrow> ThinkingSupport \<Rightarrow> ModelInfo option \<Rightarrow> string \<Rightarrow> ThinkingConfig" where
  "finalClamp config support modelInfo toFormat =
     (if tc_Mode config = ModeNone \<and> toFormat = ''claude''
      then config\<lparr>tc_Budget := 0, tc_Level := []\<rparr>
      else
        let config = (if tc_Mode config \<in> {ModeBudget, ModeAuto, ModeNone}
                      then config\<lparr>tc_Budget := clampBudget (tc_Budget config) modelInfo\<rparr> else config);
            cannotDisableLevelModel =
              \<not> ts_ZeroAllowed support \<and> \<not> isLevelSupported LevelNone (ts_Levels support)
        in if tc_Mode config = ModeNone \<and> ts_Levels support \<noteq> [] \<and>
              (tc_Budget config > 0 \<or> cannotDisableLevelModel)
           then config\<lparr>tc_Level := hd (ts_Levels support)\<rparr>
           else config)"

definition ValidateConfig ::
  "ThinkingConfig \<Rightarrow> ModelInfo option \<Rightarrow> string \<Rightarrow> string \<Rightarrow> bool \<Rightarrow> ThinkingError + ThinkingConfig" where
  "ValidateConfig config modelInfo fromFormat toFormat fromSuffix =
     (let fromFormat = ToLower (TrimSpace fromFormat);
          toFormat = ToLower (TrimSpace toFormat)
      in case (case modelInfo of None \<Rightarrow> None | Some info \<Rightarrow> mi_Thinking info) of
        None \<Rightarrow>
          if tc_Mode config \<noteq> ModeNone
          then Inl (ErrThinkingNotSupported (modelName modelInfo)) else Inr config
      | Some support \<Rightarrow>
          let toCapability = detectModelCapability modelInfo;
              toHasLevelSupport =
                (toCapability = CapabilityLevelOnly \<or> toCapability = CapabilityHybrid);
              modelFamilyMismatch = familyMismatch modelInfo fromFormat toFormat;
              allowClampUnsupported =
                (toHasLevelSupport \<and>
                 (\<not> isSameProviderFamily fromFormat toFormat \<or> modelFamilyMismatch));
              strictBudget =
                (\<not> fromSuffix \<and> fromFormat \<noteq> [] \<and> isSameProviderFamily fromFormat toFormat \<and>
                 \<not> modelFamilyMismatch)
          in case convertForCapability config modelInfo of
            Inl e \<Rightarrow> Inl e
          | Inr (config, budgetDerivedFromLevel) \<Rightarrow>
              (case checkLevel (normalizeSpecial config) support modelInfo allowClampUnsupported of
                 Inl e \<Rightarrow> Inl e
               | Inr config \<Rightarrow>
                   (case checkBudget config support (strictBudget \<and> \<not> budgetDerivedFromLevel) of
                      Inl e \<Rightarrow> Inl e
                    | Inr _ \<Rightarrow>
                        Inr (finalClamp (resolveAuto config support modelInfo) support modelInfo toFormat))))"


section \<open>Facts: conversion\<close>

lemma ToLower_levels [simp]:
  "ToLower ''none'' = ''none''" "ToLower ''auto'' = ''auto''" "ToLower ''minimal'' = ''minimal''"
  "ToLower ''low'' = ''low''" "ToLower ''medium'' = ''medium''" "ToLower ''high'' = ''high''"
  "ToLower ''xhigh'' = ''xhigh''" "ToLower ''max'' = ''max''" "ToLower ''claude'' = ''claude''"
  "ToLower ''codex'' = ''codex''" "ToLower ''openai'' = ''openai''"
  by (simp_all add: ToLower_def lower_char_def)

lemma standardLevelOrder_lower: "l \<in> set standardLevelOrder \<Longrightarrow> ToLower l = l"
  by (auto simp: standardLevelOrder_def level_defs)

lemma levelIndexFrom_bounds:
  "levelIndexFrom level i ls = - 1 \<or> i \<le> levelIndexFrom level i ls
     \<and> levelIndexFrom level i ls < i + int (length ls)
     \<and> EqualFold level (ls ! nat (levelIndexFrom level i ls - i))"
proof (induction level i ls rule: levelIndexFrom.induct)
  case (1 level i)
  then show ?case by simp
next
  case (2 level i l ls)
  show ?case
  proof (cases "EqualFold level l")
    case True
    then show ?thesis by simp
  next
    case False
    note IH = "2.IH" [OF False]
    let ?r = "levelIndexFrom level (i + 1) ls"
    have "?r = - 1 \<or> i \<le> ?r \<and> ?r < i + int (length (l # ls)) \<and> EqualFold level ((l # ls) ! nat (?r - i))"
    proof (cases "?r = - 1")
      case False
      with IH have "nat (?r - i) = Suc (nat (?r - (i + 1)))"
        by (simp add: nat_eq_iff)
      with IH False show ?thesis by auto
    qed simp
    with False show ?thesis by simp
  qed
qed

lemma levelIndex_bounds:
  assumes "levelIndex level \<noteq> - 1"
  shows "0 \<le> levelIndex level" "levelIndex level \<le> 5"
    and "EqualFold level (standardLevelOrder ! nat (levelIndex level))"
  using assms levelIndexFrom_bounds [of level 0 standardLevelOrder]
  by (auto simp: levelIndex_def standardLevelOrder_def)

lemma levelIndex_standard:
  "levelIndex ''minimal'' = 0" "levelIndex ''low'' = 1" "levelIndex ''medium'' = 2"
  "levelIndex ''high'' = 3" "levelIndex ''xhigh'' = 4" "levelIndex ''max'' = 5"
  by (simp_all add: levelIndex_def standardLevelOrder_def level_defs EqualFold_def)

section \<open>Facts: clamping a level\<close>

text \<open>\<open>closer pos i j\<close>: index \<open>i\<close> is nearer to \<open>pos\<close> than \<open>j\<close>, or as near and no higher.\<close>

definition closer :: "int \<Rightarrow> int \<Rightarrow> int \<Rightarrow> bool" where
  "closer pos i j \<longleftrightarrow> \<bar>pos - i\<bar> < \<bar>pos - j\<bar> \<or> (\<bar>pos - i\<bar> = \<bar>pos - j\<bar> \<and> i \<le> j)"

definition levelCandidates :: "string list \<Rightarrow> int set" where
  "levelCandidates supported = {levelIndex (TrimSpace s) |s. s \<in> set supported} - {- 1}"

lemma closer_refl: "closer pos i i"
  by (simp add: closer_def)

lemma closer_trans: "closer pos i j \<Longrightarrow> closer pos j k \<Longrightarrow> closer pos i k"
  by (auto simp: closer_def)

lemma levelCandidates_Cons:
  "levelCandidates (s # ss) =
     (if levelIndex (TrimSpace s) = - 1 then levelCandidates ss
      else insert (levelIndex (TrimSpace s)) (levelCandidates ss))"
  by (auto simp: levelCandidates_def)

lemma nearestLevel_spec:
  assumes "0 \<le> pos" "pos \<le> 5"
    and "(b = - 1 \<and> d = 7) \<or> (0 \<le> b \<and> b \<le> 5 \<and> d = \<bar>pos - b\<bar>)"
  shows "(nearestLevel pos b d supported = b \<or> nearestLevel pos b d supported \<in> levelCandidates supported)
    \<and> (\<forall>i \<in> levelCandidates supported. nearestLevel pos b d supported \<noteq> - 1
         \<and> closer pos (nearestLevel pos b d supported) i)
    \<and> (b \<noteq> - 1 \<longrightarrow> nearestLevel pos b d supported \<noteq> - 1 \<and> closer pos (nearestLevel pos b d supported) b)"
  using assms(3)
proof (induction supported arbitrary: b d)
  case Nil
  then show ?case by (simp add: levelCandidates_def closer_refl)
next
  case (Cons s supported)
  let ?i = "levelIndex (TrimSpace s)"
  show ?case
  proof (cases "?i = - 1")
    case True
    then have "nearestLevel pos b d (s # supported) = nearestLevel pos b d supported"
      by (simp add: Let_def)
    with Cons.IH [OF Cons.prems] True show ?thesis by (simp add: levelCandidates_Cons)
  next
    case idx: False
    then have i: "0 \<le> ?i" "?i \<le> 5" using levelIndex_bounds by blast+
    show ?thesis
    proof (cases "\<bar>pos - ?i\<bar> < d \<or> (\<bar>pos - ?i\<bar> = d \<and> ?i < b)")
      case True
      then have eq: "nearestLevel pos b d (s # supported) = nearestLevel pos ?i \<bar>pos - ?i\<bar> supported"
        using idx by (simp add: Let_def)
      have "b \<noteq> - 1 \<Longrightarrow> closer pos ?i b"
        using True Cons.prems by (auto simp: closer_def)
      with Cons.IH [of ?i "\<bar>pos - ?i\<bar>"] i idx show ?thesis
        unfolding eq by (auto simp: levelCandidates_Cons intro: closer_trans)
    next
      case False
      then have eq: "nearestLevel pos b d (s # supported) = nearestLevel pos b d supported"
        using idx by (auto simp: Let_def)
      have b: "b \<noteq> - 1" "closer pos b ?i"
        using False Cons.prems i assms(1,2) by (auto simp: closer_def)
      with Cons.IH [OF Cons.prems] idx show ?thesis
        unfolding eq by (auto simp: levelCandidates_Cons intro: closer_trans)
    qed
  qed
qed

lemma isLevelSupported_iff: "isLevelSupported level ss \<longleftrightarrow> (\<exists>s \<in> set ss. EqualFold level (TrimSpace s))"
  by (induction ss) auto

lemma EqualFold_sym: "EqualFold s t \<Longrightarrow> EqualFold t s"
  by (simp add: EqualFold_def)

lemma EqualFold_trans: "EqualFold s t \<Longrightarrow> EqualFold t u \<Longrightarrow> EqualFold s u"
  by (simp add: EqualFold_def)

lemma levelIndex_of_standard:
  "0 \<le> i \<Longrightarrow> i \<le> 5 \<Longrightarrow> levelIndex (standardLevelOrder ! nat i) = i"
proof -
  assume "0 \<le> i" "i \<le> 5"
  then consider "i = 0" | "i = 1" | "i = 2" | "i = 3" | "i = 4" | "i = 5" by linarith
  then show ?thesis
    by cases (simp_all add: standardLevelOrder_def level_defs levelIndex_standard)
qed

text \<open>
  When the level itself is unsupported but the model supports some standard level,
  clamping a standard level returns a supported level that is nearest in the standard
  order, the lower one on a tie.
\<close>

lemma clampLevel_spec:
  assumes "\<not> isLevelSupported level (supportedLevels mi)"
    and "levelIndex level \<noteq> - 1"
    and "levelCandidates (supportedLevels mi) \<noteq> {}"
  shows "isLevelSupported (clampLevel level mi) (supportedLevels mi)
    \<and> levelIndex (clampLevel level mi) \<in> levelCandidates (supportedLevels mi)
    \<and> (\<forall>i \<in> levelCandidates (supportedLevels mi).
         closer (levelIndex level) (levelIndex (clampLevel level mi)) i)"
proof -
  let ?pos = "levelIndex level" and ?ss = "supportedLevels mi"
  let ?r = "nearestLevel ?pos (- 1) 7 ?ss"
  have pos: "0 \<le> ?pos" "?pos \<le> 5" using levelIndex_bounds assms(2) by blast+
  have spec: "?r = - 1 \<or> ?r \<in> levelCandidates ?ss"
      "\<forall>i \<in> levelCandidates ?ss. ?r \<noteq> - 1 \<and> closer ?pos ?r i"
    using nearestLevel_spec [OF pos, of "- 1" 7 ?ss] by auto
  then have r: "?r \<in> levelCandidates ?ss" "?r \<noteq> - 1" using assms(3) by auto
  then obtain s where s: "s \<in> set ?ss" "levelIndex (TrimSpace s) = ?r"
    by (auto simp: levelCandidates_def)
  with r have rb: "0 \<le> ?r" "?r \<le> 5" "EqualFold (TrimSpace s) (standardLevelOrder ! nat ?r)"
    using levelIndex_bounds [of "TrimSpace s"] by auto
  have ne: "?ss \<noteq> []" using s by auto
  have "clampLevel level mi = standardLevelOrder ! nat ?r"
    using assms(1,2) ne rb by (simp add: clampLevel_def Let_def standardLevelOrder_def)
  moreover have "isLevelSupported (standardLevelOrder ! nat ?r) ?ss"
    using s(1) rb(3) EqualFold_sym by (auto simp: isLevelSupported_iff)
  ultimately show ?thesis
    using r(1) spec(2) rb levelIndex_of_standard [of ?r] by simp
qed


section \<open>Facts: ValidateConfig\<close>

lemma normalizeSpecial_level:
  "tc_Mode (normalizeSpecial c) = ModeLevel \<Longrightarrow> tc_Level (normalizeSpecial c) \<noteq> LevelAuto"
  by (auto simp: normalizeSpecial_def Let_def level_defs split: if_splits)

lemma normalizeSpecial_budget:
  "tc_Mode (normalizeSpecial c) = ModeBudget \<Longrightarrow>
     normalizeSpecial c = c \<and> tc_Mode c = ModeBudget \<and> tc_Budget c \<noteq> 0"
  by (auto simp: normalizeSpecial_def Let_def split: if_splits)

lemma checkLevel_supported:
  "checkLevel c support mi allow = Inr c' \<Longrightarrow> ts_Levels support \<noteq> [] \<Longrightarrow> tc_Mode c' = ModeLevel \<Longrightarrow>
     isLevelSupported (tc_Level c') (ts_Levels support)"
  by (auto simp: checkLevel_def Let_def split: if_splits)

lemma checkLevel_mode:
  "checkLevel c support mi allow = Inr c' \<Longrightarrow> tc_Mode c' = tc_Mode c \<and> tc_Budget c' = tc_Budget c"
  by (auto simp: checkLevel_def Let_def split: if_splits)

lemma finalClamp_mode: "tc_Mode (finalClamp c support mi toFormat) = tc_Mode c"
  by (auto simp: finalClamp_def Let_def)

lemma finalClamp_level: "tc_Mode c = ModeLevel \<Longrightarrow> finalClamp c support mi toFormat = c"
  by (auto simp: finalClamp_def Let_def)

lemma finalClamp_budget:
  "tc_Mode c = ModeBudget \<Longrightarrow>
     tc_Budget (finalClamp c support mi toFormat) = clampBudget (tc_Budget c) mi"
  by (auto simp: finalClamp_def Let_def)

lemma levelIndex_medium: "levelIndex LevelMedium \<noteq> - 1"
  by (simp add: LevelMedium_def levelIndex_standard)

lemma resolveAuto_level:
  assumes "supportedLevels mi = ts_Levels support" "levelCandidates (ts_Levels support) \<noteq> {}"
    and "tc_Mode (resolveAuto c support mi) = ModeLevel"
    and "tc_Mode c = ModeLevel \<Longrightarrow> isLevelSupported (tc_Level c) (ts_Levels support)"
  shows "isLevelSupported (tc_Level (resolveAuto c support mi)) (ts_Levels support)"
proof (cases "tc_Mode c = ModeAuto \<and> \<not> ts_DynamicAllowed support")
  case False
  then have "resolveAuto c support mi = c" by (auto simp: resolveAuto_def)
  with assms(3,4) show ?thesis by simp
next
  case True
  let ?m = "convertAutoToMidRange c support"
  have "tc_Mode ?m = ModeLevel" using True assms(3) by (auto simp: resolveAuto_def Let_def split: if_splits)
  then have m: "tc_Level ?m = LevelMedium" "ts_Levels support \<noteq> []"
    by (auto simp: convertAutoToMidRange_def Let_def split: if_splits)
  show ?thesis
  proof (cases "isLevelSupported LevelMedium (ts_Levels support)")
    case True
    with m \<open>tc_Mode c = ModeAuto \<and> _\<close> show ?thesis by (auto simp: resolveAuto_def Let_def)
  next
    case False
    then have "isLevelSupported (clampLevel LevelMedium mi) (ts_Levels support)"
      using clampLevel_spec [of LevelMedium mi] assms(1,2) levelIndex_medium by simp
    with False m True \<open>tc_Mode ?m = ModeLevel\<close> show ?thesis by (auto simp: resolveAuto_def Let_def)
  qed
qed

text \<open>What a successful validation went through, stage by stage.\<close>

lemma ValidateConfig_Inr:
  assumes "ValidateConfig config (Some info) fromFormat toFormat fromSuffix = Inr c"
    and "mi_Thinking info = Some support"
  obtains c1 derived c2 allow where
    "convertForCapability config (Some info) = Inr (c1, derived)"
    "checkLevel (normalizeSpecial c1) support (Some info) allow = Inr c2"
    "checkBudget c2 support
       (\<not> fromSuffix \<and> ToLower (TrimSpace fromFormat) \<noteq> []
        \<and> isSameProviderFamily (ToLower (TrimSpace fromFormat)) (ToLower (TrimSpace toFormat))
        \<and> \<not> familyMismatch (Some info) (ToLower (TrimSpace fromFormat)) (ToLower (TrimSpace toFormat))
        \<and> \<not> derived) = Inr ()"
    "c = finalClamp (resolveAuto c2 support (Some info)) support (Some info) (ToLower (TrimSpace toFormat))"
  using assms unfolding ValidateConfig_def
  by (auto simp: Let_def split: sum.splits prod.splits option.splits)

lemma resolveAuto_budget:
  assumes "tc_Mode (resolveAuto c support mi) = ModeBudget"
  shows "(tc_Mode c = ModeBudget \<and> resolveAuto c support mi = c)
    \<or> (tc_Mode c = ModeAuto \<and> resolveAuto c support mi = convertAutoToMidRange c support)"
  using assms by (auto simp: resolveAuto_def Let_def split: if_splits)

lemma convertAutoToMidRange_range:
  assumes "tc_Mode (convertAutoToMidRange c support) = ModeBudget"
    and "ts_Min support \<le> ts_Max support" and "in_int64 (ts_Min support + ts_Max support)"
  shows "(tc_Budget (convertAutoToMidRange c support) = ts_Min support \<and> \<not> ts_ZeroAllowed support)
    \<or> (0 < tc_Budget (convertAutoToMidRange c support)
       \<and> ts_Min support \<le> tc_Budget (convertAutoToMidRange c support)
       \<and> tc_Budget (convertAutoToMidRange c support) \<le> ts_Max support)"
proof -
  let ?s = "ts_Min support + ts_Max support"
  have mid: "0 < quot ?s 2 \<Longrightarrow> ts_Min support \<le> quot ?s 2 \<and> quot ?s 2 \<le> ts_Max support"
  proof -
    assume pos: "0 < quot ?s 2"
    then have "0 \<le> ?s" by (cases "?s < 0") (auto simp: quot_def)
    then have "quot ?s 2 = ?s div 2" by (simp add: quot_nonneg)
    moreover have "ts_Min support \<le> ?s div 2" "?s div 2 \<le> ts_Max support"
      using assms(2) by linarith+
    ultimately show ?thesis by simp
  qed
  from assms(1) mid show ?thesis
    using assms(3) by (auto simp: convertAutoToMidRange_def Let_def split: if_splits)
qed

lemma clampBudget_range:
  assumes "mi_Thinking info = Some support" and "ts_Min support \<le> ts_Max support"
    and "ts_Min support \<noteq> 0 \<or> ts_Max support \<noteq> 0"
    and "v \<noteq> 0 \<or> \<not> ts_ZeroAllowed support"
  shows "clampBudget v (Some info) = - 1
    \<or> ts_Min support \<le> clampBudget v (Some info) \<and> clampBudget v (Some info) \<le> ts_Max support"
  using assms by (auto simp: clampBudget_def)

lemma clampBudget_id:
  assumes "mi_Thinking info = Some support" and "ts_Min support \<le> v" and "v \<le> ts_Max support" and "v \<noteq> 0"
  shows "clampBudget v (Some info) = v"
  using assms by (auto simp: clampBudget_def)

section \<open>Properties\<close>

text \<open>
  C14: a level that \<open>ValidateConfig\<close> lets through is one the model supports, whatever
  the formats and wherever the configuration came from, for every model whose level
  list names at least one standard level.
\<close>

theorem ValidateConfig_level_supported:
  assumes "ValidateConfig config (Some info) fromFormat toFormat fromSuffix = Inr c"
    and "mi_Thinking info = Some support"
    and "\<exists>s \<in> set (ts_Levels support). levelIndex (TrimSpace s) \<noteq> - 1"
    and "tc_Mode c = ModeLevel"
  shows "isLevelSupported (tc_Level c) (ts_Levels support)"
proof -
  from assms(1,2) obtain c1 derived c2 allow where
      c2: "checkLevel (normalizeSpecial c1) support (Some info) allow = Inr c2"
    and c: "c = finalClamp (resolveAuto c2 support (Some info)) support (Some info) (ToLower (TrimSpace toFormat))"
    by (rule ValidateConfig_Inr)
  have ne: "ts_Levels support \<noteq> []" and cand: "levelCandidates (ts_Levels support) \<noteq> {}"
    using assms(3) by (auto simp: levelCandidates_def)
  have m: "tc_Mode (resolveAuto c2 support (Some info)) = ModeLevel"
    using assms(4) c by (simp add: finalClamp_mode)
  have "isLevelSupported (tc_Level (resolveAuto c2 support (Some info))) (ts_Levels support)"
    using resolveAuto_level [OF _ cand m] checkLevel_supported [OF c2 ne] assms(2)
    by (simp add: supportedLevels_def)
  with c m show ?thesis by (simp add: finalClamp_level)
qed


text \<open>
  A budget sent in a request body of the target's own provider family is
  never changed silently: either it is rejected or it reaches the provider as it is.
\<close>

lemma ValidateConfig_strict_budget_unchanged:
  assumes "ValidateConfig config (Some info) fromFormat toFormat False = Inr c"
    and "mi_Thinking info = Some support"
    and "ToLower (TrimSpace fromFormat) \<noteq> []"
    and "isSameProviderFamily (ToLower (TrimSpace fromFormat)) (ToLower (TrimSpace toFormat))"
    and "\<not> familyMismatch (Some info) (ToLower (TrimSpace fromFormat)) (ToLower (TrimSpace toFormat))"
    and "ts_Min support > 0 \<or> ts_Max support > 0"
    and "tc_Mode config = ModeBudget" and "tc_Budget config \<noteq> 0"
  shows "tc_Mode c = ModeBudget \<and> tc_Budget c = tc_Budget config
    \<and> ts_Min support \<le> tc_Budget c \<and> tc_Budget c \<le> ts_Max support"
proof -
  have cap: "detectModelCapability (Some info) \<in> {CapabilityHybrid, CapabilityBudgetOnly}"
    using assms(2,6) by (auto simp: detectModelCapability_def Let_def)
  from assms(1,2) obtain c1 derived c2 allow where
      c1: "convertForCapability config (Some info) = Inr (c1, derived)"
    and c2: "checkLevel (normalizeSpecial c1) support (Some info) allow = Inr c2"
    and cb: "checkBudget c2 support (\<not> derived) = Inr ()"
    and c: "c = finalClamp (resolveAuto c2 support (Some info)) support (Some info) (ToLower (TrimSpace toFormat))"
    by (rule ValidateConfig_Inr) (use assms(3,4,5) in simp)
  have "c1 = config \<and> \<not> derived"
    using c1 cap assms(7) by (auto simp: convertForCapability_def)
  moreover from this have "normalizeSpecial c1 = config"
    using assms(7,8) by (simp add: normalizeSpecial_def Let_def)
  ultimately have c2': "c2 = config" "\<not> derived" using c2 assms(7) by (auto simp: checkLevel_def)
  have r: "ts_Min support \<le> tc_Budget config" "tc_Budget config \<le> ts_Max support"
    using cb c2' assms(6,7) by (auto simp: checkBudget_def split: if_splits)
  have "resolveAuto c2 support (Some info) = config"
    using c2' assms(7) by (simp add: resolveAuto_def)
  with c r clampBudget_id [OF assms(2) r assms(8)] assms(7) show ?thesis
    by (simp add: finalClamp_mode finalClamp_budget)
qed


section \<open>Example model and witnesses\<close>

definition exampleSupport :: ThinkingSupport where
  "exampleSupport =
     \<lparr>ts_Min = 1024, ts_Max = 32000, ts_ZeroAllowed = True, ts_DynamicAllowed = False,
      ts_Levels = [''low'', ''high'']\<rparr>"

definition exampleModel :: ModelInfo where
  "exampleModel = zero_ModelInfo\<lparr>mi_ID := ''m'', mi_Thinking := Some exampleSupport\<rparr>"

lemma example_clamped_level:
  "ValidateConfig \<lparr>tc_Mode = ModeLevel, tc_Budget = 0, tc_Level = ''max''\<rparr> (Some exampleModel)
     ''openai'' ''claude'' False
   = Inr \<lparr>tc_Mode = ModeLevel, tc_Budget = 0, tc_Level = ''high''\<rparr>"
  by code_simp

lemma example_auto_budget:
  "ValidateConfig \<lparr>tc_Mode = ModeAuto, tc_Budget = - 1, tc_Level = []\<rparr> (Some exampleModel)
     ''openai'' ''claude'' True
   = Inr \<lparr>tc_Mode = ModeBudget, tc_Budget = 16512, tc_Level = []\<rparr>"
  by code_simp

lemma example_strict_budget:
  "ValidateConfig \<lparr>tc_Mode = ModeBudget, tc_Budget = 2000, tc_Level = []\<rparr> (Some exampleModel)
     ''claude'' ''claude'' False
   = Inr \<lparr>tc_Mode = ModeBudget, tc_Budget = 2000, tc_Level = []\<rparr>"
  by code_simp

theorem ValidateConfig_level_supported_witness:
  "isLevelSupported ''high'' (ts_Levels exampleSupport)"
proof -
  have "mi_Thinking exampleModel = Some exampleSupport" by code_simp
  moreover have "\<exists>s \<in> set (ts_Levels exampleSupport). levelIndex (TrimSpace s) \<noteq> - 1" by code_simp
  ultimately show ?thesis
    using ValidateConfig_level_supported [OF example_clamped_level] by simp
qed


theorem ValidateConfig_strict_budget_unchanged_witness:
  "ts_Min exampleSupport \<le> 2000 \<and> 2000 \<le> ts_Max exampleSupport"
proof -
  have "mi_Thinking exampleModel = Some exampleSupport" by code_simp
  moreover have "ToLower (TrimSpace ''claude'') \<noteq> []" by code_simp
  moreover have "isSameProviderFamily (ToLower (TrimSpace ''claude'')) (ToLower (TrimSpace ''claude''))"
    by (simp add: isSameProviderFamily_def)
  moreover have "\<not> familyMismatch (Some exampleModel) (ToLower (TrimSpace ''claude'')) (ToLower (TrimSpace ''claude''))"
    by code_simp
  ultimately show ?thesis
    using ValidateConfig_strict_budget_unchanged [OF example_strict_budget, of exampleSupport]
    by (simp add: exampleSupport_def)
qed

end
