(* ===== verification/Credential_Weight.thy ===== *)
theory Credential_Weight
  imports Go_Prelude
begin

text \<open>
  Credential weights: \<^verbatim>\<open>internal/credentialweight/weight.go\<close>, and the values of
  type \<open>any\<close> that auth metadata holds. The lemmas show that every accepted weight
  lies between 0 and \<open>Max\<close>, and what is rejected.
\<close>

section \<open>Values of type any\<close>

text \<open>
  A finite float is the rational number it denotes (every \<open>float64\<close> is one); the
  source distinguishes the integer widths by a type switch, so the kind is kept.
\<close>

datatype gofloat = FNaN | FInf bool | FFin rat

datatype int_kind = K_int | K_int8 | K_int16 | K_int32 | K_int64
datatype uint_kind = K_uint | K_uint8 | K_uint16 | K_uint32 | K_uint64

datatype goval =
    VNil
  | VBool bool
  | VInt int_kind int
  | VUint uint_kind int
  | VFloat64 gofloat
  | VFloat32 gofloat
  | VNumber string
  | VString string
  | VBytes string
  | VStrMap "(string \<times> string) list"
  | VMap "(string \<times> goval) list"
  | VList "goval list"
  | VOther

section \<open>weight.go\<close>

datatype weight_error = WeightTooLarge | WeightNotInteger

definition weight_Default :: int where "weight_Default = 1"
definition weight_Max :: int where "weight_Max = 1000000"

definition Normalize :: "int \<Rightarrow> weight_error + int" where
  "Normalize weight =
     (if weight \<le> 0 then Inr 0
      else if weight > weight_Max then Inl WeightTooLarge
      else Inr weight)"

definition ParseString :: "string \<Rightarrow> weight_error + int" where
  "ParseString raw =
     (let raw = TrimSpace raw in
      if raw = [] then Inr weight_Default
      else case ParseInt64 raw of
        None \<Rightarrow> Inl WeightNotInteger
      | Some weight \<Rightarrow> Normalize weight)"

definition ParseFloat :: "gofloat \<Rightarrow> weight_error + int" where
  "ParseFloat f =
     (case f of
        FNaN \<Rightarrow> Inl WeightNotInteger
      | FInf _ \<Rightarrow> Inl WeightNotInteger
      | FFin x \<Rightarrow>
          if of_int \<lfloor>x\<rfloor> \<noteq> x then Inl WeightNotInteger
          else if x \<le> 0 then Inr 0
          else if x > of_int weight_Max then Inl WeightTooLarge
          else Inr \<lfloor>x\<rfloor>)"

text \<open>\<open>ParseUint\<close>: the unsigned cases; 8- and 16-bit values are returned unchecked.\<close>

definition ParseUint :: "uint_kind \<Rightarrow> int \<Rightarrow> weight_error + int" where
  "ParseUint k n =
     (case k of
        K_uint8 \<Rightarrow> Inr n
      | K_uint16 \<Rightarrow> Inr n
      | _ \<Rightarrow> if n > weight_Max then Inl WeightTooLarge else Inr n)"

definition ParseValue :: "goval \<Rightarrow> weight_error + int" where
  "ParseValue value =
     (case value of
        VInt _ n \<Rightarrow> Normalize n
      | VUint k n \<Rightarrow> ParseUint k n
      | VFloat64 f \<Rightarrow> ParseFloat f
      | VFloat32 f \<Rightarrow> ParseFloat f
      | VNumber s \<Rightarrow>
          (case ParseInt64 s of None \<Rightarrow> Inl WeightNotInteger | Some weight \<Rightarrow> Normalize weight)
      | VString s \<Rightarrow> ParseString s
      | _ \<Rightarrow> Inl WeightNotInteger)"

text \<open>The integers a Go value of the given kind can hold.\<close>

fun uint_in_range :: "uint_kind \<Rightarrow> int \<Rightarrow> bool" where
  "uint_in_range K_uint8 n = (0 \<le> n \<and> n < 256)"
| "uint_in_range K_uint16 n = (0 \<le> n \<and> n < 65536)"
| "uint_in_range K_uint32 n = (0 \<le> n \<and> n < 4294967296)"
| "uint_in_range _ n = (0 \<le> n \<and> n < 18446744073709551616)"

fun goval_ok :: "goval \<Rightarrow> bool" where
  "goval_ok (VUint k n) = uint_in_range k n"
| "goval_ok _ = True"

section \<open>Facts\<close>

lemma Normalize_range: "Normalize w = Inr v \<Longrightarrow> 0 \<le> v \<and> v \<le> weight_Max"
  by (auto simp: Normalize_def weight_Max_def split: if_splits)

lemma Normalize_idem: "Normalize w = Inr v \<Longrightarrow> Normalize v = Inr v"
  by (auto simp: Normalize_def split: if_splits)

lemma ParseString_range: "ParseString s = Inr v \<Longrightarrow> 0 \<le> v \<and> v \<le> weight_Max"
  by (auto simp: ParseString_def Let_def weight_Default_def weight_Max_def
      dest: Normalize_range split: if_splits option.splits)

lemma ParseFloat_range: "ParseFloat f = Inr v \<Longrightarrow> 0 \<le> v \<and> v \<le> weight_Max"
proof (cases f)
  case (FFin x)
  assume "ParseFloat f = Inr v"
  with FFin have "v = 0 \<or> (of_int \<lfloor>x\<rfloor> = x \<and> 0 < x \<and> x \<le> of_int weight_Max \<and> v = \<lfloor>x\<rfloor>)"
    by (auto simp: ParseFloat_def split: if_splits)
  then show ?thesis
  proof
    assume "of_int \<lfloor>x\<rfloor> = x \<and> 0 < x \<and> x \<le> of_int weight_Max \<and> v = \<lfloor>x\<rfloor>"
    then show ?thesis by (metis floor_mono floor_of_int floor_zero less_imp_le)
  qed (simp add: weight_Max_def)
qed (simp_all add: ParseFloat_def)

lemma ParseUint_range: "ParseUint k n = Inr v \<Longrightarrow> uint_in_range k n \<Longrightarrow> 0 \<le> v \<and> v \<le> weight_Max"
  by (cases k) (auto simp: ParseUint_def weight_Max_def split: if_splits)

lemma ParseValue_range: "ParseValue x = Inr v \<Longrightarrow> goval_ok x \<Longrightarrow> 0 \<le> v \<and> v \<le> weight_Max"
  by (cases x) (auto simp: ParseValue_def dest: Normalize_range ParseString_range ParseFloat_range
      ParseUint_range split: option.splits)

end
