(* ===== verification/Auth_Types.thy ===== *)
theory Auth_Types
  imports Credential_Weight Thinking_Suffix
begin

text \<open>
  The credential record and its classification: \<^verbatim>\<open>sdk/cliproxy/auth/types.go\<close>,
  \<^verbatim>\<open>errors.go\<close>, \<^verbatim>\<open>status.go\<close>, \<^verbatim>\<open>classification.go\<close>, the provider key of
  \<^verbatim>\<open>conductor_execution.go\<close>, and the sliding window of recent requests.

  A nil map reads like an empty one, so a map field is an association list. The opaque
  fields \<open>Storage\<close> and \<open>Runtime\<close>, which no modelled operation reads, are left out.
  Parsing a token or a timestamp string goes through base64, JSON and \<open>time.Parse\<close>; the
  model takes the two parsers as the argument \<open>token_env\<close>.
\<close>

section \<open>errors.go and status.go\<close>

record Error =
  e_Code :: string
  e_Message :: string
  e_Retryable :: bool
  e_HTTPStatus :: int

definition ErrorCodeRequestScoped :: string where "ErrorCodeRequestScoped = ''request_scoped''"
definition ErrorCodeConnectionLifecycle :: string where
  "ErrorCodeConnectionLifecycle = ''connection_lifecycle''"
definition ErrorCodeForceCooldown :: string where "ErrorCodeForceCooldown = ''force_cooldown''"

definition Error_Error :: "Error option \<Rightarrow> string" where
  "Error_Error e =
     (case e of
        None \<Rightarrow> []
      | Some e \<Rightarrow> if e_Code e = [] then e_Message e else e_Code e @ '': '' @ e_Message e)"

definition Error_StatusCode :: "Error option \<Rightarrow> int" where
  "Error_StatusCode e = (case e of None \<Rightarrow> 0 | Some e \<Rightarrow> e_HTTPStatus e)"

definition IsRequestScoped :: "Error option \<Rightarrow> bool" where
  "IsRequestScoped e = (case e of None \<Rightarrow> False | Some e \<Rightarrow> e_Code e = ErrorCodeRequestScoped)"

definition MarkRequestScoped :: "Error option \<Rightarrow> Error option" where
  "MarkRequestScoped e = map_option (\<lambda>e. e\<lparr>e_Code := ErrorCodeRequestScoped\<rparr>) e"

definition NewRequestScopedError :: "string \<Rightarrow> int \<Rightarrow> Error" where
  "NewRequestScopedError message httpStatus =
     \<lparr>e_Code = ErrorCodeRequestScoped, e_Message = message, e_Retryable = False,
      e_HTTPStatus = httpStatus\<rparr>"

type_synonym Status = string

definition StatusUnknown :: Status where "StatusUnknown = ''unknown''"
definition StatusActive :: Status where "StatusActive = ''active''"
definition StatusPending :: Status where "StatusPending = ''pending''"
definition StatusRefreshing :: Status where "StatusRefreshing = ''refreshing''"
definition StatusError :: Status where "StatusError = ''error''"
definition StatusDisabled :: Status where "StatusDisabled = ''disabled''"

lemmas status_defs = StatusUnknown_def StatusActive_def StatusPending_def StatusRefreshing_def
  StatusError_def StatusDisabled_def

section \<open>types.go\<close>

record QuotaState =
  q_Exceeded :: bool
  q_Reason :: string
  q_NextRecoverAt :: time
  q_BackoffLevel :: int
  q_ObservedAt :: time
  q_Signals :: "(string, string) gomap"

definition zero_QuotaState :: QuotaState where
  "zero_QuotaState =
     \<lparr>q_Exceeded = False, q_Reason = [], q_NextRecoverAt = 0, q_BackoffLevel = 0,
      q_ObservedAt = 0, q_Signals = []\<rparr>"

record ModelState =
  ms_Status :: Status
  ms_StatusMessage :: string
  ms_Unavailable :: bool
  ms_NextRetryAfter :: time
  ms_NonUnauthorizedRetryAfter :: time
  ms_LastError :: "Error option"
  ms_Quota :: QuotaState
  ms_UpdatedAt :: time

definition zero_ModelState :: ModelState where
  "zero_ModelState =
     \<lparr>ms_Status = [], ms_StatusMessage = [], ms_Unavailable = False, ms_NextRetryAfter = 0,
      ms_NonUnauthorizedRetryAfter = 0, ms_LastError = None, ms_Quota = zero_QuotaState,
      ms_UpdatedAt = 0\<rparr>"

record recentRequestBucket =
  rb_bucketID :: int
  rb_success :: int
  rb_failed :: int

type_synonym recentRequestRing = "recentRequestBucket list"

record Auth =
  a_ID :: string
  a_RegistrationEpoch :: uint64
  a_CredentialVersion :: uint64
  a_Generation :: uint64
  a_Index :: string
  a_Provider :: string
  a_Prefix :: string
  a_FileName :: string
  a_Label :: string
  a_Status :: Status
  a_StatusMessage :: string
  a_Disabled :: bool
  a_Unavailable :: bool
  a_ProxyURL :: string
  a_Attributes :: "(string, string) gomap"
  a_Metadata :: "(string, goval) gomap"
  a_Quota :: QuotaState
  a_LastError :: "Error option"
  a_CreatedAt :: time
  a_UpdatedAt :: time
  a_LastRefreshedAt :: time
  a_NextRefreshAfter :: time
  a_NextRetryAfter :: time
  a_NonUnauthorizedRetryAfter :: time
  a_ModelStates :: "(string, ModelState option) gomap"
  a_Success :: int
  a_Failed :: int
  a_availabilityEpoch :: uint64
  a_recentRequests :: recentRequestRing
  a_indexAssigned :: bool

definition recentRequestBucketSeconds :: int where "recentRequestBucketSeconds = 600"
definition recentRequestBucketCount :: int where "recentRequestBucketCount = 20"

definition zero_recentRequestRing :: recentRequestRing where
  "zero_recentRequestRing = replicate 20 \<lparr>rb_bucketID = 0, rb_success = 0, rb_failed = 0\<rparr>"

definition zero_Auth :: Auth where
  "zero_Auth =
     \<lparr>a_ID = [], a_RegistrationEpoch = 0, a_CredentialVersion = 0, a_Generation = 0,
      a_Index = [], a_Provider = [], a_Prefix = [], a_FileName = [], a_Label = [],
      a_Status = [], a_StatusMessage = [], a_Disabled = False, a_Unavailable = False,
      a_ProxyURL = [], a_Attributes = [], a_Metadata = [], a_Quota = zero_QuotaState,
      a_LastError = None, a_CreatedAt = 0, a_UpdatedAt = 0, a_LastRefreshedAt = 0,
      a_NextRefreshAfter = 0, a_NextRetryAfter = 0, a_NonUnauthorizedRetryAfter = 0,
      a_ModelStates = [], a_Success = 0, a_Failed = 0, a_availabilityEpoch = 0,
      a_recentRequests = zero_recentRequestRing, a_indexAssigned = False\<rparr>"

subsection \<open>Plugin-virtual auths and typed metadata\<close>

definition IsPluginVirtualAuth :: "Auth \<Rightarrow> bool" where
  "IsPluginVirtualAuth a \<longleftrightarrow>
     a_Attributes a \<noteq> [] \<and> EqualFold (TrimSpace (get_str (a_Attributes a) ''plugin_virtual'')) ''true''"

definition parseBoolAny :: "goval \<Rightarrow> bool option" where
  "parseBoolAny val =
     (case val of
        VBool b \<Rightarrow> Some b
      | VString s \<Rightarrow> let trimmed = TrimSpace s in if trimmed = [] then None else ParseBool trimmed
      | VFloat64 f \<Rightarrow> Some (f \<noteq> FFin 0)
      | VNumber s \<Rightarrow> (case ParseInt64 s of None \<Rightarrow> None | Some n \<Rightarrow> Some (n \<noteq> 0))
      | _ \<Rightarrow> None)"

fun firstBool :: "(string, goval) gomap \<Rightarrow> string list \<Rightarrow> bool option" where
  "firstBool m [] = None"
| "firstBool m (key # ks) =
     (case map_of m key of
        None \<Rightarrow> firstBool m ks
      | Some val \<Rightarrow> (case parseBoolAny val of Some b \<Rightarrow> Some b | None \<Rightarrow> firstBool m ks))"

definition DisableCoolingOverride :: "Auth \<Rightarrow> bool option" where
  "DisableCoolingOverride a = firstBool (a_Metadata a) [''disable_cooling'', ''disable-cooling'']"

definition ToolPrefixDisabled :: "Auth \<Rightarrow> bool" where
  "ToolPrefixDisabled a =
     (case firstBool (a_Metadata a) [''tool_prefix_disabled'', ''tool-prefix-disabled''] of
        Some b \<Rightarrow> b | None \<Rightarrow> False)"

section \<open>classification.go\<close>

definition AuthKindAPIKey :: string where "AuthKindAPIKey = ''apikey''"
definition AuthKindOAuth :: string where "AuthKindOAuth = ''oauth''"

definition normalizeAuthKind :: "string \<Rightarrow> string" where
  "normalizeAuthKind kind =
     (let k = ToLower (TrimSpace kind) in
      if k \<in> set [AuthKindAPIKey, ''api_key'', ''api-key''] then AuthKindAPIKey
      else if k \<in> set [AuthKindOAuth, ''oauth2''] then AuthKindOAuth
      else [])"

definition authAttribute :: "Auth \<Rightarrow> string \<Rightarrow> string" where
  "authAttribute auth key = TrimSpace (get_str (a_Attributes auth) key)"

definition authMetadataString :: "Auth \<Rightarrow> string \<Rightarrow> string" where
  "authMetadataString auth key =
     (case map_of (a_Metadata auth) key of Some (VString s) \<Rightarrow> TrimSpace s | _ \<Rightarrow> [])"

definition authHasOAuthMetadata :: "Auth \<Rightarrow> bool" where
  "authHasOAuthMetadata auth \<longleftrightarrow>
     list_ex (\<lambda>key. authMetadataString auth key \<noteq> [])
       [''access_token'', ''refresh_token'', ''id_token'', ''email'', ''token_type'', ''expires_at'', ''expired'']
     \<or> (case map_of (a_Metadata auth) ''token'' of Some (VMap m) \<Rightarrow> m \<noteq> [] | _ \<Rightarrow> False)"

definition AuthKind :: "Auth \<Rightarrow> string" where
  "AuthKind a =
     (let k1 = normalizeAuthKind (authAttribute a ''auth_kind'') in
      if k1 \<noteq> [] then k1
      else let k2 = normalizeAuthKind (authMetadataString a ''auth_kind'') in
        if k2 \<noteq> [] then k2
        else if authAttribute a ''api_key'' \<noteq> [] then AuthKindAPIKey
        else if authHasOAuthMetadata a then AuthKindOAuth
        else [])"

definition normalizeAuthSourceKind :: "string \<Rightarrow> string" where
  "normalizeAuthSourceKind source =
     (let s = ToLower (TrimSpace source) in
      if s = ''config'' then ''config''
      else if s \<in> set [''file'', ''filesystem''] then ''file''
      else if s = ''git'' then ''git''
      else if s \<in> set [''memory'', ''runtime'', ''runtime_only''] then ''memory''
      else if s \<in> set [''objectstore'', ''object-store''] then ''objectstore''
      else if s \<in> set [''postgres'', ''postgresql'', ''database'', ''db''] then ''postgres''
      else [])"

definition AuthSourceKind :: "Auth \<Rightarrow> string" where
  "AuthSourceKind a =
     (if EqualFold (authAttribute a ''runtime_only'') ''true'' then ''memory''
      else let backend = normalizeAuthSourceKind (authAttribute a ''source_backend'') in
        if backend \<noteq> [] then backend
        else let source = authAttribute a ''source'' in
          if source \<noteq> [] then
            (if HasPrefix (ToLower source) ''config:'' then ''config''
             else let normalized = normalizeAuthSourceKind source in
               if normalized \<noteq> [] then normalized else ''file'')
          else if authAttribute a ''path'' \<noteq> [] then ''file''
          else if TrimSpace (a_FileName a) \<noteq> [] then ''file''
          else [])"

section \<open>Provider keys\<close>

definition OpenAICompatibleProviderKey :: "string \<Rightarrow> string" where
  "OpenAICompatibleProviderKey name =
     (let name = ToLower (TrimSpace name) in
      if name = [] \<or> name = ''openai-compatibility'' \<or> HasPrefix name ''openai-compatible-''
      then (if name = [] then ''openai-compatibility'' else name)
      else ''openai-compatible-'' @ name)"

definition executorKeyFromAuth :: "Auth \<Rightarrow> string" where
  "executorKeyFromAuth auth =
     (let providerKey = TrimSpace (get_str (a_Attributes auth) ''provider_key'');
          compatName = TrimSpace (get_str (a_Attributes auth) ''compat_name'')
      in if compatName \<noteq> [] then
           OpenAICompatibleProviderKey (if providerKey = [] then compatName else providerKey)
         else if EqualFold (TrimSpace (a_Provider auth)) ''openai-compatibility'' then
           (let label = TrimSpace (a_Label auth) in
            OpenAICompatibleProviderKey (if label = [] then ''openai-compatibility'' else label))
         else ToLower (TrimSpace (a_Provider auth)))"

section \<open>Token expiry\<close>

text \<open>
  \<open>te_parse\<close> stands for \<open>time.Parse\<close> of a layout, \<open>te_float\<close> for the \<open>strconv.ParseFloat\<close>
  behind \<open>json.Number.Float64\<close>, and \<open>te_claim\<close> for the base64 and JSON decoding that reads
  the \<open>exp\<close> claim from the payload segment of a token.
\<close>

record token_env =
  te_parse :: "string \<Rightarrow> string \<Rightarrow> time option"
  te_float :: "string \<Rightarrow> gofloat option"
  te_claim :: "string \<Rightarrow> goval option"

text \<open>Seconds from the zero time (year 1) to the Unix epoch.\<close>

definition unixToInternal :: int where "unixToInternal = 62135596800"

definition time_Unix :: "int \<Rightarrow> time" where "time_Unix sec = (sec + unixToInternal) * Second"
definition time_UnixMilli :: "int \<Rightarrow> time" where
  "time_UnixMilli ms = unixToInternal * Second + ms * 1000000"
definition Unix :: "time \<Rightarrow> int" where "Unix t = t div Second - unixToInternal"

text \<open>The conversion \<open>int64(f)\<close>; out of range it yields the smallest integer, as on amd64.\<close>

definition int64_of_float :: "gofloat \<Rightarrow> int" where
  "int64_of_float f =
     (case f of
        FFin x \<Rightarrow> (let n = (if 0 \<le> x then \<lfloor>x\<rfloor> else \<lceil>x\<rceil>) in if in_int64 n then n else MinInt64)
      | _ \<Rightarrow> MinInt64)"

definition normaliseUnix :: "int \<Rightarrow> time" where
  "normaliseUnix raw =
     (if raw \<le> 0 then 0
      else if raw > 1000000000000 then time_UnixMilli raw
      else time_Unix raw)"

definition timeLayouts :: "string list" where
  "timeLayouts =
     [''2006-01-02T15:04:05Z07:00'', ''2006-01-02T15:04:05.999999999Z07:00'',
      ''2006-01-02 15:04:05'', ''2006-01-02 15:04'', ''2006-01-02T15:04:05Z07:00'']"

fun firstParse :: "token_env \<Rightarrow> string \<Rightarrow> string list \<Rightarrow> time option" where
  "firstParse env s [] = None"
| "firstParse env s (layout # ls) =
     (case te_parse env layout s of Some ts \<Rightarrow> Some ts | None \<Rightarrow> firstParse env s ls)"

definition parseTimeValue :: "token_env \<Rightarrow> goval \<Rightarrow> time option" where
  "parseTimeValue env v =
     (case v of
        VString value \<Rightarrow>
          (let s = TrimSpace value in
           if s = [] then None
           else case firstParse env s timeLayouts of
             Some ts \<Rightarrow> Some ts
           | None \<Rightarrow> map_option normaliseUnix (ParseInt64 s))
      | VFloat64 f \<Rightarrow> Some (normaliseUnix (int64_of_float f))
      | VInt K_int64 n \<Rightarrow> Some (normaliseUnix n)
      | VNumber s \<Rightarrow>
          (case ParseInt64 s of
             Some i \<Rightarrow> Some (normaliseUnix i)
           | None \<Rightarrow> map_option (\<lambda>f. normaliseUnix (int64_of_float f)) (te_float env s))
      | _ \<Rightarrow> None)"

fun Split :: "char \<Rightarrow> string \<Rightarrow> string list" where
  "Split sep [] = [[]]"
| "Split sep (c # cs) =
     (if c = sep then [] # Split sep cs
      else case Split sep cs of [] \<Rightarrow> [[c]] | p # ps \<Rightarrow> (c # p) # ps)"

definition parseJWTExp :: "token_env \<Rightarrow> string \<Rightarrow> time option" where
  "parseJWTExp env token =
     (let token = TrimSpace token in
      if token = [] then None
      else case Split (CHR ''.'') token of
        [_, payloadSegment, _] \<Rightarrow>
          (case te_claim env payloadSegment of
             Some (VFloat64 f) \<Rightarrow>
               (case f of
                  FFin x \<Rightarrow> if x > 0 then Some (normaliseUnix (int64_of_float f)) else None
                | FInf neg \<Rightarrow> if neg then None else Some (normaliseUnix (int64_of_float f))
                | FNaN \<Rightarrow> None)
           | Some (VInt k n) \<Rightarrow>
               if k \<in> set [K_int64, K_int] \<and> n > 0 then Some (normaliseUnix n) else None
           | Some (VString s) \<Rightarrow>
               (case ParseInt64 (TrimSpace s) of
                  Some sec \<Rightarrow> if sec > 0 then Some (normaliseUnix sec) else None
                | None \<Rightarrow> None)
           | _ \<Rightarrow> None)
      | _ \<Rightarrow> None)"

definition authAccessToken :: "Auth \<Rightarrow> string" where
  "authAccessToken auth =
     (let token = authMetadataString auth ''access_token'' in
      if token \<noteq> [] then token else authMetadataString auth ''accessToken'')"

definition expireKeys :: "string list" where
  "expireKeys = [''expired'', ''expire'', ''expires_at'', ''expiresAt'', ''expiry'', ''expires'']"

fun firstTime :: "token_env \<Rightarrow> (string, goval) gomap \<Rightarrow> string list \<Rightarrow> time option" where
  "firstTime env m [] = None"
| "firstTime env m (key # ks) =
     (case map_of m key of
        None \<Rightarrow> firstTime env m ks
      | Some v \<Rightarrow> (case parseTimeValue env v of Some ts \<Rightarrow> Some ts | None \<Rightarrow> firstTime env m ks))"

text \<open>
  The nested objects under \<open>token\<close> and \<open>Token\<close> are searched the same way. A string map has
  no nested object, so only its own keys are searched.
\<close>

lemma goval_map_of_size: "map_of m k = Some v \<Longrightarrow> size v < size (VMap m)"
  by (induction m) (auto split: if_splits)

function expirationFromMap :: "token_env \<Rightarrow> (string, goval) gomap \<Rightarrow> time option" where
  "expirationFromMap env m =
     (case firstTime env m expireKeys of
        Some ts \<Rightarrow> Some ts
      | None \<Rightarrow>
          (let nested = (\<lambda>k.
             case map_of m k of
               Some (VMap val) \<Rightarrow> expirationFromMap env val
             | Some (VStrMap val) \<Rightarrow> firstTime env (map (\<lambda>(k, v). (k, VString v)) val) expireKeys
             | _ \<Rightarrow> None)
           in case nested ''token'' of Some ts \<Rightarrow> Some ts | None \<Rightarrow> nested ''Token''))"
  by pat_completeness auto
termination
  by (relation "measure (\<lambda>(env, m). size (VMap m))") (simp, simp only: in_measure prod.case, drule goval_map_of_size, assumption)

declare expirationFromMap.simps [simp del]

definition ExpirationTime :: "token_env \<Rightarrow> Auth \<Rightarrow> time option" where
  "ExpirationTime env a =
     (let tokenStr = authAccessToken a;
          jwt = (if tokenStr \<noteq> [] then parseJWTExp env tokenStr else None)
      in case jwt of Some ts \<Rightarrow> Some ts | None \<Rightarrow> expirationFromMap env (a_Metadata a))"

definition AccessTokenExpirationTime :: "token_env \<Rightarrow> Auth \<Rightarrow> time option" where
  "AccessTokenExpirationTime env a =
     (if AuthKind a = AuthKindAPIKey then None
      else let tokenStr = authAccessToken a in
        if tokenStr = [] then None
        else case parseJWTExp env tokenStr of
          Some ts \<Rightarrow> Some ts
        | None \<Rightarrow> ExpirationTime env a)"

definition HasValidAccessToken :: "token_env \<Rightarrow> Auth \<Rightarrow> time \<Rightarrow> bool" where
  "HasValidAccessToken env a now =
     (let tokenStr = authAccessToken a in
      if tokenStr = [] then False
      else case AccessTokenExpirationTime env a of
        Some ts \<Rightarrow> ts > now
      | None \<Rightarrow> True)"

text \<open>Expiry is a function of the attributes and the metadata alone.\<close>

lemma AccessTokenExpirationTime_cong:
  assumes "a_Metadata a = a_Metadata b" and "a_Attributes a = a_Attributes b"
  shows "AccessTokenExpirationTime env a = AccessTokenExpirationTime env b"
proof -
  have 1: "authMetadataString a = authMetadataString b" "authAttribute a = authAttribute b"
    by (simp_all add: authMetadataString_def authAttribute_def assms fun_eq_iff)
  have 2: "authAccessToken a = authAccessToken b" "authHasOAuthMetadata a = authHasOAuthMetadata b"
    unfolding authAccessToken_def authHasOAuthMetadata_def 1 assms by simp_all
  have 3: "AuthKind a = AuthKind b" "ExpirationTime env a = ExpirationTime env b"
    unfolding AuthKind_def ExpirationTime_def 1 2 assms by simp_all
  show ?thesis unfolding AccessTokenExpirationTime_def 2 3 by (rule refl)
qed

end
