(* ===== verification/Recent_Requests.thy ===== *)
theory Recent_Requests
  imports Auth_Types
begin

text \<open>
  The sliding window of recent requests of a credential
  (\<^verbatim>\<open>sdk/cliproxy/auth/types.go\<close>, \<open>recordRecentRequest\<close> and
  \<open>RecentRequestsSnapshot\<close>): a ring of twenty ten-minute buckets that is cleared lazily,
  when a slot is reused for a later bucket. The theory shows that a snapshot reports
  exactly the requests of its window. The text label of a bucket depends on the local
  time zone and is the argument \<open>label\<close>. The counters are unbounded: an \<open>int64\<close> cannot be
  filled by counting requests.
\<close>

section \<open>Model\<close>

definition recentRequestBucketID :: "time \<Rightarrow> int" where
  "recentRequestBucketID now =
     (if IsZero now then 0 else quot (Unix now) recentRequestBucketSeconds)"

text \<open>Go's remainder has the sign of the dividend; the source adds the modulus back.\<close>

definition recentRequestBucketIndex :: "int \<Rightarrow> nat" where
  "recentRequestBucketIndex bucketID =
     (let r = bucketID - recentRequestBucketCount * quot bucketID recentRequestBucketCount;
          m = (if r < 0 then r + recentRequestBucketCount else r)
      in nat m)"

definition recordRecentRequest :: "time \<Rightarrow> bool \<Rightarrow> Auth \<Rightarrow> Auth" where
  "recordRecentRequest now success a =
     (let bucketID = recentRequestBucketID now;
          idx = recentRequestBucketIndex bucketID;
          b0 = a_recentRequests a ! idx;
          b = (if rb_bucketID b0 \<noteq> bucketID
               then b0\<lparr>rb_bucketID := bucketID, rb_success := 0, rb_failed := 0\<rparr> else b0);
          b' = (if success then b\<lparr>rb_success := rb_success b + 1\<rparr>
                else b\<lparr>rb_failed := rb_failed b + 1\<rparr>)
      in a\<lparr>a_recentRequests := (a_recentRequests a)[idx := b']\<rparr>)"

record RecentRequestBucket =
  rr_Time :: string
  rr_Success :: int
  rr_Failed :: int

definition RecentRequestsSnapshot ::
  "(int \<Rightarrow> string) \<Rightarrow> time \<Rightarrow> Auth \<Rightarrow> RecentRequestBucket list" where
  "RecentRequestsSnapshot label now a =
     (let currentBucketID = recentRequestBucketID now
      in map (\<lambda>i.
           let bucketID = currentBucketID - i;
               bucket = a_recentRequests a ! recentRequestBucketIndex bucketID
           in if rb_bucketID bucket = bucketID
              then \<lparr>rr_Time = label bucketID, rr_Success = rb_success bucket,
                    rr_Failed = rb_failed bucket\<rparr>
              else \<lparr>rr_Time = label bucketID, rr_Success = 0, rr_Failed = 0\<rparr>)
         (rev [0..recentRequestBucketCount - 1]))"

section \<open>Facts\<close>

lemma recentRequestBucketIndex_mod: "recentRequestBucketIndex b = nat (b mod 20)"
proof (cases "0 \<le> b")
  case True
  then show ?thesis
    by (simp add: recentRequestBucketIndex_def recentRequestBucketCount_def quot_nonneg
        minus_mult_div_eq_mod Let_def)
next
  case False
  define n where "n = - b"
  have n: "0 < n" "b = - n" using False by (simp_all add: n_def)
  have q: "quot b 20 = - (n div 20)" using n by (simp add: quot_def)
  have "b - 20 * quot b 20 = - (n mod 20)"
    unfolding q using n(2) by (simp add: minus_mult_div_eq_mod [symmetric])
  moreover have "b mod 20 = (if n mod 20 = 0 then 0 else 20 - n mod 20)"
    using n(2) by (simp add: zmod_zminus1_eq_if)
  moreover have "n mod 20 = 0 \<or> 0 < n mod 20" using pos_mod_sign [of 20 n] by linarith
  ultimately show ?thesis
    by (auto simp: recentRequestBucketIndex_def recentRequestBucketCount_def Let_def)
qed

lemma recentRequestBucketIndex_less: "recentRequestBucketIndex b < 20"
  by (simp add: recentRequestBucketIndex_mod nat_less_iff)

lemma recentRequestBucketIndex_eq:
  "recentRequestBucketIndex a = recentRequestBucketIndex b \<longleftrightarrow> a mod 20 = b mod 20"
  by (simp add: recentRequestBucketIndex_mod nat_eq_iff)

text \<open>What the ring reports for one bucket.\<close>

definition ring_read :: "recentRequestRing \<Rightarrow> int \<Rightarrow> int \<times> int" where
  "ring_read ring bid =
     (let b = ring ! recentRequestBucketIndex bid
      in if rb_bucketID b = bid then (rb_success b, rb_failed b) else (0, 0))"

lemma RecentRequestsSnapshot_read:
  "RecentRequestsSnapshot label now a =
     map (\<lambda>i. let bid = recentRequestBucketID now - i; (s, f) = ring_read (a_recentRequests a) bid in
            \<lparr>rr_Time = label bid, rr_Success = s, rr_Failed = f\<rparr>) (rev [0..19])"
  by (simp add: RecentRequestsSnapshot_def recentRequestBucketCount_def ring_read_def Let_def)

definition recordAll :: "(time \<times> bool) list \<Rightarrow> Auth \<Rightarrow> Auth" where
  "recordAll evs a = fold (\<lambda>(t, ok). recordRecentRequest t ok) evs a"

definition countIn :: "(time \<times> bool) list \<Rightarrow> bool \<Rightarrow> int \<Rightarrow> int" where
  "countIn evs ok bid =
     int (length (filter (\<lambda>(t, k). k = ok \<and> recentRequestBucketID t = bid) evs))"

lemma length_recordRecentRequest [simp]:
  "length (a_recentRequests (recordRecentRequest t ok a)) = length (a_recentRequests a)"
  by (simp add: recordRecentRequest_def Let_def)

lemma ring_read_record:
  assumes "length (a_recentRequests a) = 20"
  shows "ring_read (a_recentRequests (recordRecentRequest t ok a)) bid =
    (let (s, f) = ring_read (a_recentRequests a) bid; b = recentRequestBucketID t
     in if recentRequestBucketIndex bid \<noteq> recentRequestBucketIndex b then (s, f)
        else if bid \<noteq> b then (0, 0)
        else if ok then (s + 1, f) else (s, f + 1))"
  using assms recentRequestBucketIndex_less
  by (auto simp: recordRecentRequest_def ring_read_def Let_def)

lemma countIn_snoc:
  "countIn (evs @ [(t, k)]) ok bid =
     countIn evs ok bid + (if k = ok \<and> recentRequestBucketID t = bid then 1 else 0)"
  by (simp add: countIn_def)

text \<open>
  The ring holds the exact counts of a bucket as long as no later bucket of the same slot
  has been written.
\<close>

lemma ring_read_recordAll:
  assumes "a_recentRequests a = zero_recentRequestRing"
    and "sorted (map (recentRequestBucketID \<circ> fst) evs)"
    and "\<forall>(t, ok) \<in> set evs. recentRequestBucketID t mod 20 = bid mod 20 \<longrightarrow> recentRequestBucketID t \<le> bid"
  shows "length (a_recentRequests (recordAll evs a)) = 20
    \<and> ring_read (a_recentRequests (recordAll evs a)) bid = (countIn evs True bid, countIn evs False bid)"
  using assms(2,3)
proof (induction evs rule: rev_induct)
  case Nil
  have "recentRequestBucketIndex bid < 20" by (rule recentRequestBucketIndex_less)
  with assms(1) show ?case
    by (simp add: recordAll_def ring_read_def zero_recentRequestRing_def countIn_def Let_def)
next
  case (snoc e evs)
  obtain t k where e: "e = (t, k)" by (cases e)
  let ?b = "recentRequestBucketID t"
  have IH: "length (a_recentRequests (recordAll evs a)) = 20"
    "ring_read (a_recentRequests (recordAll evs a)) bid = (countIn evs True bid, countIn evs False bid)"
    using snoc by (auto simp: sorted_append)
  have rec: "recordAll (evs @ [(t, k)]) a = recordRecentRequest t k (recordAll evs a)"
    by (simp add: recordAll_def)
  have zero: "countIn evs ok bid = 0" if "?b mod 20 = bid mod 20" "?b \<noteq> bid" for ok
  proof -
    have "?b < bid" using snoc.prems(2) that e by auto
    moreover have "\<forall>(t', k') \<in> set evs. recentRequestBucketID t' \<le> ?b"
      using snoc.prems(1) e by (fastforce simp: sorted_append)
    ultimately show ?thesis by (fastforce simp: countIn_def filter_empty_conv)
  qed
  show ?case
    unfolding e rec ring_read_record [OF IH(1)] countIn_snoc
    using IH zero by (auto simp: recentRequestBucketIndex_eq Let_def)
qed

text \<open>
  C40: for requests recorded in time order on a fresh credential, a snapshot taken no
  earlier than the last of them lists the twenty buckets ending with the current one,
  oldest first, each with the exact number of successes and failures recorded in it.
\<close>

theorem RecentRequestsSnapshot_exact:
  assumes "a_recentRequests a = zero_recentRequestRing"
    and "sorted (map (recentRequestBucketID \<circ> fst) (evs @ [(now, ok)]))"
  shows "RecentRequestsSnapshot label now (recordAll evs a) =
    map (\<lambda>i. let bid = recentRequestBucketID now - i in
          \<lparr>rr_Time = label bid, rr_Success = countIn evs True bid, rr_Failed = countIn evs False bid\<rparr>)
      (rev [0..19])"
proof -
  have srt: "sorted (map (recentRequestBucketID \<circ> fst) evs)"
    and le: "\<forall>(t, k) \<in> set evs. recentRequestBucketID t \<le> recentRequestBucketID now"
    using assms(2) by (auto simp: sorted_append)
  have "ring_read (a_recentRequests (recordAll evs a)) (recentRequestBucketID now - i)
      = (countIn evs True (recentRequestBucketID now - i), countIn evs False (recentRequestBucketID now - i))"
    if i: "0 \<le> i" "i \<le> 19" for i
  proof -
    have "recentRequestBucketID t \<le> recentRequestBucketID now - i"
      if "(t, k) \<in> set evs" "recentRequestBucketID t mod 20 = (recentRequestBucketID now - i) mod 20" for t k
    proof -
      have "20 dvd recentRequestBucketID t - (recentRequestBucketID now - i)"
        using that(2) by (simp add: mod_eq_dvd_iff)
      moreover have "recentRequestBucketID t - (recentRequestBucketID now - i) < 20"
        using le that(1) i by fastforce
      ultimately show ?thesis using zdvd_imp_le by force
    qed
    then show ?thesis using ring_read_recordAll [OF assms(1) srt] by blast
  qed
  then show ?thesis
    by (simp add: RecentRequestsSnapshot_read Let_def)
qed

theorem RecentRequestsSnapshot_exact_witness:
  "let t0 = time_Unix 1200; t1 = time_Unix 14000 in
     map rr_Failed (RecentRequestsSnapshot (\<lambda>_. []) t1 (recordAll [(t0, True), (t1, False), (t1, False)] zero_Auth))
       = replicate 19 0 @ [2]"
proof -
  have fresh: "a_recentRequests zero_Auth = zero_recentRequestRing" by (simp add: zero_Auth_def)
  have srt: "sorted (map (recentRequestBucketID \<circ> fst)
      ([(time_Unix 1200, True), (time_Unix 14000, False), (time_Unix 14000, False)] @ [(time_Unix 14000, True)]))"
    by code_simp
  show ?thesis
    unfolding Let_def RecentRequestsSnapshot_exact [OF fresh srt] by code_simp
qed

end
