(* ===== verification/Error_Class.thy ===== *)
theory Error_Class
  imports Auth_Types
begin

text \<open>
  Classification of failures: \<^verbatim>\<open>internal/clienterror/client_error.go\<close> and the
  classifiers of result errors in \<^verbatim>\<open>sdk/cliproxy/auth/conductor_cooldown.go\<close> and
  \<^verbatim>\<open>credential_recovery.go\<close>.

  The classifiers look at an \<open>error\<close> through its text and, when the value has one, its
  \<open>StatusCode()\<close>: the record \<open>err_view\<close>. JSON bodies are read through gjson; \<open>json_env\<close>
  holds the two functions that are used of it (\<open>json.Valid\<close> and the string at a path).
\<close>

section \<open>client\_error.go\<close>

record json_env =
  js_valid :: "string \<Rightarrow> bool"
  js_get :: "string \<Rightarrow> string \<Rightarrow> string"

record err_view =
  ev_text :: string
  ev_status :: "int option"

definition requestFaultCodes :: "string list" where
  "requestFaultCodes =
     [''cyber_policy'', ''context_length_exceeded'', ''message_too_big'', ''string_above_max_length'',
      ''invalid_prompt'', ''invalid_value'', ''unsupported_value'', ''invalid_request_error'',
      ''previous_response_not_found'']"

definition requestFaultTypes :: "string list" where
  "requestFaultTypes = [''invalid_request'', ''invalid_request_error'', ''bad_request_error'', ''invalid_prompt'']"

definition errTypePaths :: "string list" where
  "errTypePaths = [''error.type'', ''type'', ''response.error.type'', ''body.error.type'']"

definition errCodePaths :: "string list" where
  "errCodePaths = [''error.code'', ''code'', ''response.error.code'', ''body.error.code'']"

definition IsItemNotPersisted :: "string \<Rightarrow> bool" where
  "IsItemNotPersisted message =
     (let lower = ToLower message in
      Contains lower ''item with id'' \<and> Contains lower ''not found''
      \<and> Contains lower (''items are not persisted when '' @ [CHR 0x60] @ ''store'' @ [CHR 0x60] @ '' is set to false''))"

definition hasAuthenticationErrorBody :: "json_env \<Rightarrow> err_view option \<Rightarrow> bool" where
  "hasAuthenticationErrorBody js err =
     (case err of
        None \<Rightarrow> False
      | Some e \<Rightarrow>
          let body = TrimSpace (ev_text e) in
          if body = [] \<or> \<not> js_valid js body then False
          else list_ex (\<lambda>path. ToLower (TrimSpace (js_get js body path)) = ''authentication_error'') errTypePaths)"

definition hasRequestFaultBody :: "json_env \<Rightarrow> err_view option \<Rightarrow> bool" where
  "hasRequestFaultBody js err =
     (case err of
        None \<Rightarrow> False
      | Some e \<Rightarrow>
          let body = TrimSpace (ev_text e) in
          if body = [] \<or> \<not> js_valid js body then False
          else
            list_ex (\<lambda>path. ToLower (TrimSpace (js_get js body path)) \<in> set requestFaultCodes) errCodePaths
            \<or> list_ex (\<lambda>path. ToLower (TrimSpace (js_get js body path)) \<in> set requestFaultTypes) errTypePaths)"

text \<open>The errors modelled here carry no separate response body, so \<open>ErrorResponseBody\<close> is the text.\<close>

definition IsClaudeThreadNotFound :: "json_env \<Rightarrow> int \<Rightarrow> err_view option \<Rightarrow> bool" where
  "IsClaudeThreadNotFound js status err =
     (case err of
        None \<Rightarrow> False
      | Some e \<Rightarrow>
          if status \<noteq> 404 then False
          else
            let body = ev_text e in
            if \<not> js_valid js body \<or> \<not> EqualFold (TrimSpace (js_get js body ''error.type'')) ''not_found_error''
            then False
            else
              let message = ToLower (js_get js body ''error.message'') in
              js_get js body ''error.details.error_code'' = ''thread_not_found''
              \<or> (Contains message ''thread state'' \<and> Contains message ''previous_message_id''))"

definition IsRequestFault :: "json_env \<Rightarrow> int \<Rightarrow> err_view option \<Rightarrow> bool" where
  "IsRequestFault js status0 err =
     (let status = (if status0 \<le> 0 then
                      (case err of
                         Some e \<Rightarrow> (case ev_status e of Some s \<Rightarrow> s | None \<Rightarrow> status0)
                       | None \<Rightarrow> status0)
                    else status0)
      in if status = 402 \<or> status = 429 then False
         else if status = 401 \<and> hasAuthenticationErrorBody js err then False
         else if IsClaudeThreadNotFound js status err then True
         else if hasRequestFaultBody js err then True
         else if (case err of Some e \<Rightarrow> IsItemNotPersisted (ev_text e) | None \<Rightarrow> False) then True
         else status \<in> set [400, 409, 413, 422])"

section \<open>Result errors\<close>

text \<open>An \<open>*Error\<close> seen as an \<open>error\<close>.\<close>

definition errorView :: "Error \<Rightarrow> err_view" where
  "errorView e = \<lparr>ev_text = Error_Error (Some e), ev_status = Some (e_HTTPStatus e)\<rparr>"

definition statusCodeFromResult :: "Error option \<Rightarrow> int" where
  "statusCodeFromResult err = Error_StatusCode err"

definition isModelSupportErrorMessage :: "string \<Rightarrow> bool" where
  "isModelSupportErrorMessage message =
     (let lower = ToLower (TrimSpace message) in
      if lower = [] then False
      else list_ex (Contains lower)
        [''model_not_supported'', ''requested model is not supported'', ''requested model is unsupported'',
         ''requested model is unavailable'', ''model is not supported'', ''model not supported'',
         ''unsupported model'', ''model unavailable'', ''not available for your plan'',
         ''not available for your account''])"

definition isModelSupportError :: "Error option \<Rightarrow> bool" where
  "isModelSupportError err =
     (case err of
        None \<Rightarrow> False
      | Some e \<Rightarrow> e_HTTPStatus e \<in> set [400, 422] \<and> isModelSupportErrorMessage (Error_Error (Some e)))"

definition isModelSupportResultError :: "Error option \<Rightarrow> bool" where
  "isModelSupportResultError err =
     (case err of
        None \<Rightarrow> False
      | Some e \<Rightarrow> e_HTTPStatus e \<in> set [400, 422] \<and> isModelSupportErrorMessage (e_Message e))"

definition isInvalidGrantErrorMessage :: "string \<Rightarrow> bool" where
  "isInvalidGrantErrorMessage message = Contains (ToLower message) ''invalid_grant''"

definition isInvalidGrantError :: "Error option \<Rightarrow> bool" where
  "isInvalidGrantError err =
     (case err of
        None \<Rightarrow> False
      | Some e \<Rightarrow> e_HTTPStatus e \<in> set [400, 401] \<and> isInvalidGrantErrorMessage (Error_Error (Some e)))"

definition isInvalidGrantResultError :: "Error option \<Rightarrow> bool" where
  "isInvalidGrantResultError err =
     (case err of
        None \<Rightarrow> False
      | Some e \<Rightarrow> e_HTTPStatus e \<in> set [400, 401]
          \<and> (isInvalidGrantErrorMessage (e_Code e) \<or> isInvalidGrantErrorMessage (e_Message e)))"

definition isCloudflareChallengeErrorMessage :: "string \<Rightarrow> bool" where
  "isCloudflareChallengeErrorMessage message =
     (let lower = ToLower (TrimSpace message) in
      Contains lower ''challenge-platform'' \<or> Contains lower ''cf-mitigated''
      \<or> Contains lower ''cloudflare challenge''
      \<or> (Contains lower ''just a moment'' \<and> Contains lower ''cloudflare''))"

definition isCloudflareChallengeError :: "Error option \<Rightarrow> bool" where
  "isCloudflareChallengeError err =
     (case err of
        None \<Rightarrow> False
      | Some e \<Rightarrow> \<not> e_HTTPStatus e \<ge> 500 \<and> isCloudflareChallengeErrorMessage (Error_Error (Some e)))"

definition isCloudflareChallengeResultError :: "Error option \<Rightarrow> bool" where
  "isCloudflareChallengeResultError err =
     (case err of
        None \<Rightarrow> False
      | Some e \<Rightarrow> \<not> e_HTTPStatus e \<ge> 500 \<and> isCloudflareChallengeErrorMessage (e_Message e))"

definition isConnectionLifecycleMessage :: "string \<Rightarrow> bool" where
  "isConnectionLifecycleMessage message =
     (let lower = ToLower (TrimSpace message) in
      if lower = [] then False
      else if lower \<in> set [''context canceled'', ''context deadline exceeded'', ''eof'', ''unexpected eof''] then True
      else if Contains lower ''websocket: close 1000'' \<or> Contains lower ''websocket: close 1001''
        \<or> Contains lower ''websocket: close 1006'' then True
      else Contains lower ''unexpected eof'')"

definition isConnectionLifecycleResultError :: "Error option \<Rightarrow> bool" where
  "isConnectionLifecycleResultError err =
     (case err of
        None \<Rightarrow> False
      | Some e \<Rightarrow>
          if e_Code e = ErrorCodeConnectionLifecycle then True
          else if statusCodeFromResult err \<noteq> 0 then False
          else isConnectionLifecycleMessage (e_Message e))"

text \<open>\<open>isRequestInvalidError\<close> on an \<open>*Error\<close>, the only dynamic type a result error has.\<close>

definition isRequestInvalidError :: "json_env \<Rightarrow> Error option \<Rightarrow> bool" where
  "isRequestInvalidError js err =
     (case err of
        None \<Rightarrow> False
      | Some e \<Rightarrow>
          if IsRequestScoped err then True
          else if isCloudflareChallengeError err then False
          else if isInvalidGrantError err then False
          else if isModelSupportError err then False
          else if IsRequestFault js (e_HTTPStatus e) (Some (errorView e)) then True
          else e_Message e \<noteq> []
            \<and> IsRequestFault js (e_HTTPStatus e) (Some \<lparr>ev_text = e_Message e, ev_status = None\<rparr>))"

definition isRequestScopedNotFoundResultError :: "Error option \<Rightarrow> bool" where
  "isRequestScopedNotFoundResultError err =
     (case err of
        None \<Rightarrow> False
      | Some e \<Rightarrow> statusCodeFromResult err = 404 \<and> IsItemNotPersisted (e_Message e))"

definition isRequestScopedResultError :: "json_env \<Rightarrow> Error option \<Rightarrow> bool" where
  "isRequestScopedResultError js err =
     (if err = None then False
      else if IsRequestScoped err \<or> isRequestScopedNotFoundResultError err then True
      else isRequestInvalidError js err)"

definition shouldSkipCredentialCooldown :: "json_env \<Rightarrow> Error option \<Rightarrow> bool" where
  "shouldSkipCredentialCooldown js err =
     (if (case err of Some e \<Rightarrow> e_Code e = ErrorCodeForceCooldown | None \<Rightarrow> False) then False
      else isRequestScopedResultError js err \<or> isConnectionLifecycleResultError err)"

definition isUnauthorizedError :: "Error \<Rightarrow> bool" where
  "isUnauthorizedError e =
     (if e_HTTPStatus e = 401 then True
      else let raw = ToLower (Error_Error (Some e)) in
        Contains raw ''status 401'' \<or> Contains raw ''401 unauthorized'')"

definition isUnauthorizedState :: "Error option \<Rightarrow> string \<Rightarrow> bool" where
  "isUnauthorizedState lastError message =
     (case lastError of
        Some e \<Rightarrow>
          if e_HTTPStatus e \<noteq> 0 then e_HTTPStatus e = 401
          else EqualFold (e_Code e) ''unauthorized'' \<or> isUnauthorizedError e
      | None \<Rightarrow> EqualFold (TrimSpace message) ''unauthorized'')"

section \<open>Facts\<close>

text \<open>Payment and rate-limit statuses are never blamed on the request.\<close>

lemma IsRequestFault_quota_status: "status \<in> {402, 429} \<Longrightarrow> \<not> IsRequestFault js status err"
  by (auto simp: IsRequestFault_def)

text \<open>
  C18: a rate-limit or payment failure of a credential, whatever its body says, is never
  excused as a fault of the request: unless the proxy itself labelled the error
  request-scoped or as a lifecycle event, it is allowed to cool the credential.
\<close>

theorem ratelimit_never_skipped:
  assumes "e_HTTPStatus e \<in> {402, 429}" and "e_Code e \<noteq> ErrorCodeRequestScoped"
    and "e_Code e \<noteq> ErrorCodeConnectionLifecycle"
  shows "\<not> shouldSkipCredentialCooldown js (Some e)"
proof -
  have "\<not> isRequestInvalidError js (Some e)"
    using assms IsRequestFault_quota_status [OF assms(1)] by (simp add: isRequestInvalidError_def IsRequestScoped_def)
  moreover have "\<not> isConnectionLifecycleResultError (Some e)"
    using assms by (auto simp: isConnectionLifecycleResultError_def statusCodeFromResult_def Error_StatusCode_def)
  ultimately show ?thesis
    using assms by (auto simp: shouldSkipCredentialCooldown_def isRequestScopedResultError_def IsRequestScoped_def
        isRequestScopedNotFoundResultError_def statusCodeFromResult_def Error_StatusCode_def)
qed

definition exampleJson :: json_env where
  "exampleJson = \<lparr>js_valid = (\<lambda>_. True), js_get = (\<lambda>_ _. ''invalid_request_error'')\<rparr>"

definition exampleError :: "int \<Rightarrow> string \<Rightarrow> Error" where
  "exampleError status message = \<lparr>e_Code = [], e_Message = message, e_Retryable = False, e_HTTPStatus = status\<rparr>"

theorem ratelimit_never_skipped_witness:
  "\<not> shouldSkipCredentialCooldown exampleJson (Some (exampleError 429 ''slow down''))"
  using ratelimit_never_skipped [of "exampleError 429 ''slow down''" exampleJson]
  by (simp add: exampleError_def ErrorCodeRequestScoped_def ErrorCodeConnectionLifecycle_def)

end
