(* ===== verification/Access_Isolation.thy ===== *)
theory Access_Isolation
  imports Auth_Types
begin

text \<open>
  Account-pool isolation and per-request eligibility: \<^verbatim>\<open>sdk/cliproxy/auth/access_isolation.go\<close>,
  \<^verbatim>\<open>account_identity.go\<close>, \<^verbatim>\<open>credential_policy.go\<close>, \<open>authSelectionEligibility\<close> of
  \<^verbatim>\<open>conductor_selection.go\<close> and the request metadata readers of
  \<^verbatim>\<open>conductor_execution.go\<close>.

  The hex digest of SHA-256 is the argument \<open>sha\<close>. A nil scope and an absent context value
  are \<open>None\<close>. The audit log entries are not modelled.
\<close>

section \<open>account\_identity.go\<close>

definition rawMetadataString :: "Auth \<Rightarrow> string \<Rightarrow> string" where
  "rawMetadataString a key = (case map_of (a_Metadata a) key of Some (VString s) \<Rightarrow> s | _ \<Rightarrow> [])"

abbreviation nul :: string where "nul \<equiv> [CHR 0x00]"

definition AccountSubject :: "(string \<Rightarrow> string) \<Rightarrow> Auth \<Rightarrow> string" where
  "AccountSubject sha a =
     (if IsPluginVirtualAuth a \<or> (a_Provider a \<noteq> ''codex'' \<and> a_Provider a \<noteq> ''claude'') then []
      else if get_str (a_Attributes a) ''plugin_id'' \<noteq> [] \<or> get_str (a_Attributes a) ''compat_name'' \<noteq> [] then []
      else
        let key = TrimSpace (get_str (a_Attributes a) ''api_key'');
            subject =
              (if key \<noteq> [] then ''api-key'' @ nul @ key
               else if a_Provider a = ''codex'' then
                 (let id = rawMetadataString a ''account_id'' in
                  if TrimSpace id \<noteq> [] then ''oauth'' @ nul @ id else [])
               else
                 (let id = rawMetadataString a ''account_uuid'';
                      org = rawMetadataString a ''organization_uuid''
                  in if TrimSpace id \<noteq> [] \<and> TrimSpace org \<noteq> [] then ''oauth'' @ nul @ org @ nul @ id else []))
        in if subject = [] then []
           else a_Provider a @ '':'' @ sha (a_Provider a @ nul @ subject))"

definition AccountIdentity :: "(string \<Rightarrow> string) \<Rightarrow> Auth \<Rightarrow> string" where
  "AccountIdentity sha a =
     (let subject = AccountSubject sha a in
      if subject = [] then []
      else
        let attr = get_str (a_Attributes a) ''pool_account_id'';
            instance_id = (if attr = [] then rawMetadataString a ''pool_account_id'' else attr)
        in if instance_id = [] then subject
           else a_Provider a @ '':'' @ sha (instance_id @ nul @ subject))"

section \<open>access\_isolation.go\<close>

text \<open>The parts of the access policy that the requests read (\<open>clientAccessPolicy\<close>).\<close>

record AccountPool =
  ap_ID :: string
  ap_Name :: string
  ap_Provider :: string
  ap_Accounts :: "string list"

record ClientKeyBinding =
  kb_Key :: string
  kb_Name :: string
  kb_Note :: string
  kb_Pool :: string

record clientAccessPolicy =
  cp_Enabled :: bool
  cp_Pools :: "AccountPool list"
  cp_KeyBindings :: "ClientKeyBinding list"
  cp_Keys :: "string list"
  cp_Home :: bool
  cp_Revision :: string

record AccessScope =
  sp_enabled :: bool
  sp_denied :: bool
  sp_provider :: string
  sp_pool :: string
  sp_members :: "string list"
  sp_caller :: string
  sp_revision :: string
  sp_operation :: uint64

record clientIdentity =
  ci_key :: string
  ci_provider :: string

definition scope_Enabled :: "AccessScope option \<Rightarrow> bool" where
  "scope_Enabled s = (case s of None \<Rightarrow> False | Some s \<Rightarrow> sp_enabled s)"

definition LocalSessionKey :: "AccessScope option \<Rightarrow> string \<Rightarrow> string" where
  "LocalSessionKey s sessionID =
     (case s of
        None \<Rightarrow> sessionID
      | Some sc \<Rightarrow>
          if \<not> sp_enabled sc \<or> sp_caller sc = [] \<or> sessionID = [] then sessionID
          else sp_caller sc @ '':'' @ sessionID)"

definition scope_Allows :: "(string \<Rightarrow> string) \<Rightarrow> AccessScope option \<Rightarrow> Auth \<Rightarrow> bool" where
  "scope_Allows sha s a =
     (case s of
        None \<Rightarrow> True
      | Some sc \<Rightarrow> \<not> sp_enabled sc
          \<or> (\<not> sp_denied sc \<and> a_Provider a = sp_provider sc \<and> AccountIdentity sha a \<in> set (sp_members sc)))"

definition accessDenied :: "string \<Rightarrow> Error" where
  "accessDenied message =
     \<lparr>e_Code = ''access_denied'', e_Message = message, e_Retryable = False, e_HTTPStatus = 403\<rparr>"

definition scope_Error :: "AccessScope option \<Rightarrow> Error option" where
  "scope_Error s =
     (case s of
        None \<Rightarrow> None
      | Some sc \<Rightarrow> if sp_denied sc then Some (accessDenied ''Client key is not authorized for an account pool'') else None)"

text \<open>The two nested loops over the key bindings and the pools.\<close>

definition grantPool :: "ClientKeyBinding \<Rightarrow> AccountPool \<Rightarrow> AccessScope \<Rightarrow> AccessScope" where
  "grantPool binding pool scope =
     (if ap_ID pool \<noteq> kb_Pool binding \<or> (ap_Provider pool \<noteq> ''codex'' \<and> ap_Provider pool \<noteq> ''claude'') then scope
      else scope\<lparr>sp_provider := ap_Provider pool, sp_pool := ap_ID pool, sp_denied := False,
                 sp_members := ap_Accounts pool\<rparr>)"

definition grantBinding :: "string \<Rightarrow> AccountPool list \<Rightarrow> ClientKeyBinding \<Rightarrow> AccessScope \<Rightarrow> AccessScope" where
  "grantBinding key pools binding scope =
     (if kb_Key binding \<noteq> key \<or> kb_Pool binding = [] then scope
      else fold (grantPool binding) pools scope)"

definition currentGrant :: "clientAccessPolicy option \<Rightarrow> clientIdentity \<Rightarrow> AccessScope \<Rightarrow> AccessScope" where
  "currentGrant policy identity scope =
     (case policy of
        None \<Rightarrow> scope
      | Some p \<Rightarrow>
          let s1 = scope\<lparr>sp_revision := cp_Revision p\<rparr>
          in if \<not> cp_Enabled p then s1
             else
               let s2 = s1\<lparr>sp_enabled := True, sp_denied := True\<rparr>
               in if \<not> cp_Home p \<and> ci_provider identity = ''config-inline'' \<and> ci_key identity \<in> set (cp_Keys p)
                  then fold (grantBinding (ci_key identity) (cp_Pools p)) (cp_KeyBindings p) s2
                  else s2)"

definition applyCeiling :: "AccessScope option \<Rightarrow> AccessScope \<Rightarrow> AccessScope" where
  "applyCeiling cap scope =
     (case cap of
        None \<Rightarrow> scope
      | Some c \<Rightarrow>
          if \<not> (sp_enabled c \<or> sp_enabled scope) then scope
          else if \<not> sp_enabled c \<or> \<not> sp_enabled scope \<or> sp_pool scope \<noteq> sp_pool c \<or> sp_denied c
          then scope\<lparr>sp_enabled := True, sp_denied := True\<rparr>
          else scope\<lparr>sp_members := filter (\<lambda>id. id \<in> set (sp_members c)) (sp_members scope)\<rparr>)"

definition NewAccessRequest ::
  "(string \<Rightarrow> string) \<Rightarrow> clientAccessPolicy option \<Rightarrow> clientIdentity \<Rightarrow> AccessScope option \<Rightarrow> uint64 \<Rightarrow> AccessScope" where
  "NewAccessRequest sha policy identity cap operation =
     (let scope0 = \<lparr>sp_enabled = False, sp_denied = False, sp_provider = [], sp_pool = [], sp_members = [],
                    sp_caller = (if ci_key identity \<noteq> [] then sha (ci_provider identity @ nul @ ci_key identity) else []),
                    sp_revision = [], sp_operation = operation\<rparr>
      in applyCeiling cap (currentGrant policy identity scope0))"

definition AuthorizeRequest ::
  "(string \<Rightarrow> string) \<Rightarrow> clientAccessPolicy option \<Rightarrow> clientIdentity \<Rightarrow> AccessScope option \<Rightarrow> uint64
    \<Rightarrow> AccessScope option \<Rightarrow> AccessScope \<times> Error option" where
  "AuthorizeRequest sha policy identity cap operation existing =
     (let scope = (case existing of Some s \<Rightarrow> s | None \<Rightarrow> NewAccessRequest sha policy identity cap operation)
      in (scope, scope_Error (Some scope)))"

definition CheckCurrentAccount ::
  "(string \<Rightarrow> string) \<Rightarrow> AccessScope \<Rightarrow> (string, Auth) gomap \<Rightarrow> Auth option \<Rightarrow> Error option" where
  "CheckCurrentAccount sha scope auths selected =
     (case scope_Error (Some scope) of
        Some e \<Rightarrow> Some e
      | None \<Rightarrow>
          if \<not> sp_enabled scope then None
          else
            (case selected of
               None \<Rightarrow> Some (accessDenied ''Session account is unavailable'')
             | Some a \<Rightarrow>
                 (case map_of auths (a_ID a) of
                    None \<Rightarrow> Some (accessDenied ''Session account is no longer authorized'')
                  | Some current \<Rightarrow>
                      if a_Disabled current \<or> AccountIdentity sha current \<noteq> AccountIdentity sha a
                         \<or> \<not> scope_Allows sha (Some scope) current
                      then Some (accessDenied ''Session account is no longer authorized'')
                      else None)))"

section \<open>Eligibility of a credential for a request\<close>

definition CredentialPolicyCodexAlphaSearchV1 :: string where
  "CredentialPolicyCodexAlphaSearchV1 = ''codex_alpha_search_v1''"

definition normalizeCredentialPolicy :: "string \<Rightarrow> string" where
  "normalizeCredentialPolicy policy =
     (if ToLower (TrimSpace policy) = CredentialPolicyCodexAlphaSearchV1
      then CredentialPolicyCodexAlphaSearchV1 else [])"

definition credentialPolicyAllows :: "string \<Rightarrow> Auth \<Rightarrow> bool" where
  "credentialPolicyAllows policy auth =
     (if policy = CredentialPolicyCodexAlphaSearchV1 then
        (if \<not> EqualFold (TrimSpace (a_Provider auth)) ''codex'' then False
         else if AuthKind auth = AuthKindOAuth then True
         else if AuthKind auth = AuthKindAPIKey then EqualFold (authAttribute auth ''codex_alpha_search'') ''true''
         else False)
      else False)"

definition isFreeCodexAuth :: "Auth \<Rightarrow> bool" where
  "isFreeCodexAuth auth =
     (if \<not> EqualFold (TrimSpace (a_Provider auth)) ''codex'' then False
      else EqualFold (TrimSpace (get_str (a_Attributes auth) ''plan_type'')) ''free'')"

definition pinnedAuthIDFromMetadata :: "(string, goval) gomap \<Rightarrow> string" where
  "pinnedAuthIDFromMetadata meta =
     (case map_of meta ''pinned_auth_id'' of
        Some (VString val) \<Rightarrow> TrimSpace val
      | Some (VBytes val) \<Rightarrow> TrimSpace val
      | _ \<Rightarrow> [])"

definition disallowFreeAuthFromMetadata :: "(string, goval) gomap \<Rightarrow> bool" where
  "disallowFreeAuthFromMetadata meta =
     (case map_of meta ''disallow_free_auth'' of
        Some (VBool val) \<Rightarrow> val
      | Some (VString val) \<Rightarrow> ParseBool (TrimSpace val) = Some True
      | Some (VBytes val) \<Rightarrow> ParseBool (TrimSpace val) = Some True
      | _ \<Rightarrow> False)"

record authSelectionEligibility =
  el_scope :: "AccessScope option"
  el_requiredKind :: string
  el_credentialPolicy :: string
  el_disallowFreeAuth :: bool

text \<open>The context values are given as arguments.\<close>

definition authSelectionEligibilityForRequest ::
  "AccessScope option \<Rightarrow> string \<Rightarrow> string \<Rightarrow> (string, goval) gomap \<Rightarrow> authSelectionEligibility" where
  "authSelectionEligibilityForRequest scope requiredKind policy meta =
     \<lparr>el_scope = scope, el_requiredKind = requiredKind, el_credentialPolicy = policy,
      el_disallowFreeAuth = disallowFreeAuthFromMetadata meta\<rparr>"

definition eligibility_allows :: "(string \<Rightarrow> string) \<Rightarrow> authSelectionEligibility \<Rightarrow> Auth \<Rightarrow> bool" where
  "eligibility_allows sha e auth =
     (if \<not> scope_Allows sha (el_scope e) auth then False
      else if el_requiredKind e \<noteq> [] \<and> AuthKind auth \<noteq> el_requiredKind e then False
      else if el_credentialPolicy e \<noteq> [] \<and> \<not> credentialPolicyAllows (el_credentialPolicy e) auth then False
      else \<not> el_disallowFreeAuth e \<or> \<not> isFreeCodexAuth auth)"

section \<open>What a grant contains\<close>

definition granted :: "clientAccessPolicy \<Rightarrow> string \<Rightarrow> AccessScope \<Rightarrow> bool" where
  "granted p key scope \<longleftrightarrow> sp_denied scope \<or>
     (\<exists>binding \<in> set (cp_KeyBindings p). \<exists>pool \<in> set (cp_Pools p).
        kb_Key binding = key \<and> kb_Pool binding \<noteq> [] \<and> kb_Pool binding = ap_ID pool
        \<and> sp_pool scope = ap_ID pool \<and> sp_provider scope = ap_Provider pool \<and> sp_members scope = ap_Accounts pool)"

lemma grantPool_granted:
  assumes "granted p key s" and "binding \<in> set (cp_KeyBindings p)" and "kb_Key binding = key"
    and "kb_Pool binding \<noteq> []" and "pool \<in> set (cp_Pools p)"
  shows "granted p key (grantPool binding pool s)"
proof (cases "grantPool binding pool s = s")
  case True
  with assms(1) show ?thesis by simp
next
  case False
  then have "ap_ID pool = kb_Pool binding" and "grantPool binding pool s = s\<lparr>sp_provider := ap_Provider pool,
      sp_pool := ap_ID pool, sp_denied := False, sp_members := ap_Accounts pool\<rparr>"
    by (auto simp: grantPool_def split: if_splits)
  with assms(2-5) show ?thesis
    unfolding granted_def by (intro disjI2 bexI [of _ binding] bexI [of _ pool]) simp_all
qed

lemma grantPool_enabled [simp]: "sp_enabled (grantPool binding pool s) = sp_enabled s"
  by (simp add: grantPool_def)

lemma fold_grantPool_enabled [simp]: "sp_enabled (fold (grantPool binding) pools s) = sp_enabled s"
  by (induction pools arbitrary: s) simp_all

lemma fold_grantPool:
  assumes "granted p key s" and "binding \<in> set (cp_KeyBindings p)" and "kb_Key binding = key"
    and "kb_Pool binding \<noteq> []" and "set pools \<subseteq> set (cp_Pools p)"
  shows "granted p key (fold (grantPool binding) pools s)"
  using assms(1,5)
proof (induction pools arbitrary: s)
  case (Cons pool pools)
  then show ?case using grantPool_granted [OF Cons.prems(1) assms(2,3,4)] by simp
qed simp

lemma fold_grantBinding:
  assumes "granted p key s" and "set bindings \<subseteq> set (cp_KeyBindings p)"
  shows "granted p key (fold (grantBinding key (cp_Pools p)) bindings s)
    \<and> sp_enabled (fold (grantBinding key (cp_Pools p)) bindings s) = sp_enabled s"
  using assms
proof (induction bindings arbitrary: s)
  case (Cons b bs)
  have "granted p key (grantBinding key (cp_Pools p) b s)"
    using Cons.prems by (auto simp: grantBinding_def intro: fold_grantPool)
  moreover have "sp_enabled (grantBinding key (cp_Pools p) b s) = sp_enabled s"
    by (simp add: grantBinding_def)
  ultimately show ?case using Cons.IH Cons.prems(2) by simp
qed simp

lemma currentGrant_granted:
  assumes "policy = Some p" and "cp_Enabled p"
  shows "sp_enabled (currentGrant policy identity s) \<and> granted p (ci_key identity) (currentGrant policy identity s)
    \<and> (\<not> sp_denied (currentGrant policy identity s) \<longrightarrow>
        \<not> cp_Home p \<and> ci_provider identity = ''config-inline'' \<and> ci_key identity \<in> set (cp_Keys p))"
  using assms fold_grantBinding [of p "ci_key identity"
      "s\<lparr>sp_revision := cp_Revision p, sp_enabled := True, sp_denied := True\<rparr>" "cp_KeyBindings p"]
  by (auto simp: currentGrant_def Let_def granted_def [of _ _ "_ \<lparr>sp_denied := True\<rparr>"])

lemma applyCeiling_allows:
  assumes "scope_Allows sha (Some (applyCeiling cap s)) a" and "sp_enabled s"
  shows "scope_Allows sha (Some s) a \<and> sp_enabled (applyCeiling cap s)
    \<and> (case cap of
         None \<Rightarrow> True
       | Some c \<Rightarrow> sp_enabled c \<and> \<not> sp_denied c \<and> sp_pool s = sp_pool c \<and> AccountIdentity sha a \<in> set (sp_members c))"
  using assms by (auto simp: applyCeiling_def scope_Allows_def split: option.splits if_splits)

text \<open>
  C10: with isolation enabled, a request may use a credential only if the client
  authenticated with a configured key that the current policy binds to a pool, the pool
  has the credential's provider and lists its account identity; and when the request runs under a
  ceiling, the ceiling is a live grant of the same pool that lists the account as well.
\<close>

theorem isolation_sound:
  assumes "policy = Some p" and "cp_Enabled p"
    and "scope_Allows sha (Some (NewAccessRequest sha policy identity cap operation)) a"
  shows "ci_provider identity = ''config-inline'' \<and> ci_key identity \<in> set (cp_Keys p) \<and> \<not> cp_Home p
    \<and> (\<exists>binding \<in> set (cp_KeyBindings p). \<exists>pool \<in> set (cp_Pools p).
         kb_Key binding = ci_key identity \<and> kb_Pool binding = ap_ID pool
         \<and> ap_Provider pool = a_Provider a \<and> AccountIdentity sha a \<in> set (ap_Accounts pool)
         \<and> (case cap of
              None \<Rightarrow> True
            | Some c \<Rightarrow> sp_enabled c \<and> \<not> sp_denied c \<and> sp_pool c = ap_ID pool
                \<and> AccountIdentity sha a \<in> set (sp_members c)))"
proof -
  obtain s0 where s0: "NewAccessRequest sha policy identity cap operation = applyCeiling cap (currentGrant policy identity s0)"
    by (simp add: NewAccessRequest_def Let_def)
  note g = currentGrant_granted [OF assms(1,2), of identity s0]
  have al: "scope_Allows sha (Some (currentGrant policy identity s0)) a"
    and c: "case cap of None \<Rightarrow> True
       | Some c \<Rightarrow> sp_enabled c \<and> \<not> sp_denied c \<and> sp_pool (currentGrant policy identity s0) = sp_pool c
           \<and> AccountIdentity sha a \<in> set (sp_members c)"
    using applyCeiling_allows [OF assms(3) [unfolded s0]] g by blast+
  then have nd: "\<not> sp_denied (currentGrant policy identity s0)"
    and mem: "a_Provider a = sp_provider (currentGrant policy identity s0)"
      "AccountIdentity sha a \<in> set (sp_members (currentGrant policy identity s0))"
    using g by (auto simp: scope_Allows_def)
  with g c show ?thesis
    unfolding granted_def by (auto split: option.splits) (metis+)
qed

definition examplePolicy :: clientAccessPolicy where
  "examplePolicy =
     \<lparr>cp_Enabled = True,
      cp_Pools = [\<lparr>ap_ID = ''p1'', ap_Name = ''team'', ap_Provider = ''codex'', ap_Accounts = [''codex:codex'' @ nul @ ''api-key'' @ nul @ ''k'']\<rparr>],
      cp_KeyBindings = [\<lparr>kb_Key = ''c1'', kb_Name = [], kb_Note = [], kb_Pool = ''p1''\<rparr>],
      cp_Keys = [''c1''], cp_Home = False, cp_Revision = ''r''\<rparr>"

definition exampleAccount :: Auth where
  "exampleAccount = zero_Auth\<lparr>a_ID := ''x'', a_Provider := ''codex'', a_Attributes := [(''api_key'', ''k'')]\<rparr>"

theorem isolation_sound_witness:
  "scope_Allows (\<lambda>x. x) (Some (NewAccessRequest (\<lambda>x. x) (Some examplePolicy) \<lparr>ci_key = ''c1'', ci_provider = ''config-inline''\<rparr> None 1)) exampleAccount
   \<and> AccountIdentity (\<lambda>x. x) exampleAccount \<in> set (ap_Accounts (hd (cp_Pools examplePolicy)))"
proof -
  have al: "scope_Allows (\<lambda>x. x) (Some (NewAccessRequest (\<lambda>x. x) (Some examplePolicy) \<lparr>ci_key = ''c1'', ci_provider = ''config-inline''\<rparr> None 1)) exampleAccount"
    by code_simp
  have "cp_Enabled examplePolicy" by (simp add: examplePolicy_def)
  from isolation_sound [OF refl this al] have
    "AccountIdentity (\<lambda>x. x) exampleAccount \<in> set (ap_Accounts (hd (cp_Pools examplePolicy)))"
    by (auto simp: examplePolicy_def)
  with al show ?thesis by blast
qed

text \<open>
  C19: isolation denies by default: a client whose key is bound to no pool gets a scope that
  allows no credential at all and reports the denial.
\<close>

theorem isolation_default_deny:
  assumes "policy = Some p" and "cp_Enabled p"
    and "\<forall>binding \<in> set (cp_KeyBindings p). kb_Key binding = ci_key identity \<longrightarrow> kb_Pool binding = []"
  shows "\<not> scope_Allows sha (Some (NewAccessRequest sha policy identity cap operation)) a
    \<and> scope_Error (Some (NewAccessRequest sha policy identity cap operation)) \<noteq> None"
proof -
  obtain s0 where s0: "NewAccessRequest sha policy identity cap operation = applyCeiling cap (currentGrant policy identity s0)"
    by (simp add: NewAccessRequest_def Let_def)
  have "sp_enabled (currentGrant policy identity s0)" and "sp_denied (currentGrant policy identity s0)"
    using currentGrant_granted [OF assms(1,2), of identity s0] assms(3) by (auto simp: granted_def)
  then show ?thesis
    unfolding s0 by (auto simp: applyCeiling_def scope_Allows_def scope_Error_def split: option.splits)
qed

theorem isolation_default_deny_witness:
  "scope_Error (Some (NewAccessRequest (\<lambda>x. x) (Some examplePolicy) \<lparr>ci_key = ''other'', ci_provider = ''config-inline''\<rparr> None 1)) \<noteq> None"
  using isolation_default_deny [OF refl, of examplePolicy "\<lparr>ci_key = ''other'', ci_provider = ''config-inline''\<rparr>" "\<lambda>x. x" None 1]
  by (simp add: examplePolicy_def)

end
