(* ===== verification/Availability.thy ===== *)
theory Availability
  imports Auth_Types
begin

text \<open>
  Whether a credential may serve a model now: \<^verbatim>\<open>sdk/cliproxy/auth/selector.go\<close>
  (\<open>isAuthBlockedForModel\<close> and its helpers, \<open>authPriority\<close>, \<open>authWeight\<close>,
  \<open>authWebsocketsEnabled\<close>), \<^verbatim>\<open>quota_cooldown.go\<close> and \<^verbatim>\<open>weight.go\<close>.

  The loop over the per-model states runs in the map's unspecified iteration order and
  returns early; the lemmas show that the order does not change whether the credential is
  blocked nor until when, and that the reported deadline is the earliest time at which
  the credential is free again.
\<close>

section \<open>Static attributes\<close>

definition AttributeWeight :: string where "AttributeWeight = ''weight''"

definition authPriority :: "Auth \<Rightarrow> int" where
  "authPriority auth =
     (let raw = TrimSpace (get_str (a_Attributes auth) ''priority'') in
      if raw = [] then 0
      else case ParseInt64 raw of None \<Rightarrow> 0 | Some parsed \<Rightarrow> parsed)"

definition authWeight :: "Auth \<Rightarrow> int" where
  "authWeight auth =
     (case map_of (a_Attributes auth) AttributeWeight of
        Some rawWeight \<Rightarrow>
          if TrimSpace rawWeight \<noteq> [] then
            (case ParseString rawWeight of Inl _ \<Rightarrow> 0 | Inr weight \<Rightarrow> weight)
          else
            (case map_of (a_Metadata auth) AttributeWeight of
               Some v \<Rightarrow> (case ParseValue v of Inl _ \<Rightarrow> 0 | Inr weight \<Rightarrow> weight)
             | None \<Rightarrow> weight_Default)
      | None \<Rightarrow>
          (case map_of (a_Metadata auth) AttributeWeight of
             Some v \<Rightarrow> (case ParseValue v of Inl _ \<Rightarrow> 0 | Inr weight \<Rightarrow> weight)
           | None \<Rightarrow> weight_Default))"

definition authWebsocketsEnabled :: "Auth \<Rightarrow> bool" where
  "authWebsocketsEnabled auth =
     (let raw = TrimSpace (get_str (a_Attributes auth) ''websockets'');
          parsed = (if raw \<noteq> [] then ParseBool raw else None)
      in case parsed of
           Some b \<Rightarrow> b
         | None \<Rightarrow>
             (case map_of (a_Metadata auth) ''websockets'' of
                Some (VBool v) \<Rightarrow> v
              | Some (VString v) \<Rightarrow> (case ParseBool (TrimSpace v) of Some b \<Rightarrow> b | None \<Rightarrow> False)
              | _ \<Rightarrow> False))"

section \<open>weight.go\<close>

datatype weight_source = AttributesWeight | MetadataWeight

definition ValidateAuthWeight :: "Auth \<Rightarrow> (weight_source \<times> weight_error) option" where
  "ValidateAuthWeight auth =
     (case map_of (a_Attributes auth) AttributeWeight of
        Some rawWeight \<Rightarrow>
          (case ParseString rawWeight of
             Inl e \<Rightarrow> Some (AttributesWeight, e)
           | Inr _ \<Rightarrow>
               (case map_of (a_Metadata auth) AttributeWeight of
                  Some v \<Rightarrow> (case ParseValue v of Inl e \<Rightarrow> Some (MetadataWeight, e) | Inr _ \<Rightarrow> None)
                | None \<Rightarrow> None))
      | None \<Rightarrow>
          (case map_of (a_Metadata auth) AttributeWeight of
             Some v \<Rightarrow> (case ParseValue v of Inl e \<Rightarrow> Some (MetadataWeight, e) | Inr _ \<Rightarrow> None)
           | None \<Rightarrow> None))"

section \<open>Availability\<close>

datatype blockReason = blockReasonNone | blockReasonCooldown | blockReasonDisabled | blockReasonOther

type_synonym block_result = "bool \<times> blockReason \<times> time"

definition timedBlockIsCooldown :: "string \<Rightarrow> Error option \<Rightarrow> bool" where
  "timedBlockIsCooldown statusMessage lastErr =
     (let message = ToLower (TrimSpace statusMessage) in
      if (case lastErr of
            None \<Rightarrow> False
          | Some e \<Rightarrow> e_Code e = ErrorCodeForceCooldown
              \<or> EqualFold (TrimSpace (e_Code e)) ''model_cooldown'')
      then True
      else if lastErr \<noteq> None \<and> Error_StatusCode lastErr \<in> set [400, 401, 402, 403, 404, 422]
      then False
      else message \<notin> set [''invalid_grant'', ''unauthorized'', ''payment_required'', ''not_found'',
                          ''model_not_supported''])"

definition availabilityBlock :: "bool \<Rightarrow> bool \<Rightarrow> time \<Rightarrow> time \<Rightarrow> time \<Rightarrow> block_result" where
  "availabilityBlock unavailable quotaExceeded nextRetryAfter nextRecoverAt now =
     (if \<not> unavailable \<and> \<not> quotaExceeded then (False, blockReasonNone, 0)
      else
        let hasRecoveryTime = (\<not> IsZero nextRetryAfter \<or> \<not> IsZero nextRecoverAt);
            next = fold (\<lambda>candidate next.
                     if candidate > now \<and> (IsZero next \<or> candidate > next) then candidate else next)
                   [nextRetryAfter, nextRecoverAt] 0
        in if \<not> IsZero next then
             (if quotaExceeded then (True, blockReasonCooldown, next) else (True, blockReasonOther, next))
           else if hasRecoveryTime then (False, blockReasonNone, 0)
           else (True, blockReasonOther, 0))"

text \<open>The reason of a timed block is upgraded to a cooldown by its status message or error.\<close>

definition upgradeReason :: "string \<Rightarrow> Error option \<Rightarrow> block_result \<Rightarrow> block_result" where
  "upgradeReason statusMessage lastErr r =
     (case r of (blocked, reason, next) \<Rightarrow>
        if blocked \<and> reason = blockReasonOther \<and> \<not> IsZero next \<and> timedBlockIsCooldown statusMessage lastErr
        then (blocked, blockReasonCooldown, next) else r)"

definition modelAvailabilityBlock :: "ModelState \<Rightarrow> time \<Rightarrow> block_result" where
  "modelAvailabilityBlock state now =
     upgradeReason (ms_StatusMessage state) (ms_LastError state)
       (availabilityBlock (ms_Unavailable state) (q_Exceeded (ms_Quota state)) (ms_NextRetryAfter state)
          (q_NextRecoverAt (ms_Quota state)) now)"

definition authAvailabilityBlock :: "Auth \<Rightarrow> time \<Rightarrow> block_result" where
  "authAvailabilityBlock auth now =
     (let quotaExceeded =
            (if a_ModelStates auth \<noteq> [] \<and> q_Reason (a_Quota auth) \<noteq> ''credential_quota'' \<and> \<not> a_Unavailable auth
             then False else q_Exceeded (a_Quota auth))
      in upgradeReason (a_StatusMessage auth) (a_LastError auth)
           (availabilityBlock (a_Unavailable auth) quotaExceeded (a_NextRetryAfter auth)
              (q_NextRecoverAt (a_Quota auth)) now))"

text \<open>The loop over \<open>auth.ModelStates\<close> with its early returns and its accumulator.\<close>

fun modelStatesBlock ::
  "string \<Rightarrow> time \<Rightarrow> (string, ModelState option) gomap \<Rightarrow> bool \<Rightarrow> block_result \<Rightarrow> block_result" where
  "modelStatesBlock modelKey now [] matched acc = (if matched then acc else (False, blockReasonNone, 0))"
| "modelStatesBlock modelKey now ((stateModel, None) # rest) matched acc =
     modelStatesBlock modelKey now rest matched acc"
| "modelStatesBlock modelKey now ((stateModel, Some state) # rest) matched acc =
     (if canonicalModelKey stateModel \<noteq> modelKey then modelStatesBlock modelKey now rest matched acc
      else if ms_Status state = StatusDisabled then (True, blockReasonDisabled, 0)
      else case (modelAvailabilityBlock state now, acc) of
        ((stateBlocked, reason, next), (blocked, blockedReason, nextRetry)) \<Rightarrow>
          if \<not> stateBlocked then modelStatesBlock modelKey now rest True acc
          else if IsZero next then (True, reason, 0)
          else if \<not> blocked \<or> next > nextRetry \<or> (next = nextRetry \<and> reason = blockReasonCooldown)
          then modelStatesBlock modelKey now rest True (True, reason, next)
          else modelStatesBlock modelKey now rest True acc)"

definition credentialQuotaActive :: "Auth \<Rightarrow> time \<Rightarrow> bool" where
  "credentialQuotaActive auth now \<longleftrightarrow>
     q_Exceeded (a_Quota auth) \<and> q_Reason (a_Quota auth) = ''credential_quota''
     \<and> q_NextRecoverAt (a_Quota auth) > now"

definition tokenExpired :: "token_env \<Rightarrow> Auth \<Rightarrow> time \<Rightarrow> bool" where
  "tokenExpired env auth now =
     (case AccessTokenExpirationTime env auth of
        Some ts \<Rightarrow> \<not> IsZero ts \<and> \<not> ts > now
      | None \<Rightarrow> False)"

definition isAuthBlockedForModel :: "token_env \<Rightarrow> Auth \<Rightarrow> string \<Rightarrow> time \<Rightarrow> block_result" where
  "isAuthBlockedForModel env auth model now =
     (if a_Disabled auth \<or> a_Status auth = StatusDisabled then (True, blockReasonDisabled, 0)
      else if tokenExpired env auth now then (True, blockReasonOther, 0)
      else if credentialQuotaActive auth now then
        (True, blockReasonCooldown, q_NextRecoverAt (a_Quota auth))
      else if model \<noteq> [] then
        (if a_ModelStates auth \<noteq> [] then
           modelStatesBlock (canonicalModelKey model) now (a_ModelStates auth) False (False, blockReasonNone, 0)
         else authAvailabilityBlock auth now)
      else authAvailabilityBlock auth now)"

section \<open>quota\_cooldown.go\<close>

definition quotaCoversCooldown :: "QuotaState \<Rightarrow> Error option \<Rightarrow> time \<Rightarrow> time \<Rightarrow> time \<Rightarrow> bool" where
  "quotaCoversCooldown quota lastErr retryAt now blockedUntil =
     (if \<not> q_Exceeded quota then False
      else
        let reason = ToLower (TrimSpace (q_Reason quota));
            known = (if reason \<in> set [''quota'', ''credential_quota''] then True
                     else if reason = [] then
                       (case lastErr of None \<Rightarrow> False | Some e \<Rightarrow> e_HTTPStatus e = 429)
                     else False);
            reset = (if IsZero (q_NextRecoverAt quota) then retryAt else q_NextRecoverAt quota)
        in known \<and> reset > now \<and> \<not> reset < blockedUntil)"

definition quotaCooldownForModel :: "Auth \<Rightarrow> string \<Rightarrow> time \<Rightarrow> time \<Rightarrow> bool" where
  "quotaCooldownForModel auth model now blockedUntil =
     (if \<not> blockedUntil > now then False
      else if q_Reason (a_Quota auth) = ''credential_quota''
        \<and> quotaCoversCooldown (a_Quota auth) (a_LastError auth) (a_NextRetryAfter auth) now blockedUntil
      then True
      else if model \<noteq> [] \<and> a_ModelStates auth \<noteq> [] then
        list_ex (\<lambda>(stateModel, st).
          case st of
            None \<Rightarrow> False
          | Some state \<Rightarrow> canonicalModelKey stateModel = canonicalModelKey model
              \<and> quotaCoversCooldown (ms_Quota state) (ms_LastError state) (ms_NextRetryAfter state) now blockedUntil)
          (a_ModelStates auth)
      else quotaCoversCooldown (a_Quota auth) (a_LastError auth) (a_NextRetryAfter auth) now blockedUntil)"

section \<open>Facts\<close>

lemma authWeight_range:
  assumes "\<forall>v \<in> snd ` set (a_Metadata auth). goval_ok v"
  shows "0 \<le> authWeight auth \<and> authWeight auth \<le> weight_Max"
proof -
  have "ParseValue v = Inr w \<Longrightarrow> 0 \<le> w \<and> w \<le> weight_Max"
    if "map_of (a_Metadata auth) AttributeWeight = Some v" for v w
    using assms map_of_SomeD [OF that] ParseValue_range by force
  moreover have "0 \<le> weight_Default" "weight_Default \<le> weight_Max" "0 \<le> weight_Max"
    by (simp_all add: weight_Default_def weight_Max_def)
  ultimately show ?thesis
    by (auto simp: authWeight_def dest: ParseString_range split: option.splits sum.splits)
qed

subsection \<open>One availability block over time\<close>

definition no_block :: block_result where "no_block = (False, blockReasonNone, 0)"

text \<open>A block result seen later: a timed block is over once its deadline has come.\<close>

definition seen_at :: "time \<Rightarrow> block_result \<Rightarrow> block_result" where
  "seen_at now' r = (case r of (b, reason, n) \<Rightarrow> if n \<noteq> 0 \<and> n \<le> now' then no_block else (b, reason, n))"

definition block_ok :: "time \<Rightarrow> block_result \<Rightarrow> bool" where
  "block_ok now r = (case r of (b, reason, n) \<Rightarrow> n \<noteq> 0 \<longrightarrow> b \<and> now < n)"

definition after :: "time \<Rightarrow> time \<Rightarrow> time" where
  "after now t = (if t > now then t else 0)"

lemma availabilityBlock_eq:
  assumes "0 \<le> now"
  shows "availabilityBlock u q r1 r2 now =
    (if \<not> u \<and> \<not> q then no_block
     else if after now r1 \<noteq> 0 \<or> after now r2 \<noteq> 0 then
       (True, if q then blockReasonCooldown else blockReasonOther, max (after now r1) (after now r2))
     else if r1 \<noteq> 0 \<or> r2 \<noteq> 0 then no_block
     else (True, blockReasonOther, 0))"
  using assms by (auto simp: availabilityBlock_def after_def no_block_def Let_def)

lemma after_later: "0 \<le> now \<Longrightarrow> now \<le> now' \<Longrightarrow> after now' t = after now' (after now t)"
  by (simp add: after_def)

lemma availabilityBlock_ok: "0 \<le> now \<Longrightarrow> block_ok now (availabilityBlock u q r1 r2 now)"
  by (auto simp: block_ok_def no_block_def availabilityBlock_eq after_def)

lemma availabilityBlock_later:
  assumes "0 \<le> now" and "now \<le> now'"
  shows "availabilityBlock u q r1 r2 now' = seen_at now' (availabilityBlock u q r1 r2 now)"
proof (cases "(u \<or> q) \<and> (r1 > now \<or> r2 > now)")
  case True
  define m where "m = max (after now r1) (after now r2)"
  have m: "availabilityBlock u q r1 r2 now = (True, if q then blockReasonCooldown else blockReasonOther, m)"
    "m \<noteq> 0" using True assms by (auto simp: availabilityBlock_eq m_def after_def)
  have "availabilityBlock u q r1 r2 now' =
      (if m \<le> now' then no_block else (True, if q then blockReasonCooldown else blockReasonOther, m))"
    using True assms by (auto simp: availabilityBlock_eq m_def after_def no_block_def max_def)
  with m show ?thesis by (simp add: seen_at_def)
next
  case False
  then show ?thesis using assms
    by (auto simp: availabilityBlock_eq seen_at_def no_block_def after_def)
qed

lemma upgradeReason_ok: "block_ok now r \<Longrightarrow> block_ok now (upgradeReason m e r)"
  by (auto simp: block_ok_def upgradeReason_def split: prod.splits if_splits)

lemma upgradeReason_seen_at: "upgradeReason m e (seen_at now' r) = seen_at now' (upgradeReason m e r)"
  by (auto simp: seen_at_def no_block_def upgradeReason_def split: prod.splits)

lemma modelAvailabilityBlock_ok: "0 \<le> now \<Longrightarrow> block_ok now (modelAvailabilityBlock st now)"
  by (simp add: modelAvailabilityBlock_def upgradeReason_ok availabilityBlock_ok)

lemma modelAvailabilityBlock_later:
  "0 \<le> now \<Longrightarrow> now \<le> now' \<Longrightarrow> modelAvailabilityBlock st now' = seen_at now' (modelAvailabilityBlock st now)"
  unfolding modelAvailabilityBlock_def
  by (subst availabilityBlock_later [of now now']) (simp_all add: upgradeReason_seen_at)

lemma authAvailabilityBlock_ok: "0 \<le> now \<Longrightarrow> block_ok now (authAvailabilityBlock auth now)"
  by (simp add: authAvailabilityBlock_def Let_def upgradeReason_ok availabilityBlock_ok)

lemma authAvailabilityBlock_later:
  "0 \<le> now \<Longrightarrow> now \<le> now' \<Longrightarrow> authAvailabilityBlock auth now' = seen_at now' (authAvailabilityBlock auth now)"
  unfolding authAvailabilityBlock_def Let_def
  by (subst availabilityBlock_later [of now now']) (simp_all add: upgradeReason_seen_at)

subsection \<open>The loop over the model states\<close>

text \<open>The states the loop looks at, and what it needs to know of each.\<close>

definition matchStates :: "string \<Rightarrow> (string, ModelState option) gomap \<Rightarrow> ModelState set" where
  "matchStates modelKey m = {st. \<exists>k. (k, Some st) \<in> set m \<and> canonicalModelKey k = modelKey}"

definition hardBlocked :: "time \<Rightarrow> ModelState \<Rightarrow> bool" where
  "hardBlocked now st \<longleftrightarrow> ms_Status st = StatusDisabled
     \<or> (fst (modelAvailabilityBlock st now) \<and> snd (snd (modelAvailabilityBlock st now)) = 0)"

definition stateDeadline :: "time \<Rightarrow> ModelState \<Rightarrow> time" where
  "stateDeadline now st = snd (snd (modelAvailabilityBlock st now))"

definition latestDeadline :: "time \<Rightarrow> time \<Rightarrow> ModelState set \<Rightarrow> time" where
  "latestDeadline now n S = Max (insert n (stateDeadline now ` S))"

lemma matchStates_simps [simp]:
  "matchStates k [] = {}"
  "matchStates k ((sm, None) # m) = matchStates k m"
  "matchStates k ((sm, Some st) # m) =
     (if canonicalModelKey sm = k then insert st (matchStates k m) else matchStates k m)"
  by (auto simp: matchStates_def)

lemma finite_matchStates [simp]: "finite (matchStates k m)"
proof (induction m)
  case (Cons a m)
  then show ?case by (cases a; cases "snd a") auto
qed simp

lemma latestDeadline_insert:
  "finite S \<Longrightarrow> latestDeadline now n (insert st S) = latestDeadline now (max n (stateDeadline now st)) S"
  by (simp add: latestDeadline_def insert_commute Max_insert max.assoc max.commute
      del: Max_insert) (cases "S = {}"; simp add: max.commute max.left_commute max.assoc)

lemma stateDeadline_ok: "0 \<le> now \<Longrightarrow> stateDeadline now st \<noteq> 0 \<Longrightarrow> now < stateDeadline now st"
  using modelAvailabilityBlock_ok [of now st] by (auto simp: block_ok_def stateDeadline_def split: prod.splits)

lemma modelStatesBlock_spec:
  assumes "0 \<le> now" and "0 \<le> n" and "\<not> matched \<Longrightarrow> n = 0"
  shows "\<exists>r'. modelStatesBlock k now m matched (n \<noteq> 0, r, n) =
    (let S = matchStates k m; hard = (\<exists>st \<in> S. hardBlocked now st); d = latestDeadline now n S
     in (hard \<or> d \<noteq> 0, r', if hard then 0 else d))"
  using assms(2,3)
proof (induction m arbitrary: matched n r)
  case Nil
  then show ?case by (simp add: latestDeadline_def)
next
  case (Cons a m)
  obtain sm so where a: "a = (sm, so)" by (cases a)
  show ?case
  proof (cases "\<exists>st. so = Some st \<and> canonicalModelKey sm = k")
    case False
    then have skip: "modelStatesBlock k now (a # m) matched (n \<noteq> 0, r, n) = modelStatesBlock k now m matched (n \<noteq> 0, r, n)"
      "matchStates k (a # m) = matchStates k m"
      using a by (cases so; simp)+
    show ?thesis unfolding skip by (rule Cons.IH [OF Cons.prems])
  next
    case True
    then obtain st where st: "so = Some st" "canonicalModelKey sm = k" by blast
    obtain b reason d where d: "modelAvailabilityBlock st now = (b, reason, d)" by (cases "modelAvailabilityBlock st now")
    have ok: "d \<noteq> 0 \<Longrightarrow> b \<and> 0 < d"
      using modelAvailabilityBlock_ok [OF assms(1), of st] d assms(1) by (auto simp: block_ok_def)
    have dd: "stateDeadline now st = d" by (simp add: stateDeadline_def d)
    show ?thesis
    proof (cases "hardBlocked now st")
      case True
      then have "\<exists>r'. modelStatesBlock k now (a # m) matched (n \<noteq> 0, r, n) = (True, r', 0)"
        using a st d by (auto simp: hardBlocked_def)
      with True a st show ?thesis by (auto simp: Let_def)
    next
      case soft: False
      define n' where "n' = max n d"
      obtain r1 where step: "modelStatesBlock k now (a # m) matched (n \<noteq> 0, r, n)
          = modelStatesBlock k now m True (n' \<noteq> 0, r1, n')"
      proof (cases b)
        case False
        with ok have "d = 0" by blast
        with False that [of r] soft a st d Cons.prems(1) show ?thesis
          by (simp add: n'_def hardBlocked_def)
      next
        case True
        with soft d have "d \<noteq> 0" by (simp add: hardBlocked_def)
        with ok have d0: "0 < d" by blast
        have eq: "modelStatesBlock k now (a # m) matched (n \<noteq> 0, r, n) =
            (if n = 0 \<or> d > n \<or> (d = n \<and> reason = blockReasonCooldown)
             then modelStatesBlock k now m True (True, reason, d)
             else modelStatesBlock k now m True (n \<noteq> 0, r, n))"
          using True soft a st d d0 by (simp add: hardBlocked_def)
        show ?thesis
        proof (cases "n = 0 \<or> d > n \<or> (d = n \<and> reason = blockReasonCooldown)")
          case True
          then have "n' = d" "n' \<noteq> 0" using d0 by (auto simp: n'_def)
          with True eq that [of reason] show ?thesis by simp
        next
          case False
          then have "n' = n" by (auto simp: n'_def)
          moreover have "modelStatesBlock k now (a # m) matched (n \<noteq> 0, r, n) =
              modelStatesBlock k now m True (n \<noteq> 0, r, n)"
            using eq by (simp only: False if_False)
          ultimately show ?thesis using that [of r] by blast
        qed
      qed
      have "0 \<le> n'" using Cons.prems(1) by (simp add: n'_def)
      from Cons.IH [of n' True r1, OF this] show ?thesis
        unfolding step using soft a st dd by (auto simp: Let_def latestDeadline_insert n'_def)
    qed
  qed
qed

definition model_result :: "Auth \<Rightarrow> string \<Rightarrow> time \<Rightarrow> block_result" where
  "model_result auth model now =
     modelStatesBlock (canonicalModelKey model) now (a_ModelStates auth) False (False, blockReasonNone, 0)"

lemma model_result_spec:
  assumes "0 \<le> now"
  defines "S \<equiv> \<lambda>auth model. matchStates (canonicalModelKey model) (a_ModelStates auth)"
  shows "fst (model_result auth model now) \<longleftrightarrow>
      (\<exists>st \<in> S auth model. hardBlocked now st \<or> stateDeadline now st \<noteq> 0)"
    and "snd (snd (model_result auth model now)) =
      (if \<exists>st \<in> S auth model. hardBlocked now st then 0 else latestDeadline now 0 (S auth model))"
proof -
  have nonneg: "0 \<le> stateDeadline now st" for st
    using stateDeadline_ok [OF assms(1), of st] assms(1) by linarith
  have fin: "finite (insert 0 (stateDeadline now ` S auth model))" by (simp add: S_def)
  have d0: "latestDeadline now 0 (S auth model) \<noteq> 0 \<longleftrightarrow> (\<exists>st \<in> S auth model. stateDeadline now st \<noteq> 0)"
  proof
    assume "latestDeadline now 0 (S auth model) \<noteq> 0"
    then show "\<exists>st \<in> S auth model. stateDeadline now st \<noteq> 0"
      unfolding latestDeadline_def using Max_in [OF fin] by auto
  next
    assume "\<exists>st \<in> S auth model. stateDeadline now st \<noteq> 0"
    then obtain st where "st \<in> S auth model" "stateDeadline now st \<noteq> 0" by blast
    moreover from this fin have "stateDeadline now st \<le> latestDeadline now 0 (S auth model)"
      unfolding latestDeadline_def by (intro Max_ge) auto
    ultimately show "latestDeadline now 0 (S auth model) \<noteq> 0" using nonneg [of st] by linarith
  qed
  obtain r' where "model_result auth model now =
      (let S = S auth model; hard = (\<exists>st \<in> S. hardBlocked now st); d = latestDeadline now 0 S
       in (hard \<or> d \<noteq> 0, r', if hard then 0 else d))"
    using modelStatesBlock_spec [of now 0 False "canonicalModelKey model" "a_ModelStates auth" blockReasonNone] assms(1)
    unfolding model_result_def S_def by auto
  then show "fst (model_result auth model now) \<longleftrightarrow>
      (\<exists>st \<in> S auth model. hardBlocked now st \<or> stateDeadline now st \<noteq> 0)"
    and "snd (snd (model_result auth model now)) =
      (if \<exists>st \<in> S auth model. hardBlocked now st then 0 else latestDeadline now 0 (S auth model))"
    using d0 by (auto simp: Let_def)
qed

lemma hardBlocked_later:
  "0 \<le> now \<Longrightarrow> now \<le> now' \<Longrightarrow> hardBlocked now' st \<longleftrightarrow> hardBlocked now st"
  unfolding hardBlocked_def
  by (subst (1 2) modelAvailabilityBlock_later [of now now'])
    (auto simp: seen_at_def no_block_def split: prod.splits)

lemma stateDeadline_later:
  "0 \<le> now \<Longrightarrow> now \<le> now' \<Longrightarrow>
     stateDeadline now' st = (if stateDeadline now st \<le> now' then 0 else stateDeadline now st)"
  unfolding stateDeadline_def
  by (subst modelAvailabilityBlock_later [of now now']) (auto simp: seen_at_def no_block_def split: prod.splits)

text \<open>A block seen through the loop is over exactly when its deadline has come.\<close>

lemma model_result_later:
  assumes "0 \<le> now" and "now \<le> now'" and "snd (snd (model_result auth model now)) = d" and "d \<noteq> 0"
  shows "fst (model_result auth model now') \<longleftrightarrow> now' < d"
proof -
  define S where "S = matchStates (canonicalModelKey model) (a_ModelStates auth)"
  have soft: "\<not> (\<exists>st \<in> S. hardBlocked now st)" and d: "d = latestDeadline now 0 S"
    using model_result_spec(2) [OF assms(1), of auth model] assms(3,4) unfolding S_def by (auto split: if_splits)
  have fin: "finite (insert 0 (stateDeadline now ` S))" by (simp add: S_def)
  have le: "\<forall>st \<in> S. stateDeadline now st \<le> d"
    unfolding d latestDeadline_def using fin by (simp add: S_def)
  have ex: "\<exists>st \<in> S. stateDeadline now st = d"
    using Max_in [OF fin] assms(4) unfolding d latestDeadline_def by auto
  have "fst (model_result auth model now') \<longleftrightarrow> (\<exists>st \<in> S. stateDeadline now' st \<noteq> 0)"
    using model_result_spec(1) [of now' auth model] soft hardBlocked_later [OF assms(1,2)] assms(1,2)
    unfolding S_def by auto
  also have "\<dots> \<longleftrightarrow> now' < d"
    unfolding stateDeadline_later [OF assms(1,2)] using le ex assms(1,2) by (auto simp: not_le)
  finally show ?thesis .
qed

text \<open>What blocks a credential beside its own flags, its token and a credential-wide quota.\<close>

definition baseBlock :: "Auth \<Rightarrow> string \<Rightarrow> time \<Rightarrow> block_result" where
  "baseBlock auth model now =
     (if model \<noteq> [] \<and> a_ModelStates auth \<noteq> [] then model_result auth model now
      else authAvailabilityBlock auth now)"

lemma model_result_open:
  assumes "0 \<le> now" and "now \<le> now'" and "snd (snd (model_result auth model now)) = 0"
  shows "fst (model_result auth model now') \<longleftrightarrow> fst (model_result auth model now)"
proof (cases "\<exists>st \<in> matchStates (canonicalModelKey model) (a_ModelStates auth). hardBlocked now st")
  case True
  then show ?thesis
    using model_result_spec(1) [of now auth model] model_result_spec(1) [of now' auth model] assms(1,2)
      hardBlocked_later [OF assms(1,2)] by auto
next
  case False
  let ?S = "matchStates (canonicalModelKey model) (a_ModelStates auth)"
  have "latestDeadline now 0 ?S = 0"
    using model_result_spec(2) [OF assms(1), of auth model] assms(3) False by simp
  then have "stateDeadline now st \<le> 0" if "st \<in> ?S" for st
    using that unfolding latestDeadline_def by (metis Max_ge finite_imageI finite_insert finite_matchStates imageI insertCI)
  then have "stateDeadline now st = 0" if "st \<in> ?S" for st
    using that stateDeadline_ok [OF assms(1), of st] assms(1) by force
  with False show ?thesis
    using model_result_spec(1) [of now auth model] model_result_spec(1) [of now' auth model] assms(1,2)
      hardBlocked_later [OF assms(1,2)] stateDeadline_later [OF assms(1,2)] by auto
qed

lemma model_result_blocked:
  assumes "0 \<le> now" and "snd (snd (model_result auth model now)) \<noteq> 0"
  shows "fst (model_result auth model now)"
proof (rule ccontr)
  let ?S = "matchStates (canonicalModelKey model) (a_ModelStates auth)"
  assume "\<not> fst (model_result auth model now)"
  with model_result_spec(1) [OF assms(1), of auth model]
  have free: "\<forall>st \<in> ?S. \<not> hardBlocked now st \<and> stateDeadline now st = 0" by auto
  then have "insert 0 (stateDeadline now ` ?S) = {0}" by auto
  then have "latestDeadline now 0 ?S = 0" unfolding latestDeadline_def by (simp only: Max_singleton)
  with free model_result_spec(2) [OF assms(1), of auth model] assms(2) show False by auto
qed

lemma baseBlock_later:
  assumes "0 \<le> now" and "now \<le> now'" and "snd (snd (baseBlock auth model now)) = d"
  shows "fst (baseBlock auth model now') \<longleftrightarrow> fst (baseBlock auth model now) \<and> (d = 0 \<or> now' < d)"
proof (cases "model \<noteq> [] \<and> a_ModelStates auth \<noteq> []")
  case True
  then show ?thesis
    using model_result_later [OF assms(1,2), of auth model d] model_result_open [OF assms(1,2), of auth model]
      model_result_blocked [OF assms(1), of auth model] assms(3)
    unfolding baseBlock_def by (cases "d = 0") simp_all
next
  case False
  then show ?thesis
    using authAvailabilityBlock_ok [OF assms(1), of auth] assms(3)
    unfolding baseBlock_def authAvailabilityBlock_later [OF assms(1,2), of auth]
    by (auto simp: seen_at_def no_block_def block_ok_def split: prod.splits)
qed

lemma isAuthBlockedForModel_free:
  "\<not> a_Disabled auth \<Longrightarrow> a_Status auth \<noteq> StatusDisabled \<Longrightarrow> \<not> tokenExpired env auth now \<Longrightarrow>
   \<not> credentialQuotaActive auth now \<Longrightarrow>
     isAuthBlockedForModel env auth model now = baseBlock auth model now"
  by (simp add: isAuthBlockedForModel_def model_result_def baseBlock_def)

lemma isAuthBlockedForModel_timed:
  assumes "isAuthBlockedForModel env auth model now = (b, r, d)" and "d \<noteq> 0"
  shows "\<not> a_Disabled auth" and "a_Status auth \<noteq> StatusDisabled" and "\<not> tokenExpired env auth now"
    and "credentialQuotaActive auth now \<Longrightarrow> d = q_NextRecoverAt (a_Quota auth)"
  using assms by (auto simp: isAuthBlockedForModel_def split: if_splits)

text \<open>A block lasts until its deadline, or for ever when it has none.\<close>

lemma tokenExpired_later: "tokenExpired env auth now \<Longrightarrow> now \<le> now' \<Longrightarrow> tokenExpired env auth now'"
  by (auto simp: tokenExpired_def split: option.splits)

lemma credentialQuotaActive_earlier:
  "credentialQuotaActive auth now' \<Longrightarrow> now \<le> now' \<Longrightarrow> credentialQuotaActive auth now"
  by (simp add: credentialQuotaActive_def)

lemma isAuthBlockedForModel_lasts:
  assumes "0 \<le> now" and "now \<le> now'" and "isAuthBlockedForModel env auth model now = (True, reason, d)"
    and "d = 0 \<or> now' < d"
  shows "fst (isAuthBlockedForModel env auth model now')"
proof (cases "a_Disabled auth \<or> a_Status auth = StatusDisabled \<or> tokenExpired env auth now'
    \<or> credentialQuotaActive auth now'")
  case True
  then show ?thesis by (auto simp: isAuthBlockedForModel_def)
next
  case False
  then have nt: "\<not> tokenExpired env auth now" using tokenExpired_later [OF _ assms(2)] by blast
  show ?thesis
  proof (cases "credentialQuotaActive auth now")
    case True
    with assms(3) nt False have "d = q_NextRecoverAt (a_Quota auth)" by (simp add: isAuthBlockedForModel_def)
    with True False assms(1,4) show ?thesis by (auto simp: credentialQuotaActive_def)
  next
    case calm: False
    with nt False assms(3) have "baseBlock auth model now = (True, reason, d)"
      using isAuthBlockedForModel_free [of auth env now model] by simp
    with baseBlock_later [OF assms(1,2), of auth model d] assms(4) have "fst (baseBlock auth model now')" by simp
    with False show ?thesis using isAuthBlockedForModel_free [of auth env now' model] by simp
  qed
qed

lemma isAuthBlockedForModel_stays_free:
  assumes "0 \<le> now" and "now \<le> now'" and "\<not> fst (isAuthBlockedForModel env auth model now)"
  shows "fst (isAuthBlockedForModel env auth model now') \<longleftrightarrow> tokenExpired env auth now'"
proof -
  have flags: "\<not> a_Disabled auth" "a_Status auth \<noteq> StatusDisabled" "\<not> tokenExpired env auth now"
    "\<not> credentialQuotaActive auth now"
    using assms(3) by (auto simp: isAuthBlockedForModel_def split: if_splits)
  then have "\<not> fst (baseBlock auth model now)" using assms(3) isAuthBlockedForModel_free by metis
  then have "\<not> fst (baseBlock auth model now')" using baseBlock_later [OF assms(1,2) refl] by blast
  moreover have "\<not> credentialQuotaActive auth now'" using flags(4) credentialQuotaActive_earlier assms(2) by blast
  ultimately show ?thesis
    using isAuthBlockedForModel_free [OF flags(1,2), of env now' model] flags
    by (cases "tokenExpired env auth now'") (simp_all add: isAuthBlockedForModel_def)
qed

text \<open>
  C16: when a credential is reported blocked until a deadline, it stays blocked at every
  moment before that deadline; and unless its access token has expired by then or a
  credential-wide quota was the reason, it is free again at the deadline itself. So a
  scheduler that sleeps until the reported deadline neither wakes early nor late.
\<close>

theorem isAuthBlockedForModel_deadline:
  assumes "0 \<le> now" and "isAuthBlockedForModel env auth model now = (True, reason, d)" and "d \<noteq> 0"
  shows "now < d
    \<and> (\<forall>now'. now \<le> now' \<and> now' < d \<longrightarrow> fst (isAuthBlockedForModel env auth model now'))
    \<and> (\<not> credentialQuotaActive auth now \<and> \<not> tokenExpired env auth d \<longrightarrow>
         \<not> fst (isAuthBlockedForModel env auth model d))"
proof -
  note timed = isAuthBlockedForModel_timed [OF assms(2,3)]
  have "now < d \<and> (\<not> credentialQuotaActive auth now \<and> \<not> tokenExpired env auth d \<longrightarrow>
         \<not> fst (isAuthBlockedForModel env auth model d))"
  proof (cases "credentialQuotaActive auth now")
    case True
    with timed(4) show ?thesis by (auto simp: credentialQuotaActive_def)
  next
    case False
    have B: "baseBlock auth model now = (True, reason, d)"
      using isAuthBlockedForModel_free [OF timed(1,2,3) False, of model] assms(2) by simp
    then have lt: "now < d" using baseBlock_later [OF assms(1) order_refl, of auth model d] assms(3) by simp
    moreover have "\<not> fst (baseBlock auth model d)"
      using baseBlock_later [OF assms(1), of d auth model d] lt assms(3) B by simp
    moreover have "\<not> credentialQuotaActive auth d" using False credentialQuotaActive_earlier lt by fastforce
    ultimately show ?thesis using isAuthBlockedForModel_free [OF timed(1,2), of env d model] by auto
  qed
  then show ?thesis using isAuthBlockedForModel_lasts [OF assms(1) _ assms(2)] by blast
qed

definition exampleEnv :: token_env where
  "exampleEnv = \<lparr>te_parse = (\<lambda>_ _. None), te_float = (\<lambda>_. None), te_claim = (\<lambda>_. None)\<rparr>"

definition exampleCooling :: Auth where
  "exampleCooling = zero_Auth\<lparr>a_ID := ''a'', a_ModelStates :=
     [(''gpt-5'', Some (zero_ModelState\<lparr>ms_Unavailable := True, ms_NextRetryAfter := 50\<rparr>)),
      (''gpt-5(high)'', Some (zero_ModelState\<lparr>ms_Quota := zero_QuotaState\<lparr>q_Exceeded := True, q_NextRecoverAt := 80\<rparr>\<rparr>))]\<rparr>"

theorem isAuthBlockedForModel_deadline_witness:
  "fst (isAuthBlockedForModel exampleEnv exampleCooling ''gpt-5(low)'' 79)
   \<and> \<not> fst (isAuthBlockedForModel exampleEnv exampleCooling ''gpt-5(low)'' 80)"
proof -
  have "isAuthBlockedForModel exampleEnv exampleCooling ''gpt-5(low)'' 10 = (True, blockReasonCooldown, 80)"
    and "\<not> credentialQuotaActive exampleCooling 10" and "\<not> tokenExpired exampleEnv exampleCooling 80"
    by code_simp+
  with isAuthBlockedForModel_deadline [of 10 exampleEnv exampleCooling "''gpt-5(low)''" blockReasonCooldown 80]
  show ?thesis by simp
qed

text \<open>
  The map of model states is iterated in an unspecified order with early returns, yet
  whether the credential is blocked, and until when, depends only on the entries.
\<close>

lemma isAuthBlockedForModel_order:
  assumes "0 \<le> now" and "set m = set (a_ModelStates auth)"
  defines "auth' \<equiv> auth\<lparr>a_ModelStates := m\<rparr>"
  shows "fst (isAuthBlockedForModel env auth' model now) = fst (isAuthBlockedForModel env auth model now)
    \<and> snd (snd (isAuthBlockedForModel env auth' model now)) = snd (snd (isAuthBlockedForModel env auth model now))"
proof -
  have S: "matchStates k m = matchStates k (a_ModelStates auth)" for k
    using assms(2) by (simp add: matchStates_def)
  have emp: "m = [] \<longleftrightarrow> a_ModelStates auth = []" using assms(2) by (metis set_empty)
  have M: "fst (model_result auth' model now) = fst (model_result auth model now)"
    "snd (snd (model_result auth' model now)) = snd (snd (model_result auth model now))"
    by (simp_all add: model_result_spec [OF assms(1)] auth'_def S)
  have "AccessTokenExpirationTime env auth' = AccessTokenExpirationTime env auth"
    by (rule AccessTokenExpirationTime_cong) (simp_all add: auth'_def)
  then have other: "tokenExpired env auth' now = tokenExpired env auth now"
    "credentialQuotaActive auth' now = credentialQuotaActive auth now"
    "authAvailabilityBlock auth' now = authAvailabilityBlock auth now"
    "a_ModelStates auth' = [] \<longleftrightarrow> a_ModelStates auth = []"
    by (simp_all add: tokenExpired_def) (simp_all add: auth'_def emp credentialQuotaActive_def authAvailabilityBlock_def)
  have "a_Disabled auth' = a_Disabled auth" "a_Status auth' = a_Status auth" "a_Quota auth' = a_Quota auth"
    by (simp_all add: auth'_def)
  with M other show ?thesis
    unfolding isAuthBlockedForModel_def model_result_def [symmetric] by simp
qed

theorem isAuthBlockedForModel_order_witness:
  "snd (snd (isAuthBlockedForModel exampleEnv
     (exampleCooling\<lparr>a_ModelStates := rev (a_ModelStates exampleCooling)\<rparr>) ''gpt-5'' 10)) = 80"
proof -
  have "snd (snd (isAuthBlockedForModel exampleEnv exampleCooling ''gpt-5'' 10)) = 80" by code_simp
  with isAuthBlockedForModel_order [of 10 "rev (a_ModelStates exampleCooling)" exampleCooling exampleEnv "''gpt-5''"]
  show ?thesis by simp
qed

end
