(* ===== verification/Smooth_Weighted.thy ===== *)
theory Smooth_Weighted
  imports Availability
begin

text \<open>
  Smooth weighted round-robin: \<open>saturatingAddInt64\<close>, \<open>smoothWeightedState\<close> with
  \<open>prepare\<close>, \<open>pruneStale\<close> and \<open>weightsConfigChanged\<close>, and the picking loop of
  \<open>pickSmoothWeightedAuth\<close> (\<^verbatim>\<open>sdk/cliproxy/auth/selector.go\<close>). The scheduler repeats the
  loop over its own entries (\<open>pickSmoothWeightedScheduled\<close>), so the loop is defined once,
  over any candidates with an identifier and a weight.

  The main results: saturating addition never wraps; from zero credits every candidate is
  picked exactly \<open>w\<close> times in a cycle of as many picks as the sum of the weights, and at
  no moment has it received a full pick more than its share.
\<close>

section \<open>Model\<close>

definition saturatingAddInt64 :: "int \<Rightarrow> int \<Rightarrow> int" where
  "saturatingAddInt64 value delta =
     (if delta > 0 \<and> value > wrap64 (MaxInt64 - delta) then MaxInt64
      else if delta < 0 \<and> value < wrap64 (MinInt64 - delta) then MinInt64
      else wrap64 (value + delta))"

text \<open>
  A nil map differs from an empty one only in the test \<open>s.current == nil\<close>, so the two maps
  of the state are optional.
\<close>

record smoothWeightedState =
  sw_current :: "(string, int) gomap option"
  sw_weights :: "(string, int) gomap option"

definition zero_smoothWeightedState :: smoothWeightedState where
  "zero_smoothWeightedState = \<lparr>sw_current = None, sw_weights = None\<rparr>"

definition maxSmoothWeightedStateEntries :: nat where "maxSmoothWeightedStateEntries = 1024"

abbreviation the_map :: "('k, 'v) gomap option \<Rightarrow> ('k, 'v) gomap" where
  "the_map m \<equiv> (case m of None \<Rightarrow> [] | Some m \<Rightarrow> m)"

definition weightsConfigChanged :: "(string, int) gomap \<Rightarrow> (string, int) gomap \<Rightarrow> bool" where
  "weightsConfigChanged left right =
     (if left = [] then False
      else list_ex (\<lambda>(authID, weight).
        case map_of left authID of Some previous \<Rightarrow> previous \<noteq> weight | None \<Rightarrow> False) right)"

definition pruneStale :: "(string, int) gomap \<Rightarrow> smoothWeightedState \<Rightarrow> smoothWeightedState" where
  "pruneStale weights s =
     (if length (the_map (sw_current s)) \<le> maxSmoothWeightedStateEntries
         \<and> length (the_map (sw_weights s)) \<le> maxSmoothWeightedStateEntries
      then s
      else s\<lparr>sw_current := map_option (filter (\<lambda>(authID, _). map_of weights authID \<noteq> None)) (sw_current s),
             sw_weights := map_option (filter (\<lambda>(authID, _). map_of weights authID \<noteq> None)) (sw_weights s)\<rparr>)"

definition prepare :: "(string, int) gomap \<Rightarrow> smoothWeightedState \<Rightarrow> smoothWeightedState" where
  "prepare weights s =
     (let s1 = (if sw_current s = None \<or> weightsConfigChanged (the_map (sw_weights s)) weights
                then s\<lparr>sw_current := Some []\<rparr> else s);
          s2 = (if sw_weights s1 = None then s1\<lparr>sw_weights := Some []\<rparr> else s1);
          s3 = s2\<lparr>sw_weights := Some (fold (\<lambda>(authID, weight). AList.update authID weight) weights
                                        (the_map (sw_weights s2)))\<rparr>
      in pruneStale weights s3)"

text \<open>The loop: credit every candidate, remember the first with the highest credit.\<close>

fun smoothLoop ::
  "('a \<Rightarrow> string) \<Rightarrow> ('a \<Rightarrow> int) \<Rightarrow> 'a list \<Rightarrow> (string, int) gomap \<times> 'a option \<times> int \<times> int
    \<Rightarrow> (string, int) gomap \<times> 'a option \<times> int \<times> int" where
  "smoothLoop idOf weightOf [] acc = acc"
| "smoothLoop idOf weightOf (e # es) (current, picked, pickedCurrent, totalWeight) =
     (let c = saturatingAddInt64 (get_int current (idOf e)) (weightOf e);
          current' = AList.update (idOf e) c current;
          totalWeight' = saturatingAddInt64 totalWeight (weightOf e)
      in if picked = None \<or> c > pickedCurrent
         then smoothLoop idOf weightOf es (current', Some e, c, totalWeight')
         else smoothLoop idOf weightOf es (current', picked, pickedCurrent, totalWeight'))"

definition smoothPick ::
  "('a \<Rightarrow> string) \<Rightarrow> ('a \<Rightarrow> int) \<Rightarrow> 'a list \<Rightarrow> (string, int) gomap \<Rightarrow> 'a option \<times> (string, int) gomap" where
  "smoothPick idOf weightOf es current =
     (case smoothLoop idOf weightOf es (current, None, 0, 0) of
        (current', picked, _, totalWeight) \<Rightarrow>
          (case picked of
             None \<Rightarrow> (None, current')
           | Some p \<Rightarrow>
               (Some p, AList.update (idOf p)
                  (saturatingAddInt64 (get_int current' (idOf p)) (wrap64 (- totalWeight))) current')))"

definition pickSmoothWeightedAuth :: "Auth list \<Rightarrow> (string, int) gomap \<Rightarrow> Auth option \<times> (string, int) gomap" where
  "pickSmoothWeightedAuth auths current =
     smoothPick a_ID authWeight (filter (\<lambda>auth. authWeight auth > 0) auths) current"

definition authWeightVector :: "Auth list \<Rightarrow> (string, int) gomap" where
  "authWeightVector auths =
     fold (\<lambda>auth weights. if authWeight auth > 0 then AList.update (a_ID auth) (authWeight auth) weights else weights)
       auths []"

section \<open>Saturating addition\<close>

lemma saturatingAddInt64_clamp:
  assumes "in_int64 value" and "in_int64 delta"
  shows "saturatingAddInt64 value delta = max MinInt64 (min MaxInt64 (value + delta))"
proof -
  have "delta > 0 \<Longrightarrow> wrap64 (MaxInt64 - delta) = MaxInt64 - delta"
    "delta < 0 \<Longrightarrow> wrap64 (MinInt64 - delta) = MinInt64 - delta"
    using assms by (intro wrap64_id; simp add: int64_defs)+
  moreover have "in_int64 (value + delta) \<Longrightarrow> wrap64 (value + delta) = value + delta" by simp
  ultimately show ?thesis
    using assms by (auto simp: saturatingAddInt64_def int64_defs max_def min_def)
qed

lemma saturatingAddInt64_exact:
  "in_int64 value \<Longrightarrow> in_int64 delta \<Longrightarrow> in_int64 (value + delta) \<Longrightarrow>
     saturatingAddInt64 value delta = value + delta"
  by (simp add: saturatingAddInt64_clamp) (simp add: int64_defs)

section \<open>One pick\<close>

text \<open>Candidates with distinct identifiers and positive weights whose credits cannot saturate.\<close>

definition credits_ok :: "('a \<Rightarrow> string) \<Rightarrow> ('a \<Rightarrow> int) \<Rightarrow> 'a list \<Rightarrow> (string, int) gomap \<Rightarrow> int \<Rightarrow> bool" where
  "credits_ok idOf weightOf es current totalWeight \<longleftrightarrow>
     distinct (map idOf es) \<and> 0 \<le> totalWeight \<and> totalWeight + sum_list (map weightOf es) \<le> MaxInt64
     \<and> (\<forall>e \<in> set es. 0 < weightOf e \<and> MinInt64 \<le> get_int current (idOf e)
          \<and> get_int current (idOf e) + weightOf e \<le> MaxInt64)"

lemma credits_ok_neq: "credits_ok idOf weightOf (e # es) current t \<Longrightarrow> x \<in> set es \<Longrightarrow> idOf x \<noteq> idOf e"
  unfolding credits_ok_def by (metis distinct.simps(2) image_eqI list.simps(9) set_map)

lemma credits_ok_Cons:
  assumes "credits_ok idOf weightOf (e # es) current totalWeight"
  shows "saturatingAddInt64 (get_int current (idOf e)) (weightOf e) = get_int current (idOf e) + weightOf e"
    and "saturatingAddInt64 totalWeight (weightOf e) = totalWeight + weightOf e"
    and "credits_ok idOf weightOf es (AList.update (idOf e) c current) (totalWeight + weightOf e)"
proof -
  have nn: "0 \<le> sum_list (map weightOf es)"
    using assms by (intro sum_list_nonneg) (auto simp: credits_ok_def)
  have w: "0 < weightOf e" "weightOf e \<le> MaxInt64" "0 \<le> totalWeight" "totalWeight + weightOf e \<le> MaxInt64"
    using assms nn by (auto simp: credits_ok_def)
  then show "saturatingAddInt64 totalWeight (weightOf e) = totalWeight + weightOf e"
    by (intro saturatingAddInt64_exact) (auto simp: int64_defs)
  show "saturatingAddInt64 (get_int current (idOf e)) (weightOf e) = get_int current (idOf e) + weightOf e"
    using assms w by (intro saturatingAddInt64_exact) (auto simp: credits_ok_def in_int64_def MinInt64_def)
  show "credits_ok idOf weightOf es (AList.update (idOf e) c current) (totalWeight + weightOf e)"
    using assms credits_ok_neq [OF assms] by (simp add: credits_ok_def)
qed

lemma smoothLoop_Cons:
  assumes "credits_ok idOf weightOf (e # es) current totalWeight"
  defines "c \<equiv> get_int current (idOf e) + weightOf e"
  shows "smoothLoop idOf weightOf (e # es) (current, picked, pc, totalWeight) =
    smoothLoop idOf weightOf es
      (AList.update (idOf e) c current, if picked = None \<or> c > pc then Some e else picked,
       if picked = None \<or> c > pc then c else pc, totalWeight + weightOf e)"
  using credits_ok_Cons(1,2) [OF assms(1)] by (simp add: c_def Let_def)

lemma smoothLoop_credits:
  assumes "credits_ok idOf weightOf es current totalWeight"
    and "smoothLoop idOf weightOf es (current, picked, pc, totalWeight) = (current', picked', pc', totalWeight')"
  shows "totalWeight' = totalWeight + sum_list (map weightOf es)
    \<and> (\<forall>e \<in> set es. get_int current' (idOf e) = get_int current (idOf e) + weightOf e)
    \<and> (\<forall>k. k \<notin> idOf ` set es \<longrightarrow> get_int current' k = get_int current k)"
  using assms
proof (induction es arbitrary: current picked pc totalWeight)
  case Nil
  then show ?case by simp
next
  case (Cons e es)
  have d: "idOf e \<notin> idOf ` set es" using Cons.prems(1) by (auto simp: credits_ok_def)
  from Cons.IH [OF credits_ok_Cons(3) [OF Cons.prems(1)]
      Cons.prems(2) [unfolded smoothLoop_Cons [OF Cons.prems(1)]]]
  show ?case using d credits_ok_neq [OF Cons.prems(1)] by auto
qed

lemma smoothLoop_picked:
  assumes "credits_ok idOf weightOf es current totalWeight"
    and "smoothLoop idOf weightOf es (current, picked, pc, totalWeight) = (current', picked', pc', totalWeight')"
  shows "(picked \<noteq> None \<or> es \<noteq> [] \<longrightarrow> picked' \<noteq> None)
    \<and> (picked \<noteq> None \<longrightarrow> pc \<le> pc')
    \<and> (\<forall>e \<in> set es. get_int current (idOf e) + weightOf e \<le> pc')
    \<and> (picked' = picked \<and> pc' = pc \<or>
       (\<exists>p \<in> set es. picked' = Some p \<and> pc' = get_int current (idOf p) + weightOf p))"
  using assms
proof (induction es arbitrary: current picked pc totalWeight)
  case Nil
  then show ?case by simp
next
  case (Cons e es)
  from Cons.IH [OF credits_ok_Cons(3) [OF Cons.prems(1)]
      Cons.prems(2) [unfolded smoothLoop_Cons [OF Cons.prems(1)]]]
  show ?case using credits_ok_neq [OF Cons.prems(1)] by (auto split: if_splits)
qed

lemma smoothPick_spec:
  assumes "credits_ok idOf weightOf es current 0" and "es \<noteq> []"
    and "\<forall>e \<in> set es. MinInt64 \<le> get_int current (idOf e) + weightOf e - sum_list (map weightOf es)"
  shows "\<exists>p current'. smoothPick idOf weightOf es current = (Some p, current') \<and> p \<in> set es
    \<and> (\<forall>e \<in> set es. get_int current (idOf e) + weightOf e \<le> get_int current (idOf p) + weightOf p)
    \<and> (\<forall>e \<in> set es. get_int current' (idOf e) = get_int current (idOf e) + weightOf e
         - (if e = p then sum_list (map weightOf es) else 0))
    \<and> (\<forall>k. k \<notin> idOf ` set es \<longrightarrow> get_int current' k = get_int current k)"
proof -
  define W where "W = sum_list (map weightOf es)"
  obtain current' picked' pc' totalWeight' where
    loop: "smoothLoop idOf weightOf es (current, None, 0, 0) = (current', picked', pc', totalWeight')"
    using prod_cases4 by blast
  note cr = smoothLoop_credits [OF assms(1) loop] and pk = smoothLoop_picked [OF assms(1) loop]
  from pk assms(2) obtain p where p: "p \<in> set es" "picked' = Some p" "pc' = get_int current (idOf p) + weightOf p"
    by auto
  have "0 \<le> W" unfolding W_def
    using assms(1) by (intro sum_list_nonneg) (auto simp: credits_ok_def less_imp_le)
  then have W: "0 \<le> W" "W \<le> MaxInt64" "totalWeight' = W"
    using assms(1) cr by (auto simp: credits_ok_def W_def)
  have cp: "get_int current' (idOf p) = get_int current (idOf p) + weightOf p" using cr p(1) by blast
  have "wrap64 (- totalWeight') = - W" unfolding W(3) using W(1,2) by (intro wrap64_id) (simp add: int64_defs)
  moreover have "saturatingAddInt64 (get_int current' (idOf p)) (- W) = get_int current (idOf p) + weightOf p - W"
  proof -
    have "0 < weightOf p" "MinInt64 \<le> get_int current (idOf p)" "get_int current (idOf p) + weightOf p \<le> MaxInt64"
      "MinInt64 \<le> get_int current (idOf p) + weightOf p - W"
      using assms(1,3) p(1) unfolding credits_ok_def W_def by blast+
    with W cp saturatingAddInt64_exact [of "get_int current' (idOf p)" "- W"] show ?thesis
      by (simp add: in_int64_def MinInt64_def MaxInt64_def)
  qed
  ultimately have eq: "smoothPick idOf weightOf es current =
      (Some p, AList.update (idOf p) (get_int current (idOf p) + weightOf p - W) current')"
    by (simp add: smoothPick_def loop p(2))
  have "idOf e = idOf p \<longleftrightarrow> e = p" if "e \<in> set es" for e
    using assms(1) that p(1) by (auto simp: credits_ok_def distinct_map dest: inj_onD)
  then show ?thesis
    unfolding eq using cr pk p by (auto simp: W_def [symmetric])
qed

text \<open>Whatever the credits, a non-empty slice yields one of its members.\<close>

lemma smoothLoop_member:
  assumes "smoothLoop idOf weightOf es (current, picked, pc, t) = (current', picked', pc', t')"
  shows "(picked' = None \<longleftrightarrow> picked = None \<and> es = []) \<and> (\<forall>p. picked' = Some p \<longrightarrow> picked = Some p \<or> p \<in> set es)"
  using assms
proof (induction es arbitrary: current picked pc t)
  case (Cons a es)
  obtain c p pc2 t2 where tail: "smoothLoop idOf weightOf es (c, p, pc2, t2) = (current', picked', pc', t')"
    and p: "p = Some a \<or> p = picked \<and> p \<noteq> None"
    using Cons.prems by (auto simp: Let_def split: if_splits)
  from Cons.IH [OF tail] p show ?case by auto
qed simp

lemma smoothPick_member:
  "(fst (smoothPick idOf weightOf es current) = None \<longleftrightarrow> es = [])
   \<and> (\<forall>p. fst (smoothPick idOf weightOf es current) = Some p \<longrightarrow> p \<in> set es)"
  using smoothLoop_member [of idOf weightOf es current None 0 0]
  by (auto simp: smoothPick_def split: prod.splits option.splits)

section \<open>A sequence of picks\<close>

fun smoothRun ::
  "('a \<Rightarrow> string) \<Rightarrow> ('a \<Rightarrow> int) \<Rightarrow> 'a list \<Rightarrow> nat \<Rightarrow> (string, int) gomap \<Rightarrow> 'a option list \<times> (string, int) gomap" where
  "smoothRun idOf weightOf es 0 current = ([], current)"
| "smoothRun idOf weightOf es (Suc k) current =
     (let (ps, current1) = smoothRun idOf weightOf es k current;
          (p, current2) = smoothPick idOf weightOf es current1
      in (ps @ [p], current2))"

text \<open>
  A pool whose credits stay inside 64 bits. Credits are bounded by the number of
  candidates times the sum of the weights: a million credentials of the maximal weight fit.
\<close>

definition pool_ok :: "('a \<Rightarrow> string) \<Rightarrow> ('a \<Rightarrow> int) \<Rightarrow> 'a list \<Rightarrow> bool" where
  "pool_ok idOf weightOf es \<longleftrightarrow>
     es \<noteq> [] \<and> distinct (map idOf es) \<and> (\<forall>e \<in> set es. 0 < weightOf e)
     \<and> int (length es) * sum_list (map weightOf es) \<le> MaxInt64"

text \<open>The credits are balanced and none has fallen by a whole cycle.\<close>

definition balanced :: "('a \<Rightarrow> string) \<Rightarrow> ('a \<Rightarrow> int) \<Rightarrow> 'a list \<Rightarrow> (string, int) gomap \<Rightarrow> bool" where
  "balanced idOf weightOf es current \<longleftrightarrow>
     (\<Sum>e \<leftarrow> es. get_int current (idOf e)) = 0
     \<and> (\<forall>e \<in> set es. - sum_list (map weightOf es) < get_int current (idOf e))"

lemma sum_list_ge_others:
  fixes f :: "'a \<Rightarrow> int"
  assumes "e \<in> set es" and "\<forall>x \<in> set es. - W \<le> f x"
  shows "f e - (int (length es) - 1) * W \<le> sum_list (map f es)"
  using assms
proof (induction es)
  case Nil
  then show ?case by simp
next
  case (Cons x xs)
  have low: "- (int (length ys) * W) \<le> sum_list (map f ys)" if "\<forall>y \<in> set ys. - W \<le> f y" for ys
    using that by (induction ys) (auto simp: algebra_simps)
  show ?case
  proof (cases "e = x")
    case True
    with low [of xs] Cons.prems show ?thesis by (simp add: algebra_simps)
  next
    case False
    with Cons have "f e - (int (length xs) - 1) * W \<le> sum_list (map f xs)" by simp
    with Cons.prems show ?thesis by (simp add: algebra_simps)
  qed
qed

lemma pool_total_pos:
  assumes "pool_ok idOf weightOf es"
  shows "0 < sum_list (map weightOf es)"
proof -
  have pos: "\<forall>e \<in> set es. 0 < weightOf e" and hd: "hd es \<in> set es"
    using assms by (auto simp: pool_ok_def)
  then have "weightOf (hd es) \<le> sum_list (map weightOf es)"
    by (intro member_le_sum_list) (auto simp: less_imp_le)
  with pos hd show ?thesis by fastforce
qed

lemma balanced_credits_ok:
  assumes "pool_ok idOf weightOf es" and "balanced idOf weightOf es current"
  shows "credits_ok idOf weightOf es current 0"
    and "\<forall>e \<in> set es. MinInt64 \<le> get_int current (idOf e) + weightOf e - sum_list (map weightOf es)"
proof -
  let ?W = "sum_list (map weightOf es)" and ?f = "\<lambda>e. get_int current (idOf e)"
  have W0: "0 < ?W" by (rule pool_total_pos [OF assms(1)])
  have len: "1 \<le> int (length es)" and pos: "\<forall>e \<in> set es. 0 < weightOf e"
    and cap: "int (length es) * ?W \<le> MaxInt64" and dis: "distinct (map idOf es)"
    using assms(1) by (auto simp: pool_ok_def Suc_le_eq)
  have mem: "weightOf e \<le> ?W" if "e \<in> set es" for e
    using pos that by (intro member_le_sum_list) (auto simp: less_imp_le)
  have WM: "?W \<le> MaxInt64"
  proof -
    have "1 * ?W \<le> int (length es) * ?W" using len W0 by (intro mult_right_mono) auto
    with cap show ?thesis by simp
  qed
  have lo: "- ?W < ?f e" if "e \<in> set es" for e using assms(2) that by (simp add: balanced_def)
  have hi: "?f e + weightOf e \<le> MaxInt64" if e: "e \<in> set es" for e
  proof -
    have "?f e - (int (length es) - 1) * ?W \<le> sum_list (map ?f es)"
      using lo by (intro sum_list_ge_others [OF e]) (auto simp: less_imp_le)
    then have "?f e + ?W \<le> int (length es) * ?W"
      using assms(2) by (simp add: balanced_def algebra_simps)
    with cap mem [OF e] show ?thesis by linarith
  qed
  have min1: "MinInt64 \<le> ?f e" if "e \<in> set es" for e
    using lo [OF that] WM by (simp add: MinInt64_def MaxInt64_def)
  have min2: "MinInt64 \<le> ?f e + weightOf e - ?W" if e: "e \<in> set es" for e
  proof (cases "length es = 1")
    case True
    with e have "es = [e]" by (cases es) auto
    with assms(2) show ?thesis by (simp add: balanced_def MinInt64_def)
  next
    case False
    with len have "2 * ?W \<le> int (length es) * ?W" using W0 by (intro mult_right_mono) auto
    with cap have "2 * ?W \<le> MaxInt64" by linarith
    with lo [OF e] pos e show ?thesis by (fastforce simp: MinInt64_def MaxInt64_def)
  qed
  show "credits_ok idOf weightOf es current 0"
    using dis WM pos hi min1 by (simp add: credits_ok_def)
  show "\<forall>e \<in> set es. MinInt64 \<le> ?f e + weightOf e - ?W" using min2 by blast
qed

lemma sum_list_single: "distinct es \<Longrightarrow> p \<in> set es \<Longrightarrow> (\<Sum>e \<leftarrow> es. if e = p then (W :: int) else 0) = W"
proof (induction es)
  case (Cons x xs)
  have "(\<Sum>e \<leftarrow> xs. if e = p then W else 0) = 0" if "p \<notin> set xs"
    using that by (induction xs) auto
  with Cons show ?case by auto
qed simp

lemma smoothPick_balanced:
  assumes "pool_ok idOf weightOf es" and "balanced idOf weightOf es current"
  shows "\<exists>p current'. smoothPick idOf weightOf es current = (Some p, current') \<and> p \<in> set es
    \<and> balanced idOf weightOf es current'
    \<and> (\<forall>e \<in> set es. get_int current' (idOf e) =
         get_int current (idOf e) + weightOf e - (if e = p then sum_list (map weightOf es) else 0))"
proof -
  let ?W = "sum_list (map weightOf es)" and ?f = "\<lambda>e. get_int current (idOf e)"
  note ok = balanced_credits_ok [OF assms]
  have ne: "es \<noteq> []" and dis: "distinct es" and pos: "\<forall>e \<in> set es. 0 < weightOf e"
    using assms(1) by (auto simp: pool_ok_def distinct_map)
  from smoothPick_spec [OF ok(1) ne ok(2)] obtain p current' where
    pick: "smoothPick idOf weightOf es current = (Some p, current')" and p: "p \<in> set es"
    and best: "\<forall>e \<in> set es. ?f e + weightOf e \<le> ?f p + weightOf p"
    and cur: "\<forall>e \<in> set es. get_int current' (idOf e) = ?f e + weightOf e - (if e = p then ?W else 0)"
    by blast
  have total: "(\<Sum>e \<leftarrow> es. ?f e + weightOf e) = ?W"
    using assms(2) by (simp add: sum_list_addf balanced_def)
  have "0 < ?f p + weightOf p"
  proof (rule ccontr)
    assume "\<not> 0 < ?f p + weightOf p"
    with best have "\<forall>e \<in> set es. ?f e + weightOf e \<le> 0" by fastforce
    then have "(\<Sum>e \<leftarrow> es. ?f e + weightOf e) \<le> 0" by (intro sum_list_nonpos) auto
    with total pool_total_pos [OF assms(1)] show False by simp
  qed
  then have "\<forall>e \<in> set es. - ?W < get_int current' (idOf e)"
    using cur pos assms(2) by (fastforce simp: balanced_def)
  moreover have "(\<Sum>e \<leftarrow> es. get_int current' (idOf e)) = 0"
  proof -
    have "(\<Sum>e \<leftarrow> es. get_int current' (idOf e)) = (\<Sum>e \<leftarrow> es. ?f e + weightOf e - (if e = p then ?W else 0))"
      using cur by (intro arg_cong [of _ _ sum_list] map_cong) auto
    also have "\<dots> = (\<Sum>e \<leftarrow> es. ?f e + weightOf e) - (\<Sum>e \<leftarrow> es. if e = p then ?W else 0)"
      by (simp add: sum_list_subtractf)
    finally show ?thesis using total sum_list_single [OF dis p] by simp
  qed
  ultimately show ?thesis using pick p cur by (auto simp: balanced_def)
qed

lemma smoothRun_spec:
  assumes "pool_ok idOf weightOf es" and "\<forall>e \<in> set es. get_int current (idOf e) = 0"
  shows "\<exists>ps current'. smoothRun idOf weightOf es k current = (map Some ps, current') \<and> length ps = k
    \<and> set ps \<subseteq> set es \<and> balanced idOf weightOf es current'
    \<and> (\<forall>e \<in> set es. get_int current' (idOf e) =
         int k * weightOf e - sum_list (map weightOf es) * int (count_list ps e))"
proof (induction k)
  case 0
  have "(\<Sum>e \<leftarrow> es. get_int current (idOf e)) = (\<Sum>e \<leftarrow> es. 0)"
    using assms(2) by (intro arg_cong [of _ _ sum_list] map_cong) auto
  with pool_total_pos [OF assms(1)] assms(2) have "balanced idOf weightOf es current"
    by (simp add: balanced_def)
  with assms(2) show ?case by simp
next
  case (Suc k)
  then obtain ps current' where IH: "smoothRun idOf weightOf es k current = (map Some ps, current')"
    "length ps = k" "set ps \<subseteq> set es" "balanced idOf weightOf es current'"
    "\<forall>e \<in> set es. get_int current' (idOf e) =
       int k * weightOf e - sum_list (map weightOf es) * int (count_list ps e)" by blast
  from smoothPick_balanced [OF assms(1) IH(4)] obtain p current'' where
    p: "smoothPick idOf weightOf es current' = (Some p, current'')" "p \<in> set es"
    "balanced idOf weightOf es current''"
    "\<forall>e \<in> set es. get_int current'' (idOf e) =
       get_int current' (idOf e) + weightOf e - (if e = p then sum_list (map weightOf es) else 0)" by blast
  have "get_int current'' (idOf e) =
      int (Suc k) * weightOf e - sum_list (map weightOf es) * int (count_list (ps @ [p]) e)"
    if "e \<in> set es" for e
    using IH(5) [rule_format, OF that] p(4) [rule_format, OF that]
    by (cases "e = p") (simp_all add: algebra_simps)
  moreover have "smoothRun idOf weightOf es (Suc k) current = (map Some (ps @ [p]), current'')"
    using IH(1) p(1) by simp
  ultimately show ?case using IH(2,3) p(2,3) by (intro exI [of _ "ps @ [p]"] exI [of _ current'']) auto
qed

lemma smoothRun_share:
  assumes "pool_ok idOf weightOf es" and "\<forall>e \<in> set es. get_int current (idOf e) = 0" and "e \<in> set es"
  shows "sum_list (map weightOf es) * int (count_list (fst (smoothRun idOf weightOf es k current)) (Some e))
    < int k * weightOf e + sum_list (map weightOf es)"
proof -
  from smoothRun_spec [OF assms(1,2)] obtain ps current' where
    run: "smoothRun idOf weightOf es k current = (map Some ps, current')"
    and "balanced idOf weightOf es current'"
    and "get_int current' (idOf e) = int k * weightOf e - sum_list (map weightOf es) * int (count_list ps e)"
    using assms(3) by blast
  then have "- sum_list (map weightOf es) < int k * weightOf e - sum_list (map weightOf es) * int (count_list ps e)"
    using assms(3) by (metis balanced_def)
  moreover have "count_list (map Some ps) (Some e) = count_list ps e" by (induction ps) auto
  ultimately show ?thesis by (simp add: run)
qed

lemma smoothRun_cycle:
  assumes "pool_ok idOf weightOf es" and "\<forall>e \<in> set es. get_int current (idOf e) = 0"
    and "k = nat (sum_list (map weightOf es))"
  shows "(\<forall>e \<in> set es. int (count_list (fst (smoothRun idOf weightOf es k current)) (Some e)) = weightOf e)
    \<and> (\<forall>e \<in> set es. get_int (snd (smoothRun idOf weightOf es k current)) (idOf e) = 0)"
proof -
  let ?W = "sum_list (map weightOf es)"
  have W: "0 < ?W" "int k = ?W" using pool_total_pos [OF assms(1)] assms(3) by auto
  have dis: "distinct es" using assms(1) by (auto simp: pool_ok_def distinct_map)
  from smoothRun_spec [OF assms(1,2)] obtain ps current' where
    run: "smoothRun idOf weightOf es k current = (map Some ps, current')" "length ps = k" "set ps \<subseteq> set es"
    and bal: "balanced idOf weightOf es current'"
    and cr: "\<forall>e \<in> set es. get_int current' (idOf e) = int k * weightOf e - ?W * int (count_list ps e)" by blast
  have cnt: "count_list (map Some ps) (Some e) = count_list ps e" for e by (induction ps) auto
  have le: "int (count_list ps e) \<le> weightOf e" if "e \<in> set es" for e
  proof -
    have "- ?W < ?W * (weightOf e - int (count_list ps e))"
      using bal cr that W(2) by (auto simp: balanced_def right_diff_distrib)
    then have "?W * (- 1) < ?W * (weightOf e - int (count_list ps e))" by simp
    with W(1) show ?thesis by (simp only: mult_less_cancel_left_pos)
  qed
  have "(\<Sum>e \<in> set es. int (count_list ps e)) = (\<Sum>e \<in> set es. weightOf e)"
  proof -
    have "(\<Sum>e \<in> set es. int (count_list ps e)) = int (length ps)"
      using sum_count_set [OF run(3)] by (simp flip: of_nat_sum)
    also have "\<dots> = (\<Sum>e \<in> set es. weightOf e)"
      using W(2) run(2) dis by (simp add: sum_list_distinct_conv_sum_set)
    finally show ?thesis .
  qed
  then have eq: "int (count_list ps e) = weightOf e" if "e \<in> set es" for e
    using le that by (metis (no_types, lifting) List.finite_set sum_mono_inv)
  then show ?thesis using run(1) cnt cr W(2) by auto
qed

section \<open>The weighted selector's picks\<close>

fun weightedPicks :: "Auth list \<Rightarrow> nat \<Rightarrow> (string, int) gomap \<Rightarrow> Auth option list \<times> (string, int) gomap" where
  "weightedPicks auths 0 current = ([], current)"
| "weightedPicks auths (Suc k) current =
     (let (ps, current1) = weightedPicks auths k current;
          (p, current2) = pickSmoothWeightedAuth auths current1
      in (ps @ [p], current2))"

lemma weightedPicks_smoothRun:
  "weightedPicks auths k current = smoothRun a_ID authWeight (filter (\<lambda>a. authWeight a > 0) auths) k current"
  by (induction k) (simp_all add: pickSmoothWeightedAuth_def)

definition weights_valid :: "Auth list \<Rightarrow> bool" where
  "weights_valid auths \<longleftrightarrow> distinct (map a_ID auths) \<and> length auths \<le> 1000000
     \<and> (\<forall>a \<in> set auths. \<forall>v \<in> snd ` set (a_Metadata a). goval_ok v) \<and> (\<exists>a \<in> set auths. 0 < authWeight a)"

lemma sum_list_filter_pos:
  "\<forall>a \<in> set xs. 0 \<le> f a \<Longrightarrow> sum_list (map f (filter (\<lambda>a. (0 :: int) < f a) xs)) = sum_list (map f xs)"
  by (induction xs) auto

lemma weights_valid_nonneg:
  "weights_valid auths \<Longrightarrow> \<forall>a \<in> set auths. 0 \<le> authWeight a \<and> authWeight a \<le> weight_Max"
  using authWeight_range unfolding weights_valid_def by blast

lemma weights_valid_pool:
  assumes "weights_valid auths"
  shows "pool_ok a_ID authWeight (filter (\<lambda>a. authWeight a > 0) auths)"
proof -
  let ?es = "filter (\<lambda>a. authWeight a > 0) auths"
  have "length ?es \<le> length auths" by simp
  with assms have n: "int (length ?es) \<le> 1000000" unfolding weights_valid_def by linarith
  have "sum_list (map authWeight ?es) \<le> sum_list (map (\<lambda>_. weight_Max) ?es)"
    using weights_valid_nonneg [OF assms] by (intro sum_list_mono) auto
  also have "\<dots> = int (length ?es) * weight_Max" by (simp add: sum_list_triv)
  finally have "int (length ?es) * sum_list (map authWeight ?es) \<le> 1000000 * (1000000 * weight_Max)"
    using n by (intro mult_mono) (auto simp: weight_Max_def intro!: sum_list_nonneg)
  moreover have "distinct (map a_ID ?es)" using assms by (simp add: weights_valid_def distinct_map_filter)
  ultimately show ?thesis
    using assms by (auto simp: pool_ok_def weights_valid_def weight_Max_def MaxInt64_def filter_empty_conv)
qed

text \<open>
  C11: over as many picks as the weights sum to, starting from zero credits, smooth weighted
  round-robin picks every credential exactly as often as its weight says (a credential of
  weight zero never), and the credits are back at zero, so the cycle repeats for ever.
\<close>

theorem pickSmoothWeightedAuth_cycle:
  assumes "weights_valid auths"
  defines "k \<equiv> nat (sum_list (map authWeight auths))"
  shows "(\<forall>a \<in> set auths. int (count_list (fst (weightedPicks auths k [])) (Some a)) = authWeight a)
    \<and> (\<forall>a \<in> set auths. 0 < authWeight a \<longrightarrow> get_int (snd (weightedPicks auths k [])) (a_ID a) = 0)"
proof -
  let ?es = "filter (\<lambda>a. authWeight a > 0) auths"
  have k: "k = nat (sum_list (map authWeight ?es))"
    using sum_list_filter_pos [of auths authWeight] weights_valid_nonneg [OF assms(1)] by (simp add: k_def)
  have zero: "\<forall>e \<in> set ?es. get_int [] (a_ID e) = 0" by (simp add: get_int_def)
  note cyc = smoothRun_cycle [OF weights_valid_pool [OF assms(1)] zero k]
  have "count_list (fst (weightedPicks auths k [])) (Some a) = 0" if "\<not> 0 < authWeight a" for a
    using smoothRun_spec [OF weights_valid_pool [OF assms(1)] zero, of k] that
    by (auto simp: weightedPicks_smoothRun count_list_0_iff)
  with cyc weights_valid_nonneg [OF assms(1)] show ?thesis
    unfolding weightedPicks_smoothRun by (fastforce simp: order.order_iff_strict)
qed

definition exampleWeighted :: "Auth list" where
  "exampleWeighted =
     [zero_Auth\<lparr>a_ID := ''a'', a_Attributes := [(''weight'', ''3'')]\<rparr>, zero_Auth\<lparr>a_ID := ''b''\<rparr>,
      zero_Auth\<lparr>a_ID := ''c'', a_Attributes := [(''weight'', ''0'')]\<rparr>]"

lemma exampleWeighted_valid: "weights_valid exampleWeighted"
proof -
  have "distinct (map a_ID exampleWeighted) \<and> list_all (\<lambda>a. a_Metadata a = []) exampleWeighted \<and> list_ex (\<lambda>a. 0 < authWeight a) exampleWeighted"
    by code_simp
  moreover have "length exampleWeighted \<le> 1000000" by (simp add: exampleWeighted_def)
  ultimately show ?thesis by (auto simp: weights_valid_def list_all_iff list_ex_iff)
qed

theorem pickSmoothWeightedAuth_cycle_witness:
  "nat (sum_list (map authWeight exampleWeighted)) = 4
   \<and> count_list (fst (weightedPicks exampleWeighted 4 [])) (Some (hd exampleWeighted)) = 3"
proof -
  have k: "nat (sum_list (map authWeight exampleWeighted)) = 4" by code_simp
  have "authWeight (hd exampleWeighted) = 3" by code_simp
  moreover have "hd exampleWeighted \<in> set exampleWeighted" by (simp add: exampleWeighted_def)
  ultimately have "int (count_list (fst (weightedPicks exampleWeighted 4 [])) (Some (hd exampleWeighted))) = 3"
    using pickSmoothWeightedAuth_cycle [OF exampleWeighted_valid] unfolding k by metis
  with k show ?thesis by simp
qed

text \<open>
  At every moment a credential has received less than one pick more than its share of
  the picks so far: traffic is spread through the cycle instead of coming in bursts.
\<close>

lemma pickSmoothWeightedAuth_share:
  assumes "weights_valid auths" and "a \<in> set auths" and "0 < authWeight a"
  shows "sum_list (map authWeight auths) * int (count_list (fst (weightedPicks auths k [])) (Some a))
    < int k * authWeight a + sum_list (map authWeight auths)"
proof -
  have zero: "\<forall>e \<in> set (filter (\<lambda>a. authWeight a > 0) auths). get_int [] (a_ID e) = 0"
    by (simp add: get_int_def)
  from smoothRun_share [OF weights_valid_pool [OF assms(1)] zero, of a k]
    sum_list_filter_pos [of auths authWeight] weights_valid_nonneg [OF assms(1)] assms(2,3)
  show ?thesis by (simp add: weightedPicks_smoothRun)
qed

lemma pickSmoothWeightedAuth_share_witness:
  "count_list (fst (weightedPicks exampleWeighted 2 [])) (Some (hd exampleWeighted)) \<le> 2"
proof -
  have "sum_list (map authWeight exampleWeighted) = 4" "authWeight (hd exampleWeighted) = 3" by code_simp+
  moreover have "hd exampleWeighted \<in> set exampleWeighted" by (simp add: exampleWeighted_def)
  ultimately show ?thesis
    using pickSmoothWeightedAuth_share [OF exampleWeighted_valid, of "hd exampleWeighted" 2] by simp
qed

section \<open>The accumulator map\<close>

lemma distinct_keys_fold_update:
  "distinct_keys m \<Longrightarrow> distinct_keys (fold (\<lambda>(k, v). AList.update k v) kvs m)"
  by (induction kvs arbitrary: m) (auto simp: distinct_keys_update)

lemma length_filter_keys_le:
  assumes "distinct_keys m"
  shows "length (filter (\<lambda>(k, _). map_of w k \<noteq> None) m) \<le> length w"
proof -
  let ?m = "filter (\<lambda>(k, _). map_of w k \<noteq> None) m"
  have "distinct_keys ?m" using assms by (rule distinct_map_filter)
  then have "length ?m = card (keys ?m)" by (metis distinct_card length_map set_map)
  also have "\<dots> \<le> card (keys w)"
    by (intro card_mono) (force simp: map_of_eq_None_iff)+
  also have "\<dots> \<le> length w" by (metis card_length length_map set_map)
  finally show ?thesis .
qed

text \<open>
  After every synchronisation the accumulator maps hold at most 1024 entries, or as many
  as there are current candidates: credentials removed for good cannot leak entries.
\<close>

lemma prepare_bounded:
  assumes "distinct_keys (the_map (sw_current s))" and "distinct_keys (the_map (sw_weights s))"
  shows "length (the_map (sw_current (prepare weights s))) \<le> max 1024 (length weights)
    \<and> length (the_map (sw_weights (prepare weights s))) \<le> max 1024 (length weights)"
proof -
  have prune: "length (the_map (sw_current (pruneStale weights t))) \<le> max 1024 (length weights)
      \<and> length (the_map (sw_weights (pruneStale weights t))) \<le> max 1024 (length weights)"
    if "distinct_keys (the_map (sw_current t))" "distinct_keys (the_map (sw_weights t))" for t
    using that length_filter_keys_le [of _ weights]
    by (auto simp: pruneStale_def maxSmoothWeightedStateEntries_def le_max_iff_disj split: option.splits)
  show ?thesis
    unfolding prepare_def Let_def
    by (rule prune) (use assms in \<open>auto simp: distinct_keys_fold_update split: option.splits\<close>)
qed

theorem prepare_bounded_witness:
  "length (the_map (sw_current (prepare [(''a'', 1)] zero_smoothWeightedState))) \<le> 1024"
  using prepare_bounded [of zero_smoothWeightedState "[(''a'', 1)]"]
  by (simp add: zero_smoothWeightedState_def)

text \<open>A candidate keeps its credit across synchronisations unless its weight was reconfigured.\<close>

lemma prepare_keeps_credit:
  assumes "sw_current s = Some current" and "\<not> weightsConfigChanged (the_map (sw_weights s)) weights"
    and "map_of weights k \<noteq> None"
  shows "map_of (the_map (sw_current (prepare weights s))) k = map_of current k"
proof -
  have "map_of (filter (\<lambda>(authID, _). map_of weights authID \<noteq> None) current) k = map_of current k"
    using assms(3) map_of_filter_keys [of "\<lambda>k. map_of weights k \<noteq> None" current k] by simp
  with assms show ?thesis by (simp add: prepare_def pruneStale_def Let_def)
qed

end
