(* ===== verification/Selectors.thy ===== *)
theory Selectors
  imports Smooth_Weighted
begin

text \<open>
  The built-in selectors of \<^verbatim>\<open>sdk/cliproxy/auth/selector.go\<close>: the availability pass
  (\<open>collectAvailableByPriority\<close> and what follows it), \<open>RoundRobinSelector\<close>,
  \<open>WeightedRoundRobinSelector\<close> and \<open>FillFirstSelector\<close>.

  The context values the selectors read become fields of \<open>pick_ctx\<close>; \<open>time.Now()\<close> is the
  argument \<open>now\<close>. The slices hold no nil credential. What every selector promises is the
  locale \<open>selector\<close>, which the three implementations interpret and on which session
  affinity is built.
\<close>

section \<open>Errors and context\<close>

record modelCooldownError =
  mce_model :: string
  mce_resetIn :: duration
  mce_provider :: string
  mce_quotaLimited :: bool

datatype sel_error = ErrAuth Error | ErrCooldown modelCooldownError

definition newModelCooldownError :: "string \<Rightarrow> string \<Rightarrow> duration \<Rightarrow> modelCooldownError" where
  "newModelCooldownError model provider resetIn =
     \<lparr>mce_model = model, mce_resetIn = (if resetIn < 0 then 0 else resetIn),
      mce_provider = provider, mce_quotaLimited = False\<rparr>"

definition mce_RetryAfter :: "modelCooldownError \<Rightarrow> duration option" where
  "mce_RetryAfter e = (if mce_resetIn e \<le> 0 then None else Some (mce_resetIn e))"

definition authError :: "string \<Rightarrow> string \<Rightarrow> sel_error" where
  "authError code message =
     ErrAuth \<lparr>e_Code = code, e_Message = message, e_Retryable = False, e_HTTPStatus = 0\<rparr>"

definition IsQuotaCooldownError :: "sel_error \<Rightarrow> bool" where
  "IsQuotaCooldownError err = (case err of ErrCooldown e \<Rightarrow> mce_quotaLimited e | ErrAuth _ \<Rightarrow> False)"

text \<open>
  \<open>pc_prevalidated\<close> is the value under \<open>prevalidatedAuthCandidatesKey\<close>, \<open>pc_websocket\<close> is
  \<open>DownstreamWebsocket\<close>, \<open>pc_routeModel\<close> the value under \<open>weightedSelectorStateModelKey\<close>.
\<close>

record pick_ctx =
  pc_prevalidated :: bool
  pc_websocket :: bool
  pc_routeModel :: "string option"

definition weightedSelectorStateModel :: "pick_ctx \<Rightarrow> string \<Rightarrow> string" where
  "weightedSelectorStateModel ctx availabilityModel =
     (case pc_routeModel ctx of
        Some routeModel \<Rightarrow> if TrimSpace routeModel \<noteq> [] then routeModel else availabilityModel
      | None \<Rightarrow> availabilityModel)"

definition withWeightedSelectorStateModel :: "pick_ctx \<Rightarrow> bool \<Rightarrow> string \<Rightarrow> pick_ctx" where
  "withWeightedSelectorStateModel ctx isWeighted routeModel =
     (if \<not> isWeighted \<or> TrimSpace routeModel = [] then ctx
      else ctx\<lparr>pc_routeModel := Some routeModel\<rparr>)"

section \<open>Availability of a candidate slice\<close>

definition preferCodexWebsocketAuths :: "pick_ctx \<Rightarrow> string \<Rightarrow> Auth list \<Rightarrow> Auth list" where
  "preferCodexWebsocketAuths ctx provider available =
     (if available = [] then available
      else if \<not> pc_websocket ctx then available
      else if \<not> EqualFold (TrimSpace provider) ''codex'' then available
      else let wsEnabled = filter authWebsocketsEnabled available
           in if wsEnabled \<noteq> [] then wsEnabled else available)"

record avail_acc =
  ac_available :: "(int, Auth list) gomap"
  ac_cooldownCount :: nat
  ac_quotaCount :: nat
  ac_earliest :: time

definition collectStep :: "token_env \<Rightarrow> string \<Rightarrow> time \<Rightarrow> Auth \<Rightarrow> avail_acc \<Rightarrow> avail_acc" where
  "collectStep env model now candidate acc =
     (case isAuthBlockedForModel env candidate model now of
        (blocked, reason, next) \<Rightarrow>
          if \<not> blocked then
            (let priority = authPriority candidate;
                 bucket = (case map_of (ac_available acc) priority of Some b \<Rightarrow> b | None \<Rightarrow> [])
             in acc\<lparr>ac_available := AList.update priority (bucket @ [candidate]) (ac_available acc)\<rparr>)
          else if reason = blockReasonCooldown then
            acc\<lparr>ac_cooldownCount := ac_cooldownCount acc + 1,
                ac_quotaCount := (if quotaCooldownForModel candidate model now next
                                  then ac_quotaCount acc + 1 else ac_quotaCount acc),
                ac_earliest := (if \<not> IsZero next \<and> (IsZero (ac_earliest acc) \<or> next < ac_earliest acc)
                                then next else ac_earliest acc)\<rparr>
          else acc)"

definition collectAvailableByPriority :: "token_env \<Rightarrow> Auth list \<Rightarrow> string \<Rightarrow> time \<Rightarrow> avail_acc" where
  "collectAvailableByPriority env auths model now =
     fold (collectStep env model now) auths
       \<lparr>ac_available = [], ac_cooldownCount = 0, ac_quotaCount = 0, ac_earliest = 0\<rparr>"

definition bestPriorityOf :: "int list \<Rightarrow> int" where
  "bestPriorityOf priorities =
     fst (fold (\<lambda>priority (best, found). if \<not> found \<or> priority > best then (priority, True) else (best, found))
       priorities (0, False))"

definition availableAuthsFromPriorityBuckets :: "(int, Auth list) gomap \<Rightarrow> bool \<Rightarrow> Auth list" where
  "availableAuthsFromPriorityBuckets availableByPriority allPriorities =
     (let candidates =
            (if allPriorities then concat (map snd availableByPriority)
             else case map_of availableByPriority (bestPriorityOf (map fst availableByPriority)) of
               Some bucket \<Rightarrow> bucket | None \<Rightarrow> [])
      in if length candidates > 1 then sort_key a_ID candidates else candidates)"

definition cooldownErrorFor :: "string \<Rightarrow> string \<Rightarrow> time \<Rightarrow> time \<Rightarrow> bool \<Rightarrow> sel_error" where
  "cooldownErrorFor provider model earliest now quotaLimited =
     (let providerForError = (if provider = ''mixed'' then [] else provider);
          resetIn = time_Sub earliest now;
          resetIn' = (if resetIn < 0 then 0 else resetIn)
      in ErrCooldown ((newModelCooldownError model providerForError resetIn')\<lparr>mce_quotaLimited := quotaLimited\<rparr>))"

definition getAvailableAuthsWithPriorityMode ::
  "token_env \<Rightarrow> Auth list \<Rightarrow> string \<Rightarrow> string \<Rightarrow> time \<Rightarrow> bool \<Rightarrow> sel_error + Auth list" where
  "getAvailableAuthsWithPriorityMode env auths provider model now allPriorities =
     (if auths = [] then Inl (authError ''auth_not_found'' ''no auth candidates'')
      else let acc = collectAvailableByPriority env auths model now in
        if ac_available acc = [] then
          (if ac_cooldownCount acc = length auths \<and> \<not> IsZero (ac_earliest acc) then
             Inl (cooldownErrorFor provider model (ac_earliest acc) now (ac_quotaCount acc = ac_cooldownCount acc))
           else Inl (authError ''auth_unavailable'' ''no auth available''))
        else Inr (availableAuthsFromPriorityBuckets (ac_available acc) allPriorities))"

definition highestPriorityAuths :: "Auth list \<Rightarrow> Auth list" where
  "highestPriorityAuths auths =
     (if length auths \<le> 1 then auths
      else
        let (bestPriority, bestCount) =
              fold (\<lambda>auth (bestPriority, bestCount).
                let priority = authPriority auth in
                if bestCount = 0 \<or> priority > bestPriority then (priority, 1)
                else if priority = bestPriority then (bestPriority, bestCount + 1)
                else (bestPriority, bestCount))
              auths (0, 0 :: nat)
        in if bestCount = length auths then auths
           else filter (\<lambda>auth. authPriority auth = bestPriority) auths)"

definition getSelectorAvailableAuthsWithPriorityMode ::
  "token_env \<Rightarrow> pick_ctx \<Rightarrow> Auth list \<Rightarrow> string \<Rightarrow> string \<Rightarrow> time \<Rightarrow> bool \<Rightarrow> sel_error + Auth list" where
  "getSelectorAvailableAuthsWithPriorityMode env ctx auths provider model now allPriorities =
     (if pc_prevalidated ctx \<and> auths \<noteq> [] then
        (if \<not> allPriorities then Inr (highestPriorityAuths auths) else Inr auths)
      else getAvailableAuthsWithPriorityMode env auths provider model now allPriorities)"

abbreviation getSelectorAvailableAuths where
  "getSelectorAvailableAuths env ctx auths provider model now \<equiv>
     getSelectorAvailableAuthsWithPriorityMode env ctx auths provider model now False"

abbreviation getSelectorAvailableAuthsAcrossPriorities where
  "getSelectorAvailableAuthsAcrossPriorities env ctx auths provider model now \<equiv>
     getSelectorAvailableAuthsWithPriorityMode env ctx auths provider model now True"

section \<open>RoundRobinSelector\<close>

record RoundRobinSelector =
  rr_lastPicked :: "(string, string) gomap"
  rr_maxKeys :: int

definition rotation_limit :: "int \<Rightarrow> int" where
  "rotation_limit maxKeys = (if maxKeys \<le> 0 then 4096 else maxKeys)"

definition successorIndex :: "Auth list \<Rightarrow> string \<Rightarrow> nat" where
  "successorIndex available lastID =
     (if lastID = [] then 0
      else let index = sort_Search (length available) (\<lambda>i. a_ID (available ! i) > lastID)
           in if index \<ge> length available then 0 else index)"

definition ensureRotationKey :: "string \<Rightarrow> int \<Rightarrow> RoundRobinSelector \<Rightarrow> RoundRobinSelector" where
  "ensureRotationKey key limit s =
     (if map_of (rr_lastPicked s) key = None \<and> int (length (rr_lastPicked s)) \<ge> limit
      then s\<lparr>rr_lastPicked := []\<rparr> else s)"

definition RoundRobin_Pick ::
  "token_env \<Rightarrow> pick_ctx \<Rightarrow> time \<Rightarrow> string \<Rightarrow> string \<Rightarrow> Auth list \<Rightarrow> RoundRobinSelector
    \<Rightarrow> (sel_error + Auth) \<times> RoundRobinSelector" where
  "RoundRobin_Pick env ctx now provider model auths s =
     (case getSelectorAvailableAuths env ctx auths provider model now of
        Inl err \<Rightarrow> (Inl err, s)
      | Inr available0 \<Rightarrow>
          let available = preferCodexWebsocketAuths ctx provider available0;
              key = provider @ '':'' @ canonicalModelKey model;
              s1 = ensureRotationKey key (rotation_limit (rr_maxKeys s)) s;
              picked = available ! successorIndex available (get_str (rr_lastPicked s1) key)
          in (Inr picked, s1\<lparr>rr_lastPicked := AList.update key (a_ID picked) (rr_lastPicked s1)\<rparr>))"

section \<open>WeightedRoundRobinSelector\<close>

record WeightedRoundRobinSelector =
  wr_states :: "(string, smoothWeightedState) gomap"
  wr_maxKeys :: int

definition positiveWeightAuths :: "Auth list \<Rightarrow> Auth list" where
  "positiveWeightAuths auths = filter (\<lambda>auth. authWeight auth > 0) auths"

definition WeightedRoundRobin_Pick ::
  "token_env \<Rightarrow> pick_ctx \<Rightarrow> time \<Rightarrow> string \<Rightarrow> string \<Rightarrow> Auth list \<Rightarrow> WeightedRoundRobinSelector
    \<Rightarrow> (sel_error + Auth) \<times> WeightedRoundRobinSelector" where
  "WeightedRoundRobin_Pick env ctx now provider model auths s =
     (case getSelectorAvailableAuths env ctx (positiveWeightAuths auths) provider model now of
        Inl err \<Rightarrow> (Inl err, s)
      | Inr available0 \<Rightarrow>
          let available = preferCodexWebsocketAuths ctx provider available0;
              key = provider @ '':'' @ canonicalModelKey (weightedSelectorStateModel ctx model);
              states = (if map_of (wr_states s) key = None
                           \<and> int (length (wr_states s)) \<ge> rotation_limit (wr_maxKeys s)
                        then [] else wr_states s);
              state0 = (case map_of states key of Some st \<Rightarrow> st | None \<Rightarrow> zero_smoothWeightedState);
              state1 = prepare (authWeightVector available) state0;
              (picked, current) = pickSmoothWeightedAuth available (the_map (sw_current state1));
              s' = s\<lparr>wr_states := AList.update key (state1\<lparr>sw_current := Some current\<rparr>) states\<rparr>
          in case picked of
               None \<Rightarrow> (Inl (authError ''auth_unavailable'' ''no auth available with positive weight''), s')
             | Some a \<Rightarrow> (Inr a, s'))"

section \<open>FillFirstSelector\<close>

definition FillFirst_Pick ::
  "token_env \<Rightarrow> pick_ctx \<Rightarrow> time \<Rightarrow> string \<Rightarrow> string \<Rightarrow> Auth list \<Rightarrow> unit \<Rightarrow> (sel_error + Auth) \<times> unit" where
  "FillFirst_Pick env ctx now provider model auths s =
     (case getSelectorAvailableAuths env ctx auths provider model now of
        Inl err \<Rightarrow> (Inl err, s)
      | Inr available0 \<Rightarrow> (Inr (preferCodexWebsocketAuths ctx provider available0 ! 0), s))"

section \<open>What the availability pass returns\<close>

definition unblocked :: "token_env \<Rightarrow> string \<Rightarrow> time \<Rightarrow> Auth \<Rightarrow> bool" where
  "unblocked env model now a \<longleftrightarrow> \<not> fst (isAuthBlockedForModel env a model now)"

lemma collectStep_unblocked:
  "unblocked env model now a \<Longrightarrow>
     collectStep env model now a acc =
       acc\<lparr>ac_available := AList.update (authPriority a)
         ((case map_of (ac_available acc) (authPriority a) of Some b \<Rightarrow> b | None \<Rightarrow> []) @ [a]) (ac_available acc)\<rparr>"
  by (cases "isAuthBlockedForModel env a model now") (simp add: collectStep_def unblocked_def Let_def)

lemma collectStep_blocked:
  "\<not> unblocked env model now a \<Longrightarrow> ac_available (collectStep env model now a acc) = ac_available acc"
  by (cases "isAuthBlockedForModel env a model now") (simp add: collectStep_def unblocked_def)

definition bucketOf :: "(int, Auth list) gomap \<Rightarrow> int \<Rightarrow> Auth list" where
  "bucketOf m p = (case map_of m p of Some b \<Rightarrow> b | None \<Rightarrow> [])"

definition buckets_ok :: "(int, Auth list) gomap \<Rightarrow> bool" where
  "buckets_ok m \<longleftrightarrow> distinct_keys m \<and> (\<forall>p. map_of m p \<noteq> Some [])"

lemma buckets_ok_update: "buckets_ok m \<Longrightarrow> b \<noteq> [] \<Longrightarrow> buckets_ok (AList.update p b m)"
  by (simp add: buckets_ok_def)

lemma collect_buckets:
  assumes "buckets_ok (ac_available acc)"
  shows "buckets_ok (ac_available (fold (collectStep env model now) auths acc))
    \<and> (\<forall>p. bucketOf (ac_available (fold (collectStep env model now) auths acc)) p =
         bucketOf (ac_available acc) p @ filter (\<lambda>a. unblocked env model now a \<and> authPriority a = p) auths)"
  using assms
proof (induction auths arbitrary: acc)
  case Nil
  then show ?case by simp
next
  case (Cons a auths)
  show ?case
  proof (cases "unblocked env model now a")
    case True
    let ?acc = "collectStep env model now a acc"
    have "buckets_ok (ac_available ?acc)"
      using Cons.prems by (simp add: collectStep_unblocked [OF True] buckets_ok_update)
    from Cons.IH [OF this] show ?thesis
      using True by (auto simp: collectStep_unblocked bucketOf_def)
  next
    case False
    with Cons.IH [of "collectStep env model now a acc"] Cons.prems show ?thesis
      by (simp add: collectStep_blocked bucketOf_def)
  qed
qed

lemma Max_absorb: "finite S \<Longrightarrow> b \<le> a \<Longrightarrow> Max (insert a (insert b S)) = Max (insert a (S :: int set))"
  by (cases "S = {}") (simp_all add: max.assoc [symmetric] max_absorb1)

lemma bestPriorityOf_Max: "xs \<noteq> [] \<Longrightarrow> bestPriorityOf xs = Max (set xs)"
proof -
  have acc: "fold (\<lambda>p (best, found). if \<not> found \<or> p > best then (p, True) else (best, found)) xs (b, True)
      = (Max (insert b (set xs)), True)" for b and xs :: "int list"
  proof (induction xs arbitrary: b)
    case (Cons a xs)
    then show ?case
      using Max_absorb [of "set xs" a b] Max_absorb [of "set xs" b a] by (simp add: insert_commute)
  qed simp
  assume "xs \<noteq> []"
  then obtain a ys where "xs = a # ys" by (cases xs) auto
  with acc [of ys a] show ?thesis unfolding bestPriorityOf_def by simp
qed

definition topPriority :: "Auth list \<Rightarrow> Auth \<Rightarrow> bool" where
  "topPriority auths a \<longleftrightarrow> (\<forall>b \<in> set auths. authPriority b \<le> authPriority a)"

definition maxPriority :: "Auth list \<Rightarrow> int" where
  "maxPriority auths = Max (authPriority ` set auths)"

lemma maxPriority_snoc:
  "xs \<noteq> [] \<Longrightarrow> maxPriority (xs @ [x]) = max (authPriority x) (maxPriority xs)"
  by (simp add: maxPriority_def)

lemma maxPriority_ge: "a \<in> set xs \<Longrightarrow> authPriority a \<le> maxPriority xs"
  by (simp add: maxPriority_def)

lemma maxPriority_attained: "xs \<noteq> [] \<Longrightarrow> \<exists>m \<in> set xs. authPriority m = maxPriority xs"
proof -
  assume "xs \<noteq> []"
  then have "maxPriority xs \<in> authPriority ` set xs" unfolding maxPriority_def by (intro Max_in) auto
  then show ?thesis by auto
qed

lemma topPriority_iff: "a \<in> set xs \<Longrightarrow> topPriority xs a \<longleftrightarrow> authPriority a = maxPriority xs"
proof -
  assume a: "a \<in> set xs"
  then have "maxPriority xs \<in> authPriority ` set xs" unfolding maxPriority_def by (intro Max_in) auto
  then show ?thesis
    using a maxPriority_ge [of _ xs] unfolding topPriority_def by (auto intro: antisym)
qed

lemma highestPriorityAuths_fold:
  "xs \<noteq> [] \<Longrightarrow>
    fold (\<lambda>auth (bestPriority, bestCount).
       let priority = authPriority auth in
       if bestCount = 0 \<or> priority > bestPriority then (priority, 1)
       else if priority = bestPriority then (bestPriority, bestCount + 1)
       else (bestPriority, bestCount)) xs (0, 0 :: nat)
    = (maxPriority xs, length (filter (\<lambda>a. authPriority a = maxPriority xs) xs))"
proof (induction xs rule: rev_induct)
  case (snoc x xs)
  show ?case
  proof (cases "xs = []")
    case True
    then show ?thesis by (simp add: maxPriority_def Let_def)
  next
    case False
    obtain m where m: "m \<in> set xs" "authPriority m = maxPriority xs"
      using maxPriority_attained [OF False] by blast
    then have pos: "filter (\<lambda>a. authPriority a = maxPriority xs) xs \<noteq> []" by (auto simp: filter_empty_conv)
    have none: "filter (\<lambda>a. authPriority a = p) xs = []" if "maxPriority xs < p" for p
      using that maxPriority_ge [of _ xs] by (force simp: filter_empty_conv)
    show ?thesis
      using snoc.IH [OF False] pos none by (auto simp: Let_def maxPriority_snoc [OF False] max_def)
  qed
qed simp

lemma highestPriorityAuths_spec:
  assumes "auths \<noteq> []"
  shows "highestPriorityAuths auths = filter (topPriority auths) auths"
proof -
  have eq: "filter (topPriority auths) auths = filter (\<lambda>a. authPriority a = maxPriority auths) auths"
    by (intro filter_cong) (auto simp: topPriority_iff)
  show ?thesis
  proof (cases "length auths \<le> 1")
    case True
    with assms obtain a where "auths = [a]" by (cases auths) auto
    then show ?thesis by (simp add: highestPriorityAuths_def topPriority_def)
  next
    case False
    then show ?thesis
      unfolding highestPriorityAuths_def highestPriorityAuths_fold [OF assms] eq
      by (auto simp: filter_id_conv) (metis filter_True length_filter_conv_card length_filter_less nat_neq_iff)
  qed
qed

lemma getAvailable_Inr:
  assumes "getAvailableAuthsWithPriorityMode env auths provider model now allPriorities = Inr av"
  defines "U \<equiv> filter (unblocked env model now) auths"
  shows "set av = {a \<in> set U. allPriorities \<or> topPriority U a}" and "sorted (map a_ID av)" and "av \<noteq> []"
    and "\<not> allPriorities \<Longrightarrow> distinct (map a_ID auths) \<Longrightarrow> distinct (map a_ID av)"
proof -
  define m where "m = ac_available (collectAvailableByPriority env auths model now)"
  have ok: "buckets_ok m" and bk: "\<And>p. bucketOf m p = filter (\<lambda>a. authPriority a = p) U"
    using collect_buckets [of "\<lparr>ac_available = [], ac_cooldownCount = 0, ac_quotaCount = 0, ac_earliest = 0\<rparr>"]
    by (auto simp: m_def collectAvailableByPriority_def U_def buckets_ok_def bucketOf_def conj_commute)
  have ne: "m \<noteq> []" and av: "av = availableAuthsFromPriorityBuckets m allPriorities"
    using assms(1) by (auto simp: getAvailableAuthsWithPriorityMode_def m_def Let_def split: if_splits)
  have mem: "(p, b) \<in> set m \<longleftrightarrow> b \<noteq> [] \<and> b = filter (\<lambda>a. authPriority a = p) U" for p b
  proof -
    have "(p, b) \<in> set m \<longleftrightarrow> map_of m p = Some b"
      using ok by (auto simp: buckets_ok_def)
    also have "\<dots> \<longleftrightarrow> b \<noteq> [] \<and> bucketOf m p = b"
      using ok by (cases "map_of m p") (auto simp: buckets_ok_def bucketOf_def)
    finally show ?thesis using bk by auto
  qed
  have keysU: "keys m = authPriority ` set U"
  proof
    show "keys m \<subseteq> authPriority ` set U" by (auto simp: mem filter_empty_conv)
    show "authPriority ` set U \<subseteq> keys m"
    proof
      fix p
      assume "p \<in> authPriority ` set U"
      then have "(p, filter (\<lambda>a. authPriority a = p) U) \<in> set m" by (auto simp: mem filter_empty_conv)
      then show "p \<in> keys m" by force
    qed
  qed
  have best: "bestPriorityOf (map fst m) = maxPriority U"
    using ne keysU by (simp add: bestPriorityOf_Max maxPriority_def)
  define c where "c = (if allPriorities then concat (map snd m) else bucketOf m (maxPriority U))"
  have avc: "av = (if length c > 1 then sort_key a_ID c else c)"
    unfolding av availableAuthsFromPriorityBuckets_def best c_def bucketOf_def Let_def by simp
  have "distinct (map a_ID c)" if "\<not> allPriorities" "distinct (map a_ID auths)"
    using that by (simp add: c_def bk U_def distinct_map_filter)
  then show "\<not> allPriorities \<Longrightarrow> distinct (map a_ID auths) \<Longrightarrow> distinct (map a_ID av)"
    unfolding avc by (auto simp: distinct_map)
  have setc: "set c = {a \<in> set U. allPriorities \<or> topPriority U a}"
  proof (cases allPriorities)
    case True
    have "set (concat (map snd m)) = set U"
    proof
      show "set (concat (map snd m)) \<subseteq> set U" by (auto simp: mem)
      show "set U \<subseteq> set (concat (map snd m))"
      proof
        fix a
        assume "a \<in> set U"
        then have "(authPriority a, filter (\<lambda>b. authPriority b = authPriority a) U) \<in> set m"
          and "a \<in> set (filter (\<lambda>b. authPriority b = authPriority a) U)" by (auto simp: mem filter_empty_conv)
        then show "a \<in> set (concat (map snd m))" by force
      qed
    qed
    with True show ?thesis by (simp add: c_def)
  next
    case False
    then show ?thesis using topPriority_iff [of _ U] by (auto simp: c_def bk)
  qed
  show "set av = {a \<in> set U. allPriorities \<or> topPriority U a}" using avc setc by simp
  show "sorted (map a_ID av)"
    using avc by (cases c; cases "tl c") (auto simp del: sort_key_simps)
  have "U \<noteq> []" using ne keysU by auto
  then obtain a where "a \<in> set U" "topPriority U a"
    using maxPriority_attained [of U] topPriority_iff [of _ U] by blast
  then have "a \<in> set av" using setc avc by simp
  then show "av \<noteq> []" by auto
qed

lemma getAvailable_iff:
  "(\<exists>av. getAvailableAuthsWithPriorityMode env auths provider model now allPriorities = Inr av)
   \<longleftrightarrow> (\<exists>a \<in> set auths. unblocked env model now a)"
proof -
  define m where "m = ac_available (collectAvailableByPriority env auths model now)"
  have bk: "buckets_ok m" "bucketOf m p = filter (\<lambda>a. unblocked env model now a \<and> authPriority a = p) auths" for p
    using collect_buckets [of "\<lparr>ac_available = [], ac_cooldownCount = 0, ac_quotaCount = 0, ac_earliest = 0\<rparr>"]
    by (auto simp: m_def collectAvailableByPriority_def buckets_ok_def bucketOf_def)
  have "m = [] \<longleftrightarrow> (\<forall>p. bucketOf m p = [])"
  proof
    assume nil: "\<forall>p. bucketOf m p = []"
    show "m = []"
    proof (rule ccontr)
      assume "m \<noteq> []"
      then obtain p b m' where "m = (p, b) # m'" by (cases m) auto
      with bk(1) nil show False by (auto simp: buckets_ok_def bucketOf_def split: if_splits)
    qed
  qed (simp add: bucketOf_def)
  also have "\<dots> \<longleftrightarrow> \<not> (\<exists>a \<in> set auths. unblocked env model now a)"
    by (auto simp: bk(2) filter_empty_conv)
  finally show ?thesis
    by (auto simp: getAvailableAuthsWithPriorityMode_def m_def Let_def)
qed

section \<open>The contract of a selector\<close>

definition available_to :: "token_env \<Rightarrow> pick_ctx \<Rightarrow> string \<Rightarrow> time \<Rightarrow> Auth \<Rightarrow> bool" where
  "available_to env ctx model now a \<longleftrightarrow> pc_prevalidated ctx \<or> unblocked env model now a"

text \<open>
  \<open>usable\<close> is the selector's own restriction (a positive weight for the weighted one). A pick
  succeeds exactly when some candidate is usable and available, and then returns one of
  the highest priority among those.
\<close>

definition pick_correct ::
  "token_env \<Rightarrow> (Auth \<Rightarrow> bool) \<Rightarrow> pick_ctx \<Rightarrow> string \<Rightarrow> time \<Rightarrow> Auth list \<Rightarrow> sel_error + Auth \<Rightarrow> bool" where
  "pick_correct env usable ctx model now auths r =
     (case r of
        Inl e \<Rightarrow> \<not> (\<exists>a \<in> set auths. usable a \<and> available_to env ctx model now a)
      | Inr a \<Rightarrow> a \<in> set auths \<and> usable a \<and> available_to env ctx model now a
          \<and> (\<forall>b \<in> set auths. usable b \<and> available_to env ctx model now b \<longrightarrow> authPriority b \<le> authPriority a))"

locale selector =
  fixes pick :: "pick_ctx \<Rightarrow> time \<Rightarrow> string \<Rightarrow> string \<Rightarrow> Auth list \<Rightarrow> 's \<Rightarrow> (sel_error + Auth) \<times> 's"
    and env :: token_env
    and usable :: "Auth \<Rightarrow> bool"
  assumes pick_sound:
      "pick ctx now provider model auths s = (Inr a, s') \<Longrightarrow>
         a \<in> set auths \<and> usable a \<and> available_to env ctx model now a"
    and pick_top:
      "pick ctx now provider model auths s = (Inr a, s') \<Longrightarrow> b \<in> set auths \<Longrightarrow> usable b \<Longrightarrow>
         available_to env ctx model now b \<Longrightarrow> authPriority b \<le> authPriority a"
    and pick_complete:
      "b \<in> set auths \<Longrightarrow> usable b \<Longrightarrow> available_to env ctx model now b \<Longrightarrow>
         \<exists>a s'. pick ctx now provider model auths s = (Inr a, s')"
begin

lemma picks_correct: "pick_correct env usable ctx model now auths (fst (pick ctx now provider model auths s))"
proof -
  obtain r s' where r: "pick ctx now provider model auths s = (r, s')"
    by (cases "pick ctx now provider model auths s")
  show ?thesis
  proof (cases r)
    case (Inl e)
    with r pick_complete [of _ auths ctx model now provider s] show ?thesis
      by (auto simp: pick_correct_def)
  next
    case (Inr a)
    with r pick_sound pick_top show ?thesis by (auto simp: pick_correct_def)
  qed
qed

end

lemma getSelectorAvailableAuths_Inr:
  assumes "getSelectorAvailableAuths env ctx auths provider model now = Inr av"
  shows "av \<noteq> []" and "a \<in> set av \<Longrightarrow> a \<in> set auths \<and> available_to env ctx model now a"
    and "a \<in> set av \<Longrightarrow> b \<in> set auths \<Longrightarrow> available_to env ctx model now b \<Longrightarrow> authPriority b \<le> authPriority a"
proof -
  have "av \<noteq> [] \<and> set av \<subseteq> {a \<in> set auths. available_to env ctx model now a}
    \<and> (\<forall>a \<in> set av. \<forall>b \<in> set auths. available_to env ctx model now b \<longrightarrow> authPriority b \<le> authPriority a)"
  proof (cases "pc_prevalidated ctx \<and> auths \<noteq> []")
    case True
    with assms have av: "av = filter (topPriority auths) auths"
      by (simp add: getSelectorAvailableAuthsWithPriorityMode_def highestPriorityAuths_spec)
    moreover have "av \<noteq> []"
      using True maxPriority_attained [of auths] topPriority_iff [of _ auths] by (auto simp: av filter_empty_conv)
    ultimately show ?thesis using True by (auto simp: available_to_def topPriority_def)
  next
    case False
    with assms have "getAvailableAuthsWithPriorityMode env auths provider model now False = Inr av"
      by (simp add: getSelectorAvailableAuthsWithPriorityMode_def split: if_splits)
    note av = getAvailable_Inr [OF this]
    have "auths \<noteq> []" using av(1,3) by (cases av) auto
    with False av show ?thesis by (auto simp: available_to_def topPriority_def)
  qed
  then show "av \<noteq> []" and "a \<in> set av \<Longrightarrow> a \<in> set auths \<and> available_to env ctx model now a"
    and "a \<in> set av \<Longrightarrow> b \<in> set auths \<Longrightarrow> available_to env ctx model now b \<Longrightarrow> authPriority b \<le> authPriority a"
    by auto
qed

lemma getSelectorAvailableAuths_complete:
  "b \<in> set auths \<Longrightarrow> available_to env ctx model now b \<Longrightarrow>
     \<exists>av. getSelectorAvailableAuthsWithPriorityMode env ctx auths provider model now allP = Inr av"
  using getAvailable_iff [of env auths provider model now allP]
  by (auto simp: getSelectorAvailableAuthsWithPriorityMode_def available_to_def)

lemma preferCodexWebsocketAuths_sub:
  "set (preferCodexWebsocketAuths ctx provider av) \<subseteq> set av"
  "preferCodexWebsocketAuths ctx provider av = [] \<longleftrightarrow> av = []"
  by (auto simp: preferCodexWebsocketAuths_def Let_def)

lemma successorIndex_less: "av \<noteq> [] \<Longrightarrow> successorIndex av lastID < length av"
  by (simp add: successorIndex_def Let_def)

interpretation rr: selector "RoundRobin_Pick env" env "\<lambda>_. True" for env
proof unfold_locales
  fix ctx now provider model auths s a s' b
  assume pick: "RoundRobin_Pick env ctx now provider model auths s = (Inr a, s')"
  then obtain av x where av: "getSelectorAvailableAuths env ctx auths provider model now = Inr av"
    and a: "a = preferCodexWebsocketAuths ctx provider av ! successorIndex (preferCodexWebsocketAuths ctx provider av) x"
    by (auto simp: RoundRobin_Pick_def Let_def split: sum.splits)
  have "preferCodexWebsocketAuths ctx provider av \<noteq> []"
    using getSelectorAvailableAuths_Inr(1) [OF av] by (simp add: preferCodexWebsocketAuths_sub)
  then have "a \<in> set av"
    unfolding a using preferCodexWebsocketAuths_sub(1) nth_mem [OF successorIndex_less] by blast
  with getSelectorAvailableAuths_Inr [OF av]
  show "a \<in> set auths \<and> True \<and> available_to env ctx model now a"
    and "b \<in> set auths \<Longrightarrow> True \<Longrightarrow> available_to env ctx model now b \<Longrightarrow> authPriority b \<le> authPriority a"
    by auto
next
  fix b auths ctx model now provider s
  assume "b \<in> set auths" and "available_to env ctx model now b"
  then obtain av where "getSelectorAvailableAuths env ctx auths provider model now = Inr av"
    using getSelectorAvailableAuths_complete by blast
  then show "\<exists>a s'. RoundRobin_Pick env ctx now provider model auths s = (Inr a, s')"
    by (simp add: RoundRobin_Pick_def Let_def)
qed

interpretation ff: selector "FillFirst_Pick env" env "\<lambda>_. True" for env
proof unfold_locales
  fix ctx now provider model auths s a s' b
  assume "FillFirst_Pick env ctx now provider model auths s = (Inr a, s')"
  then obtain av where av: "getSelectorAvailableAuths env ctx auths provider model now = Inr av"
    and "a = preferCodexWebsocketAuths ctx provider av ! 0"
    by (auto simp: FillFirst_Pick_def split: sum.splits)
  moreover have "preferCodexWebsocketAuths ctx provider av \<noteq> []"
    using getSelectorAvailableAuths_Inr(1) [OF av] by (simp add: preferCodexWebsocketAuths_sub)
  ultimately have a: "a \<in> set av" using preferCodexWebsocketAuths_sub(1) nth_mem by blast
  with getSelectorAvailableAuths_Inr [OF av]
  show "a \<in> set auths \<and> True \<and> available_to env ctx model now a"
    and "b \<in> set auths \<Longrightarrow> True \<Longrightarrow> available_to env ctx model now b \<Longrightarrow> authPriority b \<le> authPriority a"
    by auto
next
  fix b auths ctx model now provider s
  assume "b \<in> set auths" and "available_to env ctx model now b"
  then show "\<exists>a s'. FillFirst_Pick env ctx now provider model auths s = (Inr a, s')"
    using getSelectorAvailableAuths_complete [of b auths env ctx model now provider False]
    by (auto simp: FillFirst_Pick_def)
qed

lemma Weighted_Pick_shape:
  assumes "getSelectorAvailableAuths env ctx (positiveWeightAuths auths) provider model now = Inr av"
  obtains current s' where "WeightedRoundRobin_Pick env ctx now provider model auths s =
    (case fst (pickSmoothWeightedAuth (preferCodexWebsocketAuths ctx provider av) current) of
       None \<Rightarrow> (Inl (authError ''auth_unavailable'' ''no auth available with positive weight''), s')
     | Some a \<Rightarrow> (Inr a, s'))"
  using assms that by (simp add: WeightedRoundRobin_Pick_def Let_def case_prod_beta)

lemma Weighted_Pick_Inr:
  assumes "WeightedRoundRobin_Pick env ctx now provider model auths s = (Inr a, s')"
  obtains av where "getSelectorAvailableAuths env ctx (positiveWeightAuths auths) provider model now = Inr av"
    and "a \<in> set av"
proof -
  obtain av where av: "getSelectorAvailableAuths env ctx (positiveWeightAuths auths) provider model now = Inr av"
    using assms by (auto simp: WeightedRoundRobin_Pick_def split: sum.splits)
  then obtain current where "fst (pickSmoothWeightedAuth (preferCodexWebsocketAuths ctx provider av) current) = Some a"
    by (rule Weighted_Pick_shape [of env ctx auths provider model now av s]) (use assms in \<open>auto split: option.splits\<close>)
  then have "a \<in> set av"
    using smoothPick_member [of a_ID authWeight
        "filter (\<lambda>auth. authWeight auth > 0) (preferCodexWebsocketAuths ctx provider av)" current]
      preferCodexWebsocketAuths_sub(1) [of ctx provider av]
    unfolding pickSmoothWeightedAuth_def by auto
  with av that show thesis by blast
qed

interpretation wrr: selector "WeightedRoundRobin_Pick env" env "\<lambda>a. authWeight a > 0" for env
proof unfold_locales
  fix ctx now provider model auths s a s' b
  assume "WeightedRoundRobin_Pick env ctx now provider model auths s = (Inr a, s')"
  then obtain av where "getSelectorAvailableAuths env ctx (positiveWeightAuths auths) provider model now = Inr av"
    and "a \<in> set av" by (rule Weighted_Pick_Inr)
  with getSelectorAvailableAuths_Inr(2,3) [of env ctx "positiveWeightAuths auths" provider model now av a]
  show "a \<in> set auths \<and> 0 < authWeight a \<and> available_to env ctx model now a"
    and "b \<in> set auths \<Longrightarrow> 0 < authWeight b \<Longrightarrow> available_to env ctx model now b \<Longrightarrow> authPriority b \<le> authPriority a"
    by (auto simp: positiveWeightAuths_def)
next
  fix b auths ctx model now provider s
  assume b: "b \<in> set auths" "0 < authWeight b" "available_to env ctx model now b"
  then obtain av where av: "getSelectorAvailableAuths env ctx (positiveWeightAuths auths) provider model now = Inr av"
    using getSelectorAvailableAuths_complete [of b "positiveWeightAuths auths" env ctx model now provider False]
    by (auto simp: positiveWeightAuths_def)
  let ?ws = "preferCodexWebsocketAuths ctx provider av"
  have "?ws \<noteq> []" and "\<forall>a \<in> set ?ws. 0 < authWeight a"
    using getSelectorAvailableAuths_Inr [OF av] preferCodexWebsocketAuths_sub [of ctx provider av]
    by (auto simp: positiveWeightAuths_def)
  then have "filter (\<lambda>a. 0 < authWeight a) ?ws \<noteq> []" by (cases ?ws) auto
  then have some: "fst (pickSmoothWeightedAuth ?ws current) \<noteq> None" for current
    using smoothPick_member [of a_ID authWeight] unfolding pickSmoothWeightedAuth_def by blast
  show "\<exists>a s'. WeightedRoundRobin_Pick env ctx now provider model auths s = (Inr a, s')"
    by (rule Weighted_Pick_shape [OF av, of s]) (use some in \<open>auto split: option.splits\<close>)
qed

section \<open>Properties of the selectors\<close>

text \<open>
  C9: each built-in selector answers with an error exactly when no candidate is usable
  and available now; otherwise it answers with an available candidate, and no available candidate has a
  higher priority.
\<close>

theorem selectors_contract:
  "pick_correct env (\<lambda>_. True) ctx model now auths (fst (RoundRobin_Pick env ctx now provider model auths s))
   \<and> pick_correct env (\<lambda>_. True) ctx model now auths (fst (FillFirst_Pick env ctx now provider model auths u))
   \<and> pick_correct env (\<lambda>a. authWeight a > 0) ctx model now auths
        (fst (WeightedRoundRobin_Pick env ctx now provider model auths w))"
  by (intro conjI rr.picks_correct ff.picks_correct wrr.picks_correct)

text \<open>The successor search finds the next identifier in the ring.\<close>

lemma successorIndex_next:
  assumes "sorted (map a_ID av)" and "distinct (map a_ID av)" and "i < length av" and "a_ID (av ! i) \<noteq> []"
  shows "successorIndex av (a_ID (av ! i)) = Suc i mod length av"
proof -
  let ?f = "\<lambda>k. a_ID (av ! k) > a_ID (av ! i)"
  have f: "?f k \<longleftrightarrow> i < k" if "k < length av" for k
  proof -
    have "i < k \<Longrightarrow> ?f k"
      using sorted_map_nth_mono [OF assms(1), of i k] that assms(2) nth_eq_iff_index_eq [OF assms(2), of i k] assms(3)
      by (simp add: order.strict_iff_order)
    moreover have "k \<le> i \<Longrightarrow> \<not> ?f k"
      using sorted_map_nth_mono [OF assms(1), of k i] assms(3) by (simp add: not_less)
    ultimately show ?thesis by (cases "i < k") auto
  qed
  have mono: "\<And>a b. a \<le> b \<Longrightarrow> b < length av \<Longrightarrow> ?f a \<Longrightarrow> ?f b" using f by fastforce
  define r where "r = sort_Search (length av) ?f"
  have "r \<le> length av" unfolding r_def by (rule sort_Search_spec(1)) (rule mono)
  moreover have "\<not> ?f k" if "k < r" for k
    using that unfolding r_def by (rule sort_Search_spec(2) [rotated]) (rule mono)
  moreover have "?f k" if "r \<le> k" "k < length av" for k
    using that unfolding r_def by (rule sort_Search_spec(3) [rotated]) (rule mono)
  ultimately have r: "r = Suc i"
    using f assms(3) by (metis Suc_lessI le_less_Suc_eq lessI less_irrefl not_less order_less_le_trans)
  show ?thesis
    using assms(3,4) unfolding successorIndex_def r_def [symmetric] r Let_def by (cases "Suc i = length av") auto
qed

text \<open>A sequence of picks at the given times over the same candidates.\<close>

fun rrPicks ::
  "token_env \<Rightarrow> pick_ctx \<Rightarrow> string \<Rightarrow> string \<Rightarrow> Auth list \<Rightarrow> time list \<Rightarrow> RoundRobinSelector \<Rightarrow> (sel_error + Auth) list" where
  "rrPicks env ctx provider model auths [] s = []"
| "rrPicks env ctx provider model auths (now # nows) s =
     (case RoundRobin_Pick env ctx now provider model auths s of
        (r, s') \<Rightarrow> r # rrPicks env ctx provider model auths nows s')"

lemma rrPicks_ring:
  assumes "\<forall>now \<in> set nows. getSelectorAvailableAuths env ctx auths provider model now = Inr av0"
    and "av = preferCodexWebsocketAuths ctx provider av0"
    and "sorted (map a_ID av)" and "distinct (map a_ID av)" and "\<forall>a \<in> set av. a_ID a \<noteq> []"
    and "i < length av"
    and "map_of (rr_lastPicked s) (provider @ '':'' @ canonicalModelKey model) = Some (a_ID (av ! i))"
  shows "rrPicks env ctx provider model auths nows s =
    map (\<lambda>j. Inr (av ! ((i + Suc j) mod length av))) [0..<length nows]"
  using assms(1,6,7)
proof (induction nows arbitrary: i s)
  case Nil
  then show ?case by simp
next
  case (Cons now nows)
  let ?key = "provider @ '':'' @ canonicalModelKey model" and ?i = "Suc i mod length av"
  let ?s = "s\<lparr>rr_lastPicked := AList.update ?key (a_ID (av ! ?i)) (rr_lastPicked s)\<rparr>"
  have nz: "a_ID (av ! i) \<noteq> []" using assms(5) Cons.prems(2) by simp
  have lt: "?i < length av" by (rule mod_less_divisor) (use Cons.prems(2) in linarith)
  have "RoundRobin_Pick env ctx now provider model auths s = (Inr (av ! ?i), ?s)"
    using Cons.prems assms(2) successorIndex_next [OF assms(3,4) Cons.prems(2) nz]
    by (simp add: RoundRobin_Pick_def ensureRotationKey_def get_str_def Let_def)
  moreover have "rrPicks env ctx provider model auths nows ?s =
      map (\<lambda>j. Inr (av ! ((?i + Suc j) mod length av))) [0..<length nows]"
    using Cons.prems lt by (intro Cons.IH) auto
  moreover have "(?i + Suc j) mod length av = (i + Suc (Suc j)) mod length av" for j
    using mod_add_left_eq [of "Suc i" "length av" "Suc j"] by simp
  ultimately show ?case
    by (simp add: upt_conv_Cons map_Suc_upt [symmetric] del: upt_Suc)
qed

lemma getSelectorAvailableAuths_sorted:
  assumes "getSelectorAvailableAuths env ctx auths provider model now = Inr av0"
    and "distinct (map a_ID auths)" and "pc_prevalidated ctx \<longrightarrow> sorted (map a_ID auths)"
  defines "av \<equiv> preferCodexWebsocketAuths ctx provider av0"
  shows "sorted (map a_ID av)" and "distinct (map a_ID av)" and "av \<noteq> []" and "set av \<subseteq> set auths"
proof -
  have filt: "sorted (map a_ID (filter P xs))" if "sorted (map a_ID xs)" for P and xs :: "Auth list"
    using that by (rule sorted_filter)
  have "sorted (map a_ID av0) \<and> distinct (map a_ID av0)"
  proof (cases "pc_prevalidated ctx \<and> auths \<noteq> []")
    case True
    then have "av0 = filter (topPriority auths) auths"
      using assms(1) by (simp add: getSelectorAvailableAuthsWithPriorityMode_def highestPriorityAuths_spec)
    then show ?thesis using assms(2,3) True filt by (auto simp: distinct_map_filter)
  next
    case False
    then have "getAvailableAuthsWithPriorityMode env auths provider model now False = Inr av0"
      using assms(1) by (simp add: getSelectorAvailableAuthsWithPriorityMode_def split: if_splits)
    then show ?thesis using getAvailable_Inr(2,4) assms(2) by blast
  qed
  then show "sorted (map a_ID av)" "distinct (map a_ID av)"
    using filt by (auto simp: av_def preferCodexWebsocketAuths_def Let_def distinct_map_filter)
  show "av \<noteq> []" "set av \<subseteq> set auths"
    using getSelectorAvailableAuths_Inr(1,2) [OF assms(1)] preferCodexWebsocketAuths_sub [of ctx provider av0]
    by (auto simp: av_def)
qed

text \<open>
  C17: while the available candidates stay the same, any consecutive picks of the round-robin
  selector, as many as there are candidates, go through every candidate exactly once, in
  the cyclic order of their identifiers, whatever was picked before.
\<close>

theorem RoundRobin_fair:
  assumes "distinct (map a_ID auths)" and "\<forall>a \<in> set auths. a_ID a \<noteq> []"
    and "pc_prevalidated ctx \<longrightarrow> sorted (map a_ID auths)"
    and "\<forall>now \<in> set nows. getSelectorAvailableAuths env ctx auths provider model now = Inr av0"
    and "length nows = length (preferCodexWebsocketAuths ctx provider av0)"
  shows "\<exists>i. rrPicks env ctx provider model auths nows s =
    map Inr (rotate i (preferCodexWebsocketAuths ctx provider av0))"
proof (cases nows)
  case Nil
  with assms(5) show ?thesis by simp
next
  case (Cons now rest)
  define av where "av = preferCodexWebsocketAuths ctx provider av0"
  have now: "getSelectorAvailableAuths env ctx auths provider model now = Inr av0" using assms(4) Cons by simp
  note srt = getSelectorAvailableAuths_sorted [OF now assms(1,3), folded av_def]
  let ?key = "provider @ '':'' @ canonicalModelKey model"
  define s1 where "s1 = ensureRotationKey ?key (rotation_limit (rr_maxKeys s)) s"
  define i where "i = successorIndex av (get_str (rr_lastPicked s1) ?key)"
  define s' where "s' = s1\<lparr>rr_lastPicked := AList.update ?key (a_ID (av ! i)) (rr_lastPicked s1)\<rparr>"
  have i: "i < length av" unfolding i_def by (rule successorIndex_less [OF srt(3)])
  have p: "RoundRobin_Pick env ctx now provider model auths s = (Inr (av ! i), s')"
    using now by (simp add: RoundRobin_Pick_def Let_def av_def s'_def i_def s1_def)
  have s': "map_of (rr_lastPicked s') ?key = Some (a_ID (av ! i))" by (simp add: s'_def)
  have "rrPicks env ctx provider model auths rest s' =
      map (\<lambda>j. Inr (av ! ((i + Suc j) mod length av))) [0..<length rest]"
    using assms(2,4) Cons srt by (intro rrPicks_ring [OF _ av_def srt(1,2) _ i s']) auto
  moreover have "map (\<lambda>j. Inr (av ! ((i + j) mod length av)) :: sel_error + Auth) [0..<length nows] =
      Inr (av ! i) # map (\<lambda>j. Inr (av ! ((i + Suc j) mod length av))) [0..<length rest]"
    using Cons i by (simp add: upt_conv_Cons map_Suc_upt [symmetric] del: upt_Suc)
  ultimately have "rrPicks env ctx provider model auths nows s =
      map (\<lambda>j. Inr (av ! ((i + j) mod length av))) [0..<length av]"
    using Cons p assms(5) [folded av_def] by (simp del: upt_Suc map_eq_conv)
  also have "\<dots> = map Inr (rotate i av)"
    by (intro nth_equalityI) (auto simp: nth_rotate)
  finally show ?thesis unfolding av_def by blast
qed

definition exampleCtx :: pick_ctx where
  "exampleCtx = \<lparr>pc_prevalidated = False, pc_websocket = False, pc_routeModel = None\<rparr>"

definition exampleRing :: "Auth list" where
  "exampleRing = [zero_Auth\<lparr>a_ID := ''b''\<rparr>, zero_Auth\<lparr>a_ID := ''c''\<rparr>, zero_Auth\<lparr>a_ID := ''a''\<rparr>]"

theorem RoundRobin_fair_witness:
  "\<exists>i. rrPicks exampleEnv exampleCtx ''codex'' ''gpt-5'' exampleRing [10, 20, 30]
      \<lparr>rr_lastPicked = [(''codex:gpt-5'', ''b'')], rr_maxKeys = 0\<rparr>
    = map Inr (rotate i [zero_Auth\<lparr>a_ID := ''a''\<rparr>, zero_Auth\<lparr>a_ID := ''b''\<rparr>, zero_Auth\<lparr>a_ID := ''c''\<rparr>])"
proof -
  let ?av = "[zero_Auth\<lparr>a_ID := ''a''\<rparr>, zero_Auth\<lparr>a_ID := ''b''\<rparr>, zero_Auth\<lparr>a_ID := ''c''\<rparr>]"
  have av: "\<forall>now \<in> set [10, 20, 30]. getSelectorAvailableAuths exampleEnv exampleCtx exampleRing ''codex'' ''gpt-5'' now = Inr ?av"
    by code_simp
  have pref: "preferCodexWebsocketAuths exampleCtx ''codex'' ?av = ?av"
    by (simp add: preferCodexWebsocketAuths_def exampleCtx_def)
  show ?thesis
    using RoundRobin_fair [of exampleRing exampleCtx "[10, 20, 30]" exampleEnv "''codex''" "''gpt-5''" ?av] av
    unfolding pref by (simp add: exampleRing_def exampleCtx_def)
qed

end
