(* ===== verification/Scheduler_Shard.thy ===== *)
theory Scheduler_Shard
  imports Selectors Access_Isolation "HOL-Library.Product_Lexorder"
begin

text \<open>
  One shard of the scheduler: the credentials of a provider that serve one model, with the
  ready views per priority and the queue of blocked credentials
  (\<^verbatim>\<open>sdk/cliproxy/auth/scheduler.go\<close>, \<open>modelScheduler\<close>, \<open>readyView\<close> and the helpers they use).

  The Go views hold pointers into the entry map; here they hold the identifiers, which are
  looked up in the entry map when a view is read, so an entry updated in place is seen by every view.
  Calls to \<open>time.Now\<close> are arguments. The entry map never holds nil pointers: the only
  insertion stores a fresh entry whose \<open>meta\<close> and \<open>auth\<close> are set at once.

  The theory shows that every operation keeps the views consistent with the entries
  (\<open>shard_wf\<close>), and that after the promotion pass the incrementally maintained states agree with
  a fresh evaluation of \<open>isAuthBlockedForModel\<close> for every entry.
\<close>

section \<open>State\<close>

datatype schedulerStrategy =
  schedulerStrategyCurrent | schedulerStrategyCustom | schedulerStrategyRoundRobin
| schedulerStrategyFillFirst | schedulerStrategyWeightedRoundRobin

datatype scheduledState =
  scheduledStateReady | scheduledStateCooldown | scheduledStateBlocked | scheduledStateDisabled

record scheduledAuthMeta =
  sm_auth :: Auth
  sm_providerKey :: string
  sm_priority :: int
  sm_weight :: int
  sm_websocketEnabled :: bool
  sm_supportedModelSet :: "string list"

record scheduledAuth =
  sd_meta :: scheduledAuthMeta
  sd_auth :: Auth
  sd_state :: scheduledState
  sd_nextRetryAt :: time

abbreviation sd_ID :: "scheduledAuth \<Rightarrow> string" where "sd_ID e \<equiv> a_ID (sd_auth e)"

record readyView =
  rv_flat :: "string list"
  rv_lastPicked :: string
  rv_weightedState :: smoothWeightedState

record readyBucket =
  rb_all :: readyView
  rb_ws :: readyView

record modelScheduler =
  sh_modelKey :: string
  sh_entries :: "(string, scheduledAuth) gomap"
  sh_priorityOrder :: "int list"
  sh_readyByPriority :: "(int, readyBucket) gomap"
  sh_blocked :: "string list"

definition new_modelScheduler :: "string \<Rightarrow> modelScheduler" where
  "new_modelScheduler modelKey =
     \<lparr>sh_modelKey = modelKey, sh_entries = [], sh_priorityOrder = [], sh_readyByPriority = [], sh_blocked = []\<rparr>"

text \<open>The entries a slice of pointers refers to.\<close>

definition deref :: "(string, scheduledAuth) gomap \<Rightarrow> string list \<Rightarrow> scheduledAuth list" where
  "deref entries ids = List.map_filter (map_of entries) ids"

section \<open>Ready views\<close>

definition pickFirst :: "(scheduledAuth \<Rightarrow> bool) \<Rightarrow> scheduledAuth list \<Rightarrow> scheduledAuth option" where
  "pickFirst predicate flat = List.find predicate flat"

definition scheduledSuccessorIndex :: "scheduledAuth list \<Rightarrow> string \<Rightarrow> nat" where
  "scheduledSuccessorIndex entries lastID =
     (if lastID = [] then 0
      else let index = sort_Search (length entries) (\<lambda>i. sd_ID (entries ! i) > lastID)
           in if index \<ge> length entries then 0 else index)"

definition pickRoundRobin ::
  "(scheduledAuth \<Rightarrow> bool) \<Rightarrow> scheduledAuth list \<Rightarrow> readyView \<Rightarrow> scheduledAuth option \<times> readyView" where
  "pickRoundRobin predicate flat v =
     (if flat = [] then (None, v)
      else
        let start = scheduledSuccessorIndex flat (rv_lastPicked v)
        in case List.find (\<lambda>offset. predicate (flat ! ((start + offset) mod length flat))) [0..<length flat] of
             None \<Rightarrow> (None, v)
           | Some offset \<Rightarrow>
               let entry = flat ! ((start + offset) mod length flat)
               in (Some entry, v\<lparr>rv_lastPicked := sd_ID entry\<rparr>))"

definition scheduledWeightVectorMatching ::
  "scheduledAuth list \<Rightarrow> (scheduledAuth \<Rightarrow> bool) \<Rightarrow> (string, int) gomap" where
  "scheduledWeightVectorMatching entries predicate =
     fold (\<lambda>entry weights.
             if sm_weight (sd_meta entry) \<le> 0 \<or> \<not> predicate entry then weights
             else AList.update (sd_ID entry) (sm_weight (sd_meta entry)) weights) entries []"

definition scheduledWeightVector :: "scheduledAuth list \<Rightarrow> (string, int) gomap" where
  "scheduledWeightVector entries = scheduledWeightVectorMatching entries (\<lambda>_. True)"

definition pickSmoothWeightedScheduled ::
  "scheduledAuth list \<Rightarrow> (string, int) gomap \<Rightarrow> (scheduledAuth \<Rightarrow> bool)
    \<Rightarrow> scheduledAuth option \<times> (string, int) gomap" where
  "pickSmoothWeightedScheduled entries current predicate =
     smoothPick sd_ID (\<lambda>e. sm_weight (sd_meta e))
       (filter (\<lambda>e. sm_weight (sd_meta e) > 0 \<and> predicate e) entries) current"

definition pickWeighted ::
  "(scheduledAuth \<Rightarrow> bool) \<Rightarrow> scheduledAuth list \<Rightarrow> readyView \<Rightarrow> scheduledAuth option \<times> readyView" where
  "pickWeighted predicate flat v =
     (if flat = [] then (None, v)
      else
        let state = prepare (scheduledWeightVectorMatching flat predicate) (rv_weightedState v)
        in case pickSmoothWeightedScheduled flat (the_map (sw_current state)) predicate of
             (picked, current) \<Rightarrow> (picked, v\<lparr>rv_weightedState := state\<lparr>sw_current := Some current\<rparr>\<rparr>))"

text \<open>The switch over the strategy; every other strategy rotates.\<close>

definition pickView ::
  "schedulerStrategy \<Rightarrow> (scheduledAuth \<Rightarrow> bool) \<Rightarrow> scheduledAuth list \<Rightarrow> readyView
    \<Rightarrow> scheduledAuth option \<times> readyView" where
  "pickView strategy predicate flat v =
     (case strategy of
        schedulerStrategyFillFirst \<Rightarrow> (pickFirst predicate flat, v)
      | schedulerStrategyWeightedRoundRobin \<Rightarrow> pickWeighted predicate flat v
      | _ \<Rightarrow> pickRoundRobin predicate flat v)"

section \<open>Rebuilding the indexes\<close>

record readyViewCursorState =
  rc_lastPicked :: string
  rc_weightedState :: smoothWeightedState

record readyBucketCursorState =
  bc_all :: readyViewCursorState
  bc_ws :: readyViewCursorState

text \<open>An empty or nil map is snapshot as nil.\<close>

definition cloned_nonempty :: "('k, 'v) gomap option \<Rightarrow> ('k, 'v) gomap option" where
  "cloned_nonempty m = (if the_map m \<noteq> [] then Some (the_map m) else None)"

definition snapshotReadyViewCursors :: "readyView \<Rightarrow> readyViewCursorState" where
  "snapshotReadyViewCursors view =
     \<lparr>rc_lastPicked = rv_lastPicked view,
      rc_weightedState = \<lparr>sw_current = cloned_nonempty (sw_current (rv_weightedState view)),
                          sw_weights = cloned_nonempty (sw_weights (rv_weightedState view))\<rparr>\<rparr>"

definition restoreReadyViewCursors ::
  "scheduledAuth list \<Rightarrow> readyViewCursorState \<Rightarrow> readyView \<Rightarrow> readyView" where
  "restoreReadyViewCursors flat state view =
     (let view1 = view\<lparr>rv_lastPicked := rc_lastPicked state\<rparr>;
          weights = scheduledWeightVector flat;
          previous = the_map (sw_current (rc_weightedState state))
      in if previous = [] \<or> weightsConfigChanged (the_map (sw_weights (rc_weightedState state))) weights
         then view1
         else view1\<lparr>rv_weightedState :=
                \<lparr>sw_current = Some (fold (\<lambda>entry current.
                    case map_of previous (sd_ID entry) of
                      Some val \<Rightarrow> AList.update (sd_ID entry) val current
                    | None \<Rightarrow> current) flat []),
                 sw_weights = Some weights\<rparr>\<rparr>)"

definition buildReadyView :: "scheduledAuth list \<Rightarrow> readyView" where
  "buildReadyView entries =
     \<lparr>rv_flat = map sd_ID entries, rv_lastPicked = [], rv_weightedState = zero_smoothWeightedState\<rparr>"

definition wsEntries :: "scheduledAuth list \<Rightarrow> scheduledAuth list" where
  "wsEntries entries = filter (\<lambda>entry. sm_websocketEnabled (sd_meta entry)) entries"

definition buildReadyBucket :: "scheduledAuth list \<Rightarrow> readyBucket" where
  "buildReadyBucket entries =
     \<lparr>rb_all = buildReadyView entries, rb_ws = buildReadyView (wsEntries entries)\<rparr>"

definition restoreBucket ::
  "scheduledAuth list \<Rightarrow> readyBucketCursorState option \<Rightarrow> readyBucket \<Rightarrow> readyBucket" where
  "restoreBucket entries cursorState bucket =
     (case cursorState of
        None \<Rightarrow> bucket
      | Some cs \<Rightarrow>
          bucket\<lparr>rb_all := restoreReadyViewCursors entries (bc_all cs) (rb_all bucket),
                 rb_ws := restoreReadyViewCursors (wsEntries entries) (bc_ws cs) (rb_ws bucket)\<rparr>)"

text \<open>
  The order of the blocked queue: by retry time, the zero time last, ties by identifier.
\<close>

definition blockedKey :: "scheduledAuth \<Rightarrow> bool \<times> time \<times> string" where
  "blockedKey e = (IsZero (sd_nextRetryAt e), sd_nextRetryAt e, sd_ID e)"

definition rebuildIndexes :: "modelScheduler \<Rightarrow> modelScheduler" where
  "rebuildIndexes m =
     (let cursorStates = map (\<lambda>(priority, bucket).
            (priority, \<lparr>bc_all = snapshotReadyViewCursors (rb_all bucket),
                        bc_ws = snapshotReadyViewCursors (rb_ws bucket)\<rparr>)) (sh_readyByPriority m);
          entries = map snd (sh_entries m);
          ready = filter (\<lambda>e. sd_state e = scheduledStateReady) entries;
          blocked = filter (\<lambda>e. sd_state e \<in> {scheduledStateCooldown, scheduledStateBlocked}) entries;
          priorities = rev (sort (remdups (map (\<lambda>e. sm_priority (sd_meta e)) ready)));
          bucketFor = (\<lambda>priority.
            let es = sort_key sd_ID (filter (\<lambda>e. sm_priority (sd_meta e) = priority) ready)
            in restoreBucket es (map_of cursorStates priority) (buildReadyBucket es))
      in m\<lparr>sh_priorityOrder := priorities,
            sh_readyByPriority := map (\<lambda>priority. (priority, bucketFor priority)) priorities,
            sh_blocked := map sd_ID (sort_key blockedKey blocked)\<rparr>)"

section \<open>Entries\<close>

text \<open>
  The switch that turns a block result into the state and retry time of an entry; it occurs in
  \<open>upsertEntryLocked\<close>, \<open>demoteExpiredTokensLocked\<close> and \<open>promoteExpiredLocked\<close>.
\<close>

definition scheduledOutcome :: "block_result \<Rightarrow> scheduledState \<times> time" where
  "scheduledOutcome r =
     (case r of (blocked, reason, next) \<Rightarrow>
        if \<not> blocked then (scheduledStateReady, 0)
        else if reason = blockReasonCooldown then (scheduledStateCooldown, next)
        else if reason = blockReasonDisabled then (scheduledStateDisabled, 0)
        else (scheduledStateBlocked, next))"

definition setOutcome :: "scheduledState \<times> time \<Rightarrow> scheduledAuth \<Rightarrow> scheduledAuth" where
  "setOutcome oc e = e\<lparr>sd_state := fst oc, sd_nextRetryAt := snd oc\<rparr>"

definition upsertEntry :: "token_env \<Rightarrow> scheduledAuthMeta \<Rightarrow> time \<Rightarrow> modelScheduler \<Rightarrow> modelScheduler" where
  "upsertEntry env meta now m =
     (let authID = a_ID (sm_auth meta);
          oc = scheduledOutcome (isAuthBlockedForModel env (sm_auth meta) (sh_modelKey m) now);
          entry = \<lparr>sd_meta = meta, sd_auth = sm_auth meta, sd_state = fst oc, sd_nextRetryAt = snd oc\<rparr>;
          m1 = m\<lparr>sh_entries := AList.update authID entry (sh_entries m)\<rparr>
      in case map_of (sh_entries m) authID of
           Some previous \<Rightarrow>
             if sd_state previous = fst oc \<and> sd_nextRetryAt previous = snd oc
                \<and> sm_priority (sd_meta previous) = sm_priority meta
                \<and> sm_websocketEnabled (sd_meta previous) = sm_websocketEnabled meta
             then m1 else rebuildIndexes m1
         | None \<Rightarrow> rebuildIndexes m1)"

definition removeEntry :: "string \<Rightarrow> modelScheduler \<Rightarrow> modelScheduler" where
  "removeEntry authID m =
     (if authID = [] then m
      else if map_of (sh_entries m) authID = None then m
      else rebuildIndexes (m\<lparr>sh_entries := AList.delete authID (sh_entries m)\<rparr>))"

definition demotes :: "token_env \<Rightarrow> string \<Rightarrow> time \<Rightarrow> scheduledAuth \<Rightarrow> bool" where
  "demotes env modelKey now e \<longleftrightarrow>
     sd_state e = scheduledStateReady \<and> tokenExpired env (sd_auth e) now
     \<and> fst (isAuthBlockedForModel env (sd_auth e) modelKey now)"

definition demoteExpiredTokens :: "token_env \<Rightarrow> time \<Rightarrow> modelScheduler \<Rightarrow> modelScheduler \<times> bool" where
  "demoteExpiredTokens env now m =
     (m\<lparr>sh_entries := map (\<lambda>(k, e).
          (k, if demotes env (sh_modelKey m) now e
              then setOutcome (scheduledOutcome (isAuthBlockedForModel env (sd_auth e) (sh_modelKey m) now)) e
              else e)) (sh_entries m)\<rparr>,
      list_ex (\<lambda>(k, e). demotes env (sh_modelKey m) now e) (sh_entries m))"

definition promoteStep ::
  "token_env \<Rightarrow> string \<Rightarrow> time \<Rightarrow> string \<Rightarrow> (string, scheduledAuth) gomap \<times> bool
    \<Rightarrow> (string, scheduledAuth) gomap \<times> bool" where
  "promoteStep env modelKey now authID acc =
     (case acc of (entries, changed) \<Rightarrow>
        case map_of entries authID of
          None \<Rightarrow> acc
        | Some e \<Rightarrow>
            if IsZero (sd_nextRetryAt e) \<or> sd_nextRetryAt e > now then acc
            else (AList.update authID
                    (setOutcome (scheduledOutcome (isAuthBlockedForModel env (sd_auth e) modelKey now)) e) entries,
                  True))"

definition promoteExpired :: "token_env \<Rightarrow> time \<Rightarrow> modelScheduler \<Rightarrow> modelScheduler" where
  "promoteExpired env now m =
     (case demoteExpiredTokens env now m of (m1, demoted) \<Rightarrow>
        case fold (promoteStep env (sh_modelKey m) now) (sh_blocked m) (sh_entries m1, demoted) of
          (entries, changed) \<Rightarrow>
            if changed then rebuildIndexes (m1\<lparr>sh_entries := entries\<rparr>) else m1\<lparr>sh_entries := entries\<rparr>)"

section \<open>Picking\<close>

definition firstPriority ::
  "(readyBucket \<Rightarrow> readyView) \<Rightarrow> (scheduledAuth \<Rightarrow> bool) \<Rightarrow> modelScheduler \<Rightarrow> int option" where
  "firstPriority view predicate m =
     List.find (\<lambda>priority.
       case map_of (sh_readyByPriority m) priority of
         None \<Rightarrow> False
       | Some bucket \<Rightarrow> pickFirst predicate (deref (sh_entries m) (rv_flat (view bucket))) \<noteq> None)
       (sh_priorityOrder m)"

definition highestReadyPriority ::
  "bool \<Rightarrow> (scheduledAuth \<Rightarrow> bool) \<Rightarrow> modelScheduler \<Rightarrow> int option" where
  "highestReadyPriority preferWebsocket predicate m =
     (case (if preferWebsocket then firstPriority rb_ws predicate m else None) of
        Some priority \<Rightarrow> Some priority
      | None \<Rightarrow> firstPriority rb_all predicate m)"

text \<open>Whether the websocket view of a bucket is the one to use.\<close>

definition useWebsocketView :: "bool \<Rightarrow> (scheduledAuth \<Rightarrow> bool) \<Rightarrow> modelScheduler \<Rightarrow> readyBucket \<Rightarrow> bool" where
  "useWebsocketView preferWebsocket predicate m bucket \<longleftrightarrow>
     preferWebsocket \<and> pickFirst predicate (deref (sh_entries m) (rv_flat (rb_ws bucket))) \<noteq> None"

definition pickReadyAtPriority ::
  "bool \<Rightarrow> int \<Rightarrow> schedulerStrategy \<Rightarrow> (scheduledAuth \<Rightarrow> bool) \<Rightarrow> modelScheduler
    \<Rightarrow> Auth option \<times> modelScheduler" where
  "pickReadyAtPriority preferWebsocket priority strategy predicate m =
     (case map_of (sh_readyByPriority m) priority of
        None \<Rightarrow> (None, m)
      | Some bucket \<Rightarrow>
          let ws = useWebsocketView preferWebsocket predicate m bucket;
              view = (if ws then rb_ws bucket else rb_all bucket)
          in case pickView strategy predicate (deref (sh_entries m) (rv_flat view)) view of
               (picked, view') \<Rightarrow>
                 (map_option sd_auth picked,
                  m\<lparr>sh_readyByPriority :=
                      AList.update priority
                        (if ws then bucket\<lparr>rb_ws := view'\<rparr> else bucket\<lparr>rb_all := view'\<rparr>)
                        (sh_readyByPriority m)\<rparr>))"

definition pickReady ::
  "token_env \<Rightarrow> bool \<Rightarrow> schedulerStrategy \<Rightarrow> (scheduledAuth \<Rightarrow> bool) \<Rightarrow> time \<Rightarrow> modelScheduler
    \<Rightarrow> Auth option \<times> modelScheduler" where
  "pickReady env preferWebsocket strategy predicate now m =
     (let m1 = promoteExpired env now m
      in case highestReadyPriority preferWebsocket predicate m1 of
           None \<Rightarrow> (None, m1)
         | Some priorityReady \<Rightarrow> pickReadyAtPriority preferWebsocket priorityReady strategy predicate m1)"

definition readyCountAtPriority ::
  "bool \<Rightarrow> int \<Rightarrow> (scheduledAuth \<Rightarrow> bool) \<Rightarrow> modelScheduler \<Rightarrow> nat" where
  "readyCountAtPriority preferWebsocket priority predicate m =
     (case map_of (sh_readyByPriority m) priority of
        None \<Rightarrow> 0
      | Some bucket \<Rightarrow>
          let view = (if useWebsocketView preferWebsocket predicate m bucket then rb_ws bucket else rb_all bucket)
          in length (filter predicate (deref (sh_entries m) (rv_flat view))))"

text \<open>The summary: candidates, cooling candidates, quota cooldowns and the earliest retry time.\<close>

record shard_summary =
  su_total :: nat
  su_cooldownCount :: nat
  su_quotaCount :: nat
  su_earliest :: time

definition summaryStep ::
  "string \<Rightarrow> (scheduledAuth \<Rightarrow> bool) \<Rightarrow> time \<Rightarrow> scheduledAuth \<Rightarrow> shard_summary \<Rightarrow> shard_summary" where
  "summaryStep modelKey predicate now entry su =
     (if \<not> predicate entry then su
      else
        let su1 = su\<lparr>su_total := su_total su + 1\<rparr>
        in if sd_state entry \<noteq> scheduledStateCooldown then su1
           else
             let next = sd_nextRetryAt entry
             in su1\<lparr>su_cooldownCount := su_cooldownCount su1 + 1,
                    su_quotaCount := (if quotaCooldownForModel (sd_auth entry) modelKey now next
                                      then su_quotaCount su1 + 1 else su_quotaCount su1),
                    su_earliest := (if \<not> IsZero next \<and> (IsZero (su_earliest su1) \<or> next < su_earliest su1)
                                    then next else su_earliest su1)\<rparr>)"

definition availabilitySummary ::
  "(scheduledAuth \<Rightarrow> bool) \<Rightarrow> time \<Rightarrow> modelScheduler \<Rightarrow> shard_summary" where
  "availabilitySummary predicate now m =
     fold (summaryStep (sh_modelKey m) predicate now) (map snd (sh_entries m))
       \<lparr>su_total = 0, su_cooldownCount = 0, su_quotaCount = 0, su_earliest = 0\<rparr>"

text \<open>The error for a summary; it is shared by the single and the mixed error.\<close>

definition summaryError :: "string \<Rightarrow> string \<Rightarrow> time \<Rightarrow> shard_summary \<Rightarrow> sel_error" where
  "summaryError providerForError model now su =
     (if su_total su = 0 then authError ''auth_not_found'' ''no auth available''
      else if su_cooldownCount su = su_total su \<and> \<not> IsZero (su_earliest su) then
        (let resetIn = time_Sub (su_earliest su) now
         in ErrCooldown ((newModelCooldownError model providerForError (if resetIn < 0 then 0 else resetIn))
              \<lparr>mce_quotaLimited := (su_quotaCount su = su_cooldownCount su)\<rparr>))
      else authError ''auth_unavailable'' ''no auth available'')"

definition unavailableError ::
  "string \<Rightarrow> string \<Rightarrow> (scheduledAuth \<Rightarrow> bool) \<Rightarrow> time \<Rightarrow> modelScheduler \<Rightarrow> sel_error" where
  "unavailableError provider model predicate now m =
     summaryError (if provider = ''mixed'' then [] else provider) model now (availabilitySummary predicate now m)"

section \<open>The invariant of a shard\<close>

abbreviation entriesOf :: "modelScheduler \<Rightarrow> scheduledAuth set" where
  "entriesOf m \<equiv> snd ` set (sh_entries m)"

abbreviation isReady :: "scheduledAuth \<Rightarrow> bool" where
  "isReady e \<equiv> sd_state e = scheduledStateReady"

abbreviation isWaiting :: "scheduledAuth \<Rightarrow> bool" where
  "isWaiting e \<equiv> sd_state e \<in> {scheduledStateCooldown, scheduledStateBlocked}"

definition readyAt :: "modelScheduler \<Rightarrow> int \<Rightarrow> scheduledAuth set" where
  "readyAt m p = {e \<in> entriesOf m. isReady e \<and> sm_priority (sd_meta e) = p}"

text \<open>A view lists a set of entries in the order of their identifiers.\<close>

definition lists_ids :: "string list \<Rightarrow> scheduledAuth set \<Rightarrow> bool" where
  "lists_ids ids S \<longleftrightarrow> sorted ids \<and> distinct ids \<and> set ids = sd_ID ` S"

definition entries_ok :: "modelScheduler \<Rightarrow> bool" where
  "entries_ok m \<longleftrightarrow> distinct_keys (sh_entries m)
     \<and> (\<forall>(authID, e) \<in> set (sh_entries m). sd_ID e = authID \<and> sd_auth e = sm_auth (sd_meta e))"

definition waits_before :: "modelScheduler \<Rightarrow> string \<Rightarrow> string \<Rightarrow> bool" where
  "waits_before m i j \<longleftrightarrow>
     (\<forall>d e. map_of (sh_entries m) i = Some d \<and> map_of (sh_entries m) j = Some e \<longrightarrow> blockedKey d \<le> blockedKey e)"

definition index_ok :: "modelScheduler \<Rightarrow> bool" where
  "index_ok m \<longleftrightarrow>
     sorted_wrt (>) (sh_priorityOrder m)
     \<and> set (sh_priorityOrder m) = {p. readyAt m p \<noteq> {}}
     \<and> keys (sh_readyByPriority m) = set (sh_priorityOrder m)
     \<and> (\<forall>p b. map_of (sh_readyByPriority m) p = Some b \<longrightarrow>
          lists_ids (rv_flat (rb_all b)) (readyAt m p)
          \<and> lists_ids (rv_flat (rb_ws b)) {e \<in> readyAt m p. sm_websocketEnabled (sd_meta e)})
     \<and> distinct (sh_blocked m) \<and> set (sh_blocked m) = sd_ID ` {e \<in> entriesOf m. isWaiting e}
     \<and> sorted_wrt (waits_before m) (sh_blocked m)"

definition shard_wf :: "modelScheduler \<Rightarrow> bool" where
  "shard_wf m \<longleftrightarrow> entries_ok m \<and> index_ok m"

lemma entries_ok_lookup: "entries_ok m \<Longrightarrow> e \<in> entriesOf m \<Longrightarrow> map_of (sh_entries m) (sd_ID e) = Some e"
proof -
  assume ok: "entries_ok m" and "e \<in> entriesOf m"
  then obtain k where k: "(k, e) \<in> set (sh_entries m)" by auto
  with ok have "sd_ID e = k" unfolding entries_ok_def by blast
  with ok k show ?thesis unfolding entries_ok_def by (metis map_of_is_SomeI)
qed

lemma entries_ok_mem: "map_of (sh_entries m) k = Some e \<Longrightarrow> e \<in> entriesOf m"
  by (metis image_eqI map_of_SomeD snd_conv)

lemma entries_ok_inj: "entries_ok m \<Longrightarrow> inj_on sd_ID (entriesOf m)"
proof (rule inj_onI)
  fix d e
  assume ok: "entries_ok m" and d: "d \<in> entriesOf m" and e: "e \<in> entriesOf m" and eq: "sd_ID d = sd_ID e"
  have "Some d = Some e"
    by (simp only: entries_ok_lookup [OF ok d, symmetric] entries_ok_lookup [OF ok e, symmetric] eq)
  then show "d = e" by simp
qed

lemma entries_ok_distinct: "entries_ok m \<Longrightarrow> distinct (map sd_ID (map snd (sh_entries m)))"
proof -
  assume ok: "entries_ok m"
  then have "map sd_ID (map snd (sh_entries m)) = map fst (sh_entries m)"
    by (auto simp: entries_ok_def)
  with ok show ?thesis by (simp only: entries_ok_def)
qed

lemma deref_lists:
  assumes "entries_ok m" and "lists_ids ids S" and "S \<subseteq> entriesOf m"
  shows "map sd_ID (deref (sh_entries m) ids) = ids" and "set (deref (sh_entries m) ids) = S"
proof -
  have get: "map_of (sh_entries m) i = Some e" if "e \<in> S" "i = sd_ID e" for i e
    using that entries_ok_lookup [OF assms(1)] assms(3) by blast
  have sub: "set ids = sd_ID ` S" using assms(2) by (simp add: lists_ids_def)
  have "map sd_ID (deref (sh_entries m) is) = is \<and> set (deref (sh_entries m) is) = {e \<in> S. sd_ID e \<in> set is}"
    if "set is \<subseteq> sd_ID ` S" for "is"
    using that
  proof (induction "is")
    case (Cons i "is")
    then obtain e where e: "e \<in> S" "i = sd_ID e" by auto
    have un: "{x \<in> S. sd_ID x \<in> set (i # is)} = insert e {x \<in> S. sd_ID x \<in> set is}"
    proof -
      have "x = e" if "x \<in> S" "sd_ID x = i" for x
        using get [OF that(1) that(2) [symmetric]] get [OF e] by simp
      with e show ?thesis by auto
    qed
    have "deref (sh_entries m) (i # is) = e # deref (sh_entries m) is"
      by (simp add: deref_def map_filter_simps get [OF e])
    with Cons.IH Cons.prems e(2) show ?case unfolding un by simp
  qed (simp add: deref_def map_filter_simps)
  from this [of ids] sub show "map sd_ID (deref (sh_entries m) ids) = ids" "set (deref (sh_entries m) ids) = S"
    by auto
qed

lemma restoreReadyViewCursors_flat [simp]: "rv_flat (restoreReadyViewCursors flat st v) = rv_flat v"
  by (simp add: restoreReadyViewCursors_def Let_def)

lemma restoreBucket_flat [simp]:
  "rv_flat (rb_all (restoreBucket es cs b)) = rv_flat (rb_all b)"
  "rv_flat (rb_ws (restoreBucket es cs b)) = rv_flat (rb_ws b)"
  by (simp_all add: restoreBucket_def split: option.splits)

lemma lists_ids_sort:
  assumes "distinct (map sd_ID xs)"
  shows "lists_ids (map sd_ID (filter P (sort_key sd_ID xs))) {e \<in> set xs. P e}"
proof -
  have "sorted (map sd_ID (filter P (sort_key sd_ID xs)))" by (simp add: sorted_filter)
  moreover have "distinct (map sd_ID (sort_key sd_ID xs))"
    using assms by (metis distinct_map distinct_sort set_sort)
  then have "distinct (map sd_ID (filter P (sort_key sd_ID xs)))" by (rule distinct_map_filter)
  ultimately show ?thesis by (auto simp: lists_ids_def)
qed

lemma rebuildIndexes_fields [simp]:
  "sh_entries (rebuildIndexes m) = sh_entries m" "sh_modelKey (rebuildIndexes m) = sh_modelKey m"
  by (simp_all add: rebuildIndexes_def Let_def)

lemma rebuildIndexes_ok:
  assumes "entries_ok m"
  shows "shard_wf (rebuildIndexes m)"
proof -
  define es where "es = map snd (sh_entries m)"
  define ready where "ready = filter isReady es"
  define waiting where "waiting = filter isWaiting es"
  define ps where "ps = rev (sort (remdups (map (\<lambda>e. sm_priority (sd_meta e)) ready)))"
  define atP where "atP = (\<lambda>p. filter (\<lambda>e. sm_priority (sd_meta e) = p) ready)"
  obtain cs where m': "rebuildIndexes m = m\<lparr>sh_priorityOrder := ps,
      sh_readyByPriority := map (\<lambda>p. (p, restoreBucket (sort_key sd_ID (atP p)) (map_of cs p)
         (buildReadyBucket (sort_key sd_ID (atP p))))) ps,
      sh_blocked := map sd_ID (sort_key blockedKey waiting)\<rparr>"
    unfolding rebuildIndexes_def Let_def es_def ready_def waiting_def ps_def atP_def by blast
  have dist: "distinct (map sd_ID es)" unfolding es_def by (rule entries_ok_distinct [OF assms])
  have at: "set (atP p) = readyAt m p" "distinct (map sd_ID (atP p))" for p
    using dist unfolding atP_def ready_def readyAt_def es_def by (auto intro!: distinct_map_filter)
  have ps: "sorted_wrt (>) ps" "set ps = {p. readyAt m p \<noteq> {}}"
    unfolding ps_def sorted_wrt_rev ready_def readyAt_def es_def
    by (auto simp: strict_sorted_iff [symmetric] intro: strict_sorted_iff [THEN iffD2])
  have look: "map_of (sh_readyByPriority (rebuildIndexes m)) p = Some b \<Longrightarrow>
      b = restoreBucket (sort_key sd_ID (atP p)) (map_of cs p) (buildReadyBucket (sort_key sd_ID (atP p)))" for p b
    by (auto simp: m' map_of_map_restrict restrict_map_def split: if_splits)
  have views: "lists_ids (map sd_ID (sort_key sd_ID (atP p))) (readyAt m p)"
    "lists_ids (map sd_ID (wsEntries (sort_key sd_ID (atP p)))) {e \<in> readyAt m p. sm_websocketEnabled (sd_meta e)}" for p
    using lists_ids_sort [OF at(2), of "\<lambda>_. True" p] lists_ids_sort [OF at(2), of _ p] at(1)
    by (simp_all add: wsEntries_def)
  have wait: "set waiting = {e \<in> entriesOf m. isWaiting e}" by (auto simp: waiting_def es_def)
  have blocked: "distinct (map sd_ID (sort_key blockedKey waiting))"
    using distinct_map_filter [OF dist, of isWaiting] unfolding waiting_def
    by (metis distinct_map distinct_sort set_sort)
  have "sorted_wrt (\<lambda>d e. blockedKey d \<le> blockedKey e) (sort_key blockedKey waiting)"
    using sorted_sort_key [of blockedKey waiting] by (simp add: sorted_wrt_map)
  then have "sorted_wrt (\<lambda>d e. waits_before m (sd_ID d) (sd_ID e)) (sort_key blockedKey waiting)"
    by (rule sorted_wrt_mono_rel [rotated]) (use entries_ok_lookup [OF assms] wait in \<open>auto simp: waits_before_def\<close>)
  then have sorted: "sorted_wrt (waits_before (rebuildIndexes m)) (map sd_ID (sort_key blockedKey waiting))"
    by (simp add: sorted_wrt_map waits_before_def)
  have at': "readyAt (rebuildIndexes m) = readyAt m" by (simp add: readyAt_def fun_eq_iff)
  have "entries_ok (rebuildIndexes m)" using assms by (simp add: entries_ok_def)
  moreover have "keys (sh_readyByPriority (rebuildIndexes m)) = set (sh_priorityOrder (rebuildIndexes m))"
    by (simp add: m' image_image)
  moreover have "lists_ids (rv_flat (rb_all b)) (readyAt m p)
      \<and> lists_ids (rv_flat (rb_ws b)) {e \<in> readyAt m p. sm_websocketEnabled (sd_meta e)}"
    if "map_of (sh_readyByPriority (rebuildIndexes m)) p = Some b" for p b
    using views [of p] unfolding look [OF that] by (simp add: buildReadyBucket_def buildReadyView_def)
  moreover have "set (sh_blocked (rebuildIndexes m)) = sd_ID ` {e \<in> entriesOf m. isWaiting e}"
    unfolding wait [symmetric] by (simp add: m')
  moreover have "sh_priorityOrder (rebuildIndexes m) = ps"
    "sh_blocked (rebuildIndexes m) = map sd_ID (sort_key blockedKey waiting)" by (simp_all add: m')
  ultimately show ?thesis
    unfolding shard_wf_def index_ok_def at' rebuildIndexes_fields using ps blocked sorted by simp
qed

subsection \<open>Every operation keeps the indexes consistent\<close>

text \<open>What the indexes depend on.\<close>

definition shape :: "scheduledAuth \<Rightarrow> string \<times> scheduledState \<times> time \<times> int \<times> bool" where
  "shape e = (sd_ID e, sd_state e, sd_nextRetryAt e, sm_priority (sd_meta e), sm_websocketEnabled (sd_meta e))"

lemma shape_image:
  assumes "shape ` A = shape ` B" and "\<And>d e. shape d = shape e \<Longrightarrow> P d = P e"
  shows "sd_ID ` {e \<in> A. P e} = sd_ID ` {e \<in> B. P e}"
proof -
  have "sd_ID ` {e \<in> X. P e} \<subseteq> sd_ID ` {e \<in> Y. P e}" if "shape ` X = shape ` Y" for X Y
  proof
    fix i
    assume "i \<in> sd_ID ` {e \<in> X. P e}"
    then obtain d where d: "d \<in> X" "P d" "i = sd_ID d" by blast
    then have "shape d \<in> shape ` Y" using that by blast
    then obtain e where e: "shape d = shape e" "e \<in> Y" by (rule imageE)
    then have "P e" "i = sd_ID e" using d assms(2) [OF e(1)] by (simp_all add: shape_def)
    with e(2) show "i \<in> sd_ID ` {e \<in> Y. P e}" by blast
  qed
  from this [OF assms(1)] this [OF assms(1) [symmetric]] show ?thesis by (rule subset_antisym)
qed

lemma index_ok_shapes:
  assumes "index_ok m" and "entries_ok m" and "entries_ok m'"
    and "shape ` entriesOf m' = shape ` entriesOf m"
    and "sh_priorityOrder m' = sh_priorityOrder m" and "sh_blocked m' = sh_blocked m"
    and "keys (sh_readyByPriority m') = keys (sh_readyByPriority m)"
    and flats: "\<And>p b'. map_of (sh_readyByPriority m') p = Some b' \<Longrightarrow>
      \<exists>b. map_of (sh_readyByPriority m) p = Some b \<and> rv_flat (rb_all b') = rv_flat (rb_all b)
        \<and> rv_flat (rb_ws b') = rv_flat (rb_ws b)"
  shows "index_ok m'"
proof -
  have ids: "sd_ID ` {e \<in> entriesOf m'. P e} = sd_ID ` {e \<in> entriesOf m. P e}"
    if "\<And>d e. shape d = shape e \<Longrightarrow> P d = P e" for P
    using assms(4) that by (rule shape_image)
  have ready: "sd_ID ` readyAt m' p = sd_ID ` readyAt m p"
    "sd_ID ` {e \<in> readyAt m' p. sm_websocketEnabled (sd_meta e)}
     = sd_ID ` {e \<in> readyAt m p. sm_websocketEnabled (sd_meta e)}" for p
    unfolding readyAt_def mem_Collect_eq conj_assoc by (rule ids; simp add: shape_def)+
  have lists: "lists_ids xs (readyAt m' p) = lists_ids xs (readyAt m p)"
    "lists_ids xs {e \<in> readyAt m' p. sm_websocketEnabled (sd_meta e)}
     = lists_ids xs {e \<in> readyAt m p. sm_websocketEnabled (sd_meta e)}" for xs p
    unfolding lists_ids_def ready by (rule refl)+
  have ne: "readyAt m' p \<noteq> {} \<longleftrightarrow> readyAt m p \<noteq> {}" for p using ready(1) [of p] by auto
  have waiting: "sd_ID ` {e \<in> entriesOf m'. isWaiting e} = sd_ID ` {e \<in> entriesOf m. isWaiting e}"
    by (rule ids) (simp add: shape_def)
  have wb: "waits_before m' i j" if wb: "waits_before m i j" for i j
    unfolding waits_before_def
  proof (intro allI impI)
    fix d e
    assume de: "map_of (sh_entries m') i = Some d \<and> map_of (sh_entries m') j = Some e"
    have img: "\<exists>x'. map_of (sh_entries m) k = Some x' \<and> blockedKey x' = blockedKey x"
      if "map_of (sh_entries m') k = Some x" for k x
    proof -
      have "shape x \<in> shape ` entriesOf m" using entries_ok_mem [OF that] assms(4) by blast
      then obtain x' where x': "x' \<in> entriesOf m" "shape x = shape x'" by (rule imageE)
      have "sd_ID x = k"
        using map_of_SomeD [OF that] assms(3) unfolding entries_ok_def by blast
      with x' entries_ok_lookup [OF assms(2) x'(1)] show ?thesis by (auto simp: shape_def blockedKey_def)
    qed
    show "blockedKey d \<le> blockedKey e" using img [of i d] img [of j e] de wb unfolding waits_before_def by metis
  qed
  show ?thesis
    using assms(1,5,6,7) flats sorted_wrt_mono_rel [of "sh_blocked m" "waits_before m" "waits_before m'"] wb
    unfolding index_ok_def lists ne waiting by (metis (no_types, lifting))
qed

lemma new_modelScheduler_wf [simp]: "shard_wf (new_modelScheduler modelKey)"
  by (simp add: shard_wf_def entries_ok_def index_ok_def new_modelScheduler_def readyAt_def)

lemma entries_ok_update:
  assumes "entries_ok m" and "sd_ID e = k" and "sd_auth e = sm_auth (sd_meta e)"
  shows "entries_ok (m\<lparr>sh_entries := AList.update k e (sh_entries m)\<rparr>)"
  using assms by (auto simp: entries_ok_def set_update_distinct)

lemma entriesOf_update:
  assumes "entries_ok m"
  shows "entriesOf (m\<lparr>sh_entries := AList.update k e (sh_entries m)\<rparr>) = insert e {d \<in> entriesOf m. sd_ID d \<noteq> k}"
proof -
  have "{(k', v'). (k', v') \<in> set (sh_entries m) \<and> k' \<noteq> k} = {x \<in> set (sh_entries m). sd_ID (snd x) \<noteq> k}"
    using assms unfolding entries_ok_def by auto
  then show ?thesis using assms by (auto simp: entries_ok_def set_update_distinct)
qed

lemma upsertEntry_fields [simp]:
  "sh_modelKey (upsertEntry env meta now m) = sh_modelKey m"
  "sh_entries (upsertEntry env meta now m) =
     AList.update (a_ID (sm_auth meta))
       (setOutcome (scheduledOutcome (isAuthBlockedForModel env (sm_auth meta) (sh_modelKey m) now))
         \<lparr>sd_meta = meta, sd_auth = sm_auth meta, sd_state = scheduledStateReady, sd_nextRetryAt = 0\<rparr>)
       (sh_entries m)"
  by (simp_all add: upsertEntry_def setOutcome_def Let_def split: option.splits)

lemma upsertEntry_wf:
  assumes "shard_wf m"
  shows "shard_wf (upsertEntry env meta now m)"
proof -
  define e where "e = (let oc = scheduledOutcome (isAuthBlockedForModel env (sm_auth meta) (sh_modelKey m) now)
    in \<lparr>sd_meta = meta, sd_auth = sm_auth meta, sd_state = fst oc, sd_nextRetryAt = snd oc\<rparr>)"
  define m1 where "m1 = m\<lparr>sh_entries := AList.update (a_ID (sm_auth meta)) e (sh_entries m)\<rparr>"
  have ok: "entries_ok m" and ix: "index_ok m" using assms by (simp_all add: shard_wf_def)
  have ok1: "entries_ok m1" unfolding m1_def by (rule entries_ok_update [OF ok]) (simp_all add: e_def Let_def)
  have "shard_wf m1" if prev: "map_of (sh_entries m) (a_ID (sm_auth meta)) = Some d" "shape d = shape e" for d
  proof -
    have d: "d \<in> entriesOf m" "sd_ID d = a_ID (sm_auth meta)"
      using map_of_SomeD [OF prev(1)] ok unfolding entries_ok_def by (force, blast)
    have uniq: "x = d" if "x \<in> entriesOf m" "sd_ID x = a_ID (sm_auth meta)" for x
      by (rule inj_onD [OF entries_ok_inj [OF ok]]) (simp_all only: that d)
    have "shape ` entriesOf m1 = insert (shape e) (shape ` {x \<in> entriesOf m. sd_ID x \<noteq> a_ID (sm_auth meta)})"
      unfolding m1_def entriesOf_update [OF ok] by (rule image_insert)
    also have "\<dots> = shape ` entriesOf m"
    proof -
      have "entriesOf m = insert d {x \<in> entriesOf m. sd_ID x \<noteq> a_ID (sm_auth meta)}" using d uniq by blast
      then show ?thesis unfolding prev(2) [symmetric] by (metis image_insert)
    qed
    finally have "index_ok m1"
      by (rule index_ok_shapes [OF ix ok ok1]) (simp_all add: m1_def)
    with ok1 show ?thesis by (simp add: shard_wf_def)
  qed
  moreover have "shard_wf (rebuildIndexes m1)" by (rule rebuildIndexes_ok [OF ok1])
  moreover have "shape d = shape e"
    if "map_of (sh_entries m) (a_ID (sm_auth meta)) = Some d" and "sd_state d = sd_state e"
      and "sd_nextRetryAt d = sd_nextRetryAt e" and "sm_priority (sd_meta d) = sm_priority meta"
      and "sm_websocketEnabled (sd_meta d) = sm_websocketEnabled meta" for d
  proof -
    have "sd_ID d = a_ID (sm_auth meta)" using map_of_SomeD [OF that(1)] ok unfolding entries_ok_def by blast
    with that show ?thesis by (simp add: shape_def e_def Let_def)
  qed
  moreover have "upsertEntry env meta now m =
      (case map_of (sh_entries m) (a_ID (sm_auth meta)) of
         Some d \<Rightarrow> if sd_state d = sd_state e \<and> sd_nextRetryAt d = sd_nextRetryAt e
             \<and> sm_priority (sd_meta d) = sm_priority meta
             \<and> sm_websocketEnabled (sd_meta d) = sm_websocketEnabled meta then m1 else rebuildIndexes m1
       | None \<Rightarrow> rebuildIndexes m1)"
    unfolding upsertEntry_def m1_def e_def Let_def by (simp cong: option.case_cong)
  ultimately show ?thesis by (simp split: option.splits)
qed

lemma removeEntry_wf:
  assumes "shard_wf m"
  shows "shard_wf (removeEntry authID m)"
proof -
  have "entries_ok (m\<lparr>sh_entries := AList.delete authID (sh_entries m)\<rparr>)"
    using assms by (auto simp: shard_wf_def entries_ok_def AList.delete_eq distinct_map_filter)
  from rebuildIndexes_ok [OF this] assms show ?thesis by (simp add: removeEntry_def)
qed

lemma removeEntry_fields [simp]:
  "sh_modelKey (removeEntry authID m) = sh_modelKey m"
  "map_of (sh_entries (removeEntry authID m)) i =
     (if i = authID \<and> authID \<noteq> [] then None else map_of (sh_entries m) i)"
  by (simp_all add: removeEntry_def)

subsection \<open>The promotion pass, entry by entry\<close>

definition due :: "time \<Rightarrow> scheduledAuth \<Rightarrow> bool" where
  "due now e \<longleftrightarrow> \<not> IsZero (sd_nextRetryAt e) \<and> sd_nextRetryAt e \<le> now"

abbreviation refreshed :: "token_env \<Rightarrow> string \<Rightarrow> time \<Rightarrow> scheduledAuth \<Rightarrow> scheduledAuth" where
  "refreshed env modelKey now e \<equiv>
     setOutcome (scheduledOutcome (isAuthBlockedForModel env (sd_auth e) modelKey now)) e"

definition advances :: "token_env \<Rightarrow> string \<Rightarrow> time \<Rightarrow> scheduledAuth \<Rightarrow> bool" where
  "advances env modelKey now e \<longleftrightarrow> demotes env modelKey now e \<or> (isWaiting e \<and> due now e)"

definition advance :: "token_env \<Rightarrow> string \<Rightarrow> time \<Rightarrow> scheduledAuth \<Rightarrow> scheduledAuth" where
  "advance env modelKey now e = (if advances env modelKey now e then refreshed env modelKey now e else e)"

lemma setOutcome_fields [simp]:
  "sd_meta (setOutcome oc e) = sd_meta e" "sd_auth (setOutcome oc e) = sd_auth e"
  "sd_state (setOutcome oc e) = fst oc" "sd_nextRetryAt (setOutcome oc e) = snd oc"
  by (simp_all add: setOutcome_def)

lemma advance_fields [simp]:
  "sd_meta (advance env k now e) = sd_meta e" "sd_auth (advance env k now e) = sd_auth e"
  by (simp_all add: advance_def)

lemma promote_fold:
  assumes "distinct_keys es" and "distinct ids"
  shows "fold (promoteStep env modelKey now) ids (es, changed) =
    (map (\<lambda>(k, e). (k, if k \<in> set ids \<and> due now e then refreshed env modelKey now e else e)) es,
     changed \<or> (\<exists>(k, e) \<in> set es. k \<in> set ids \<and> due now e))"
  using assms
proof (induction ids arbitrary: es changed)
  case Nil
  then show ?case by simp
next
  case (Cons i ids)
  define es1 where "es1 = map (\<lambda>(k, e). (k, if k = i \<and> due now e then refreshed env modelKey now e else e)) es"
  have keys1: "map fst es1 = map fst es" by (simp add: es1_def case_prod_beta')
  have step: "promoteStep env modelKey now i (es, changed) = (es1, changed \<or> (\<exists>(k, e) \<in> set es. k = i \<and> due now e))"
  proof (cases "map_of es i")
    case None
    then have "i \<notin> fst ` set es" by (simp add: map_of_eq_None_iff)
    then have "es1 = es" and "\<not> (\<exists>(k, e) \<in> set es. k = i \<and> due now e)"
      unfolding es1_def by (force intro: map_idI)+
    with None show ?thesis by (simp add: promoteStep_def)
  next
    case (Some e)
    have uniq: "(k, x) \<in> set es \<Longrightarrow> k = i \<Longrightarrow> x = e" for k x
      using Some Cons.prems(1) by (metis map_of_is_SomeI option.inject)
    have mem: "(i, e) \<in> set es" using Some by (rule map_of_SomeD)
    show ?thesis
    proof (cases "due now e")
      case True
      have "AList.update i (refreshed env modelKey now e) es =
          map (\<lambda>(k', v'). (k', if k' = i then refreshed env modelKey now v' else v')) es"
        using update_as_map [OF Cons.prems(1) Some, of "refreshed env modelKey now"] .
      also have "\<dots> = es1" unfolding es1_def using uniq True by (intro map_cong) auto
      finally show ?thesis using Some True mem by (auto simp: promoteStep_def due_def)
    next
      case False
      then have "es1 = es" unfolding es1_def using uniq by (intro map_idI) auto
      with Some False uniq show ?thesis by (auto simp: promoteStep_def due_def)
    qed
  qed
  have "map (\<lambda>(k, e). (k, if k \<in> set ids \<and> due now e then refreshed env modelKey now e else e)) es1
      = map (\<lambda>(k, e). (k, if k \<in> set (i # ids) \<and> due now e then refreshed env modelKey now e else e)) es"
    using Cons.prems(2) unfolding es1_def by auto
  moreover have "(\<exists>(k, e) \<in> set es1. k \<in> set ids \<and> due now e) \<longleftrightarrow> (\<exists>(k, e) \<in> set es. k \<in> set ids \<and> due now e)"
    using Cons.prems(2) unfolding es1_def by force
  ultimately show ?case
    using Cons.IH [of es1] Cons.prems keys1 by (auto simp: step)
qed

lemma promoteExpired_eq:
  fixes env :: token_env and now :: time
  assumes "shard_wf m"
  defines "m1 \<equiv> m\<lparr>sh_entries := map (\<lambda>(k, e). (k, advance env (sh_modelKey m) now e)) (sh_entries m)\<rparr>"
  shows "promoteExpired env now m =
    (if \<exists>e \<in> entriesOf m. advances env (sh_modelKey m) now e then rebuildIndexes m1 else m)"
proof -
  let ?k = "sh_modelKey m"
  define es1 where "es1 = map (\<lambda>(k, e). (k, if demotes env ?k now e then refreshed env ?k now e else e)) (sh_entries m)"
  have ok: "entries_ok m" and dist: "distinct_keys (sh_entries m)" "distinct_keys es1"
    and blocked: "distinct (sh_blocked m)" "set (sh_blocked m) = sd_ID ` {e \<in> entriesOf m. isWaiting e}"
    using assms(1) by (auto simp: shard_wf_def entries_ok_def index_ok_def es1_def case_prod_beta' o_def)
  have wait: "k \<in> set (sh_blocked m) \<longleftrightarrow> isWaiting e" if mem: "(k, e) \<in> set (sh_entries m)" for k e
  proof -
    have e: "sd_ID e = k" "e \<in> entriesOf m" using ok mem unfolding entries_ok_def by (blast, force)
    have "isWaiting e" if "k \<in> sd_ID ` {e \<in> entriesOf m. isWaiting e}"
    proof -
      from that obtain d where d: "d \<in> entriesOf m" "isWaiting d" "k = sd_ID d" by blast
      have "d = e" by (rule inj_onD [OF entries_ok_inj [OF ok]]) (simp_all only: d e)
      with d(2) show ?thesis by simp
    qed
    moreover have "isWaiting e \<Longrightarrow> k \<in> sd_ID ` {e \<in> entriesOf m. isWaiting e}"
      using e by (intro image_eqI [of _ _ e]) simp_all
    ultimately show ?thesis unfolding blocked(2) by blast
  qed
  have nodem: "isWaiting e \<Longrightarrow> \<not> demotes env ?k now e" for e by (auto simp: demotes_def)
  have "map (\<lambda>(k, e). (k, if k \<in> set (sh_blocked m) \<and> due now e then refreshed env ?k now e else e)) es1
      = map (\<lambda>(k, e). (k, advance env ?k now e)) (sh_entries m)"
    unfolding es1_def using wait nodem by (auto simp: advance_def advances_def)
  moreover have "list_ex (\<lambda>(k, e). demotes env ?k now e) (sh_entries m)
      \<or> (\<exists>(k, e) \<in> set es1. k \<in> set (sh_blocked m) \<and> due now e)
    \<longleftrightarrow> (\<exists>e \<in> entriesOf m. advances env ?k now e)"
  proof -
    have "(\<exists>(k, e) \<in> set es1. k \<in> set (sh_blocked m) \<and> due now e)
        \<longleftrightarrow> (\<exists>(k, e) \<in> set (sh_entries m). isWaiting e \<and> due now e)"
      unfolding es1_def set_map bex_simps(7)
      by (intro bex_cong refl) (use wait nodem in \<open>auto split: if_splits\<close>)
    then show ?thesis unfolding advances_def list_ex_iff case_prod_beta' bex_simps(7) by metis
  qed
  ultimately have "promoteExpired env now m =
      (if \<exists>e \<in> entriesOf m. advances env ?k now e then rebuildIndexes m1 else m1)"
    unfolding promoteExpired_def demoteExpiredTokens_def es1_def [symmetric] m1_def
    by (simp add: promote_fold [OF dist(2) blocked(1)])
  moreover have "m1 = m" if "\<not> (\<exists>e \<in> entriesOf m. advances env ?k now e)"
  proof -
    have "map (\<lambda>(k, e). (k, advance env ?k now e)) (sh_entries m) = sh_entries m"
      using that by (intro map_idI) (auto simp: advance_def)
    then show ?thesis by (simp add: m1_def)
  qed
  ultimately show ?thesis by simp
qed

end
