(* ===== verification/Shard_Picks.thy ===== *)
theory Shard_Picks
  imports Scheduler_Shard
begin

text \<open>
  What a shard answers. The states of the entries are maintained incrementally: an entry is
  evaluated when it is inserted and again when its retry time has passed or its token has expired.
  The first part shows that after the promotion pass this bookkeeping agrees with a fresh evaluation of
  \<open>isAuthBlockedForModel\<close> for every entry. The second part states the contract of the three ways to
  pick from a ready view as a locale and proves, once, that picking from a shard
  returns an admissible free credential of the highest priority whenever there is one.
\<close>

section \<open>The promotion pass agrees with a fresh evaluation\<close>

text \<open>The state of an entry is what some earlier evaluation gave.\<close>

definition entry_fresh :: "token_env \<Rightarrow> string \<Rightarrow> time \<Rightarrow> scheduledAuth \<Rightarrow> bool" where
  "entry_fresh env modelKey now e \<longleftrightarrow>
     (\<exists>t. 0 \<le> t \<and> t \<le> now
        \<and> (sd_state e, sd_nextRetryAt e) = scheduledOutcome (isAuthBlockedForModel env (sd_auth e) modelKey t))"

definition shard_fresh :: "token_env \<Rightarrow> time \<Rightarrow> modelScheduler \<Rightarrow> bool" where
  "shard_fresh env now m \<longleftrightarrow> (\<forall>e \<in> entriesOf m. entry_fresh env (sh_modelKey m) now e)"

text \<open>The state of every entry is right at this moment.\<close>

definition shard_current :: "token_env \<Rightarrow> time \<Rightarrow> modelScheduler \<Rightarrow> bool" where
  "shard_current env now m \<longleftrightarrow>
     (\<forall>e \<in> entriesOf m. isReady e \<longleftrightarrow> unblocked env (sh_modelKey m) now (sd_auth e))"

lemma entry_fresh_later: "entry_fresh env k now e \<Longrightarrow> now \<le> now' \<Longrightarrow> entry_fresh env k now' e"
  unfolding entry_fresh_def by (meson order_trans)

lemma shard_fresh_later: "shard_fresh env now m \<Longrightarrow> now \<le> now' \<Longrightarrow> shard_fresh env now' m"
  unfolding shard_fresh_def using entry_fresh_later by blast

lemma scheduledOutcome_ready: "fst (scheduledOutcome r) = scheduledStateReady \<longleftrightarrow> \<not> fst r"
  by (simp add: scheduledOutcome_def split: prod.splits)

lemma refreshed_fresh: "0 \<le> now \<Longrightarrow> entry_fresh env k now (refreshed env k now e)"
  unfolding entry_fresh_def by (intro exI [of _ now]) simp

lemma advance_fresh:
  "0 \<le> now \<Longrightarrow> entry_fresh env k now e \<Longrightarrow> entry_fresh env k now (advance env k now e)"
  by (simp add: advance_def refreshed_fresh)

lemma modelStatesBlock_disabled:
  "fst (snd (modelStatesBlock k now m matched acc)) = blockReasonDisabled \<Longrightarrow>
   fst (snd acc) \<noteq> blockReasonDisabled \<Longrightarrow> snd (snd (modelStatesBlock k now m matched acc)) = 0"
proof (induction m arbitrary: matched acc)
  case (Cons x m)
  obtain sm so where x: "x = (sm, so)" by (cases x)
  show ?case
  proof (cases so)
    case None
    with Cons x show ?thesis by simp
  next
    case (Some st)
    obtain b reason d where d: "modelAvailabilityBlock st now = (b, reason, d)"
      by (cases "modelAvailabilityBlock st now")
    have "fst (snd (modelAvailabilityBlock st now)) \<noteq> blockReasonDisabled"
      by (auto simp: modelAvailabilityBlock_def upgradeReason_def availabilityBlock_def Let_def
          split: prod.splits if_splits)
    with d have r: "reason \<noteq> blockReasonDisabled" by simp
    obtain b0 r0 d0 where acc: "acc = (b0, r0, d0)" by (cases acc)
    have "modelStatesBlock k now (x # m) matched acc \<in>
        {modelStatesBlock k now m matched acc, (True, blockReasonDisabled, 0), modelStatesBlock k now m True acc,
         (True, reason, 0), modelStatesBlock k now m True (True, reason, d)}"
      unfolding x Some acc modelStatesBlock.simps(3) d prod.case by (simp del: insert_iff) simp
    with Cons.IH [of True acc] Cons.IH [of True "(True, reason, d)"] Cons.IH [of matched acc] Cons.prems r
    show ?thesis by (metis fst_conv insertE singletonD snd_conv)
  qed
qed auto

text \<open>A credential blocked as disabled carries no retry time.\<close>

lemma disabled_no_deadline:
  assumes "isAuthBlockedForModel env auth model now = (b, blockReasonDisabled, d)"
  shows "d = 0"
proof -
  have "fst (snd (authAvailabilityBlock auth now)) \<noteq> blockReasonDisabled"
    by (auto simp: authAvailabilityBlock_def upgradeReason_def availabilityBlock_def Let_def split: prod.splits if_splits)
  moreover have "snd (snd (modelStatesBlock k now m False (False, blockReasonNone, 0))) = 0"
    if "fst (snd (modelStatesBlock k now m False (False, blockReasonNone, 0))) = blockReasonDisabled" for k m
    using modelStatesBlock_disabled [OF that] by simp
  ultimately show ?thesis
    using assms unfolding isAuthBlockedForModel_def
    by (metis (no_types, lifting) blockReason.distinct fst_conv snd_conv)
qed

lemma advance_current:
  assumes "0 \<le> now" and "entry_fresh env k now e"
  shows "isReady (advance env k now e) \<longleftrightarrow> unblocked env k now (sd_auth e)"
proof -
  have un: "unblocked env k now (sd_auth e) \<longleftrightarrow> \<not> fst (isAuthBlockedForModel env (sd_auth e) k now)"
    by (simp add: unblocked_def)
  obtain t where t: "0 \<le> t" "t \<le> now"
    and out: "(sd_state e, sd_nextRetryAt e) = scheduledOutcome (isAuthBlockedForModel env (sd_auth e) k t)"
    using assms(2) by (auto simp: entry_fresh_def)
  obtain b r d where at: "isAuthBlockedForModel env (sd_auth e) k t = (b, r, d)"
    by (cases "isAuthBlockedForModel env (sd_auth e) k t")
  show ?thesis
  proof (cases "advances env k now e")
    case True
    then show ?thesis by (simp add: advance_def scheduledOutcome_ready un)
  next
    case False
    then have adv: "advance env k now e = e" by (simp add: advance_def)
    show ?thesis
    proof (cases b)
      case blocked: True
      have "\<not> isReady e" using out at blocked by (simp add: scheduledOutcome_def split: if_splits)
      moreover have "d = 0 \<or> now < d"
      proof (cases "r = blockReasonDisabled")
        case True
        with at disabled_no_deadline show ?thesis by blast
      next
        case notdis: False
        with out at blocked have "isWaiting e" "sd_nextRetryAt e = d"
          by (auto simp: scheduledOutcome_def split: if_splits)
        with False show ?thesis by (auto simp: advances_def due_def)
      qed
      then have "fst (isAuthBlockedForModel env (sd_auth e) k now)"
        using isAuthBlockedForModel_lasts [OF t, of env "sd_auth e" k r d] at blocked by simp
      ultimately show ?thesis by (simp add: adv un)
    next
      case free: False
      then have ready: "isReady e" using out at by (simp add: scheduledOutcome_def)
      have "fst (isAuthBlockedForModel env (sd_auth e) k now) \<longleftrightarrow> tokenExpired env (sd_auth e) now"
        using isAuthBlockedForModel_stays_free [OF t, of env "sd_auth e" k] at free by simp
      with ready False show ?thesis by (simp add: adv un advances_def demotes_def)
    qed
  qed
qed

lemma promoteExpired_wf:
  assumes "shard_wf m"
  shows "shard_wf (promoteExpired env now m)" and "sh_modelKey (promoteExpired env now m) = sh_modelKey m"
    and "entriesOf (promoteExpired env now m) = advance env (sh_modelKey m) now ` entriesOf m"
proof -
  let ?m1 = "m\<lparr>sh_entries := map (\<lambda>(k, e). (k, advance env (sh_modelKey m) now e)) (sh_entries m)\<rparr>"
  have "entries_ok ?m1"
    using assms by (auto simp: shard_wf_def entries_ok_def case_prod_beta' o_def)
  then show "shard_wf (promoteExpired env now m)" "sh_modelKey (promoteExpired env now m) = sh_modelKey m"
    using assms by (simp_all add: promoteExpired_eq rebuildIndexes_ok)
  have "entriesOf ?m1 = advance env (sh_modelKey m) now ` entriesOf m" by (force simp: image_iff)
  moreover have "advance env (sh_modelKey m) now ` entriesOf m = entriesOf m"
    if "\<not> (\<exists>e \<in> entriesOf m. advances env (sh_modelKey m) now e)"
  proof -
    have "advance env (sh_modelKey m) now ` entriesOf m = (\<lambda>e. e) ` entriesOf m"
      by (rule image_cong [OF refl]) (use that in \<open>metis advance_def\<close>)
    then show ?thesis by simp
  qed
  ultimately show "entriesOf (promoteExpired env now m) = advance env (sh_modelKey m) now ` entriesOf m"
    using assms by (simp add: promoteExpired_eq)
qed

lemma promoteExpired_current:
  assumes "shard_wf m" and "0 \<le> now" and "shard_fresh env now m"
  shows "shard_current env now (promoteExpired env now m)" and "shard_fresh env now (promoteExpired env now m)"
  using assms advance_current [OF assms(2)] advance_fresh [OF assms(2)]
  by (auto simp: shard_current_def shard_fresh_def promoteExpired_wf)

lemma promoteExpired_auths:
  "shard_wf m \<Longrightarrow> (\<lambda>e. (sd_auth e, sd_meta e)) ` entriesOf (promoteExpired env now m)
     = (\<lambda>e. (sd_auth e, sd_meta e)) ` entriesOf m"
  by (simp add: promoteExpired_wf image_image)

lemma upsertEntry_entries:
  assumes "shard_wf m" and "e \<in> entriesOf (upsertEntry env meta now m)"
  shows "e = refreshed env (sh_modelKey m) now
      \<lparr>sd_meta = meta, sd_auth = sm_auth meta, sd_state = scheduledStateReady, sd_nextRetryAt = 0\<rparr>
    \<or> e \<in> entriesOf m"
proof -
  let ?e0 = "\<lparr>sd_meta = meta, sd_auth = sm_auth meta, sd_state = scheduledStateReady, sd_nextRetryAt = 0\<rparr>"
  have "distinct_keys (sh_entries m)" using assms(1) by (simp add: shard_wf_def entries_ok_def)
  then have "entriesOf (upsertEntry env meta now m) \<subseteq> insert (refreshed env (sh_modelKey m) now ?e0) (entriesOf m)"
    unfolding upsertEntry_fields(2)
    by (simp only: set_update_distinct image_insert snd_conv scheduledAuth.select_convs)
      (intro insert_mono image_mono; auto)
  with assms(2) show ?thesis by (meson insertE subsetD)
qed

lemma upsertEntry_all:
  assumes "shard_wf m" and "\<forall>e \<in> entriesOf m. Q e" and "\<And>e. Q (refreshed env (sh_modelKey m) now e)"
  shows "\<forall>e \<in> entriesOf (upsertEntry env meta now m). Q e"
proof
  fix e
  assume "e \<in> entriesOf (upsertEntry env meta now m)"
  from upsertEntry_entries [OF assms(1) this] show "Q e"
  proof
    assume "e \<in> entriesOf m"
    with assms(2) show ?thesis by (rule bspec)
  qed (simp only: assms(3))
qed

lemma upsertEntry_fresh:
  assumes "shard_wf m" and "0 \<le> now" and "shard_fresh env now m"
  shows "shard_fresh env now (upsertEntry env meta now m)"
  using assms(3) refreshed_fresh [OF assms(2)]
  unfolding shard_fresh_def upsertEntry_fields(1) by (rule upsertEntry_all [OF assms(1)])

lemma upsertEntry_current:
  assumes "shard_wf m" and "shard_current env now m"
  shows "shard_current env now (upsertEntry env meta now m)"
  using assms(2) unfolding shard_current_def upsertEntry_fields(1)
  by (rule upsertEntry_all [OF assms(1)]) (simp add: scheduledOutcome_ready unblocked_def)

lemma removeEntry_fresh: "shard_fresh env now m \<Longrightarrow> shard_fresh env now (removeEntry authID m)"
proof -
  assume fresh: "shard_fresh env now m"
  have "entriesOf (removeEntry authID m) \<subseteq> entriesOf m"
    unfolding removeEntry_def by (simp add: image_mono AList.delete_eq)
  with fresh show ?thesis unfolding shard_fresh_def removeEntry_fields(1) by blast
qed

section \<open>Picking from a ready view\<close>

text \<open>
  A picker looks only at the entries of the view that satisfy the predicate. It finds one
  whenever an entry it can use (\<open>admits\<close>) satisfies it, and it moves cursors only.
\<close>

locale view_picker =
  fixes pick :: "(scheduledAuth \<Rightarrow> bool) \<Rightarrow> scheduledAuth list \<Rightarrow> readyView \<Rightarrow> scheduledAuth option \<times> readyView"
    and admits :: "scheduledAuth \<Rightarrow> bool"
  assumes pick_sound: "fst (pick P flat v) = Some e \<Longrightarrow> e \<in> set flat \<and> P e"
    and pick_complete: "e \<in> set flat \<Longrightarrow> P e \<Longrightarrow> admits e \<Longrightarrow> fst (pick P flat v) \<noteq> None"
    and pick_flat: "rv_flat (snd (pick P flat v)) = rv_flat v"
begin

lemma pick_decides:
  assumes "\<forall>e \<in> set flat. P e \<longrightarrow> admits e"
  shows "case fst (pick P flat v) of
      None \<Rightarrow> \<forall>e \<in> set flat. \<not> P e
    | Some e \<Rightarrow> e \<in> set flat \<and> P e"
  using pick_sound [of P flat v] pick_complete [of _ flat P v] assms by (auto split: option.splits)

end

definition positiveWeight :: "scheduledAuth \<Rightarrow> bool" where
  "positiveWeight e \<longleftrightarrow> sm_weight (sd_meta e) > 0"

interpretation fillFirst: view_picker "\<lambda>P flat v. (pickFirst P flat, v)" "\<lambda>_. True"
  by unfold_locales (auto simp: pickFirst_def find_None_conv dest: find_Some_mem)

lemma rotated_mem: "n \<noteq> 0 \<Longrightarrow> i < n \<Longrightarrow> \<exists>offset < n. (start + offset) mod n = (i :: nat)"
proof -
  assume n: "n \<noteq> 0" and i: "i < n"
  define offset where "offset = (i + (n - start mod n)) mod n"
  have "(start + offset) mod n = (start mod n + (i + (n - start mod n))) mod n"
    unfolding offset_def by (metis mod_add_left_eq mod_add_right_eq)
  also have "start mod n + (i + (n - start mod n)) = i + n"
    using n mod_less_divisor [of n start] by linarith
  finally have "(start + offset) mod n = i" using i by simp
  with n show ?thesis unfolding offset_def by (metis mod_less_divisor neq0_conv)
qed

interpretation roundRobin: view_picker pickRoundRobin "\<lambda>_. True"
proof unfold_locales
  fix P flat v e
  assume "fst (pickRoundRobin P flat v) = Some e"
  then obtain o' where ne: "flat \<noteq> []"
    and f: "List.find (\<lambda>offset. P (flat ! ((scheduledSuccessorIndex flat (rv_lastPicked v) + offset) mod length flat)))
       [0..<length flat] = Some o'"
    and e: "e = flat ! ((scheduledSuccessorIndex flat (rv_lastPicked v) + o') mod length flat)"
    by (auto simp: pickRoundRobin_def Let_def split: if_splits option.splits)
  with find_Some_mem [OF f] show "e \<in> set flat \<and> P e" by simp
next
  fix P flat and e :: scheduledAuth and v :: readyView
  assume e: "e \<in> set flat" and P: "P e"
  then obtain i where i: "i < length flat" "e = flat ! i" by (auto simp: in_set_conv_nth)
  let ?s = "scheduledSuccessorIndex flat (rv_lastPicked v)"
  have "length flat \<noteq> 0" using i by linarith
  from rotated_mem [OF this i(1), of ?s] obtain o' where "o' < length flat" "(?s + o') mod length flat = i"
    by blast
  with i P have "List.find (\<lambda>offset. P (flat ! ((?s + offset) mod length flat))) [0..<length flat] \<noteq> None"
    by (auto simp: find_None_conv)
  with e show "fst (pickRoundRobin P flat v) \<noteq> None"
    by (auto simp: pickRoundRobin_def Let_def split: option.splits)
next
  fix P flat and v :: readyView
  show "rv_flat (snd (pickRoundRobin P flat v)) = rv_flat v"
    by (simp add: pickRoundRobin_def Let_def split: option.splits)
qed

lemma pickSmoothWeightedScheduled_member:
  "fst (pickSmoothWeightedScheduled flat current P) = None \<longleftrightarrow> \<not> (\<exists>e \<in> set flat. positiveWeight e \<and> P e)"
  "fst (pickSmoothWeightedScheduled flat current P) = Some e \<Longrightarrow> e \<in> set flat \<and> P e \<and> positiveWeight e"
proof -
  let ?es = "filter (\<lambda>e. sm_weight (sd_meta e) > 0 \<and> P e) flat"
  note mem = smoothPick_member [of sd_ID "\<lambda>e. sm_weight (sd_meta e)" ?es current]
  have "?es = [] \<longleftrightarrow> \<not> (\<exists>e \<in> set flat. positiveWeight e \<and> P e)"
    by (auto simp: positiveWeight_def filter_empty_conv)
  with conjunct1 [OF mem]
  show "fst (pickSmoothWeightedScheduled flat current P) = None \<longleftrightarrow> \<not> (\<exists>e \<in> set flat. positiveWeight e \<and> P e)"
    unfolding pickSmoothWeightedScheduled_def by (rule trans)
  assume "fst (pickSmoothWeightedScheduled flat current P) = Some e"
  with conjunct2 [OF mem] have "e \<in> set ?es" unfolding pickSmoothWeightedScheduled_def by blast
  then show "e \<in> set flat \<and> P e \<and> positiveWeight e" by (simp add: positiveWeight_def)
qed

lemma pickWeighted_fst:
  "fst (pickWeighted P flat v) =
    (if flat = [] then None
     else fst (pickSmoothWeightedScheduled flat
       (the_map (sw_current (prepare (scheduledWeightVectorMatching flat P) (rv_weightedState v)))) P))"
  by (simp add: pickWeighted_def Let_def case_prod_beta')

interpretation weighted: view_picker pickWeighted positiveWeight
proof unfold_locales
  fix P flat e and v :: readyView
  show "fst (pickWeighted P flat v) = Some e \<Longrightarrow> e \<in> set flat \<and> P e"
    using pickSmoothWeightedScheduled_member(2) [of flat _ P e] by (simp add: pickWeighted_fst split: if_splits)
  show "e \<in> set flat \<Longrightarrow> P e \<Longrightarrow> positiveWeight e \<Longrightarrow> fst (pickWeighted P flat v) \<noteq> None"
    using pickSmoothWeightedScheduled_member(1) [of flat _ P] by (auto simp: pickWeighted_fst)
  show "rv_flat (snd (pickWeighted P flat v)) = rv_flat v"
    by (simp add: pickWeighted_def Let_def case_prod_beta')
qed

text \<open>The strategy switch is a picker as well; only the weighted one needs a positive weight.\<close>

definition strategyAdmits :: "schedulerStrategy \<Rightarrow> scheduledAuth \<Rightarrow> bool" where
  "strategyAdmits strategy e \<longleftrightarrow> strategy = schedulerStrategyWeightedRoundRobin \<longrightarrow> positiveWeight e"

interpretation byStrategy: view_picker "pickView strategy" "strategyAdmits strategy" for strategy
proof unfold_locales
  fix P flat e and v :: readyView
  show "fst (pickView strategy P flat v) = Some e \<Longrightarrow> e \<in> set flat \<and> P e"
    using fillFirst.pick_sound [of P flat v e] roundRobin.pick_sound [of P flat v e] weighted.pick_sound [of P flat v e]
    by (cases strategy) (simp_all add: pickView_def)
  show "e \<in> set flat \<Longrightarrow> P e \<Longrightarrow> strategyAdmits strategy e \<Longrightarrow> fst (pickView strategy P flat v) \<noteq> None"
    using fillFirst.pick_complete [of e flat P v] roundRobin.pick_complete [of e flat P v] weighted.pick_complete [of e flat P v]
    by (cases strategy) (simp_all add: pickView_def strategyAdmits_def)
  show "rv_flat (snd (pickView strategy P flat v)) = rv_flat v"
    using roundRobin.pick_flat [of P flat v] weighted.pick_flat [of P flat v]
    by (cases strategy) (simp_all add: pickView_def)
qed

section \<open>Picking from a shard\<close>

abbreviation e_priority :: "scheduledAuth \<Rightarrow> int" where "e_priority e \<equiv> sm_priority (sd_meta e)"

text \<open>
  The entries a request may get: the ready ones that satisfy its predicate; when websocket
  transport is preferred and some of them offer it, only those.
\<close>

definition matching :: "(scheduledAuth \<Rightarrow> bool) \<Rightarrow> modelScheduler \<Rightarrow> scheduledAuth set" where
  "matching P m = {e \<in> entriesOf m. isReady e \<and> P e}"

definition offered :: "bool \<Rightarrow> (scheduledAuth \<Rightarrow> bool) \<Rightarrow> modelScheduler \<Rightarrow> scheduledAuth set" where
  "offered preferWebsocket P m =
     (let ws = {e \<in> matching P m. sm_websocketEnabled (sd_meta e)}
      in if preferWebsocket \<and> ws \<noteq> {} then ws else matching P m)"

definition tops :: "scheduledAuth set \<Rightarrow> scheduledAuth \<Rightarrow> bool" where
  "tops S e \<longleftrightarrow> e \<in> S \<and> (\<forall>d \<in> S. e_priority d \<le> e_priority e)"

lemma find_first_max:
  assumes "sorted_wrt (>) ps" and "List.find Q ps = Some (p :: int)"
  shows "p \<in> set ps \<and> Q p \<and> (\<forall>q \<in> set ps. Q q \<longrightarrow> q \<le> p)"
  using assms by (induction ps) (auto split: if_splits)

text \<open>The two views of a bucket, and the first priority whose view has a matching entry.\<close>

lemma view_entries:
  assumes "shard_wf m" and "map_of (sh_readyByPriority m) p = Some b"
  shows "set (deref (sh_entries m) (rv_flat (rb_all b))) = readyAt m p"
    and "set (deref (sh_entries m) (rv_flat (rb_ws b))) = {e \<in> readyAt m p. sm_websocketEnabled (sd_meta e)}"
proof -
  have ok: "entries_ok m" and l: "lists_ids (rv_flat (rb_all b)) (readyAt m p)"
    "lists_ids (rv_flat (rb_ws b)) {e \<in> readyAt m p. sm_websocketEnabled (sd_meta e)}"
    using assms by (simp_all add: shard_wf_def index_ok_def)
  have sub: "readyAt m p \<subseteq> entriesOf m" "{e \<in> readyAt m p. sm_websocketEnabled (sd_meta e)} \<subseteq> entriesOf m"
    unfolding readyAt_def by blast+
  show "set (deref (sh_entries m) (rv_flat (rb_all b))) = readyAt m p"
    by (rule deref_lists(2) [OF ok l(1) sub(1)])
  show "set (deref (sh_entries m) (rv_flat (rb_ws b))) = {e \<in> readyAt m p. sm_websocketEnabled (sd_meta e)}"
    by (rule deref_lists(2) [OF ok l(2) sub(2)])
qed

lemma bucket_exists:
  assumes "shard_wf m" and "e \<in> readyAt m p"
  obtains b where "map_of (sh_readyByPriority m) p = Some b" and "p \<in> set (sh_priorityOrder m)"
proof -
  have "set (sh_priorityOrder m) = {p. readyAt m p \<noteq> {}}" using assms(1) by (simp add: shard_wf_def index_ok_def)
  with assms(2) have "p \<in> set (sh_priorityOrder m)" by blast
  moreover from this have "p \<in> keys (sh_readyByPriority m)" using assms(1) by (simp add: shard_wf_def index_ok_def)
  ultimately show thesis using that by (metis map_of_eq_None_iff not_None_eq)
qed

lemma pickFirst_None: "pickFirst P flat = None \<longleftrightarrow> (\<forall>e \<in> set flat. \<not> P e)"
  by (simp add: pickFirst_def find_None_conv)

text \<open>
  \<open>R\<close> is the restriction of the view (all entries, or those with websocket transport).
\<close>

lemma firstPriority_spec:
  assumes "shard_wf m"
    and view: "\<forall>p b. map_of (sh_readyByPriority m) p = Some b \<longrightarrow>
      set (deref (sh_entries m) (rv_flat (view b))) = {e \<in> readyAt m p. R e}"
  shows "firstPriority view P m = None \<Longrightarrow> {e \<in> matching P m. R e} = {}"
    and "firstPriority view P m = Some p \<Longrightarrow>
      (\<exists>e \<in> readyAt m p. P e \<and> R e) \<and> (\<forall>e \<in> matching P m. R e \<longrightarrow> e_priority e \<le> p)"
proof -
  let ?Q = "\<lambda>p. case map_of (sh_readyByPriority m) p of None \<Rightarrow> False
    | Some b \<Rightarrow> pickFirst P (deref (sh_entries m) (rv_flat (view b))) \<noteq> None"
  have Q: "?Q p \<longleftrightarrow> (\<exists>e \<in> readyAt m p. R e \<and> P e)" for p
  proof (cases "map_of (sh_readyByPriority m) p")
    case None
    then show ?thesis using bucket_exists [OF assms(1)] by (metis option.distinct(1) option.simps(4))
  next
    case (Some b)
    then have "?Q p \<longleftrightarrow> \<not> (\<forall>e \<in> set (deref (sh_entries m) (rv_flat (view b))). \<not> P e)"
      by (simp only: option.case pickFirst_None)
    with view Some show ?thesis by auto
  qed
  have order: "sorted_wrt (>) (sh_priorityOrder m)" using assms(1) by (simp add: shard_wf_def index_ok_def)
  have cover: "e_priority e \<in> set (sh_priorityOrder m) \<and> ?Q (e_priority e)" if "e \<in> matching P m" "R e" for e
  proof -
    have e: "e \<in> readyAt m (e_priority e)" "P e" using that(1) by (auto simp: matching_def readyAt_def)
    from bucket_exists [OF assms(1) e(1)] have "e_priority e \<in> set (sh_priorityOrder m)" by metis
    with e that(2) show ?thesis unfolding Q by blast
  qed
  show "firstPriority view P m = None \<Longrightarrow> {e \<in> matching P m. R e} = {}"
    using cover unfolding firstPriority_def find_None_conv by blast
  assume "firstPriority view P m = Some p"
  from find_first_max [OF order this [unfolded firstPriority_def]] cover Q
  show "(\<exists>e \<in> readyAt m p. P e \<and> R e) \<and> (\<forall>e \<in> matching P m. R e \<longrightarrow> e_priority e \<le> p)"
    by blast
qed

lemma readyAt_matching: "e \<in> readyAt m p \<Longrightarrow> P e \<Longrightarrow> e \<in> matching P m \<and> e_priority e = p"
  by (auto simp: readyAt_def matching_def)

lemma highestReadyPriority_spec:
  assumes "shard_wf m"
  shows "highestReadyPriority pw P m = None \<Longrightarrow> offered pw P m = {}"
    and "highestReadyPriority pw P m = Some p \<Longrightarrow> \<exists>e. tops (offered pw P m) e \<and> e_priority e = p"
proof -
  let ?ws = "{e \<in> matching P m. sm_websocketEnabled (sd_meta e)}"
  have "\<forall>p b. map_of (sh_readyByPriority m) p = Some b \<longrightarrow> set (deref (sh_entries m) (rv_flat (rb_ws b)))
      = {e \<in> readyAt m p. sm_websocketEnabled (sd_meta e)}"
    using view_entries(2) [OF assms] by blast
  note ws = firstPriority_spec [OF assms this, of P]
  have "\<forall>p b. map_of (sh_readyByPriority m) p = Some b \<longrightarrow> set (deref (sh_entries m) (rv_flat (rb_all b)))
      = {e \<in> readyAt m p. True}"
    using view_entries(1) [OF assms] by simp
  note all = firstPriority_spec [OF assms this, of P, simplified]
  have wsfind: "firstPriority rb_ws P m = None \<longleftrightarrow> ?ws = {}"
    using ws readyAt_matching [of _ m _ P] by (cases "firstPriority rb_ws P m") blast+
  show "highestReadyPriority pw P m = None \<Longrightarrow> offered pw P m = {}"
    using all(1) unfolding highestReadyPriority_def offered_def Let_def
    by (auto split: option.splits if_splits)
  assume h: "highestReadyPriority pw P m = Some p"
  show "\<exists>e. tops (offered pw P m) e \<and> e_priority e = p"
  proof (cases "pw \<and> ?ws \<noteq> {}")
    case True
    then have "firstPriority rb_ws P m = Some p"
      using h wsfind by (auto simp: highestReadyPriority_def split: option.splits)
    from ws(2) [OF this] obtain e where "e \<in> readyAt m p" "P e" "sm_websocketEnabled (sd_meta e)"
      and top: "\<forall>e \<in> matching P m. sm_websocketEnabled (sd_meta e) \<longrightarrow> e_priority e \<le> p" by blast
    with readyAt_matching [of e m p P] True show ?thesis
      unfolding tops_def offered_def Let_def by (intro exI [of _ e]) auto
  next
    case False
    then have "firstPriority rb_all P m = Some p"
      using h wsfind by (auto simp: highestReadyPriority_def split: option.splits if_splits)
    from all(2) [OF this] obtain e where "e \<in> readyAt m p" "P e"
      and "\<forall>e \<in> matching P m. e_priority e \<le> p" by blast
    with readyAt_matching [of e m p P] False show ?thesis
      unfolding tops_def offered_def Let_def by (intro exI [of _ e]) auto
  qed
qed

lemma pickReadyAtPriority_fields:
  "sh_entries (snd (pickReadyAtPriority pw p strategy P m)) = sh_entries m"
  "sh_modelKey (snd (pickReadyAtPriority pw p strategy P m)) = sh_modelKey m"
  by (simp_all add: pickReadyAtPriority_def Let_def split: option.splits prod.splits)

lemma pickReadyAtPriority_wf:
  assumes "shard_wf m"
  shows "shard_wf (snd (pickReadyAtPriority pw p strategy P m))"
proof (cases "map_of (sh_readyByPriority m) p")
  case None
  with assms show ?thesis by (simp add: pickReadyAtPriority_def)
next
  case (Some b)
  let ?m = "snd (pickReadyAtPriority pw p strategy P m)"
  have ok: "entries_ok m" "index_ok m" using assms by (simp_all add: shard_wf_def)
  then have ok': "entries_ok ?m" by (simp add: entries_ok_def pickReadyAtPriority_fields)
  obtain b' where m': "?m = m\<lparr>sh_readyByPriority := AList.update p b' (sh_readyByPriority m)\<rparr>"
    and b': "rv_flat (rb_all b') = rv_flat (rb_all b)" "rv_flat (rb_ws b') = rv_flat (rb_ws b)"
  proof (rule that)
    let ?ws = "useWebsocketView pw P m b"
    let ?v = "if ?ws then rb_ws b else rb_all b"
    let ?v' = "snd (pickView strategy P (deref (sh_entries m) (rv_flat ?v)) ?v)"
    let ?b = "if ?ws then b\<lparr>rb_ws := ?v'\<rparr> else b\<lparr>rb_all := ?v'\<rparr>"
    show "?m = m\<lparr>sh_readyByPriority := AList.update p ?b (sh_readyByPriority m)\<rparr>"
      using Some by (simp add: pickReadyAtPriority_def Let_def split: prod.splits)
    show "rv_flat (rb_all ?b) = rv_flat (rb_all b)" "rv_flat (rb_ws ?b) = rv_flat (rb_ws b)"
      by (simp_all add: byStrategy.pick_flat)
  qed
  have "index_ok ?m"
  proof (rule index_ok_shapes [OF ok(2,1) ok'])
    have "p \<in> keys (sh_readyByPriority m)" using Some by (metis map_of_eq_None_iff option.distinct(1))
    then show "keys (sh_readyByPriority ?m) = keys (sh_readyByPriority m)" by (simp add: m' insert_absorb)
    show "\<exists>b. map_of (sh_readyByPriority m) q = Some b \<and> rv_flat (rb_all c) = rv_flat (rb_all b)
        \<and> rv_flat (rb_ws c) = rv_flat (rb_ws b)" if "map_of (sh_readyByPriority ?m) q = Some c" for q c
      using that Some b' by (cases "q = p") (simp_all add: m')
  qed (simp_all add: m')
  with ok' show ?thesis by (simp add: shard_wf_def)
qed

lemma pickReadyAtPriority_spec:
  assumes wf: "shard_wf m" and adm: "\<forall>e \<in> entriesOf m. P e \<longrightarrow> strategyAdmits strategy e"
    and top: "tops (offered pw P m) t" and p: "e_priority t = p"
  shows "\<exists>e. fst (pickReadyAtPriority pw p strategy P m) = Some (sd_auth e) \<and> tops (offered pw P m) e"
proof -
  let ?ws = "{e \<in> matching P m. sm_websocketEnabled (sd_meta e)}"
  have t: "t \<in> readyAt m p" "P t"
    using top p by (auto simp: tops_def offered_def Let_def matching_def readyAt_def split: if_splits)
  obtain b where b: "map_of (sh_readyByPriority m) p = Some b" by (rule bucket_exists [OF wf t(1)])
  define ws where "ws \<longleftrightarrow> useWebsocketView pw P m b"
  define v where "v = (if ws then rb_ws b else rb_all b)"
  define flat where "flat = deref (sh_entries m) (rv_flat v)"
  have ws: "ws \<longleftrightarrow> pw \<and> (\<exists>e \<in> readyAt m p. sm_websocketEnabled (sd_meta e) \<and> P e)"
    unfolding ws_def useWebsocketView_def pickFirst_None view_entries(2) [OF wf b] by auto
  have flat: "set flat = {e \<in> readyAt m p. ws \<longrightarrow> sm_websocketEnabled (sd_meta e)}"
    unfolding flat_def v_def using view_entries [OF wf b] by (cases ws) simp_all
  have t_ws: "pw \<and> ?ws \<noteq> {} \<Longrightarrow> sm_websocketEnabled (sd_meta t)"
    using top unfolding tops_def offered_def Let_def by (auto split: if_splits)
  have ws_iff: "ws \<longleftrightarrow> pw \<and> ?ws \<noteq> {}"
    unfolding ws using t_ws t readyAt_matching [of _ m p P] by blast
  have "\<forall>e \<in> set flat. P e \<longrightarrow> strategyAdmits strategy e"
    unfolding flat using adm by (auto simp: readyAt_def)
  note dec = byStrategy.pick_decides [OF this, of v]
  have "t \<in> set flat" unfolding flat using t t_ws ws_iff by blast
  with dec t(2) obtain e where e: "fst (pickView strategy P flat v) = Some e" "e \<in> set flat" "P e"
    by (auto split: option.splits)
  have "e \<in> offered pw P m" "e_priority e = p"
    using e(2,3) readyAt_matching [of e m p P] unfolding flat offered_def Let_def ws_iff by simp_all
  with top p have "tops (offered pw P m) e" by (simp add: tops_def)
  moreover have "fst (pickReadyAtPriority pw p strategy P m) = Some (sd_auth e)"
    unfolding pickReadyAtPriority_def b option.case Let_def ws_def [symmetric] v_def [symmetric] flat_def [symmetric]
    using e(1) by (simp add: case_prod_beta')
  ultimately show ?thesis by blast
qed

text \<open>A request predicate looks at the credential and its metadata only.\<close>

definition state_blind :: "(scheduledAuth \<Rightarrow> bool) \<Rightarrow> bool" where
  "state_blind P \<longleftrightarrow> (\<forall>e oc. P (setOutcome oc e) = P e)"

lemma state_blindD: "state_blind P \<Longrightarrow> P (setOutcome oc e) = P e"
  unfolding state_blind_def by blast

lemma pickReady_wf:
  "shard_wf m \<Longrightarrow> shard_wf (snd (pickReady env pw strategy P now m))"
  by (simp add: pickReady_def Let_def promoteExpired_wf(1) pickReadyAtPriority_wf split: option.splits)

lemma pickReady_fresh:
  assumes "shard_wf m" and "0 \<le> now" and "shard_fresh env now m"
  shows "shard_fresh env now (snd (pickReady env pw strategy P now m))"
  using promoteExpired_current(2) [OF assms]
  by (simp add: pickReady_def Let_def shard_fresh_def pickReadyAtPriority_fields split: option.splits)

text \<open>What \<open>pickReadyLocked\<close> promises, in terms of a fresh evaluation at the time of the pick.\<close>

definition freeFor :: "token_env \<Rightarrow> time \<Rightarrow> (scheduledAuth \<Rightarrow> bool) \<Rightarrow> modelScheduler \<Rightarrow> scheduledAuth set" where
  "freeFor env now P m = {e \<in> entriesOf m. P e \<and> unblocked env (sh_modelKey m) now (sd_auth e)}"

lemma pickReady_spec:
  assumes wf: "shard_wf m" and now: "0 \<le> now" and fresh: "shard_fresh env now m" and blind: "state_blind P"
    and adm: "\<forall>e \<in> entriesOf m. P e \<longrightarrow> strategyAdmits strategy e"
  defines "F \<equiv> freeFor env now P m"
  defines "W \<equiv> {e \<in> F. sm_websocketEnabled (sd_meta e)}"
  shows "case fst (pickReady env pw strategy P now m) of
      None \<Rightarrow> F = {}
    | Some a \<Rightarrow> \<exists>e. a = sd_auth e \<and> tops (if pw \<and> W \<noteq> {} then W else F) e"
proof -
  let ?k = "sh_modelKey m" and ?m1 = "promoteExpired env now m"
  have wf1: "shard_wf ?m1" by (rule promoteExpired_wf(1) [OF wf])
  have P_adv: "P (advance env ?k now e) = P e" for e
    unfolding advance_def by (simp add: state_blindD [OF blind])
  have fr: "entry_fresh env ?k now e" if "e \<in> entriesOf m" for e
    using fresh that unfolding shard_fresh_def by blast
  have M: "matching P ?m1 = advance env ?k now ` F"
    unfolding matching_def F_def freeFor_def promoteExpired_wf(3) [OF wf]
    using P_adv advance_current [OF now fr] by auto
  have O: "offered pw P ?m1 = advance env ?k now ` (if pw \<and> W \<noteq> {} then W else F)"
    unfolding offered_def M W_def Let_def by auto
  have adm1: "\<forall>e \<in> entriesOf ?m1. P e \<longrightarrow> strategyAdmits strategy e"
    using adm P_adv unfolding promoteExpired_wf(3) [OF wf] by (auto simp: strategyAdmits_def positiveWeight_def)
  have lower: "\<exists>e. tops S e \<and> sd_auth e = sd_auth x" if "tops (advance env ?k now ` S) x" for S x
  proof -
    from that obtain e where e: "e \<in> S" "x = advance env ?k now e" by (auto simp: tops_def)
    with that have "tops S e" by (auto simp: tops_def)
    with e(2) show ?thesis by auto
  qed
  show ?thesis
  proof (cases "highestReadyPriority pw P ?m1")
    case None
    with highestReadyPriority_spec(1) [OF wf1 None] O have "F = {}" by (auto simp: W_def split: if_splits)
    with None show ?thesis by (simp add: pickReady_def)
  next
    case (Some p)
    from highestReadyPriority_spec(2) [OF wf1 Some] obtain t where "tops (offered pw P ?m1) t" "e_priority t = p" by blast
    from pickReadyAtPriority_spec [OF wf1 adm1 this] obtain e
      where e: "fst (pickReadyAtPriority pw p strategy P ?m1) = Some (sd_auth e)" "tops (offered pw P ?m1) e" by blast
    have picked: "fst (pickReady env pw strategy P now m) = Some (sd_auth e)"
      using e(1) Some by (simp add: pickReady_def Let_def)
    obtain d where "tops (if pw \<and> W \<noteq> {} then W else F) d" "sd_auth d = sd_auth e"
      using lower [OF e(2) [unfolded O]] by blast
    then show ?thesis unfolding picked option.case by (metis (full_types))
  qed
qed

end
