(* ===== verification/Scheduler.thy ===== *)
theory Scheduler
  imports Shard_Picks Model_Info
begin

text \<open>
  The scheduler of the credential manager (\<^verbatim>\<open>sdk/cliproxy/auth/scheduler.go\<close>): the providers with
  their metadata and model shards, the generation and removal records that order concurrent
  updates, and the picks for one provider or for several.

  The mutex makes every exported method one step, so a method is a function on the state.
  \<open>models\<close> is \<open>GetModelsForClient\<close> of the global model registry, \<open>sha\<close> the hash of the account identity,
  \<open>env\<close> the token decoding; the calls to \<open>time.Now\<close> are arguments, one per call. The values of the request
  context are the fields of \<open>sched_request\<close>. A nil map reads like an empty one, so the maps are not optional.
\<close>

section \<open>State\<close>

datatype scheduledGenerationMeta =
  GenMeta (gm_epoch: uint64) (gm_generation: uint64) (gm_updatedAt: time)

record providerScheduler =
  ps_providerKey :: string
  ps_auths :: "(string, scheduledAuthMeta) gomap"
  ps_modelShards :: "(string, modelScheduler) gomap"

record authScheduler =
  as_strategy :: schedulerStrategy
  as_providers :: "(string, providerScheduler) gomap"
  as_authProviders :: "(string, string) gomap"
  as_authGenerations :: "(string, scheduledGenerationMeta) gomap"
  as_mixedCursors :: "(string, nat) gomap"
  as_mixedWeightedStates :: "(string, smoothWeightedState) gomap"

datatype selector_kind =
  NilSelector | RoundRobinKind | FillFirstKind | WeightedRoundRobinKind | OtherSelector

definition selectorStrategy :: "selector_kind \<Rightarrow> schedulerStrategy" where
  "selectorStrategy sel =
     (case sel of
        FillFirstKind \<Rightarrow> schedulerStrategyFillFirst
      | WeightedRoundRobinKind \<Rightarrow> schedulerStrategyWeightedRoundRobin
      | NilSelector \<Rightarrow> schedulerStrategyRoundRobin
      | RoundRobinKind \<Rightarrow> schedulerStrategyRoundRobin
      | OtherSelector \<Rightarrow> schedulerStrategyCustom)"

definition newAuthScheduler :: "selector_kind \<Rightarrow> authScheduler" where
  "newAuthScheduler sel =
     \<lparr>as_strategy = selectorStrategy sel, as_providers = [], as_authProviders = [],
      as_authGenerations = [], as_mixedCursors = [], as_mixedWeightedStates = []\<rparr>"

definition setSelector :: "selector_kind \<Rightarrow> authScheduler \<Rightarrow> authScheduler" where
  "setSelector sel s =
     s\<lparr>as_strategy := selectorStrategy sel, as_mixedCursors := [], as_mixedWeightedStates := []\<rparr>"

section \<open>Metadata\<close>

definition supportedModelSetForAuth :: "(string \<Rightarrow> ModelInfo option list) \<Rightarrow> string \<Rightarrow> string list" where
  "supportedModelSetForAuth models authID0 =
     (let authID = TrimSpace authID0
      in if authID = [] then []
         else fold (\<lambda>model keyset.
                case model of
                  None \<Rightarrow> keyset
                | Some mi \<Rightarrow>
                    let modelKey = canonicalModelKey (mi_ID mi)
                    in if modelKey = [] then keyset else List.insert modelKey keyset) (models authID) [])"

definition buildScheduledAuthMeta :: "(string \<Rightarrow> ModelInfo option list) \<Rightarrow> Auth \<Rightarrow> scheduledAuthMeta" where
  "buildScheduledAuthMeta models auth =
     \<lparr>sm_auth = auth, sm_providerKey = executorKeyFromAuth auth, sm_priority = authPriority auth,
      sm_weight = authWeight auth, sm_websocketEnabled = authWebsocketsEnabled auth,
      sm_supportedModelSet = supportedModelSetForAuth models (a_ID auth)\<rparr>"

definition supportsModel :: "scheduledAuthMeta \<Rightarrow> string \<Rightarrow> bool" where
  "supportsModel m modelKey0 =
     (let modelKey = canonicalModelKey modelKey0
      in if modelKey = [] then True
         else if sm_supportedModelSet m = [] then False
         else modelKey \<in> set (sm_supportedModelSet m))"

section \<open>Provider shards\<close>

definition new_providerScheduler :: "string \<Rightarrow> providerScheduler" where
  "new_providerScheduler providerKey = \<lparr>ps_providerKey = providerKey, ps_auths = [], ps_modelShards = []\<rparr>"

definition provider_upsertAuth :: "token_env \<Rightarrow> scheduledAuthMeta \<Rightarrow> time \<Rightarrow> providerScheduler \<Rightarrow> providerScheduler" where
  "provider_upsertAuth env meta now p =
     p\<lparr>ps_auths := AList.update (a_ID (sm_auth meta)) meta (ps_auths p),
       ps_modelShards := map (\<lambda>(modelKey, shard).
         (modelKey, if \<not> supportsModel meta modelKey then removeEntry (a_ID (sm_auth meta)) shard
                    else upsertEntry env meta now shard)) (ps_modelShards p)\<rparr>"

definition provider_removeAuth :: "string \<Rightarrow> providerScheduler \<Rightarrow> providerScheduler" where
  "provider_removeAuth authID p =
     (if authID = [] then p
      else p\<lparr>ps_auths := AList.delete authID (ps_auths p),
             ps_modelShards := map (\<lambda>(modelKey, shard). (modelKey, removeEntry authID shard)) (ps_modelShards p)\<rparr>)"

definition ensureModel ::
  "token_env \<Rightarrow> string \<Rightarrow> time \<Rightarrow> providerScheduler \<Rightarrow> modelScheduler \<times> providerScheduler" where
  "ensureModel env modelKey0 now p =
     (let modelKey = canonicalModelKey modelKey0;
          shard =
            (case map_of (ps_modelShards p) modelKey of
               Some shard \<Rightarrow> promoteExpired env now shard
             | None \<Rightarrow>
                 fold (\<lambda>(_, meta) shard. if \<not> supportsModel meta modelKey then shard else upsertEntry env meta now shard)
                   (ps_auths p) (new_modelScheduler modelKey))
      in (shard, p\<lparr>ps_modelShards := AList.update modelKey shard (ps_modelShards p)\<rparr>))"

section \<open>Updates\<close>

definition isStaleScheduledAuth :: "string \<Rightarrow> uint64 \<Rightarrow> uint64 \<Rightarrow> time \<Rightarrow> authScheduler \<Rightarrow> bool" where
  "isStaleScheduledAuth authID incomingEpoch incomingGen incomingUpdatedAt s =
     (case map_of (as_authGenerations s) authID of
        None \<Rightarrow> False
      | Some existing \<Rightarrow>
          if gm_epoch existing > incomingEpoch then True
          else if gm_epoch existing = incomingEpoch then
            (if gm_generation existing > incomingGen then True
             else gm_generation existing = incomingGen \<and> gm_updatedAt existing > incomingUpdatedAt)
          else False)"

definition removeAuthFromProviders :: "string \<Rightarrow> authScheduler \<Rightarrow> authScheduler" where
  "removeAuthFromProviders authID s =
     (let providerKey = get_str (as_authProviders s) authID
      in if providerKey = [] then s
         else
           let s1 = (case map_of (as_providers s) providerKey of
                       None \<Rightarrow> s
                     | Some p \<Rightarrow>
                         s\<lparr>as_providers := AList.update providerKey (provider_removeAuth authID p) (as_providers s)\<rparr>)
           in s1\<lparr>as_authProviders := AList.delete authID (as_authProviders s1)\<rparr>)"

definition ensureProvider :: "string \<Rightarrow> authScheduler \<Rightarrow> providerScheduler" where
  "ensureProvider providerKey s =
     (case map_of (as_providers s) providerKey of Some p \<Rightarrow> p | None \<Rightarrow> new_providerScheduler providerKey)"

definition upsertAuthLocked ::
  "token_env \<Rightarrow> (string \<Rightarrow> ModelInfo option list) \<Rightarrow> Auth \<Rightarrow> time \<Rightarrow> authScheduler \<Rightarrow> authScheduler" where
  "upsertAuthLocked env models auth now s =
     (let authID = TrimSpace (a_ID auth)
      in if authID = [] then s
         else if isStaleScheduledAuth authID (a_RegistrationEpoch auth) (a_Generation auth) (a_UpdatedAt auth) s then s
         else
           let s1 = s\<lparr>as_authGenerations := AList.update authID
                        (GenMeta (a_RegistrationEpoch auth) (a_Generation auth) (a_UpdatedAt auth))
                        (as_authGenerations s)\<rparr>;
               providerKey = executorKeyFromAuth auth
           in if providerKey = [] \<or> a_Disabled auth \<or> a_Status auth = StatusDisabled
              then removeAuthFromProviders authID s1
              else
                let previousProvider = get_str (as_authProviders s1) authID;
                    s2 = (if previousProvider \<noteq> [] \<and> previousProvider \<noteq> providerKey then
                            (case map_of (as_providers s1) previousProvider of
                               None \<Rightarrow> s1
                             | Some p \<Rightarrow> s1\<lparr>as_providers :=
                                 AList.update previousProvider (provider_removeAuth authID p) (as_providers s1)\<rparr>)
                          else s1);
                    meta = buildScheduledAuthMeta models auth;
                    s3 = s2\<lparr>as_authProviders := AList.update authID providerKey (as_authProviders s2)\<rparr>
                in s3\<lparr>as_providers := AList.update providerKey
                        (provider_upsertAuth env meta now (ensureProvider providerKey s3)) (as_providers s3)\<rparr>)"

definition rebuild ::
  "token_env \<Rightarrow> (string \<Rightarrow> ModelInfo option list) \<Rightarrow> Auth list \<Rightarrow> time \<Rightarrow> authScheduler \<Rightarrow> authScheduler" where
  "rebuild env models auths now s =
     fold (\<lambda>auth s. upsertAuthLocked env models auth now s) auths
       (s\<lparr>as_providers := [], as_authProviders := [], as_mixedCursors := [], as_mixedWeightedStates := []\<rparr>)"

definition RecordRemovalTombstone :: "string \<Rightarrow> uint64 \<Rightarrow> time \<Rightarrow> authScheduler \<Rightarrow> authScheduler" where
  "RecordRemovalTombstone authID0 tombstoneEpoch now s =
     (let authID = TrimSpace authID0
      in if authID = [] then s
         else if (case map_of (as_authGenerations s) authID of
                    Some existing \<Rightarrow> tombstoneEpoch < gm_epoch existing | None \<Rightarrow> False) then s
         else removeAuthFromProviders authID
                (s\<lparr>as_authGenerations := AList.update authID (GenMeta tombstoneEpoch 0 now) (as_authGenerations s)\<rparr>))"

definition removeAuth :: "string \<Rightarrow> time \<Rightarrow> authScheduler \<Rightarrow> authScheduler" where
  "removeAuth authID0 now s =
     (let authID = TrimSpace authID0
      in if authID = [] then s
         else
           let epoch = (case map_of (as_authGenerations s) authID of
                          Some existing \<Rightarrow> gm_epoch existing + 1 | None \<Rightarrow> 1)
           in removeAuthFromProviders authID
                (s\<lparr>as_authGenerations := AList.update authID (GenMeta epoch 0 now) (as_authGenerations s)\<rparr>))"

definition ResetAuthGeneration :: "string \<Rightarrow> authScheduler \<Rightarrow> authScheduler" where
  "ResetAuthGeneration authID0 s =
     (let authID = TrimSpace authID0
      in if authID = [] then s
         else s\<lparr>as_authGenerations := AList.delete authID (as_authGenerations s)\<rparr>)"

section \<open>Requests\<close>

record sched_request =
  rq_scope :: "AccessScope option"
  rq_requiredKind :: string
  rq_credentialPolicy :: string
  rq_websocket :: bool
  rq_metadata :: "(string, goval) gomap"
  rq_tried :: "string list"

text \<open>The clock readings of one pick, in the order in which they are taken.\<close>

record sched_times =
  tm_ensure :: time
  tm_pick :: time
  tm_error :: time

definition requestEligibility :: "sched_request \<Rightarrow> authSelectionEligibility" where
  "requestEligibility rq =
     authSelectionEligibilityForRequest (rq_scope rq) (rq_requiredKind rq) (rq_credentialPolicy rq) (rq_metadata rq)"

definition scheduledAuthPredicate ::
  "(string \<Rightarrow> string) \<Rightarrow> authSelectionEligibility \<Rightarrow> string list \<Rightarrow> string \<Rightarrow> bool \<Rightarrow> scheduledAuth \<Rightarrow> bool" where
  "scheduledAuthPredicate sha eligibility tried pinnedAuthID requirePositiveWeight entry =
     (if \<not> eligibility_allows sha eligibility (sd_auth entry) then False
      else if requirePositiveWeight \<and> sm_weight (sd_meta entry) \<le> 0 then False
      else if pinnedAuthID \<noteq> [] \<and> sd_ID entry \<noteq> pinnedAuthID then False
      else if tried \<noteq> [] \<and> sd_ID entry \<in> set tried then False
      else True)"

definition providerPrefersWebsocketTransport :: "string \<Rightarrow> bool" where
  "providerPrefersWebsocketTransport providerKey \<longleftrightarrow> ToLower (TrimSpace providerKey) = ''codex''"

definition normalizeProviderKeys :: "string list \<Rightarrow> string list" where
  "normalizeProviderKeys providers =
     fold (\<lambda>provider out.
             let providerKey = ToLower (TrimSpace provider)
             in if providerKey = [] then out
                else if providerKey \<in> set out then out
                else out @ [providerKey]) providers []"

definition containsProvider :: "string list \<Rightarrow> string \<Rightarrow> bool" where
  "containsProvider providers provider = list_ex (\<lambda>candidate. candidate = provider) providers"

definition currentStrategy :: "schedulerStrategy \<Rightarrow> authScheduler \<Rightarrow> schedulerStrategy" where
  "currentStrategy strategy s = (if strategy = schedulerStrategyCurrent then as_strategy s else strategy)"

text \<open>The pointer to a shard that a pick holds is the place the shard is stored at.\<close>

definition shardOf :: "string \<Rightarrow> string \<Rightarrow> authScheduler \<Rightarrow> modelScheduler option" where
  "shardOf providerKey modelKey s =
     (case map_of (as_providers s) providerKey of
        None \<Rightarrow> None
      | Some p \<Rightarrow> map_of (ps_modelShards p) (canonicalModelKey modelKey))"

definition putShard :: "string \<Rightarrow> string \<Rightarrow> modelScheduler \<Rightarrow> authScheduler \<Rightarrow> authScheduler" where
  "putShard providerKey modelKey shard s =
     (case map_of (as_providers s) providerKey of
        None \<Rightarrow> s
      | Some p \<Rightarrow> s\<lparr>as_providers := AList.update providerKey
          (p\<lparr>ps_modelShards := AList.update (canonicalModelKey modelKey) shard (ps_modelShards p)\<rparr>) (as_providers s)\<rparr>)"

definition ensureShard ::
  "token_env \<Rightarrow> string \<Rightarrow> string \<Rightarrow> time \<Rightarrow> authScheduler \<Rightarrow> modelScheduler option \<times> authScheduler" where
  "ensureShard env providerKey modelKey now s =
     (case map_of (as_providers s) providerKey of
        None \<Rightarrow> (None, s)
      | Some p \<Rightarrow>
          (case ensureModel env modelKey now p of
             (shard, p') \<Rightarrow> (Some shard, s\<lparr>as_providers := AList.update providerKey p' (as_providers s)\<rparr>)))"

section \<open>Picks\<close>

text \<open>The part of a pick behind the lock that works on one shard.\<close>

definition pickFromProvider ::
  "token_env \<Rightarrow> string \<Rightarrow> string \<Rightarrow> bool \<Rightarrow> schedulerStrategy \<Rightarrow> (scheduledAuth \<Rightarrow> bool) \<Rightarrow> sched_times
    \<Rightarrow> string \<Rightarrow> string \<Rightarrow> authScheduler \<Rightarrow> (sel_error + Auth) \<times> authScheduler" where
  "pickFromProvider env providerKey modelKey preferWebsocket strategy predicate clk errProvider model s =
     (case ensureShard env providerKey modelKey (tm_ensure clk) s of
        (None, s1) \<Rightarrow> (Inl (authError ''auth_not_found'' ''no auth available''), s1)
      | (Some shard, s1) \<Rightarrow>
          (case pickReady env preferWebsocket strategy predicate (tm_pick clk) shard of
             (Some picked, shard') \<Rightarrow> (Inr picked, putShard providerKey modelKey shard' s1)
           | (None, shard') \<Rightarrow>
               (Inl (unavailableError errProvider model predicate (tm_error clk) shard'),
                putShard providerKey modelKey shard' s1)))"

definition pickSingleWithStrategy ::
  "token_env \<Rightarrow> (string \<Rightarrow> string) \<Rightarrow> sched_request \<Rightarrow> sched_times \<Rightarrow> string \<Rightarrow> string \<Rightarrow> schedulerStrategy
    \<Rightarrow> authScheduler \<Rightarrow> (sel_error + Auth) \<times> authScheduler" where
  "pickSingleWithStrategy env sha rq clk provider model strategy0 s =
     (let providerKey = ToLower (TrimSpace provider);
          modelKey = canonicalModelKey model;
          pinnedAuthID = pinnedAuthIDFromMetadata (rq_metadata rq);
          preferWebsocket = (rq_websocket rq \<and> providerPrefersWebsocketTransport providerKey \<and> pinnedAuthID = []);
          strategy = currentStrategy strategy0 s;
          predicate = scheduledAuthPredicate sha (requestEligibility rq) (rq_tried rq) pinnedAuthID
            (strategy = schedulerStrategyWeightedRoundRobin)
      in pickFromProvider env providerKey modelKey preferWebsocket strategy predicate clk provider model s)"

definition pickSingle ::
  "token_env \<Rightarrow> (string \<Rightarrow> string) \<Rightarrow> sched_request \<Rightarrow> sched_times \<Rightarrow> string \<Rightarrow> string
    \<Rightarrow> authScheduler \<Rightarrow> (sel_error + Auth) \<times> authScheduler" where
  "pickSingle env sha rq clk provider model s =
     pickSingleWithStrategy env sha rq clk provider model schedulerStrategyCurrent s"

text \<open>Errors and candidates over several providers.\<close>

definition addSummary :: "shard_summary \<Rightarrow> shard_summary \<Rightarrow> shard_summary" where
  "addSummary acc su =
     \<lparr>su_total = su_total acc + su_total su, su_cooldownCount = su_cooldownCount acc + su_cooldownCount su,
      su_quotaCount = su_quotaCount acc + su_quotaCount su,
      su_earliest = (if \<not> IsZero (su_earliest su)
                        \<and> (IsZero (su_earliest acc) \<or> su_earliest su < su_earliest acc)
                     then su_earliest su else su_earliest acc)\<rparr>"

definition mixedUnavailableError ::
  "token_env \<Rightarrow> string list \<Rightarrow> string \<Rightarrow> (scheduledAuth \<Rightarrow> bool) \<Rightarrow> time \<Rightarrow> authScheduler
    \<Rightarrow> sel_error \<times> authScheduler" where
  "mixedUnavailableError env providers model predicate now s =
     (case fold (\<lambda>providerKey (acc, s).
              case ensureShard env providerKey (canonicalModelKey model) now s of
                (None, s1) \<Rightarrow> (acc, s1)
              | (Some shard, s1) \<Rightarrow> (addSummary acc (availabilitySummary predicate now shard), s1))
            providers (\<lparr>su_total = 0, su_cooldownCount = 0, su_quotaCount = 0, su_earliest = 0\<rparr>, s) of
        (su, s1) \<Rightarrow> (summaryError [] model now su, s1))"

definition bestReady :: "(scheduledAuth \<Rightarrow> bool) \<Rightarrow> modelScheduler option \<Rightarrow> int option \<Rightarrow> int option" where
  "bestReady predicate shard best =
     (case shard of
        None \<Rightarrow> best
      | Some sh \<Rightarrow>
          (case highestReadyPriority False predicate sh of
             None \<Rightarrow> best
           | Some priorityReady \<Rightarrow>
               (case best of
                  None \<Rightarrow> Some priorityReady
                | Some bestPriority \<Rightarrow> if priorityReady > bestPriority then Some priorityReady else best)))"

definition collectBest ::
  "token_env \<Rightarrow> string list \<Rightarrow> string \<Rightarrow> (scheduledAuth \<Rightarrow> bool) \<Rightarrow> time \<Rightarrow> authScheduler \<Rightarrow> int option \<times> authScheduler" where
  "collectBest env normalized modelKey predicate now s =
     fold (\<lambda>providerKey (best, s).
             case ensureShard env providerKey modelKey now s of (shard, s1) \<Rightarrow> (bestReady predicate shard best, s1))
       normalized (None, s)"

text \<open>A visit of the providers in the given order, picking at the best priority.\<close>

fun visitProviders ::
  "schedulerStrategy \<Rightarrow> int \<Rightarrow> string \<Rightarrow> (scheduledAuth \<Rightarrow> bool) \<Rightarrow> (string \<Rightarrow> bool) \<Rightarrow> string list \<Rightarrow> authScheduler
    \<Rightarrow> (Auth \<times> string) option \<times> authScheduler" where
  "visitProviders strategy bestPriority modelKey predicate skip [] s = (None, s)"
| "visitProviders strategy bestPriority modelKey predicate skip (providerKey # rest) s =
     (if skip providerKey then visitProviders strategy bestPriority modelKey predicate skip rest s
      else case shardOf providerKey modelKey s of
        None \<Rightarrow> visitProviders strategy bestPriority modelKey predicate skip rest s
      | Some shard \<Rightarrow>
          (case pickReadyAtPriority False bestPriority strategy predicate shard of
             (Some picked, shard') \<Rightarrow> (Some (picked, providerKey), putShard providerKey modelKey shard' s)
           | (None, shard') \<Rightarrow>
               visitProviders strategy bestPriority modelKey predicate skip rest (putShard providerKey modelKey shard' s)))"

fun Join :: "string list \<Rightarrow> string \<Rightarrow> string" where
  "Join [] sep = []"
| "Join [x] sep = x"
| "Join (x # y # xs) sep = x @ sep @ Join (y # xs) sep"

definition cursorKeyFor :: "string list \<Rightarrow> string \<Rightarrow> string" where
  "cursorKeyFor normalized modelKey = Join normalized '','' @ '':'' @ modelKey"

definition mixedEntries :: "string list \<Rightarrow> string \<Rightarrow> int \<Rightarrow> authScheduler \<Rightarrow> scheduledAuth list" where
  "mixedEntries normalized modelKey bestPriority s =
     sort_key sd_ID (concat (map (\<lambda>providerKey.
       case shardOf providerKey modelKey s of
         None \<Rightarrow> []
       | Some shard \<Rightarrow>
           (case map_of (sh_readyByPriority shard) bestPriority of
              None \<Rightarrow> []
            | Some bucket \<Rightarrow> deref (sh_entries shard) (rv_flat (rb_all bucket)))) normalized))"

definition mixedWeighted ::
  "string \<Rightarrow> scheduledAuth list \<Rightarrow> (scheduledAuth \<Rightarrow> bool) \<Rightarrow> authScheduler \<Rightarrow> (Auth \<times> string) option \<times> authScheduler" where
  "mixedWeighted cursorKey entries predicate s =
     (let state0 = (case map_of (as_mixedWeightedStates s) cursorKey of
                      Some state \<Rightarrow> state | None \<Rightarrow> zero_smoothWeightedState);
          state = prepare (scheduledWeightVectorMatching entries predicate) state0
      in case pickSmoothWeightedScheduled entries (the_map (sw_current state)) predicate of
           (picked, current) \<Rightarrow>
             (map_option (\<lambda>e. (sd_auth e, sm_providerKey (sd_meta e))) picked,
              s\<lparr>as_mixedWeightedStates :=
                  AList.update cursorKey (state\<lparr>sw_current := Some current\<rparr>) (as_mixedWeightedStates s)\<rparr>))"

definition readyWeights :: "string list \<Rightarrow> string \<Rightarrow> int \<Rightarrow> (scheduledAuth \<Rightarrow> bool) \<Rightarrow> authScheduler \<Rightarrow> nat list" where
  "readyWeights normalized modelKey bestPriority predicate s =
     map (\<lambda>providerKey.
       case shardOf providerKey modelKey s of
         None \<Rightarrow> 0
       | Some shard \<Rightarrow> readyCountAtPriority False bestPriority predicate shard) normalized"

text \<open>The provider whose segment of slots contains the start slot.\<close>

fun startProvider :: "nat list \<Rightarrow> nat \<Rightarrow> nat \<Rightarrow> nat option" where
  "startProvider [] slot i = None"
| "startProvider (w # ws) slot i = (if w \<noteq> 0 \<and> slot < w then Some i else startProvider ws (slot - w) (Suc i))"

definition mixedRoundRobin ::
  "string \<Rightarrow> string list \<Rightarrow> string \<Rightarrow> int \<Rightarrow> (scheduledAuth \<Rightarrow> bool) \<Rightarrow> authScheduler
    \<Rightarrow> (Auth \<times> string) option \<times> authScheduler" where
  "mixedRoundRobin cursorKey normalized modelKey bestPriority predicate s =
     (let weights = readyWeights normalized modelKey bestPriority predicate s;
          totalWeight = sum_list weights;
          n = length normalized
      in if totalWeight = 0 then (None, s)
         else
           let startSlot = (case map_of (as_mixedCursors s) cursorKey of Some c \<Rightarrow> c | None \<Rightarrow> 0) mod totalWeight
           in case startProvider weights startSlot 0 of
                None \<Rightarrow> (None, s)
              | Some start \<Rightarrow>
                  let order = map (\<lambda>offset. normalized ! ((start + offset) mod n)) [0..<n];
                      weightOf = (\<lambda>providerKey. get_int (zip normalized (map int weights)) providerKey);
                      slotOf = (\<lambda>providerKey.
                        if providerKey = normalized ! start then startSlot
                        else sum_list (map fst (takeWhile (\<lambda>(w, pk). pk \<noteq> providerKey) (zip weights normalized))))
                  in case visitProviders schedulerStrategyRoundRobin bestPriority modelKey predicate
                            (\<lambda>providerKey. weightOf providerKey = 0) order s of
                       (None, s1) \<Rightarrow> (None, s1)
                     | (Some (picked, providerKey), s1) \<Rightarrow>
                         (Some (picked, providerKey),
                          s1\<lparr>as_mixedCursors := AList.update cursorKey (slotOf providerKey + 1) (as_mixedCursors s1)\<rparr>))"

definition pickMixedWithStrategy ::
  "token_env \<Rightarrow> (string \<Rightarrow> string) \<Rightarrow> sched_request \<Rightarrow> sched_times \<Rightarrow> string list \<Rightarrow> string \<Rightarrow> schedulerStrategy
    \<Rightarrow> authScheduler \<Rightarrow> (sel_error + Auth \<times> string) \<times> authScheduler" where
  "pickMixedWithStrategy env sha rq clk providers model strategy0 s =
     (let normalized = normalizeProviderKeys providers
      in if normalized = [] then (Inl (authError ''provider_not_found'' ''no provider supplied''), s)
         else if length normalized = 1 then
           (case pickSingleWithStrategy env sha rq clk (hd normalized) model strategy0 s of
              (Inl e, s1) \<Rightarrow> (Inl e, s1)
            | (Inr picked, s1) \<Rightarrow> (Inr (picked, hd normalized), s1))
         else
           let pinnedAuthID = pinnedAuthIDFromMetadata (rq_metadata rq);
               modelKey = canonicalModelKey model;
               strategy = currentStrategy strategy0 s;
               weightedOnly = (strategy = schedulerStrategyWeightedRoundRobin)
           in if pinnedAuthID \<noteq> [] then
                (let providerKey = get_str (as_authProviders s) pinnedAuthID
                 in if providerKey = [] \<or> \<not> containsProvider normalized providerKey
                    then (Inl (authError ''auth_not_found'' ''no auth available''), s)
                    else case pickFromProvider env providerKey modelKey False strategy
                           (scheduledAuthPredicate sha (requestEligibility rq) (rq_tried rq) pinnedAuthID weightedOnly)
                           clk ''mixed'' model s of
                         (Inl e, s1) \<Rightarrow> (Inl e, s1)
                       | (Inr picked, s1) \<Rightarrow> (Inr (picked, providerKey), s1))
              else
                (let predicate = scheduledAuthPredicate sha (requestEligibility rq) (rq_tried rq) [] weightedOnly;
                     unavailable = (\<lambda>s. case mixedUnavailableError env normalized model predicate (tm_error clk) s of
                                          (e, s1) \<Rightarrow> (Inl e, s1))
                 in case collectBest env normalized modelKey predicate (tm_ensure clk) s of
                      (None, s1) \<Rightarrow> unavailable s1
                    | (Some bestPriority, s1) \<Rightarrow>
                        (case (if strategy = schedulerStrategyFillFirst then
                                 visitProviders strategy bestPriority modelKey predicate (\<lambda>_. False) normalized s1
                               else if weightedOnly then
                                 mixedWeighted (cursorKeyFor normalized modelKey)
                                   (mixedEntries normalized modelKey bestPriority s1) predicate s1
                               else mixedRoundRobin (cursorKeyFor normalized modelKey) normalized modelKey
                                      bestPriority predicate s1) of
                           (Some (picked, providerKey), s2) \<Rightarrow> (Inr (picked, providerKey), s2)
                         | (None, s2) \<Rightarrow> unavailable s2)))"

definition pickMixed ::
  "token_env \<Rightarrow> (string \<Rightarrow> string) \<Rightarrow> sched_request \<Rightarrow> sched_times \<Rightarrow> string list \<Rightarrow> string
    \<Rightarrow> authScheduler \<Rightarrow> (sel_error + Auth \<times> string) \<times> authScheduler" where
  "pickMixed env sha rq clk providers model s =
     pickMixedWithStrategy env sha rq clk providers model schedulerStrategyCurrent s"

section \<open>The order of updates\<close>

text \<open>
  Updates of a credential are ordered by registration epoch, then generation, then time.
  The staleness test is the strict order.
\<close>

instantiation scheduledGenerationMeta :: linorder
begin

definition less_eq_scheduledGenerationMeta :: "scheduledGenerationMeta \<Rightarrow> scheduledGenerationMeta \<Rightarrow> bool" where
  "less_eq_scheduledGenerationMeta a b \<longleftrightarrow>
     (gm_epoch a, gm_generation a, gm_updatedAt a) \<le> (gm_epoch b, gm_generation b, gm_updatedAt b)"

definition less_scheduledGenerationMeta :: "scheduledGenerationMeta \<Rightarrow> scheduledGenerationMeta \<Rightarrow> bool" where
  "less_scheduledGenerationMeta a b \<longleftrightarrow>
     (gm_epoch a, gm_generation a, gm_updatedAt a) < (gm_epoch b, gm_generation b, gm_updatedAt b)"

instance
proof
  fix x y z :: scheduledGenerationMeta
  show "x < y \<longleftrightarrow> x \<le> y \<and> \<not> y \<le> x"
    unfolding less_eq_scheduledGenerationMeta_def less_scheduledGenerationMeta_def by (rule less_le_not_le)
  show "x \<le> x" by (simp add: less_eq_scheduledGenerationMeta_def)
  show "x \<le> y \<Longrightarrow> y \<le> z \<Longrightarrow> x \<le> z"
    unfolding less_eq_scheduledGenerationMeta_def by (rule order_trans)
  show "x \<le> y \<Longrightarrow> y \<le> x \<Longrightarrow> x = y"
    unfolding less_eq_scheduledGenerationMeta_def
    by (drule (1) order_antisym) (simp add: scheduledGenerationMeta.expand)
  show "x \<le> y \<or> y \<le> x"
    unfolding less_eq_scheduledGenerationMeta_def by (rule linear)
qed

end

lemma isStaleScheduledAuth_less:
  "isStaleScheduledAuth authID epoch gen updatedAt s \<longleftrightarrow>
     (\<exists>existing. map_of (as_authGenerations s) authID = Some existing \<and> GenMeta epoch gen updatedAt < existing)"
  by (auto simp: isStaleScheduledAuth_def less_scheduledGenerationMeta_def less_prod_def split: option.splits)

end
