(* ===== verification/Scheduler_Invariant.thy ===== *)
theory Scheduler_Invariant
  imports Scheduler
begin

text \<open>
  The invariant of the scheduler: every shard holds exactly the registered credentials of its provider
  that support its model, each credential is registered with one provider only, and the shards
  satisfy the shard invariant. It holds in every state that a sequence of operations with
  advancing clocks can reach.
\<close>

section \<open>Shards\<close>

definition shard_inv ::
  "token_env \<Rightarrow> time \<Rightarrow> (string \<rightharpoonup> scheduledAuthMeta) \<Rightarrow> string \<Rightarrow> modelScheduler \<Rightarrow> bool" where
  "shard_inv env now A k sh \<longleftrightarrow>
     shard_wf sh \<and> shard_fresh env now sh \<and> sh_modelKey sh = k
     \<and> (\<forall>i. map_option sd_meta (map_of (sh_entries sh) i) =
            (case A i of Some meta \<Rightarrow> if supportsModel meta k then Some meta else None | None \<Rightarrow> None))"

lemma shard_inv_later: "shard_inv env now A k sh \<Longrightarrow> now \<le> now' \<Longrightarrow> shard_inv env now' A k sh"
  unfolding shard_inv_def using shard_fresh_later by blast

lemma shard_inv_new: "0 \<le> now \<Longrightarrow> shard_inv env now Map.empty k (new_modelScheduler k)"
  by (simp add: shard_inv_def shard_fresh_def) (simp add: new_modelScheduler_def)

lemma shard_inv_entry:
  assumes "shard_inv env now A k sh" and "e \<in> entriesOf sh"
  shows "A (sd_ID e) = Some (sd_meta e) \<and> supportsModel (sd_meta e) k \<and> sd_auth e = sm_auth (sd_meta e)"
proof -
  have ok: "entries_ok sh" using assms(1) by (simp add: shard_inv_def shard_wf_def)
  have "map_option sd_meta (map_of (sh_entries sh) (sd_ID e)) = Some (sd_meta e)"
    by (simp add: entries_ok_lookup [OF ok assms(2)])
  then have "(case A (sd_ID e) of Some meta \<Rightarrow> if supportsModel meta k then Some meta else None | None \<Rightarrow> None)
      = Some (sd_meta e)"
    using assms(1) unfolding shard_inv_def by metis
  moreover have "sd_auth e = sm_auth (sd_meta e)" using ok assms(2) unfolding entries_ok_def by force
  ultimately show ?thesis by (auto split: option.splits if_splits)
qed

lemma shard_inv_registered:
  assumes "shard_inv env now A k sh" and "A i = Some meta" and "supportsModel meta k"
  obtains e where "e \<in> entriesOf sh" and "sd_meta e = meta"
proof -
  have "map_option sd_meta (map_of (sh_entries sh) i) = Some meta"
    using assms by (simp add: shard_inv_def)
  then obtain e where "map_of (sh_entries sh) i = Some e" "sd_meta e = meta" by auto
  then show thesis using that entries_ok_mem by blast
qed

lemma upsertEntry_inv:
  assumes "shard_inv env now A k sh" and "0 \<le> now" and "supportsModel meta k"
  shows "shard_inv env now (A(a_ID (sm_auth meta) \<mapsto> meta)) k (upsertEntry env meta now sh)"
  using assms upsertEntry_wf [of sh env meta now] upsertEntry_fresh [of sh now env meta]
  unfolding shard_inv_def upsertEntry_fields(1) by (auto simp: upsertEntry_fields(2))

lemma removeEntry_inv:
  assumes "shard_inv env now A k sh" and "authID \<noteq> []"
  shows "shard_inv env now (A(authID := None)) k (removeEntry authID sh)"
  using assms removeEntry_wf [of sh authID] removeEntry_fresh [of env now sh authID]
  unfolding shard_inv_def removeEntry_fields(1) by (auto simp: removeEntry_fields(2))

lemma unsupported_inv:
  "shard_inv env now A k sh \<Longrightarrow> A i = None \<Longrightarrow> \<not> supportsModel meta k \<Longrightarrow> shard_inv env now (A(i \<mapsto> meta)) k sh"
  by (auto simp: shard_inv_def)

lemma unsupported_remove_inv:
  assumes "shard_inv env now A k sh" and "authID \<noteq> []" and "\<not> supportsModel meta k"
  shows "shard_inv env now (A(authID \<mapsto> meta)) k (removeEntry authID sh)"
  using removeEntry_inv [OF assms(1,2)] assms(3) by (auto simp: shard_inv_def)

lemma promoteExpired_inv:
  assumes "shard_inv env now A k sh" and "0 \<le> now"
  shows "shard_inv env now A k (promoteExpired env now sh)"
proof -
  have wf: "shard_wf sh" and fresh: "shard_fresh env now sh" using assms(1) by (simp_all add: shard_inv_def)
  have "map_of (map (\<lambda>(k, e). (k, advance env (sh_modelKey sh) now e)) es) i = map_option (advance env (sh_modelKey sh) now) (map_of es i)"
    for i and es :: "(string, scheduledAuth) gomap"
    by (simp add: map_of_map)
  then have "map_option sd_meta (map_of (sh_entries (promoteExpired env now sh)) i) = map_option sd_meta (map_of (sh_entries sh) i)" for i
    by (simp add: promoteExpired_eq [OF wf] option.map_comp o_def)
  with assms(1) promoteExpired_wf(1,2) [OF wf, of env now] promoteExpired_current(2) [OF wf assms(2) fresh]
  show ?thesis by (simp add: shard_inv_def)
qed

lemma pickReadyAtPriority_inv:
  assumes "shard_inv env now A k sh"
  shows "shard_inv env now A k (snd (pickReadyAtPriority pw p strategy P sh))"
  using assms pickReadyAtPriority_wf [of sh pw p strategy P]
  unfolding shard_inv_def shard_fresh_def pickReadyAtPriority_fields by blast

lemma pickReady_inv:
  assumes "shard_inv env now A k sh" and "0 \<le> now"
  shows "shard_inv env now A k (snd (pickReady env pw strategy P now sh))"
  using promoteExpired_inv [OF assms] pickReadyAtPriority_inv
  by (auto simp: pickReady_def Let_def split: option.splits)

section \<open>Providers\<close>

definition provider_inv :: "token_env \<Rightarrow> time \<Rightarrow> providerScheduler \<Rightarrow> bool" where
  "provider_inv env now p \<longleftrightarrow>
     distinct_keys (ps_auths p)
     \<and> (\<forall>i meta. map_of (ps_auths p) i = Some meta \<longrightarrow> a_ID (sm_auth meta) = i)
     \<and> (\<forall>k sh. map_of (ps_modelShards p) k = Some sh \<longrightarrow> shard_inv env now (map_of (ps_auths p)) k sh)"

lemma provider_inv_later: "provider_inv env now p \<Longrightarrow> now \<le> now' \<Longrightarrow> provider_inv env now' p"
  unfolding provider_inv_def using shard_inv_later by blast

lemma provider_inv_new [simp]: "provider_inv env now (new_providerScheduler pk)"
  by (simp add: provider_inv_def new_providerScheduler_def)

lemma provider_inv_mapped:
  assumes "distinct_keys (ps_auths p')"
    and "\<And>i meta. map_of (ps_auths p') i = Some meta \<Longrightarrow> a_ID (sm_auth meta) = i"
    and "ps_modelShards p' = map (\<lambda>(k, sh). (k, f k sh)) (ps_modelShards p)"
    and "\<And>k sh. map_of (ps_modelShards p) k = Some sh \<Longrightarrow> shard_inv env now (map_of (ps_auths p')) k (f k sh)"
  shows "provider_inv env now p'"
  using assms unfolding provider_inv_def by (auto simp: map_of_map_values)

lemma provider_upsertAuth_inv:
  assumes "provider_inv env now p" and "0 \<le> now" and "a_ID (sm_auth meta) \<noteq> []"
  shows "provider_inv env now (provider_upsertAuth env meta now p)"
proof -
  have "shard_inv env now ((map_of (ps_auths p))(a_ID (sm_auth meta) \<mapsto> meta)) k
      (if \<not> supportsModel meta k then removeEntry (a_ID (sm_auth meta)) sh else upsertEntry env meta now sh)"
    if "map_of (ps_modelShards p) k = Some sh" for k sh
  proof -
    have "shard_inv env now (map_of (ps_auths p)) k sh" using assms(1) that by (simp add: provider_inv_def)
    then show ?thesis
      using upsertEntry_inv [OF _ assms(2)] unsupported_remove_inv [OF _ assms(3)] by simp
  qed
  moreover have "map_of (ps_auths (provider_upsertAuth env meta now p)) = (map_of (ps_auths p))(a_ID (sm_auth meta) \<mapsto> meta)"
    by (auto simp: provider_upsertAuth_def)
  moreover have "distinct_keys (ps_auths (provider_upsertAuth env meta now p))"
    using assms(1) by (simp add: provider_inv_def provider_upsertAuth_def)
  moreover have "map_of (ps_auths p) i = Some x \<Longrightarrow> a_ID (sm_auth x) = i" for i x
    using assms(1) by (simp add: provider_inv_def)
  moreover have "ps_modelShards (provider_upsertAuth env meta now p) = map (\<lambda>(k, sh).
      (k, if \<not> supportsModel meta k then removeEntry (a_ID (sm_auth meta)) sh else upsertEntry env meta now sh)) (ps_modelShards p)"
    by (simp add: provider_upsertAuth_def)
  ultimately show ?thesis
    by (intro provider_inv_mapped [where p = p and f = "\<lambda>k sh. if \<not> supportsModel meta k
          then removeEntry (a_ID (sm_auth meta)) sh else upsertEntry env meta now sh"])
      (auto simp only: fun_upd_apply option.inject split: if_splits)
qed

lemma provider_removeAuth_inv:
  assumes "provider_inv env now p"
  shows "provider_inv env now (provider_removeAuth authID p)"
proof (cases "authID = []")
  case False
  have "shard_inv env now ((map_of (ps_auths p))(authID := None)) k (removeEntry authID sh)"
    if "map_of (ps_modelShards p) k = Some sh" for k sh
    using that assms removeEntry_inv [OF _ False] by (simp add: provider_inv_def)
  moreover have "map_of (ps_auths (provider_removeAuth authID p)) = (map_of (ps_auths p))(authID := None)"
    using False by (auto simp: provider_removeAuth_def)
  moreover have "distinct_keys (ps_auths (provider_removeAuth authID p))"
    using assms False by (simp add: provider_inv_def provider_removeAuth_def)
  moreover have "map_of (ps_auths p) i = Some x \<Longrightarrow> a_ID (sm_auth x) = i" for i x
    using assms by (simp add: provider_inv_def)
  moreover have "ps_modelShards (provider_removeAuth authID p) = map (\<lambda>(k, sh). (k, removeEntry authID sh)) (ps_modelShards p)"
    using False by (simp add: provider_removeAuth_def)
  ultimately show ?thesis
    by (intro provider_inv_mapped [where p = p and f = "\<lambda>k sh. removeEntry authID sh"])
      (auto simp only: fun_upd_apply option.distinct split: if_splits)
qed (simp add: provider_removeAuth_def assms)

text \<open>A fresh shard is filled from the registered credentials, in whatever order the map yields them.\<close>

lemma fill_shard_inv:
  assumes "0 \<le> now" and "distinct_keys xs" and "\<forall>(i, meta) \<in> set xs. a_ID (sm_auth meta) = i"
  shows "shard_inv env now (map_of xs) k
    (fold (\<lambda>(_, meta) shard. if \<not> supportsModel meta k then shard else upsertEntry env meta now shard) xs
      (new_modelScheduler k))"
  using assms(2,3)
proof (induction xs rule: rev_induct)
  case Nil
  then show ?case using shard_inv_new [OF assms(1)] by simp
next
  case (snoc x xs)
  obtain i meta where x: "x = (i, meta)" by (cases x)
  have i: "a_ID (sm_auth meta) = i" "map_of xs i = None" and dx: "distinct_keys xs"
    using snoc.prems x by (auto simp: map_of_eq_None_iff)
  have A: "map_of (xs @ [x]) = (map_of xs)(i \<mapsto> meta)"
    using i(2) x by (auto simp: map_add_def split: option.splits)
  define sh where "sh = fold (\<lambda>(_, meta) shard. if \<not> supportsModel meta k then shard else upsertEntry env meta now shard)
    xs (new_modelScheduler k)"
  have inv: "shard_inv env now (map_of xs) k sh"
    unfolding sh_def by (rule snoc.IH [OF dx]) (use snoc.prems(2) in simp)
  have "shard_inv env now ((map_of xs)(i \<mapsto> meta)) k (if \<not> supportsModel meta k then sh else upsertEntry env meta now sh)"
    using upsertEntry_inv [OF inv assms(1), of meta] unsupported_inv [OF inv i(2), of meta] unfolding i(1)
    by (simp only: split: if_splits) blast
  then show ?case
    unfolding A by (simp only: x sh_def fold_append comp_apply fold_simps prod.case)
qed

lemma ensureModel_inv:
  assumes "provider_inv env now p" and "0 \<le> now"
  shows "shard_inv env now (map_of (ps_auths p)) (canonicalModelKey k) (fst (ensureModel env k now p))"
    and "provider_inv env now (snd (ensureModel env k now p))"
    and "ps_auths (snd (ensureModel env k now p)) = ps_auths p"
    and "map_of (ps_modelShards (snd (ensureModel env k now p))) (canonicalModelKey k) = Some (fst (ensureModel env k now p))"
proof -
  have fill: "\<forall>(i, meta) \<in> set (ps_auths p). a_ID (sm_auth meta) = i" "distinct_keys (ps_auths p)"
    using assms(1) by (auto simp: provider_inv_def)
  show sh: "shard_inv env now (map_of (ps_auths p)) (canonicalModelKey k) (fst (ensureModel env k now p))"
    using assms promoteExpired_inv [OF _ assms(2)] fill_shard_inv [OF assms(2) fill(2,1), of env "canonicalModelKey k"]
    by (simp add: ensureModel_def Let_def provider_inv_def split: option.splits)
  show auths: "ps_auths (snd (ensureModel env k now p)) = ps_auths p" by (simp add: ensureModel_def Let_def)
  show "map_of (ps_modelShards (snd (ensureModel env k now p))) (canonicalModelKey k) = Some (fst (ensureModel env k now p))"
    by (simp add: ensureModel_def Let_def)
  have "ps_modelShards (snd (ensureModel env k now p)) =
      AList.update (canonicalModelKey k) (fst (ensureModel env k now p)) (ps_modelShards p)"
    by (simp add: ensureModel_def Let_def)
  then show "provider_inv env now (snd (ensureModel env k now p))"
    using assms(1) sh unfolding provider_inv_def auths by simp
qed

section \<open>The scheduler\<close>

definition auths_at :: "authScheduler \<Rightarrow> string \<Rightarrow> string \<rightharpoonup> scheduledAuthMeta" where
  "auths_at s pk = (case map_of (as_providers s) pk of None \<Rightarrow> Map.empty | Some p \<Rightarrow> map_of (ps_auths p))"

text \<open>The abstract state: which snapshot of which credential is registered.\<close>

definition registered :: "authScheduler \<Rightarrow> string \<rightharpoonup> scheduledAuthMeta" where
  "registered s i = (case map_of (as_authProviders s) i of None \<Rightarrow> None | Some pk \<Rightarrow> auths_at s pk i)"

definition meta_ok :: "string \<Rightarrow> scheduledAuthMeta \<Rightarrow> bool" where
  "meta_ok pk meta \<longleftrightarrow>
     sm_providerKey meta = pk \<and> executorKeyFromAuth (sm_auth meta) = pk
     \<and> sm_priority meta = authPriority (sm_auth meta)
     \<and> sm_weight meta = authWeight (sm_auth meta) \<and> sm_websocketEnabled meta = authWebsocketsEnabled (sm_auth meta)"

definition sched_inv :: "token_env \<Rightarrow> time \<Rightarrow> authScheduler \<Rightarrow> bool" where
  "sched_inv env now s \<longleftrightarrow>
     (\<forall>pk p. map_of (as_providers s) pk = Some p \<longrightarrow> provider_inv env now p)
     \<and> (\<forall>pk i meta. auths_at s pk i = Some meta \<longrightarrow> map_of (as_authProviders s) i = Some pk \<and> meta_ok pk meta)
     \<and> (\<forall>i pk. map_of (as_authProviders s) i = Some pk \<longrightarrow> pk \<noteq> [] \<and> auths_at s pk i \<noteq> None)"

lemma sched_inv_later: "sched_inv env now s \<Longrightarrow> now \<le> now' \<Longrightarrow> sched_inv env now' s"
  unfolding sched_inv_def using provider_inv_later by blast

lemma sched_inv_cong:
  "as_providers s' = as_providers s \<Longrightarrow> as_authProviders s' = as_authProviders s \<Longrightarrow>
     sched_inv env now s' = sched_inv env now s \<and> registered s' = registered s"
proof -
  assume same: "as_providers s' = as_providers s" "as_authProviders s' = as_authProviders s"
  then have eq: "auths_at s' = auths_at s" by (simp add: auths_at_def fun_eq_iff)
  show ?thesis unfolding sched_inv_def registered_def fun_eq_iff eq same by simp
qed

lemma registered_auths_at: "sched_inv env now s \<Longrightarrow> auths_at s pk i = Some meta \<Longrightarrow> registered s i = Some meta"
  by (simp add: sched_inv_def registered_def)

lemma registered_iff:
  assumes "sched_inv env now s"
  shows "auths_at s pk i = Some meta \<longleftrightarrow> registered s i = Some meta \<and> sm_providerKey meta = pk"
  using assms by (auto simp: sched_inv_def registered_def meta_ok_def split: option.splits)

text \<open>Replacing one provider without touching its credentials.\<close>

lemma sched_inv_provider:
  assumes "sched_inv env now s" and "map_of (as_providers s) pk = Some p"
    and "provider_inv env now p'" and "ps_auths p' = ps_auths p"
  defines "s' \<equiv> s\<lparr>as_providers := AList.update pk p' (as_providers s)\<rparr>"
  shows "sched_inv env now s'" and "registered s' = registered s" and "auths_at s' = auths_at s"
proof -
  have at: "auths_at s' q = auths_at s q" for q using assms(2,4) by (simp add: auths_at_def s'_def)
  then show same: "auths_at s' = auths_at s" by (rule ext)
  show "registered s' = registered s" unfolding registered_def fun_eq_iff same by (simp add: s'_def)
  show "sched_inv env now s'"
    using assms(1,3) unfolding sched_inv_def at by (simp add: s'_def)
qed

lemma ensureShard_inv:
  assumes "sched_inv env now s" and "0 \<le> now"
  shows "sched_inv env now (snd (ensureShard env pk k now s))"
    and "registered (snd (ensureShard env pk k now s)) = registered s"
    and "auths_at (snd (ensureShard env pk k now s)) = auths_at s"
    and "fst (ensureShard env pk k now s) = Some sh \<Longrightarrow>
      shard_inv env now (auths_at s pk) (canonicalModelKey k) sh
      \<and> shardOf pk k (snd (ensureShard env pk k now s)) = Some sh"
    and "fst (ensureShard env pk k now s) = None \<Longrightarrow> auths_at s pk = Map.empty"
proof -
  have "sched_inv env now (snd (ensureShard env pk k now s))
    \<and> registered (snd (ensureShard env pk k now s)) = registered s
    \<and> auths_at (snd (ensureShard env pk k now s)) = auths_at s
    \<and> (\<forall>sh. fst (ensureShard env pk k now s) = Some sh \<longrightarrow>
      shard_inv env now (auths_at s pk) (canonicalModelKey k) sh
      \<and> shardOf pk k (snd (ensureShard env pk k now s)) = Some sh)
    \<and> (fst (ensureShard env pk k now s) = None \<longrightarrow> auths_at s pk = Map.empty)"
  proof (cases "map_of (as_providers s) pk")
    case None
    with assms(1) show ?thesis by (simp add: ensureShard_def auths_at_def)
  next
    case (Some p)
    then have p: "provider_inv env now p" using assms(1) by (simp add: sched_inv_def)
    note em = ensureModel_inv [OF p assms(2), of k]
    note sp = sched_inv_provider [OF assms(1) Some em(2,3)]
    have "auths_at s pk = map_of (ps_auths p)" using Some by (simp add: auths_at_def)
    with Some em(1,4) sp show ?thesis
      by (simp add: ensureShard_def shardOf_def case_prod_beta')
  qed
  then show "sched_inv env now (snd (ensureShard env pk k now s))"
    and "registered (snd (ensureShard env pk k now s)) = registered s"
    and "auths_at (snd (ensureShard env pk k now s)) = auths_at s"
    and "fst (ensureShard env pk k now s) = Some sh \<Longrightarrow>
      shard_inv env now (auths_at s pk) (canonicalModelKey k) sh
      \<and> shardOf pk k (snd (ensureShard env pk k now s)) = Some sh"
    and "fst (ensureShard env pk k now s) = None \<Longrightarrow> auths_at s pk = Map.empty"
    by blast+
qed

lemma putShard_inv:
  assumes "sched_inv env now s" and "shard_inv env now (auths_at s pk) (canonicalModelKey k) sh"
  shows "sched_inv env now (putShard pk k sh s)" and "registered (putShard pk k sh s) = registered s"
    and "auths_at (putShard pk k sh s) = auths_at s"
proof -
  have "sched_inv env now (putShard pk k sh s) \<and> registered (putShard pk k sh s) = registered s
    \<and> auths_at (putShard pk k sh s) = auths_at s"
  proof (cases "map_of (as_providers s) pk")
    case None
    with assms(1) show ?thesis by (simp add: putShard_def)
  next
    case (Some p)
    let ?p = "p\<lparr>ps_modelShards := AList.update (canonicalModelKey k) sh (ps_modelShards p)\<rparr>"
    have "provider_inv env now p" using assms(1) Some by (simp add: sched_inv_def)
    then have "provider_inv env now ?p" using assms(2) Some by (simp add: provider_inv_def auths_at_def)
    from sched_inv_provider [OF assms(1) Some this] Some show ?thesis by (simp add: putShard_def)
  qed
  then show "sched_inv env now (putShard pk k sh s)" and "registered (putShard pk k sh s) = registered s"
    and "auths_at (putShard pk k sh s) = auths_at s" by blast+
qed

lemma shardOf_inv:
  "sched_inv env now s \<Longrightarrow> shardOf pk k s = Some sh \<Longrightarrow> shard_inv env now (auths_at s pk) (canonicalModelKey k) sh"
  by (auto simp: sched_inv_def shardOf_def auths_at_def provider_inv_def split: option.splits)

text \<open>Removing a credential.\<close>

lemma removeAuthFromProviders_inv:
  assumes "sched_inv env now s" and "i \<noteq> []"
  shows "sched_inv env now (removeAuthFromProviders i s)
    \<and> registered (removeAuthFromProviders i s) = (registered s)(i := None)"
proof (cases "map_of (as_authProviders s) i")
  case None
  then have "removeAuthFromProviders i s = s" "registered s i = None"
    by (simp_all add: removeAuthFromProviders_def get_str_def registered_def)
  with assms(1) show ?thesis by (simp add: fun_upd_idem)
next
  case (Some pk)
  then have pk: "pk \<noteq> []" "auths_at s pk i \<noteq> None" using assms(1) by (simp_all add: sched_inv_def)
  then obtain p where p: "map_of (as_providers s) pk = Some p" by (auto simp: auths_at_def split: option.splits)
  define s' where "s' = removeAuthFromProviders i s"
  have s': "as_providers s' = AList.update pk (provider_removeAuth i p) (as_providers s)"
    "as_authProviders s' = AList.delete i (as_authProviders s)"
    using Some pk p by (simp_all add: s'_def removeAuthFromProviders_def get_str_def)
  have pinv: "provider_inv env now (provider_removeAuth i p)"
    using assms(1) p by (intro provider_removeAuth_inv) (simp add: sched_inv_def)
  have at: "auths_at s' q = (if q = pk then (auths_at s pk)(i := None) else auths_at s q)" for q
    using p assms(2) by (auto simp: auths_at_def s'(1) provider_removeAuth_def fun_eq_iff)
  have other: "auths_at s q i = None" if "q \<noteq> pk" for q
    using assms(1) Some that unfolding sched_inv_def by (metis not_None_eq option.inject)
  have "registered s' = (registered s)(i := None)"
    by (auto simp: registered_def fun_eq_iff s'(2) at split: option.splits)
  moreover have "sched_inv env now s'"
    using assms(1) pinv other unfolding sched_inv_def
    by (auto simp: s' at split: if_splits)
  ultimately show ?thesis by (simp add: s'_def)
qed

subsection \<open>Updates\<close>

text \<open>What an update does to the registered credentials.\<close>

definition registration ::
  "(string \<Rightarrow> ModelInfo option list) \<Rightarrow> Auth \<Rightarrow> (string \<rightharpoonup> scheduledAuthMeta) \<Rightarrow> string \<rightharpoonup> scheduledAuthMeta" where
  "registration models auth reg =
     (if executorKeyFromAuth auth = [] \<or> a_Disabled auth \<or> a_Status auth = StatusDisabled
      then reg(a_ID auth := None)
      else reg(a_ID auth \<mapsto> buildScheduledAuthMeta models auth))"

abbreviation staleFor :: "authScheduler \<Rightarrow> Auth \<Rightarrow> bool" where
  "staleFor s auth \<equiv>
     isStaleScheduledAuth (a_ID auth) (a_RegistrationEpoch auth) (a_Generation auth) (a_UpdatedAt auth) s"

lemma sched_inv_auths:
  assumes "\<And>pk p. map_of (as_providers s') pk = Some p \<Longrightarrow> provider_inv env now p"
    and "sched_inv env now s" and "as_authProviders s' = AList.update i pk (as_authProviders s)"
    and "pk \<noteq> []" and "meta_ok pk meta"
    and at: "\<And>q. auths_at s' q = (if q = pk then (auths_at s pk)(i \<mapsto> meta) else (auths_at s q)(i := None))"
  shows "sched_inv env now s' \<and> registered s' = (registered s)(i \<mapsto> meta)"
proof
  show "sched_inv env now s'"
    using assms(1,2,4,5) unfolding sched_inv_def at assms(3) by (auto split: if_splits)
  show "registered s' = (registered s)(i \<mapsto> meta)"
  proof
    fix j
    show "registered s' j = ((registered s)(i \<mapsto> meta)) j"
      unfolding registered_def at assms(3) by (simp split: option.splits)
  qed
qed

lemma buildScheduledAuthMeta_ok: "meta_ok (executorKeyFromAuth auth) (buildScheduledAuthMeta models auth)"
  by (simp add: meta_ok_def buildScheduledAuthMeta_def)

lemma upsertAuthLocked_inv:
  assumes inv: "sched_inv env now s" and now: "0 \<le> now" and trim: "TrimSpace (a_ID auth) = a_ID auth"
  shows "sched_inv env now (upsertAuthLocked env models auth now s)
    \<and> registered (upsertAuthLocked env models auth now s) =
        (if a_ID auth = [] \<or> staleFor s auth then registered s else registration models auth (registered s))"
proof (cases "a_ID auth = [] \<or> staleFor s auth")
  case True
  then show ?thesis using inv trim by (auto simp: upsertAuthLocked_def Let_def)
next
  case False
  define i where "i = a_ID auth"
  define pk where "pk = executorKeyFromAuth auth"
  define meta where "meta = buildScheduledAuthMeta models auth"
  define s1 where "s1 = s\<lparr>as_authGenerations := AList.update i
    (GenMeta (a_RegistrationEpoch auth) (a_Generation auth) (a_UpdatedAt auth)) (as_authGenerations s)\<rparr>"
  have s1: "sched_inv env now s1" "registered s1 = registered s"
    using sched_inv_cong [of s1 s env now] inv by (simp_all add: s1_def)
  have i: "i \<noteq> []" and trim_i: "TrimSpace i = i" using False trim by (simp_all add: i_def)
  show ?thesis
  proof (cases "pk = [] \<or> a_Disabled auth \<or> a_Status auth = StatusDisabled")
    case True
    with False trim have "upsertAuthLocked env models auth now s = removeAuthFromProviders i s1"
      by (simp add: upsertAuthLocked_def Let_def s1_def i_def pk_def)
    with removeAuthFromProviders_inv [OF s1(1) i] True False show ?thesis
      by (simp add: registration_def i_def pk_def s1(2))
  next
    case active: False
    define prev where "prev = get_str (as_authProviders s1) i"
    define s2 where "s2 = (if prev \<noteq> [] \<and> prev \<noteq> pk then
        (case map_of (as_providers s1) prev of None \<Rightarrow> s1
         | Some p \<Rightarrow> s1\<lparr>as_providers := AList.update prev (provider_removeAuth i p) (as_providers s1)\<rparr>) else s1)"
    define s3 where "s3 = s2\<lparr>as_authProviders := AList.update i pk (as_authProviders s2)\<rparr>"
    define s4 where "s4 = s3\<lparr>as_providers := AList.update pk
      (provider_upsertAuth env meta now (ensureProvider pk s3)) (as_providers s3)\<rparr>"
    have eq: "upsertAuthLocked env models auth now s = s4"
      using False active
      unfolding upsertAuthLocked_def Let_def i_def [symmetric] trim_i s1_def [symmetric] pk_def [symmetric]
        meta_def [symmetric] prev_def [symmetric] s2_def [symmetric] s3_def [symmetric] s4_def [symmetric] by simp
    have prev_at: "auths_at s1 q i = None" if "q \<noteq> prev \<or> prev = []" for q
      using s1(1) that unfolding sched_inv_def prev_def get_str_def by (metis not_None_eq option.simps(5))
    have at2: "auths_at s2 q = (if q = prev \<and> prev \<noteq> [] \<and> prev \<noteq> pk then (auths_at s1 q)(i := None) else auths_at s1 q)" for q
      using i by (auto simp: s2_def auths_at_def provider_removeAuth_def fun_eq_iff split: option.splits)
    have p2: "provider_inv env now p" if "map_of (as_providers s2) q = Some p" for q p
      using that s1(1) provider_removeAuth_inv
      by (auto simp: s2_def sched_inv_def split: if_splits option.splits)
    have same: "as_providers s3 = as_providers s2" "auths_at s3 = auths_at s2" "as_authProviders s2 = as_authProviders s1"
      by (auto simp: s3_def auths_at_def fun_eq_iff s2_def split: option.splits)
    have ens: "provider_inv env now (ensureProvider pk s3)" "map_of (ps_auths (ensureProvider pk s3)) = auths_at s2 pk"
      using p2 by (auto simp: ensureProvider_def same(1) auths_at_def split: option.splits)
        (simp add: new_providerScheduler_def)
    have id: "a_ID (sm_auth meta) = i" by (simp add: meta_def buildScheduledAuthMeta_def i_def)
    have at4: "auths_at s4 q = (if q = pk then (auths_at s1 pk)(i \<mapsto> meta) else (auths_at s1 q)(i := None))" for q
    proof (cases "q = pk")
      case True
      then show ?thesis
        using ens(2) at2 [of pk] id by (auto simp: s4_def auths_at_def provider_upsertAuth_def fun_eq_iff)
    next
      case False
      then have "auths_at s4 q = auths_at s2 q" by (simp add: s4_def s3_def auths_at_def)
      with False at2 [of q] prev_at [of q] show ?thesis by (auto simp: fun_eq_iff)
    qed
    have p4: "provider_inv env now p" if "map_of (as_providers s4) q = Some p" for q p
      using that p2 provider_upsertAuth_inv [OF ens(1) now, of meta] id i
      by (auto simp: s4_def same(1) split: if_splits)
    have "as_authProviders s4 = AList.update i pk (as_authProviders s1)" by (simp add: s4_def s3_def same(3))
    moreover have "meta_ok pk meta" unfolding pk_def meta_def by (rule buildScheduledAuthMeta_ok)
    ultimately have "sched_inv env now s4 \<and> registered s4 = (registered s1)(i \<mapsto> meta)"
      using active by (intro sched_inv_auths [OF p4 s1(1)]) (simp_all only: at4, simp_all)
    with False active s1(2) show ?thesis
      unfolding eq registration_def i_def pk_def meta_def by simp
  qed
qed

lemma removeAuth_inv:
  assumes "sched_inv env now s" and "TrimSpace i = i"
  shows "sched_inv env now (removeAuth i t s)
    \<and> registered (removeAuth i t s) = (if i = [] then registered s else (registered s)(i := None))"
proof (cases "i = []")
  case False
  obtain gens where eq: "removeAuth i t s = removeAuthFromProviders i (s\<lparr>as_authGenerations := gens\<rparr>)"
    using assms(2) False by (simp add: removeAuth_def Let_def)
  have "sched_inv env now (s\<lparr>as_authGenerations := gens\<rparr>)" "registered (s\<lparr>as_authGenerations := gens\<rparr>) = registered s"
    using sched_inv_cong [of "s\<lparr>as_authGenerations := gens\<rparr>" s env now] assms(1) by simp_all
  with removeAuthFromProviders_inv [of env now "s\<lparr>as_authGenerations := gens\<rparr>" i] False eq show ?thesis by simp
qed (use assms in \<open>simp add: removeAuth_def\<close>)

lemma RecordRemovalTombstone_inv:
  assumes "sched_inv env now s" and "TrimSpace i = i"
  shows "sched_inv env now (RecordRemovalTombstone i epoch t s)
    \<and> registered (RecordRemovalTombstone i epoch t s) =
        (if i = [] \<or> (\<exists>m. map_of (as_authGenerations s) i = Some m \<and> epoch < gm_epoch m)
         then registered s else (registered s)(i := None))"
proof (cases "i = [] \<or> (\<exists>m. map_of (as_authGenerations s) i = Some m \<and> epoch < gm_epoch m)")
  case False
  obtain gens where eq: "RecordRemovalTombstone i epoch t s = removeAuthFromProviders i (s\<lparr>as_authGenerations := gens\<rparr>)"
  proof (rule that)
    show "RecordRemovalTombstone i epoch t s = removeAuthFromProviders i
        (s\<lparr>as_authGenerations := AList.update i (GenMeta epoch 0 t) (as_authGenerations s)\<rparr>)"
      using assms(2) False by (auto simp: RecordRemovalTombstone_def Let_def split: option.splits)
  qed
  have "sched_inv env now (s\<lparr>as_authGenerations := gens\<rparr>)" "registered (s\<lparr>as_authGenerations := gens\<rparr>) = registered s"
    using sched_inv_cong [of "s\<lparr>as_authGenerations := gens\<rparr>" s env now] assms(1) by simp_all
  with removeAuthFromProviders_inv [of env now "s\<lparr>as_authGenerations := gens\<rparr>" i] False eq show ?thesis by auto
next
  case True
  with assms show ?thesis by (auto simp: RecordRemovalTombstone_def Let_def)
qed

lemma new_inv: "sched_inv env now (newAuthScheduler sel)"
  by (simp add: sched_inv_def newAuthScheduler_def auths_at_def)

lemma emptied_inv:
  "sched_inv env now (s\<lparr>as_providers := [], as_authProviders := [], as_mixedCursors := [], as_mixedWeightedStates := []\<rparr>)"
  by (simp add: sched_inv_def auths_at_def)

lemma rebuild_inv:
  assumes "0 \<le> now" and "\<forall>auth \<in> set auths. TrimSpace (a_ID auth) = a_ID auth"
  shows "sched_inv env now (rebuild env models auths now s)"
proof -
  have "sched_inv env now (fold (\<lambda>auth s. upsertAuthLocked env models auth now s) auths s)"
    if "sched_inv env now s" for s
    using that assms(2)
  proof (induction auths arbitrary: s)
    case (Cons a auths)
    then show ?case using upsertAuthLocked_inv [OF Cons.prems(1) assms(1), of a models] by simp
  qed simp
  then show ?thesis unfolding rebuild_def using emptied_inv by blast
qed

end
