(* ===== verification/Scheduler_Picks.thy ===== *)
theory Scheduler_Picks
  imports Scheduler_Invariant
begin

text \<open>
  What the scheduler's picks promise, for every state the scheduler can reach.
\<close>

section \<open>Reachable states\<close>

text \<open>
  Every operation of the scheduler with its clock readings in order. Credential identifiers
  carry no surrounding white space: the scheduler keys some of its maps by the trimmed
  identifier and others by the identifier itself.
\<close>

definition clocks_ok :: "time \<Rightarrow> sched_times \<Rightarrow> bool" where
  "clocks_ok t clk \<longleftrightarrow> t \<le> tm_ensure clk \<and> tm_ensure clk \<le> tm_pick clk \<and> tm_pick clk \<le> tm_error clk"

inductive sched_reachable :: "token_env \<Rightarrow> time \<Rightarrow> authScheduler \<Rightarrow> bool" for env where
  start: "0 \<le> t \<Longrightarrow> sched_reachable env t (newAuthScheduler sel)"
| wait: "sched_reachable env t s \<Longrightarrow> t \<le> t' \<Longrightarrow> sched_reachable env t' s"
| selector: "sched_reachable env t s \<Longrightarrow> sched_reachable env t (setSelector sel s)"
| upsert: "sched_reachable env t s \<Longrightarrow> TrimSpace (a_ID auth) = a_ID auth \<Longrightarrow>
    sched_reachable env t (upsertAuthLocked env models auth t s)"
| rebuild: "sched_reachable env t s \<Longrightarrow> \<forall>auth \<in> set auths. TrimSpace (a_ID auth) = a_ID auth \<Longrightarrow>
    sched_reachable env t (rebuild env models auths t s)"
| remove: "sched_reachable env t s \<Longrightarrow> TrimSpace authID = authID \<Longrightarrow>
    sched_reachable env t (removeAuth authID t s)"
| tombstone: "sched_reachable env t s \<Longrightarrow> TrimSpace authID = authID \<Longrightarrow>
    sched_reachable env t (RecordRemovalTombstone authID epoch t s)"
| reset: "sched_reachable env t s \<Longrightarrow> sched_reachable env t (ResetAuthGeneration authID s)"
| single: "sched_reachable env t s \<Longrightarrow> clocks_ok t clk \<Longrightarrow>
    sched_reachable env (tm_error clk) (snd (pickSingleWithStrategy env sha rq clk provider model strategy s))"
| mixed: "sched_reachable env t s \<Longrightarrow> clocks_ok t clk \<Longrightarrow>
    sched_reachable env (tm_error clk) (snd (pickMixedWithStrategy env sha rq clk providers model strategy s))"

section \<open>Picks keep the invariant\<close>

definition keeps :: "token_env \<Rightarrow> time \<Rightarrow> authScheduler \<Rightarrow> authScheduler \<Rightarrow> bool" where
  "keeps env now s s' \<longleftrightarrow> sched_inv env now s' \<and> registered s' = registered s \<and> auths_at s' = auths_at s"

lemma keeps_refl: "sched_inv env now s \<Longrightarrow> keeps env now s s"
  by (simp add: keeps_def)

lemma keeps_trans: "keeps env now s s' \<Longrightarrow> keeps env now' s' s'' \<Longrightarrow> keeps env now' s s''"
  by (simp add: keeps_def)

lemma keeps_later: "keeps env now s s' \<Longrightarrow> now \<le> now' \<Longrightarrow> keeps env now' s s'"
  by (auto simp: keeps_def intro: sched_inv_later)

lemma keeps_cursors:
  "keeps env now s s' \<Longrightarrow> keeps env now s (s'\<lparr>as_mixedCursors := c\<rparr>)"
  "keeps env now s s' \<Longrightarrow> keeps env now s (s'\<lparr>as_mixedWeightedStates := w\<rparr>)"
  using sched_inv_cong [of "s'\<lparr>as_mixedCursors := c\<rparr>" s' env now]
    sched_inv_cong [of "s'\<lparr>as_mixedWeightedStates := w\<rparr>" s' env now]
  by (auto simp: keeps_def auths_at_def fun_eq_iff)

lemma ensureShard_keeps:
  "sched_inv env now s \<Longrightarrow> 0 \<le> now \<Longrightarrow> keeps env now s (snd (ensureShard env pk k now s))"
  using ensureShard_inv(1,2,3) [of env now s pk k] by (simp add: keeps_def)

lemma pickFromProvider_keeps:
  assumes "sched_inv env t s" and "0 \<le> t" and "clocks_ok t clk"
  shows "keeps env (tm_error clk) s (snd (pickFromProvider env pk k pw strategy P clk errProvider model s))"
proof -
  obtain so s1 where e: "ensureShard env pk k (tm_ensure clk) s = (so, s1)" by fastforce
  have t: "0 \<le> tm_ensure clk" "0 \<le> tm_pick clk" "tm_ensure clk \<le> tm_pick clk" "tm_pick clk \<le> tm_error clk"
    using assms(2,3) by (auto simp: clocks_ok_def)
  have inv: "sched_inv env (tm_ensure clk) s" using assms(1,3) by (auto simp: clocks_ok_def intro: sched_inv_later)
  have k1: "keeps env (tm_ensure clk) s s1" using ensureShard_keeps [OF inv t(1), of pk k] e by simp
  show ?thesis
  proof (cases so)
    case None
    with e k1 t show ?thesis by (simp add: pickFromProvider_def) (meson keeps_later order_trans)
  next
    case (Some sh)
    obtain picked sh' where p: "pickReady env pw strategy P (tm_pick clk) sh = (picked, sh')" by fastforce
    have "shard_inv env (tm_ensure clk) (auths_at s pk) (canonicalModelKey k) sh"
      using ensureShard_inv(4) [OF inv t(1), of pk k sh] e Some by simp
    from pickReady_inv [OF shard_inv_later [OF this t(3)] t(2), of pw strategy P] p
    have sh': "shard_inv env (tm_pick clk) (auths_at s1 pk) (canonicalModelKey k) sh'"
      using k1 by (simp add: keeps_def)
    have "sched_inv env (tm_pick clk) s1" using k1 t(3) by (auto simp: keeps_def intro: sched_inv_later)
    from putShard_inv [OF this sh'] k1 have "keeps env (tm_pick clk) s (putShard pk k sh' s1)"
      by (simp add: keeps_def)
    from keeps_later [OF this t(4)] show ?thesis
      using e Some p by (simp add: pickFromProvider_def split: option.splits)
  qed
qed

lemma pickSingleWithStrategy_keeps:
  "sched_inv env t s \<Longrightarrow> 0 \<le> t \<Longrightarrow> clocks_ok t clk \<Longrightarrow>
     keeps env (tm_error clk) s (snd (pickSingleWithStrategy env sha rq clk provider model strategy s))"
  unfolding pickSingleWithStrategy_def Let_def by (rule pickFromProvider_keeps)

lemma fold_keeps:
  assumes "\<And>x a s. x \<in> set xs \<Longrightarrow> sched_inv env now s \<Longrightarrow> keeps env now s (snd (f x (a, s)))"
    and "sched_inv env now s"
  shows "keeps env now s (snd (fold f xs (a, s)))"
  using assms
proof (induction xs arbitrary: a s)
  case Nil
  then show ?case by (simp add: keeps_refl)
next
  case (Cons x xs)
  obtain a1 s1 where f: "f x (a, s) = (a1, s1)" by fastforce
  have k: "keeps env now s s1" using Cons.prems(1) [of x s a] Cons.prems(2) f by simp
  moreover have "keeps env now s1 (snd (fold f xs (a1, s1)))"
    using k Cons.prems(1) by (intro Cons.IH) (auto simp: keeps_def)
  ultimately show ?case using f by (simp add: keeps_trans)
qed

lemma collectBest_keeps:
  assumes "sched_inv env now s" and "0 \<le> now"
  shows "keeps env now s (snd (collectBest env normalized k P now s))"
  unfolding collectBest_def
  by (rule fold_keeps [OF _ assms(1)])
    (use ensureShard_keeps [OF _ assms(2)] in \<open>auto simp: case_prod_beta'\<close>)

lemma mixedUnavailableError_keeps:
  assumes "sched_inv env now s" and "0 \<le> now"
  shows "keeps env now s (snd (mixedUnavailableError env providers model P now s))"
proof -
  let ?f = "\<lambda>providerKey (acc, s).
    case ensureShard env providerKey (canonicalModelKey model) now s of
      (None, s1) \<Rightarrow> (acc, s1)
    | (Some shard, s1) \<Rightarrow> (addSummary acc (availabilitySummary P now shard), s1)"
  have "snd (?f x (a, s)) = snd (ensureShard env x (canonicalModelKey model) now s)" for x a s
    by (simp split: prod.splits option.splits)
  then have "keeps env now s (snd (fold ?f providers (a, s)))" for a
    using ensureShard_keeps [OF _ assms(2)] by (intro fold_keeps [OF _ assms(1)]) simp
  then show ?thesis by (simp add: mixedUnavailableError_def case_prod_beta')
qed

lemma visitProviders_keeps:
  "sched_inv env now s \<Longrightarrow> keeps env now s (snd (visitProviders strategy best k P skip pks s))"
proof (induction pks arbitrary: s)
  case Nil
  then show ?case by (simp add: keeps_refl)
next
  case (Cons pk pks)
  show ?case
  proof (cases "skip pk \<or> shardOf pk k s = None")
    case True
    with Cons show ?thesis by auto
  next
    case False
    then obtain sh where sh: "\<not> skip pk" "shardOf pk k s = Some sh" by auto
    obtain picked sh' where p: "pickReadyAtPriority False best strategy P sh = (picked, sh')" by fastforce
    have "shard_inv env now (auths_at s pk) (canonicalModelKey k) sh'"
      using pickReadyAtPriority_inv [OF shardOf_inv [OF Cons.prems sh(2)], of False best strategy P] p by simp
    from putShard_inv [OF Cons.prems this] have k1: "keeps env now s (putShard pk k sh' s)" by (simp add: keeps_def)
    then have "keeps env now s (snd (visitProviders strategy best k P skip pks (putShard pk k sh' s)))"
      using Cons.IH [of "putShard pk k sh' s"] keeps_trans by (auto simp: keeps_def)
    with k1 sh p show ?thesis by (auto split: option.splits)
  qed
qed

lemma mixedRoundRobin_keeps:
  assumes "sched_inv env now s"
  shows "keeps env now s (snd (mixedRoundRobin ck normalized k best P s))"
  using keeps_refl [OF assms] keeps_cursors(1) visitProviders_keeps [OF assms]
  unfolding mixedRoundRobin_def Let_def
  by (auto split: option.splits prod.splits) (metis snd_conv)+

lemma mixedWeighted_keeps: "sched_inv env now s \<Longrightarrow> keeps env now s (snd (mixedWeighted ck entries P s))"
  using keeps_cursors(2) keeps_refl by (simp add: mixedWeighted_def Let_def case_prod_beta')

lemma pickMixedWithStrategy_keeps:
  assumes inv: "sched_inv env t s" and t: "0 \<le> t" and clk: "clocks_ok t clk"
  shows "keeps env (tm_error clk) s (snd (pickMixedWithStrategy env sha rq clk providers model strategy s))"
proof -
  have le: "0 \<le> tm_ensure clk" "tm_ensure clk \<le> tm_error clk" "0 \<le> tm_error clk"
    "t \<le> tm_ensure clk" "t \<le> tm_error clk" using t clk by (auto simp: clocks_ok_def)
  have s0: "keeps env (tm_error clk) s s" using inv le by (auto intro: keeps_refl sched_inv_later)
  have unavailable: "keeps env (tm_error clk) s (snd (case mixedUnavailableError env ps model P (tm_error clk) s' of
      (e, s1) \<Rightarrow> (Inl e :: sel_error + Auth \<times> string, s1)))" if "keeps env (tm_error clk) s s'" for ps P s'
    using keeps_trans [OF that mixedUnavailableError_keeps [OF _ le(3)]] that
    by (simp add: case_prod_beta' keeps_def)
  have cb: "keeps env (tm_error clk) s (snd (collectBest env ps k P (tm_ensure clk) s))" for ps k P
    by (rule keeps_later [OF collectBest_keeps [OF sched_inv_later [OF inv le(4)] le(1)] le(2)])
  have visit: "keeps env (tm_error clk) s (snd (if fill then visitProviders str best k P skip ps s'
      else if w then mixedWeighted ck es P s' else mixedRoundRobin ck ps k best P s'))"
    if "keeps env (tm_error clk) s s'" for fill w str best k P skip ps s' ck es
    using keeps_trans [OF that] visitProviders_keeps mixedWeighted_keeps mixedRoundRobin_keeps that
    by (auto simp: keeps_def)
  note defs = pickMixedWithStrategy_def Let_def
  define N where "N = normalizeProviderKeys providers"
  consider "N = []" | "N \<noteq> []" "length N = 1" | "N \<noteq> []" "length N \<noteq> 1" "pinnedAuthIDFromMetadata (rq_metadata rq) \<noteq> []"
    | "N \<noteq> []" "length N \<noteq> 1" "pinnedAuthIDFromMetadata (rq_metadata rq) = []" by blast
  then show ?thesis
  proof cases
    case 1
    with s0 show ?thesis unfolding defs N_def [symmetric] by simp
  next
    case 2
    then show ?thesis
      using pickSingleWithStrategy_keeps [OF inv t clk, of sha rq "hd N" model strategy]
      unfolding defs N_def [symmetric] by (simp add: case_prod_beta' split: sum.splits)
  next
    case 3
    then show ?thesis
      using pickFromProvider_keeps [OF inv t clk] s0
      unfolding defs N_def [symmetric] by (simp add: case_prod_beta' split: sum.splits)
  next
    case 4
    let ?k = "canonicalModelKey model" and ?str = "currentStrategy strategy s"
    let ?P = "scheduledAuthPredicate sha (requestEligibility rq) (rq_tried rq) [] (?str = schedulerStrategyWeightedRoundRobin)"
    obtain best s1 where b: "collectBest env N ?k ?P (tm_ensure clk) s = (best, s1)" by fastforce
    have k1: "keeps env (tm_error clk) s s1" using cb [of N ?k ?P] b by simp
    show ?thesis
    proof (cases best)
      case None
      with 4 b unavailable [OF k1] show ?thesis unfolding defs N_def [symmetric] by simp
    next
      case (Some p)
      obtain po s2 where v: "(if ?str = schedulerStrategyFillFirst then visitProviders ?str p ?k ?P (\<lambda>_. False) N s1
          else if ?str = schedulerStrategyWeightedRoundRobin
          then mixedWeighted (cursorKeyFor N ?k) (mixedEntries N ?k p s1) ?P s1
          else mixedRoundRobin (cursorKeyFor N ?k) N ?k p ?P s1) = (po, s2)" by fastforce
      have k2: "keeps env (tm_error clk) s s2" 
        using visit [OF k1, where fill = "?str = schedulerStrategyFillFirst"
            and w = "?str = schedulerStrategyWeightedRoundRobin" and str = ?str and best = p and k = ?k and P = ?P
            and skip = "\<lambda>_. False" and ps = N and ck = "cursorKeyFor N ?k" and es = "mixedEntries N ?k p s1"]
        unfolding v by simp
      from 4 b Some show ?thesis
        using unavailable [OF k2, of N ?P] k2
        unfolding defs N_def [symmetric] by (simp add: v split: option.splits prod.splits)
    qed
  qed
qed

lemma setSelector_inv: "sched_inv env t s \<Longrightarrow> sched_inv env t (setSelector sel s)"
  using sched_inv_cong [of "setSelector sel s" s env t] by (simp add: setSelector_def)

lemma ResetAuthGeneration_inv: "sched_inv env t s \<Longrightarrow> sched_inv env t (ResetAuthGeneration i s)"
  using sched_inv_cong [of "ResetAuthGeneration i s" s env t] by (simp add: ResetAuthGeneration_def Let_def)

lemma sched_reachable_inv: "sched_reachable env t s \<Longrightarrow> 0 \<le> t \<and> sched_inv env t s"
proof (induction rule: sched_reachable.induct)
  case (wait t s t')
  then show ?case by (auto intro: sched_inv_later)
next
  case (single t s clk sha rq provider model strategy)
  then show ?case using pickSingleWithStrategy_keeps [of env t s clk] by (auto simp: keeps_def clocks_ok_def)
next
  case (mixed t s clk sha rq providers model strategy)
  then show ?case using pickMixedWithStrategy_keeps [of env t s clk] by (auto simp: keeps_def clocks_ok_def)
qed (auto simp: new_inv setSelector_inv upsertAuthLocked_inv rebuild_inv removeAuth_inv RecordRemovalTombstone_inv
    ResetAuthGeneration_inv)

section \<open>The contract of a pick\<close>

text \<open>The credentials a request admits, and those among them that are free at a moment.\<close>

definition admissible :: "(string \<Rightarrow> string) \<Rightarrow> sched_request \<Rightarrow> bool \<Rightarrow> scheduledAuthMeta \<Rightarrow> bool" where
  "admissible sha rq weightedOnly meta \<longleftrightarrow>
     eligibility_allows sha (requestEligibility rq) (sm_auth meta)
     \<and> (weightedOnly \<longrightarrow> sm_weight meta > 0)
     \<and> (pinnedAuthIDFromMetadata (rq_metadata rq) \<noteq> [] \<longrightarrow>
          a_ID (sm_auth meta) = pinnedAuthIDFromMetadata (rq_metadata rq))
     \<and> a_ID (sm_auth meta) \<notin> set (rq_tried rq)"

definition candidates ::
  "(string \<Rightarrow> string) \<Rightarrow> sched_request \<Rightarrow> bool \<Rightarrow> string \<Rightarrow> string \<Rightarrow> authScheduler \<Rightarrow> scheduledAuthMeta set" where
  "candidates sha rq weightedOnly pk k s =
     {meta \<in> ran (registered s). sm_providerKey meta = pk \<and> supportsModel meta k \<and> admissible sha rq weightedOnly meta}"

definition freeCandidates ::
  "token_env \<Rightarrow> (string \<Rightarrow> string) \<Rightarrow> sched_request \<Rightarrow> bool \<Rightarrow> string \<Rightarrow> string \<Rightarrow> time \<Rightarrow> authScheduler
    \<Rightarrow> scheduledAuthMeta set" where
  "freeCandidates env sha rq weightedOnly pk k now s =
     {meta \<in> candidates sha rq weightedOnly pk k s. unblocked env k now (sm_auth meta)}"

text \<open>The predicate of a request, on entries.\<close>

abbreviation requestPredicate :: "(string \<Rightarrow> string) \<Rightarrow> sched_request \<Rightarrow> bool \<Rightarrow> scheduledAuth \<Rightarrow> bool" where
  "requestPredicate sha rq weightedOnly \<equiv>
     scheduledAuthPredicate sha (requestEligibility rq) (rq_tried rq)
       (pinnedAuthIDFromMetadata (rq_metadata rq)) weightedOnly"

lemma requestPredicate_admissible:
  "sd_auth e = sm_auth (sd_meta e) \<Longrightarrow> requestPredicate sha rq w e \<longleftrightarrow> admissible sha rq w (sd_meta e)"
  by (auto simp: scheduledAuthPredicate_def admissible_def)

lemma requestPredicate_blind: "state_blind (requestPredicate sha rq w)"
  unfolding state_blind_def by (simp add: scheduledAuthPredicate_def)

lemma requestPredicate_admits:
  "requestPredicate sha rq (strategy = schedulerStrategyWeightedRoundRobin) e \<Longrightarrow> strategyAdmits strategy e"
  by (auto simp: scheduledAuthPredicate_def strategyAdmits_def positiveWeight_def split: if_splits)

lemma shard_candidates:
  assumes "sched_inv env t s" and "shard_inv env now (auths_at s pk) k sh"
  shows "sd_meta ` {e \<in> entriesOf sh. requestPredicate sha rq w e} = candidates sha rq w pk k s"
proof (intro equalityI subsetI)
  fix meta
  assume "meta \<in> sd_meta ` {e \<in> entriesOf sh. requestPredicate sha rq w e}"
  then obtain e where e: "e \<in> entriesOf sh" "requestPredicate sha rq w e" "meta = sd_meta e" by blast
  note en = shard_inv_entry [OF assms(2) e(1)]
  then have "registered s (sd_ID e) = Some meta \<and> sm_providerKey meta = pk"
    using registered_iff [OF assms(1)] e(3) by blast
  with en e show "meta \<in> candidates sha rq w pk k s"
    unfolding candidates_def ran_def using requestPredicate_admissible [of e sha rq w] by blast
next
  fix meta
  assume m: "meta \<in> candidates sha rq w pk k s"
  then obtain i where "registered s i = Some meta" "sm_providerKey meta = pk" by (auto simp: candidates_def ran_def)
  then have "auths_at s pk i = Some meta" using registered_iff [OF assms(1)] by blast
  moreover have "supportsModel meta k" "admissible sha rq w meta" using m by (simp_all add: candidates_def)
  ultimately obtain e where e: "e \<in> entriesOf sh" "sd_meta e = meta" using shard_inv_registered [OF assms(2)] by blast
  then have "requestPredicate sha rq w e"
    using requestPredicate_admissible [of e sha rq w] shard_inv_entry [OF assms(2) e(1)] \<open>admissible sha rq w meta\<close> by blast
  with e show "meta \<in> sd_meta ` {e \<in> entriesOf sh. requestPredicate sha rq w e}" by blast
qed

lemma shard_freeCandidates:
  assumes "sched_inv env t s" and "shard_inv env now (auths_at s pk) k sh"
  shows "sd_meta ` freeFor env now (requestPredicate sha rq w) sh = freeCandidates env sha rq w pk k now s"
proof -
  have k: "sh_modelKey sh = k" using assms(2) by (simp add: shard_inv_def)
  have "freeFor env now (requestPredicate sha rq w) sh =
      {e \<in> {e \<in> entriesOf sh. requestPredicate sha rq w e}. unblocked env k now (sm_auth (sd_meta e))}"
  proof -
    have "unblocked env k now (sd_auth e) = unblocked env k now (sm_auth (sd_meta e))" if "e \<in> entriesOf sh" for e
      using shard_inv_entry [OF assms(2) that] by simp
    then show ?thesis unfolding freeFor_def k by blast
  qed
  then show ?thesis
    unfolding freeCandidates_def shard_candidates [OF assms, symmetric] by auto
qed

text \<open>A choice of the highest priority.\<close>

definition topChoice :: "scheduledAuthMeta set \<Rightarrow> Auth \<Rightarrow> bool" where
  "topChoice S a \<longleftrightarrow> (\<exists>meta \<in> S. a = sm_auth meta \<and> (\<forall>other \<in> S. authPriority (sm_auth other) \<le> authPriority a))"

definition pickContract :: "bool \<Rightarrow> scheduledAuthMeta set \<Rightarrow> sel_error + Auth \<Rightarrow> bool" where
  "pickContract preferWebsocket F r =
     (case r of
        Inl e \<Rightarrow> F = {}
      | Inr a \<Rightarrow>
          (let W = {meta \<in> F. sm_websocketEnabled meta}
           in topChoice (if preferWebsocket \<and> W \<noteq> {} then W else F) a))"

lemma tops_topChoice:
  assumes "tops S e" and "\<forall>d \<in> S. sm_priority (sd_meta d) = authPriority (sm_auth (sd_meta d)) \<and> sd_auth d = sm_auth (sd_meta d)"
  shows "topChoice (sd_meta ` S) (sd_auth e)"
proof -
  have e: "e \<in> S" "\<forall>d \<in> S. e_priority d \<le> e_priority e" using assms(1) by (simp_all add: tops_def)
  have "authPriority (sm_auth other) \<le> authPriority (sd_auth e)" if "other \<in> sd_meta ` S" for other
    using that e assms(2) by force
  moreover have "sd_auth e = sm_auth (sd_meta e)" using assms(2) e(1) by blast
  ultimately show ?thesis unfolding topChoice_def using e(1) by blast
qed

lemma pickFromProvider_contract:
  fixes strategy :: schedulerStrategy
  assumes inv: "sched_inv env t s" and t: "0 \<le> t" and clk: "clocks_ok t clk"
  defines "w \<equiv> strategy = schedulerStrategyWeightedRoundRobin"
  shows "pickContract pw (freeCandidates env sha rq w pk (canonicalModelKey k) (tm_pick clk) s)
    (fst (pickFromProvider env pk k pw strategy (requestPredicate sha rq w) clk errProvider model s))"
proof -
  let ?P = "requestPredicate sha rq w" and ?now = "tm_pick clk" and ?k = "canonicalModelKey k"
  have le: "0 \<le> tm_ensure clk" "0 \<le> ?now" "tm_ensure clk \<le> ?now" "t \<le> tm_ensure clk"
    using t clk by (auto simp: clocks_ok_def)
  have inv1: "sched_inv env (tm_ensure clk) s" by (rule sched_inv_later [OF inv le(4)])
  obtain so s1 where e: "ensureShard env pk k (tm_ensure clk) s = (so, s1)" by fastforce
  show ?thesis
  proof (cases so)
    case None
    have none: "auths_at s pk i = None" for i using ensureShard_inv(5) [OF inv1 le(1), of pk k] e None by simp
    have "meta \<notin> candidates sha rq w pk ?k s" for meta
    proof
      assume "meta \<in> candidates sha rq w pk ?k s"
      then obtain i where "registered s i = Some meta" "sm_providerKey meta = pk"
        unfolding candidates_def ran_def by blast
      then have "auths_at s pk i = Some meta" using registered_iff [OF inv] by blast
      with none show False by simp
    qed
    then have "freeCandidates env sha rq w pk ?k ?now s = {}" unfolding freeCandidates_def by blast
    with e None show ?thesis by (simp add: pickFromProvider_def pickContract_def)
  next
    case (Some sh)
    have "shard_inv env (tm_ensure clk) (auths_at s pk) ?k sh"
      using ensureShard_inv(4) [OF inv1 le(1), of pk k sh] e Some by simp
    then have shi: "shard_inv env ?now (auths_at s pk) ?k sh" by (rule shard_inv_later [OF _ le(3)])
    then have wf: "shard_wf sh" "shard_fresh env ?now sh" by (simp_all add: shard_inv_def)
    let ?F = "freeFor env ?now ?P sh"
    have F: "sd_meta ` ?F = freeCandidates env sha rq w pk ?k ?now s" by (rule shard_freeCandidates [OF inv shi])
    have meta: "\<forall>d \<in> ?F. sm_priority (sd_meta d) = authPriority (sm_auth (sd_meta d)) \<and> sd_auth d = sm_auth (sd_meta d)"
    proof
      fix d
      assume "d \<in> ?F"
      then have "d \<in> entriesOf sh" by (simp add: freeFor_def)
      from shard_inv_entry [OF shi this]
      show "sm_priority (sd_meta d) = authPriority (sm_auth (sd_meta d)) \<and> sd_auth d = sm_auth (sd_meta d)"
        using inv unfolding sched_inv_def meta_ok_def by blast
    qed
    have adm: "\<forall>e \<in> entriesOf sh. ?P e \<longrightarrow> strategyAdmits strategy e"
      unfolding w_def using requestPredicate_admits by blast
    note spec = pickReady_spec [OF wf(1) le(2) wf(2) requestPredicate_blind adm, of pw]
    obtain po sh' where p: "pickReady env pw strategy ?P ?now sh = (po, sh')" by fastforce
    show ?thesis
    proof (cases po)
      case None
      with spec p F have "freeCandidates env sha rq w pk ?k ?now s = {}" by simp
      with e Some p None show ?thesis by (simp add: pickFromProvider_def pickContract_def)
    next
      case picked: (Some a)
      let ?W = "{e \<in> ?F. sm_websocketEnabled (sd_meta e)}"
      have W: "sd_meta ` ?W = {m \<in> sd_meta ` ?F. sm_websocketEnabled m}" by auto
      obtain d where d: "a = sd_auth d" "tops (if pw \<and> ?W \<noteq> {} then ?W else ?F) d"
        using spec unfolding p fst_conv picked option.case by blast
      have "topChoice (sd_meta ` (if pw \<and> ?W \<noteq> {} then ?W else ?F)) a"
        unfolding d(1) by (rule tops_topChoice [OF d(2)]) (use meta in auto)
      then have top: "topChoice (if pw \<and> {m \<in> sd_meta ` ?F. sm_websocketEnabled m} \<noteq> {}
          then {m \<in> sd_meta ` ?F. sm_websocketEnabled m} else sd_meta ` ?F) a"
        unfolding W [symmetric] by (simp only: image_is_empty simp_thms split: if_splits)
      have "fst (pickFromProvider env pk k pw strategy ?P clk errProvider model s) = Inr a"
        using e Some p picked by (simp add: pickFromProvider_def)
      with top [unfolded F] show ?thesis unfolding pickContract_def Let_def by (simp only: sum.case)
    qed
  qed
qed

section \<open>Unavailable requests\<close>

lemma length_filter_all:
  assumes "length (filter (\<lambda>x. P x \<and> Q x) xs) = length (filter P xs)"
  shows "\<forall>x \<in> set xs. P x \<longrightarrow> Q x"
proof (intro ballI impI)
  fix x
  assume x: "x \<in> set xs" "P x"
  have "length (filter Q (filter P xs)) = length (filter P xs)" using assms by (simp add: conj_commute)
  moreover have "x \<in> set (filter P xs)" using x by simp
  ultimately show "Q x" using length_filter_less [of x "filter P xs" Q] by linarith
qed

lemma summary_fold:
  fixes k :: string and P :: "scheduledAuth \<Rightarrow> bool" and now :: time and es :: "scheduledAuth list"
  defines "step \<equiv> summaryStep k P now"
  defines "z \<equiv> \<lparr>su_total = 0, su_cooldownCount = 0, su_quotaCount = 0, su_earliest = 0\<rparr>"
  shows "su_total (fold step es z) = length (filter P es)
    \<and> su_cooldownCount (fold step es z) = length (filter (\<lambda>e. P e \<and> sd_state e = scheduledStateCooldown) es)
    \<and> (\<forall>e \<in> set es. P e \<and> sd_state e = scheduledStateCooldown \<and> sd_nextRetryAt e \<noteq> 0 \<longrightarrow>
         su_earliest (fold step es z) \<noteq> 0 \<and> su_earliest (fold step es z) \<le> sd_nextRetryAt e)"
proof (induction es rule: rev_induct)
  case Nil
  then show ?case by (simp add: z_def)
next
  case (snoc e es)
  let ?su = "fold step es z"
  have fold: "fold step (es @ [e]) z = step e ?su" by simp
  show ?case
  proof (cases "P e \<and> sd_state e = scheduledStateCooldown")
    case True
    then have "su_total (step e ?su) = su_total ?su + 1" "su_cooldownCount (step e ?su) = su_cooldownCount ?su + 1"
      "su_earliest (step e ?su) = (if sd_nextRetryAt e \<noteq> 0 \<and> (su_earliest ?su = 0 \<or> sd_nextRetryAt e < su_earliest ?su)
         then sd_nextRetryAt e else su_earliest ?su)"
      by (simp_all add: step_def summaryStep_def Let_def)
    with snoc True show ?thesis unfolding fold by auto
  next
    case False
    then have "su_total (step e ?su) = su_total ?su + (if P e then 1 else 0)"
      "su_cooldownCount (step e ?su) = su_cooldownCount ?su" "su_earliest (step e ?su) = su_earliest ?su"
      by (auto simp: step_def summaryStep_def Let_def)
    with snoc False show ?thesis unfolding fold by auto
  qed
qed

text \<open>Until the reported retry time no candidate of the shard becomes free.\<close>

lemma unavailableError_cooldown:
  assumes wf: "shard_inv env t A k sh" and t: "0 \<le> t" "t \<le> now"
    and err: "unavailableError provider model P now sh = ErrCooldown ce"
    and e: "e \<in> entriesOf sh" "P e" and now': "now \<le> now'" "now' < now + mce_resetIn ce"
  shows "\<not> unblocked env k now' (sd_auth e)"
proof -
  define su where "su = availabilitySummary P now sh"
  have ce: "su_cooldownCount su = su_total su" "su_earliest su \<noteq> 0" "mce_resetIn ce \<le> max 0 (su_earliest su - now)"
    using err by (auto simp: unavailableError_def summaryError_def su_def [symmetric] Let_def authError_def
        newModelCooldownError_def time_Sub_def MinInt64_def split: if_splits)
  note sf = summary_fold [of "sh_modelKey sh" P now "map snd (sh_entries sh)",
      folded availabilitySummary_def [of P now sh] su_def]
  have "\<forall>x \<in> set (map snd (sh_entries sh)). P x \<longrightarrow> sd_state x = scheduledStateCooldown"
    by (rule length_filter_all) (use sf ce(1) in presburger)
  then have cool: "sd_state e = scheduledStateCooldown" using e unfolding set_map by blast
  have "entry_fresh env k t e" using wf e(1) unfolding shard_inv_def shard_fresh_def by blast
  then obtain u where u: "0 \<le> u" "u \<le> t"
    and out: "(sd_state e, sd_nextRetryAt e) = scheduledOutcome (isAuthBlockedForModel env (sd_auth e) k u)"
    by (auto simp: entry_fresh_def)
  obtain b r d where at: "isAuthBlockedForModel env (sd_auth e) k u = (b, r, d)"
    by (cases "isAuthBlockedForModel env (sd_auth e) k u")
  with out cool have bd: "b" "sd_nextRetryAt e = d" by (auto simp: scheduledOutcome_def split: if_splits)
  have "d = 0 \<or> now' < d"
  proof (cases "d = 0")
    case False
    have "su_earliest su \<le> d" using sf e cool bd(2) False by auto
    with ce(3) now' show ?thesis by auto
  qed simp
  then have "fst (isAuthBlockedForModel env (sd_auth e) k now')"
    using isAuthBlockedForModel_lasts [of u now' env "sd_auth e" k r d] u t now'(1) at bd(1) by auto
  then show ?thesis by (simp add: unblocked_def)
qed

lemma pickFromProvider_retry:
  assumes inv: "sched_inv env t s" and t: "0 \<le> t" and clk: "clocks_ok t clk"
    and err: "fst (pickFromProvider env pk k pw strategy (requestPredicate sha rq w) clk errProvider model s)
      = Inl (ErrCooldown ce)"
    and meta: "meta \<in> candidates sha rq w pk (canonicalModelKey k) s"
    and now': "tm_error clk \<le> now'" "now' < tm_error clk + mce_resetIn ce"
  shows "\<not> unblocked env (canonicalModelKey k) now' (sm_auth meta)"
proof -
  let ?P = "requestPredicate sha rq w" and ?k = "canonicalModelKey k"
  have le: "0 \<le> tm_ensure clk" "0 \<le> tm_pick clk" "tm_ensure clk \<le> tm_pick clk" "t \<le> tm_ensure clk"
    "tm_pick clk \<le> tm_error clk" using t clk by (auto simp: clocks_ok_def)
  have inv1: "sched_inv env (tm_ensure clk) s" by (rule sched_inv_later [OF inv le(4)])
  obtain sh s1 sh' where e: "ensureShard env pk k (tm_ensure clk) s = (Some sh, s1)"
    and p: "pickReady env pw strategy ?P (tm_pick clk) sh = (None, sh')"
    and u: "unavailableError errProvider model ?P (tm_error clk) sh' = ErrCooldown ce"
    using err by (auto simp: pickFromProvider_def authError_def split: prod.splits option.splits)
  have "shard_inv env (tm_ensure clk) (auths_at s pk) ?k sh"
    using ensureShard_inv(4) [OF inv1 le(1), of pk k sh] e by simp
  from pickReady_inv [OF shard_inv_later [OF this le(3)] le(2), of pw strategy ?P] p
  have sh': "shard_inv env (tm_pick clk) (auths_at s pk) ?k sh'" by simp
  obtain d where d: "d \<in> entriesOf sh'" "?P d" "meta = sd_meta d"
    using meta shard_candidates [OF inv sh', of sha rq w] by blast
  from unavailableError_cooldown [OF sh' le(2,5) u d(1,2) now'] shard_inv_entry [OF sh' d(1)] d(3)
  show ?thesis by simp
qed

section \<open>Properties\<close>

text \<open>
  C1: in every reachable state of the scheduler each model shard holds exactly the
  registered credentials of its provider that support the model, its ready views list exactly the ready
  entries of each priority in identifier order, its queue the waiting ones in the order of
  their retry times, every entry state was computed from the entry's own snapshot, and no credential is
  registered with two providers.
\<close>

theorem scheduler_invariant:
  assumes "sched_reachable env t s"
  shows "sched_inv env t s"
  using sched_reachable_inv [OF assms] by blast

text \<open>A scheduler with two credentials of one provider, of different priority.\<close>

definition exampleModels :: "string \<Rightarrow> ModelInfo option list" where
  "exampleModels authID = [Some (zero_ModelInfo\<lparr>mi_ID := ''gpt-5''\<rparr>)]"

definition exampleAuth :: "string \<Rightarrow> string \<Rightarrow> Auth" where
  "exampleAuth authID priority = zero_Auth\<lparr>a_ID := authID, a_Provider := ''codex'',
     a_Attributes := [(''priority'', priority)]\<rparr>"

definition exampleScheduler :: authScheduler where
  "exampleScheduler =
     upsertAuthLocked exampleEnv exampleModels (exampleAuth ''b'' ''5'') 10
       (upsertAuthLocked exampleEnv exampleModels (exampleAuth ''a'' ''1'') 10 (newAuthScheduler NilSelector))"

lemma exampleScheduler_reachable: "sched_reachable exampleEnv 10 exampleScheduler"
  unfolding exampleScheduler_def
  by (intro sched_reachable.upsert sched_reachable.start; code_simp)

theorem scheduler_invariant_witness: "sched_inv exampleEnv 10 exampleScheduler"
  by (rule scheduler_invariant [OF exampleScheduler_reachable])

definition exampleRequest :: sched_request where
  "exampleRequest = \<lparr>rq_scope = None, rq_requiredKind = [], rq_credentialPolicy = [], rq_websocket = False,
     rq_metadata = [], rq_tried = []\<rparr>"

definition exampleClock :: sched_times where
  "exampleClock = \<lparr>tm_ensure = 20, tm_pick = 21, tm_error = 22\<rparr>"

lemma exampleClock_ok: "clocks_ok 10 exampleClock"
  by (simp add: clocks_ok_def exampleClock_def)

text \<open>
  C2: a pick for one provider errs exactly when no registered credential of the provider that
  supports the model is admitted by the request (access scope, kind, policy, pinning, not tried yet, positive
  weight under the weighted strategy) and free at the time of the pick. Otherwise it returns such a credential
  of the highest priority; when websocket transport is preferred and offered, of those that offer it.
\<close>

theorem pickSingle_correct:
  assumes "sched_reachable env t s" and "clocks_ok t clk"
  shows "pickContract
    (rq_websocket rq \<and> providerPrefersWebsocketTransport (ToLower (TrimSpace provider))
       \<and> pinnedAuthIDFromMetadata (rq_metadata rq) = [])
    (freeCandidates env sha rq (as_strategy s = schedulerStrategyWeightedRoundRobin) (ToLower (TrimSpace provider))
       (canonicalModelKey (canonicalModelKey model)) (tm_pick clk) s)
    (fst (pickSingle env sha rq clk provider model s))"
  using sched_reachable_inv [OF assms(1)] pickFromProvider_contract [OF _ _ assms(2)]
  by (simp add: pickSingle_def pickSingleWithStrategy_def currentStrategy_def Let_def)

theorem pickSingle_correct_witness:
  "topChoice (freeCandidates exampleEnv (\<lambda>x. x) exampleRequest False ''codex'' ''gpt-5'' 21 exampleScheduler)
     (exampleAuth ''b'' ''5'')"
proof -
  have "fst (pickSingle exampleEnv (\<lambda>x. x) exampleRequest exampleClock ''codex'' ''gpt-5(high)'' exampleScheduler)
      = Inr (exampleAuth ''b'' ''5'')"
    and "ToLower (TrimSpace ''codex'') = ''codex''"
    and "canonicalModelKey (canonicalModelKey ''gpt-5(high)'') = ''gpt-5''"
    and "as_strategy exampleScheduler \<noteq> schedulerStrategyWeightedRoundRobin" by code_simp+
  with pickSingle_correct [OF exampleScheduler_reachable exampleClock_ok, of exampleRequest "''codex''" "\<lambda>x. x" "''gpt-5(high)''"]
  show ?thesis by (simp add: pickContract_def exampleRequest_def exampleClock_def)
qed

text \<open>
  C8: when a pick answers with a cooldown error, a client that retries before the reported delay
  has passed cannot succeed: until then no credential that the request admits becomes free.
\<close>

theorem pickSingle_retry:
  assumes "sched_reachable env t s" and "clocks_ok t clk"
    and "fst (pickSingle env sha rq clk provider model s) = Inl (ErrCooldown ce)"
    and "meta \<in> candidates sha rq (as_strategy s = schedulerStrategyWeightedRoundRobin) (ToLower (TrimSpace provider))
      (canonicalModelKey (canonicalModelKey model)) s"
    and "tm_error clk \<le> now" and "now < tm_error clk + mce_resetIn ce"
  shows "\<not> unblocked env (canonicalModelKey (canonicalModelKey model)) now (sm_auth meta)"
  using sched_reachable_inv [OF assms(1)] pickFromProvider_retry [OF _ _ assms(2) _ assms(4,5,6)] assms(3)
  by (simp add: pickSingle_def pickSingleWithStrategy_def currentStrategy_def Let_def)

definition coolingAuth :: Auth where
  "coolingAuth = (exampleAuth ''c'' ''1'')\<lparr>a_ModelStates := a_ModelStates exampleCooling\<rparr>"

definition coolingScheduler :: authScheduler where
  "coolingScheduler = upsertAuthLocked exampleEnv exampleModels coolingAuth 10 (newAuthScheduler NilSelector)"

lemma coolingScheduler_reachable: "sched_reachable exampleEnv 10 coolingScheduler"
  unfolding coolingScheduler_def by (intro sched_reachable.upsert sched_reachable.start; code_simp)

theorem pickSingle_retry_witness: "\<not> unblocked exampleEnv ''gpt-5'' 79 coolingAuth"
proof -
  let ?meta = "buildScheduledAuthMeta exampleModels coolingAuth"
  have "fst (pickSingle exampleEnv (\<lambda>x. x) exampleRequest exampleClock ''codex'' ''gpt-5'' coolingScheduler)
      = Inl (ErrCooldown \<lparr>mce_model = ''gpt-5'', mce_resetIn = 58, mce_provider = ''codex'', mce_quotaLimited = False\<rparr>)"
    by code_simp
  moreover have "registered coolingScheduler ''c'' = Some ?meta" "sm_providerKey ?meta = ''codex''"
    "supportsModel ?meta ''gpt-5''" "admissible (\<lambda>x. x) exampleRequest False ?meta" by code_simp+
  then have "?meta \<in> candidates (\<lambda>x. x) exampleRequest False ''codex'' ''gpt-5'' coolingScheduler"
    unfolding candidates_def ran_def by blast
  moreover have "ToLower (TrimSpace ''codex'') = ''codex''" "canonicalModelKey (canonicalModelKey ''gpt-5'') = ''gpt-5''"
    "as_strategy coolingScheduler \<noteq> schedulerStrategyWeightedRoundRobin" by code_simp+
  ultimately have "\<not> unblocked exampleEnv ''gpt-5'' 79 (sm_auth ?meta)"
    using pickSingle_retry [OF coolingScheduler_reachable exampleClock_ok, of "\<lambda>x. x" exampleRequest "''codex''" "''gpt-5''"
        _ ?meta 79] by (simp add: exampleClock_def)
  then show ?thesis by (simp add: buildScheduledAuthMeta_def)
qed

text \<open>
  C6: the scheduler with its shards, views and queues implements a plain map from identifiers to
  credential snapshots. An update stores the snapshot, or removes it when the credential is disabled or
  has no provider, or is ignored when it is stale; a removal deletes it; a pick changes nothing.
\<close>

theorem scheduler_refines_map:
  assumes "sched_reachable env t s"
  shows "(TrimSpace (a_ID auth) = a_ID auth \<longrightarrow>
      registered (upsertAuthLocked env models auth t s) =
        (if a_ID auth = [] \<or> staleFor s auth then registered s
         else if executorKeyFromAuth auth = [] \<or> a_Disabled auth \<or> a_Status auth = StatusDisabled
         then (registered s)(a_ID auth := None)
         else (registered s)(a_ID auth \<mapsto> buildScheduledAuthMeta models auth)))
    \<and> (TrimSpace authID = authID \<and> authID \<noteq> [] \<longrightarrow>
        registered (removeAuth authID t s) = (registered s)(authID := None))
    \<and> (clocks_ok t clk \<longrightarrow>
        registered (snd (pickSingleWithStrategy env sha rq clk provider model strategy s)) = registered s
        \<and> registered (snd (pickMixedWithStrategy env sha rq clk providers model strategy s)) = registered s)"
proof -
  have inv: "0 \<le> t" "sched_inv env t s" using sched_reachable_inv [OF assms] by blast+
  show ?thesis
    using upsertAuthLocked_inv [OF inv(2,1), of auth models] removeAuth_inv [OF inv(2), of authID t]
      pickSingleWithStrategy_keeps [OF inv(2,1), of clk sha rq provider model strategy]
      pickMixedWithStrategy_keeps [OF inv(2,1), of clk sha rq providers model strategy]
    by (auto simp: registration_def keeps_def)
qed

theorem scheduler_refines_map_witness:
  "registered (removeAuth ''a'' 10 exampleScheduler) ''a'' = None"
proof -
  have "TrimSpace ''a'' = ''a''" by code_simp
  with scheduler_refines_map [OF exampleScheduler_reachable, where authID = "''a''"]
  have "registered (removeAuth ''a'' 10 exampleScheduler) = (registered exampleScheduler)(''a'' := None)"
    by blast
  then show ?thesis by simp
qed

text \<open>
  C7: a removal cannot be undone by a late update: any update of the credential that
  carries the epoch known at the removal, or an older one, is ignored.
\<close>

theorem removed_stays_removed:
  assumes "sched_reachable env t s" and "TrimSpace authID = authID" and "authID \<noteq> []"
    and "map_of (as_authGenerations s) authID = Some m" and "gm_epoch m \<noteq> - 1"
    and "a_ID auth = authID" and "a_RegistrationEpoch auth \<le> gm_epoch m"
  shows "registered (upsertAuthLocked env models auth t' (removeAuth authID t s)) authID = None"
proof -
  let ?s = "removeAuth authID t s"
  have "1 + gm_epoch m \<noteq> 0" using assms(5) max_word_wrap [of "gm_epoch m"] by (metis add.commute)
  then have "gm_epoch m < gm_epoch m + 1"
    using unatSuc [of "gm_epoch m"] by (simp add: word_less_nat_alt add.commute)
  then have "a_RegistrationEpoch auth < gm_epoch m + 1" using assms(7) by simp
  moreover have "map_of (as_authGenerations ?s) authID = Some (GenMeta (gm_epoch m + 1) 0 t)"
    using assms(2,3,4) by (simp add: removeAuth_def removeAuthFromProviders_def Let_def split: option.splits)
  ultimately have "staleFor ?s auth" using assms(6) by (simp add: isStaleScheduledAuth_def)
  then have "upsertAuthLocked env models auth t' ?s = ?s"
    using assms(2,6) by (simp add: upsertAuthLocked_def Let_def)
  moreover have "registered ?s authID = None"
    using removeAuth_inv [of env t s authID t] sched_reachable_inv [OF assms(1)] assms(2,3) by simp
  ultimately show ?thesis by simp
qed

theorem removed_stays_removed_witness:
  "registered (upsertAuthLocked exampleEnv exampleModels (exampleAuth ''a'' ''1'') 30
     (removeAuth ''a'' 10 exampleScheduler)) ''a'' = None"
proof -
  have "TrimSpace ''a'' = ''a''" "map_of (as_authGenerations exampleScheduler) ''a'' = Some (GenMeta 0 0 0)"
    "a_ID (exampleAuth ''a'' ''1'') = ''a''" "a_RegistrationEpoch (exampleAuth ''a'' ''1'') = 0" by code_simp+
  then show ?thesis
    using removed_stays_removed [OF exampleScheduler_reachable, of "''a''" "GenMeta 0 0 0" "exampleAuth ''a'' ''1''"]
    by simp
qed

end
