(* ===== verification/Scheduler_Mixed.thy ===== *)
theory Scheduler_Mixed
  imports Scheduler_Picks
begin

text \<open>
  Picks over several providers. The scheduler first brings the shard of every provider up to date and
  finds the best priority with a matching ready credential, then lets the strategy choose among the
  credentials of that priority. The theory shows that the choice is always a free credential of the
  highest priority over all the providers, and that the pick errs only when there is none.
\<close>

section \<open>A single priority of one shard\<close>

lemma pickReadyAtPriority_at:
  assumes "shard_wf m" and "\<forall>e \<in> entriesOf m. P e \<longrightarrow> strategyAdmits strategy e"
  shows "case fst (pickReadyAtPriority False p strategy P m) of
      None \<Rightarrow> \<not> (\<exists>e \<in> readyAt m p. P e)
    | Some a \<Rightarrow> \<exists>e \<in> readyAt m p. P e \<and> a = sd_auth e"
proof (cases "map_of (sh_readyByPriority m) p")
  case None
  have "readyAt m p = {}"
  proof (rule ccontr)
    assume "readyAt m p \<noteq> {}"
    then obtain e where "e \<in> readyAt m p" by blast
    from bucket_exists [OF assms(1) this] None show False by fastforce
  qed
  with None show ?thesis by (simp add: pickReadyAtPriority_def)
next
  case (Some b)
  let ?flat = "deref (sh_entries m) (rv_flat (rb_all b))"
  have flat: "set ?flat = readyAt m p" by (rule view_entries(1) [OF assms(1) Some])
  have "\<forall>e \<in> set ?flat. P e \<longrightarrow> strategyAdmits strategy e"
    unfolding flat using assms(2) by (auto simp: readyAt_def)
  note dec = byStrategy.pick_decides [OF this, of "rb_all b", unfolded flat]
  have "fst (pickReadyAtPriority False p strategy P m) = map_option sd_auth (fst (pickView strategy P ?flat (rb_all b)))"
    using Some by (simp add: pickReadyAtPriority_def useWebsocketView_def Let_def case_prod_beta')
  with dec show ?thesis by (cases "fst (pickView strategy P ?flat (rb_all b))") auto
qed

lemma readyCountAtPriority_pos:
  assumes "shard_wf m"
  shows "readyCountAtPriority False p P m > 0 \<longleftrightarrow> (\<exists>e \<in> readyAt m p. P e)"
proof (cases "map_of (sh_readyByPriority m) p")
  case None
  then show ?thesis
    using bucket_exists [OF assms, of _ p] by (simp add: readyCountAtPriority_def) (metis option.distinct(1))
next
  case (Some b)
  have "(\<exists>e \<in> set (deref (sh_entries m) (rv_flat (rb_all b))). P e) \<longleftrightarrow> (\<exists>e \<in> readyAt m p. P e)"
    unfolding view_entries(1) [OF assms Some] by (rule refl)
  with Some show ?thesis
    by (simp add: readyCountAtPriority_def useWebsocketView_def Let_def filter_empty_conv)
qed

section \<open>Bringing the shards up to date\<close>

definition upToDate :: "token_env \<Rightarrow> string \<Rightarrow> time \<Rightarrow> string \<Rightarrow> authScheduler \<Rightarrow> bool" where
  "upToDate env k now pk s \<longleftrightarrow>
     (case shardOf pk k s of None \<Rightarrow> auths_at s pk = Map.empty | Some sh \<Rightarrow> shard_current env now sh)"

lemma new_shard_current:
  assumes "provider_inv env now p" and "0 \<le> now"
  shows "shard_current env now (fst (ensureModel env k now p))"
proof (cases "map_of (ps_modelShards p) (canonicalModelKey k)")
  case (Some sh)
  then have "shard_inv env now (map_of (ps_auths p)) (canonicalModelKey k) sh"
    using assms(1) by (simp add: provider_inv_def)
  then have "shard_wf sh" "shard_fresh env now sh" by (simp_all add: shard_inv_def)
  from promoteExpired_current(1) [OF this(1) assms(2) this(2)] Some show ?thesis
    by (simp add: ensureModel_def Let_def)
next
  case None
  let ?k = "canonicalModelKey k"
  let ?f = "\<lambda>(_, meta) shard. if \<not> supportsModel meta ?k then shard else upsertEntry env meta now shard"
  have "shard_current env now (fold ?f xs sh) \<and> sh_modelKey (fold ?f xs sh) = ?k"
    if "shard_current env now sh" "shard_wf sh" "sh_modelKey sh = ?k" for xs sh
    using that
  proof (induction xs arbitrary: sh)
    case (Cons x xs)
    obtain i meta where x: "x = (i, meta)" by (cases x)
    show ?case
    proof (cases "supportsModel meta ?k")
      case True
      have "shard_current env now (upsertEntry env meta now sh)"
        by (rule upsertEntry_current [OF Cons.prems(2,1)])
      with Cons.IH [of "upsertEntry env meta now sh"] Cons.prems True x show ?thesis
        by (simp add: upsertEntry_wf)
    qed (use Cons x in simp)
  qed simp
  moreover have "shard_current env now (new_modelScheduler ?k)" by (simp add: shard_current_def new_modelScheduler_def)
  moreover have "sh_modelKey (new_modelScheduler ?k) = ?k" by (simp add: new_modelScheduler_def)
  ultimately have "shard_current env now (fold ?f (ps_auths p) (new_modelScheduler ?k))"
    using new_modelScheduler_wf by blast
  with None show ?thesis by (simp add: ensureModel_def Let_def)
qed

lemma ensureShard_current:
  assumes "sched_inv env now s" and "0 \<le> now"
  shows "upToDate env k now pk (snd (ensureShard env pk k now s))"
    and "fst (ensureShard env pk k now s) = shardOf pk k (snd (ensureShard env pk k now s))"
    and "pk' \<noteq> pk \<Longrightarrow> shardOf pk' k (snd (ensureShard env pk k now s)) = shardOf pk' k s"
proof -
  show "pk' \<noteq> pk \<Longrightarrow> shardOf pk' k (snd (ensureShard env pk k now s)) = shardOf pk' k s"
    by (simp add: ensureShard_def shardOf_def case_prod_beta' split: option.splits)
  have "upToDate env k now pk (snd (ensureShard env pk k now s))
    \<and> fst (ensureShard env pk k now s) = shardOf pk k (snd (ensureShard env pk k now s))"
  proof (cases "map_of (as_providers s) pk")
    case None
    then show ?thesis by (simp add: ensureShard_def shardOf_def upToDate_def auths_at_def)
  next
    case (Some p)
    then have p: "provider_inv env now p" using assms(1) by (simp add: sched_inv_def)
    from Some ensureModel_inv(4) [OF p assms(2), of k] new_shard_current [OF p assms(2), of k] show ?thesis
      by (simp add: ensureShard_def shardOf_def upToDate_def case_prod_beta')
  qed
  then show "upToDate env k now pk (snd (ensureShard env pk k now s))"
    and "fst (ensureShard env pk k now s) = shardOf pk k (snd (ensureShard env pk k now s))" by blast+
qed

lemma collectBest_spec:
  assumes "0 \<le> now" and "distinct pks" and "sched_inv env now s0"
    and "fold (\<lambda>pk (best, s). case ensureShard env pk k now s of (shard, s1) \<Rightarrow> (bestReady P shard best, s1))
      pks (best0, s0) = (best, s1)"
  shows "keeps env now s0 s1 \<and> (\<forall>pk \<in> set pks. upToDate env k now pk s1)
    \<and> (\<forall>pk. pk \<notin> set pks \<longrightarrow> shardOf pk k s1 = shardOf pk k s0)
    \<and> best = fold (\<lambda>pk b. bestReady P (shardOf pk k s1) b) pks best0"
  using assms(2,3,4)
proof (induction pks arbitrary: best0 s0)
  case Nil
  then show ?case by (simp add: keeps_refl)
next
  case (Cons pk pks)
  obtain so s where e: "ensureShard env pk k now s0 = (so, s)" by fastforce
  have k0: "keeps env now s0 s" using ensureShard_keeps [OF Cons.prems(2) assms(1), of pk k] e by simp
  note cur = ensureShard_current [OF Cons.prems(2) assms(1), where k = k and pk = pk]
  have d: "pk \<notin> set pks" "distinct pks" using Cons.prems(1) by simp_all
  have "fold (\<lambda>pk (best, s). case ensureShard env pk k now s of (shard, s1) \<Rightarrow> (bestReady P shard best, s1))
      pks (bestReady P so best0, s) = (best, s1)" using Cons.prems(3) e by simp
  from Cons.IH [OF d(2) _ this] k0
  have IH: "keeps env now s s1" "\<forall>pk \<in> set pks. upToDate env k now pk s1"
    "\<forall>pk. pk \<notin> set pks \<longrightarrow> shardOf pk k s1 = shardOf pk k s"
    "best = fold (\<lambda>pk b. bestReady P (shardOf pk k s1) b) pks (bestReady P so best0)"
    by (auto simp: keeps_def)
  have same: "shardOf pk k s1 = shardOf pk k s" using IH(3) d(1) by blast
  have "auths_at s1 = auths_at s" using IH(1) by (simp add: keeps_def)
  then have "upToDate env k now pk s1" using cur(1) e unfolding upToDate_def same by (simp split: option.splits)
  moreover have "so = shardOf pk k s1" using cur(2) e same by simp
  moreover have "\<forall>q. q \<notin> set (pk # pks) \<longrightarrow> shardOf q k s1 = shardOf q k s0"
    using IH(3) cur(3) e by auto
  ultimately show ?case using IH keeps_trans [OF k0] by simp
qed

lemma bestReady_fold:
  fixes P :: "scheduledAuth \<Rightarrow> bool"
  assumes wf: "\<forall>pk \<in> set pks. \<forall>sh. f pk = Some sh \<longrightarrow> shard_wf sh"
  defines "M \<equiv> \<Union>pk \<in> set pks. case f pk of None \<Rightarrow> {} | Some sh \<Rightarrow> matching P sh"
  shows "case fold (\<lambda>pk b. bestReady P (f pk) b) pks None of
      None \<Rightarrow> M = {}
    | Some p \<Rightarrow> (\<exists>e \<in> M. e_priority e = p) \<and> (\<forall>e \<in> M. e_priority e \<le> p)"
  using wf unfolding M_def
proof (induction pks rule: rev_induct)
  case Nil
  then show ?case by simp
next
  case (snoc pk pks)
  let ?b = "fold (\<lambda>pk b. bestReady P (f pk) b) pks None"
  let ?M = "\<Union>pk \<in> set pks. case f pk of None \<Rightarrow> {} | Some sh \<Rightarrow> matching P sh"
  have IH: "case ?b of None \<Rightarrow> ?M = {} | Some p \<Rightarrow> (\<exists>e \<in> ?M. e_priority e = p) \<and> (\<forall>e \<in> ?M. e_priority e \<le> p)"
    using snoc by simp
  show ?case
  proof (cases "f pk")
    case None
    then have "bestReady P (f pk) b = b" for b by (simp add: bestReady_def)
    moreover have U: "(\<Union>pk \<in> set (pks @ [pk]). case f pk of None \<Rightarrow> {} | Some sh \<Rightarrow> matching P sh) = ?M"
      using None by auto
    ultimately show ?thesis using IH unfolding U by simp
  next
    case (Some sh)
    then have sh: "shard_wf sh" using snoc.prems by simp
    have off: "offered False P sh = matching P sh" by (simp add: offered_def Let_def)
    have U: "(\<Union>pk \<in> set (pks @ [pk]). case f pk of None \<Rightarrow> {} | Some sh \<Rightarrow> matching P sh) = ?M \<union> matching P sh"
      using Some by auto
    show ?thesis
    proof (cases "highestReadyPriority False P sh")
      case None
      then have mat: "matching P sh = {}" using highestReadyPriority_spec(1) [OF sh None] off by simp
      have "bestReady P (f pk) b = b" for b using None Some by (simp add: bestReady_def)
      with IH show ?thesis unfolding U mat Un_empty_right by simp
    next
      case h: (Some q)
      obtain t where t: "t \<in> matching P sh" "e_priority t = q" "\<forall>e \<in> matching P sh. e_priority e \<le> q"
        using highestReadyPriority_spec(2) [OF sh h] off unfolding tops_def by auto
      have best: "fold (\<lambda>pk b. bestReady P (f pk) b) (pks @ [pk]) None =
          (case ?b of None \<Rightarrow> Some q | Some p \<Rightarrow> if q > p then Some q else Some p)"
        using Some h by (simp add: bestReady_def split: option.splits)
      show ?thesis
      proof (cases ?b)
        case None
        with IH t show ?thesis unfolding U best by auto
      next
        case (Some p)
        with IH obtain e where e: "e \<in> ?M" "e_priority e = p" "\<forall>e \<in> ?M. e_priority e \<le> p" by auto
        show ?thesis
        proof (cases "q > p")
          case True
          have "\<forall>x \<in> ?M \<union> matching P sh. e_priority x \<le> q" using e(3) t(3) True by force
          with t True Some show ?thesis unfolding U best by auto
        next
          case False
          have "\<forall>x \<in> ?M \<union> matching P sh. e_priority x \<le> p" using e(3) t(3) False by force
          with e False Some show ?thesis unfolding U best by auto
        qed
      qed
    qed
  qed
qed

section \<open>Choosing among the credentials of the best priority\<close>

definition readyMatches :: "string \<Rightarrow> string \<Rightarrow> int \<Rightarrow> (scheduledAuth \<Rightarrow> bool) \<Rightarrow> authScheduler \<Rightarrow> scheduledAuth set" where
  "readyMatches pk k p P s = (case shardOf pk k s of None \<Rightarrow> {} | Some sh \<Rightarrow> {e \<in> readyAt sh p. P e})"

definition mixedChoice ::
  "string set \<Rightarrow> string \<Rightarrow> int \<Rightarrow> (scheduledAuth \<Rightarrow> bool) \<Rightarrow> authScheduler \<Rightarrow> (Auth \<times> string) option \<Rightarrow> bool" where
  "mixedChoice N k p P s r =
     (case r of
        None \<Rightarrow> \<forall>pk \<in> N. readyMatches pk k p P s = {}
      | Some (a, pk) \<Rightarrow> pk \<in> N \<and> (\<exists>e \<in> readyMatches pk k p P s. a = sd_auth e))"

lemma putShard_other: "pk' \<noteq> pk \<Longrightarrow> shardOf pk' k (putShard pk k sh s) = shardOf pk' k s"
  by (simp add: putShard_def shardOf_def split: option.splits)

lemma readyMatches_put: "pk' \<noteq> pk \<Longrightarrow> readyMatches pk' k p P (putShard pk k sh s) = readyMatches pk' k p P s"
  by (simp add: readyMatches_def putShard_other)

lemma visitProviders_choice:
  assumes "sched_inv env now s" and "distinct pks" and "\<forall>e. P e \<longrightarrow> strategyAdmits strategy e"
  shows "mixedChoice {pk \<in> set pks. \<not> skip pk} k p P s (fst (visitProviders strategy p k P skip pks s))"
  using assms(1,2)
proof (induction pks arbitrary: s)
  case Nil
  then show ?case by (simp add: mixedChoice_def)
next
  case (Cons pk pks)
  have more: "mixedChoice {q \<in> set (pk # pks). \<not> skip q} k p P s r"
    if "mixedChoice {q \<in> set pks. \<not> skip q} k p P s' r" "readyMatches pk k p P s = {} \<or> skip pk"
      "\<forall>q \<in> set pks. readyMatches q k p P s' = readyMatches q k p P s" for r s'
    using that unfolding mixedChoice_def by (cases r) auto
  consider (skip) "skip pk" | (none) "\<not> skip pk" "shardOf pk k s = None"
    | (shard) sh where "\<not> skip pk" "shardOf pk k s = Some sh" by fastforce
  then show ?case
  proof cases
    case skip
    with more [OF Cons.IH [OF Cons.prems(1)]] Cons.prems(2) show ?thesis by simp
  next
    case none
    with more [OF Cons.IH [OF Cons.prems(1)]] Cons.prems(2) show ?thesis by (simp add: readyMatches_def)
  next
    case (shard sh)
    obtain po sh' where r: "pickReadyAtPriority False p strategy P sh = (po, sh')" by fastforce
    note shi = shardOf_inv [OF Cons.prems(1) shard(2)]
    have wf: "shard_wf sh" using shi by (simp add: shard_inv_def)
    note at = pickReadyAtPriority_at [OF wf, of P strategy p]
    have adm: "\<forall>e \<in> entriesOf sh. P e \<longrightarrow> strategyAdmits strategy e" using assms(3) by blast
    show ?thesis
    proof (cases po)
      case None
      have inv': "sched_inv env now (putShard pk k sh' s)"
        using putShard_inv(1) [OF Cons.prems(1)] pickReadyAtPriority_inv [OF shi, of False p strategy P] r by simp
      have "readyMatches pk k p P s = {}" using at [OF adm] r None shard(2) by (auto simp: readyMatches_def)
      moreover have "\<forall>q \<in> set pks. readyMatches q k p P (putShard pk k sh' s) = readyMatches q k p P s"
        using Cons.prems(2) by (intro ballI readyMatches_put) auto
      ultimately show ?thesis using more [OF Cons.IH [OF inv']] Cons.prems(2) shard r None by simp
    next
      case (Some a)
      obtain e where "e \<in> readyAt sh p" "P e" "a = sd_auth e" using at [OF adm] r Some by auto
      then have "\<exists>e \<in> readyMatches pk k p P s. a = sd_auth e" using shard(2) by (auto simp: readyMatches_def)
      with shard r Some show ?thesis by (simp add: mixedChoice_def)
    qed
  qed
qed

lemma mixedEntries_set:
  assumes "sched_inv env now s"
  shows "{e \<in> set (mixedEntries N k p s). P e} = (\<Union>pk \<in> set N. readyMatches pk k p P s)"
proof -
  have "{e \<in> set (case shardOf pk k s of None \<Rightarrow> [] | Some shard \<Rightarrow>
        (case map_of (sh_readyByPriority shard) p of None \<Rightarrow> []
         | Some bucket \<Rightarrow> deref (sh_entries shard) (rv_flat (rb_all bucket)))). P e} = readyMatches pk k p P s" for pk
  proof (cases "shardOf pk k s")
    case None
    then show ?thesis by (simp add: readyMatches_def)
  next
    case (Some sh)
    have wf: "shard_wf sh" using shardOf_inv [OF assms Some] by (simp add: shard_inv_def)
    show ?thesis
    proof (cases "map_of (sh_readyByPriority sh) p")
      case None
      have "readyAt sh p = {}" using bucket_exists [OF wf, of _ p] None by (metis all_not_in_conv option.distinct(1))
      with None Some show ?thesis by (simp add: readyMatches_def)
    next
      case b: (Some b)
      with Some view_entries(1) [OF wf b] show ?thesis by (simp add: readyMatches_def)
    qed
  qed
  then show ?thesis by (simp add: mixedEntries_def) blast
qed

lemma readyMatches_entry:
  assumes "sched_inv env now s" and "e \<in> readyMatches pk k p P s"
  shows "auths_at s pk (sd_ID e) = Some (sd_meta e) \<and> sd_auth e = sm_auth (sd_meta e)
    \<and> meta_ok pk (sd_meta e) \<and> P e \<and> e_priority e = p"
proof -
  obtain sh where sh: "shardOf pk k s = Some sh" and e: "e \<in> readyAt sh p" "P e"
    using assms(2) by (auto simp: readyMatches_def split: option.splits)
  have "e \<in> entriesOf sh" using e(1) by (simp add: readyAt_def)
  note en = shard_inv_entry [OF shardOf_inv [OF assms(1) sh] this]
  moreover have "meta_ok pk (sd_meta e)" using en assms(1) unfolding sched_inv_def by blast
  ultimately show ?thesis using e unfolding readyAt_def by blast
qed

lemma mixedWeighted_choice:
  assumes "sched_inv env now s" and "\<forall>e. P e \<longrightarrow> positiveWeight e"
  shows "mixedChoice (set N) k p P s (fst (mixedWeighted ck (mixedEntries N k p s) P s))"
proof -
  let ?es = "mixedEntries N k p s"
  obtain cur where fst: "fst (mixedWeighted ck ?es P s) =
      map_option (\<lambda>e. (sd_auth e, sm_providerKey (sd_meta e))) (fst (pickSmoothWeightedScheduled ?es cur P))"
    by (simp add: mixedWeighted_def Let_def case_prod_beta')
  show ?thesis
  proof (cases "fst (pickSmoothWeightedScheduled ?es cur P)")
    case None
    then have "{e \<in> set ?es. P e} = {}"
      using pickSmoothWeightedScheduled_member(1) [of ?es cur P] assms(2) by blast
    then have "\<forall>pk \<in> set N. readyMatches pk k p P s = {}" unfolding mixedEntries_set [OF assms(1)] by blast
    with fst None show ?thesis by (simp add: mixedChoice_def)
  next
    case (Some e)
    then have "e \<in> {e \<in> set ?es. P e}" using pickSmoothWeightedScheduled_member(2) [OF Some] by simp
    then obtain pk where pk: "pk \<in> set N" "e \<in> readyMatches pk k p P s" unfolding mixedEntries_set [OF assms(1)] by blast
    then have "sm_providerKey (sd_meta e) = pk" using readyMatches_entry [OF assms(1) pk(2)] by (simp add: meta_ok_def)
    with pk fst Some show ?thesis by (auto simp: mixedChoice_def)
  qed
qed

lemma startProvider_Some:
  "slot < sum_list ws \<Longrightarrow> \<exists>j. startProvider ws slot i = Some j \<and> i \<le> j \<and> j < i + length ws"
proof (induction ws arbitrary: slot i)
  case (Cons w ws)
  show ?case
  proof (cases "w \<noteq> 0 \<and> slot < w")
    case False
    then have "slot - w < sum_list ws" using Cons.prems by auto
    from Cons.IH [OF this, of "Suc i"] False show ?thesis by auto
  qed simp
qed simp

lemma mixedRoundRobin_choice:
  assumes inv: "sched_inv env now s" and d: "distinct N"
  shows "mixedChoice (set N) k p P s (fst (mixedRoundRobin ck N k p P s))"
proof -
  define g where "g = (\<lambda>pk. case shardOf pk k s of None \<Rightarrow> 0 | Some shard \<Rightarrow> readyCountAtPriority False p P shard)"
  have ws: "readyWeights N k p P s = map g N" by (simp add: readyWeights_def g_def)
  have g: "g pk = 0 \<longleftrightarrow> readyMatches pk k p P s = {}" for pk
  proof (cases "shardOf pk k s")
    case None
    then show ?thesis by (simp add: g_def readyMatches_def)
  next
    case (Some sh)
    have "shard_wf sh" using shardOf_inv [OF inv Some] by (simp add: shard_inv_def)
    from readyCountAtPriority_pos [OF this, of p P] Some show ?thesis
      unfolding g_def readyMatches_def by auto
  qed
  show ?thesis
  proof (cases "sum_list (map g N) = 0")
    case True
    then have "\<forall>pk \<in> set N. g pk = 0" by simp
    with True show ?thesis by (simp add: mixedRoundRobin_def Let_def ws mixedChoice_def g)
  next
    case False
    define slot where "slot = (case map_of (as_mixedCursors s) ck of Some c \<Rightarrow> c | None \<Rightarrow> 0) mod sum_list (map g N)"
    have "slot < sum_list (map g N)" unfolding slot_def using False by (intro mod_less_divisor) linarith
    from startProvider_Some [OF this, of 0] obtain j where j: "startProvider (map g N) slot 0 = Some j" "j < length N" by auto
    define skip where "skip = (\<lambda>pk. get_int (zip N (map int (map g N))) pk = 0)"
    define order where "order = map (\<lambda>offset. N ! ((j + offset) mod length N)) [0..<length N]"
    have "order = rotate j N"
      unfolding order_def by (rule nth_equalityI) (simp_all add: nth_rotate)
    then have order: "set order = set N" "distinct order" using d by simp_all
    have skip: "skip pk \<longleftrightarrow> readyMatches pk k p P s = {}" if "pk \<in> set N" for pk
      using that g unfolding skip_def get_int_def map_map by (simp add: map_of_zip_map)
    have "fst (mixedRoundRobin ck N k p P s) = fst (visitProviders schedulerStrategyRoundRobin p k P skip order s)"
      using False j unfolding mixedRoundRobin_def Let_def ws slot_def [symmetric] skip_def [symmetric] order_def [symmetric]
      by (simp add: skip_def [symmetric] order_def [symmetric] split: prod.splits option.splits)
    moreover have "mixedChoice {pk \<in> set order. \<not> skip pk} k p P s
        (fst (visitProviders schedulerStrategyRoundRobin p k P skip order s))"
      by (rule visitProviders_choice [OF inv order(2)]) (simp add: strategyAdmits_def)
    ultimately show ?thesis
      using skip order(1) unfolding mixedChoice_def by (auto split: option.splits)
  qed
qed

section \<open>The contract of a mixed pick\<close>

lemma normalizeProviderKeys_distinct: "distinct (normalizeProviderKeys providers)"
proof -
  have "distinct (fold (\<lambda>provider out.
      let providerKey = ToLower (TrimSpace provider)
      in if providerKey = [] then out else if providerKey \<in> set out then out else out @ [providerKey]) xs ys)"
    if "distinct ys" for xs ys :: "string list"
    using that by (induction xs arbitrary: ys) (simp_all add: Let_def)
  then show ?thesis by (simp add: normalizeProviderKeys_def)
qed

text \<open>The free candidates of a provider are the matching ready entries of its shard.\<close>

lemma upToDate_free:
  assumes "sched_inv env now s" and "upToDate env k now pk s"
  shows "sd_meta ` (case shardOf pk k s of None \<Rightarrow> {} | Some sh \<Rightarrow> matching (requestPredicate sha rq w) sh)
    = freeCandidates env sha rq w pk (canonicalModelKey k) now s"
proof (cases "shardOf pk k s")
  case None
  then have "auths_at s pk = Map.empty" using assms(2) by (simp add: upToDate_def)
  then have "candidates sha rq w pk (canonicalModelKey k) s = {}"
    using registered_iff [OF assms(1), of pk] unfolding candidates_def ran_def by fastforce
  with None show ?thesis by (simp add: freeCandidates_def)
next
  case (Some sh)
  note shi = shardOf_inv [OF assms(1) Some]
  have k: "sh_modelKey sh = canonicalModelKey k" using shi by (simp add: shard_inv_def)
  have "shard_current env now sh" using assms(2) Some by (simp add: upToDate_def)
  then have "matching (requestPredicate sha rq w) sh = freeFor env now (requestPredicate sha rq w) sh"
    unfolding matching_def freeFor_def shard_current_def k by blast
  with Some shard_freeCandidates [OF assms(1) shi, of sha rq w] show ?thesis by simp
qed

definition mixedContract :: "string set \<Rightarrow> (string \<Rightarrow> scheduledAuthMeta set) \<Rightarrow> sel_error + Auth \<times> string \<Rightarrow> bool" where
  "mixedContract N F r =
     (case r of
        Inl e \<Rightarrow> \<forall>pk \<in> N. F pk = {}
      | Inr (a, pk) \<Rightarrow> pk \<in> N \<and> (\<exists>meta \<in> F pk. a = sm_auth meta)
          \<and> (\<forall>q \<in> N. \<forall>other \<in> F q. authPriority (sm_auth other) \<le> authPriority a))"

lemma freeCandidates_cong:
  "registered s' = registered s \<Longrightarrow> freeCandidates env sha rq w pk k now s' = freeCandidates env sha rq w pk k now s"
  by (simp add: freeCandidates_def candidates_def)

text \<open>From the choice at the best priority to the contract.\<close>

lemma choice_contract:
  fixes sha rq w s
  assumes inv: "sched_inv env now s" and up: "\<forall>pk \<in> N. upToDate env k now pk s"
  defines "P \<equiv> requestPredicate sha rq w"
  defines "M \<equiv> \<lambda>pk. case shardOf pk k s of None \<Rightarrow> {} | Some sh \<Rightarrow> matching P sh"
  assumes top: "\<exists>e \<in> (\<Union>pk \<in> N. M pk). e_priority e = p" "\<forall>e \<in> (\<Union>pk \<in> N. M pk). e_priority e \<le> p"
    and choice: "mixedChoice N k p P s r"
  shows "\<exists>a pk. r = Some (a, pk)
    \<and> mixedContract N (\<lambda>pk. freeCandidates env sha rq w pk (canonicalModelKey k) now s) (Inr (a, pk))"
proof -
  have RM: "readyMatches pk k p P s = {e \<in> M pk. e_priority e = p}" for pk
    unfolding readyMatches_def M_def readyAt_def matching_def by (auto split: option.splits)
  have F: "sd_meta ` M pk = freeCandidates env sha rq w pk (canonicalModelKey k) now s" if "pk \<in> N" for pk
    unfolding M_def P_def by (rule upToDate_free [OF inv]) (use up that in blast)
  from top(1) obtain q where "q \<in> N" "readyMatches q k p P s \<noteq> {}" unfolding RM by blast
  with choice obtain a pk e where r: "r = Some (a, pk)" "pk \<in> N" "e \<in> readyMatches pk k p P s" "a = sd_auth e"
    unfolding mixedChoice_def by (auto split: option.splits)
  note en = readyMatches_entry [OF inv r(3)]
  have pr: "authPriority a = p" using en r(4) unfolding meta_ok_def by metis
  have "authPriority (sm_auth other) \<le> authPriority a"
    if q: "q \<in> N" and other: "other \<in> freeCandidates env sha rq w q (canonicalModelKey k) now s" for q other
  proof -
    obtain d where d: "d \<in> M q" "other = sd_meta d" using F [OF q] other by blast
    then have "e_priority d \<le> p" using top(2) q by blast
    moreover have "d \<in> readyMatches q k (e_priority d) P s"
      using d(1) unfolding M_def readyMatches_def readyAt_def matching_def by (auto split: option.splits)
    from readyMatches_entry [OF inv this] have "e_priority d = authPriority (sm_auth other)"
      using d(2) unfolding meta_ok_def by metis
    ultimately show ?thesis using pr by simp
  qed
  moreover have "\<exists>meta \<in> freeCandidates env sha rq w pk (canonicalModelKey k) now s. a = sm_auth meta"
    using F [OF r(2)] r(3,4) en unfolding RM by blast
  ultimately show ?thesis using r by (auto simp: mixedContract_def)
qed

lemma pickMixed_contract:
  assumes inv0: "sched_inv env t s" and t0: "0 \<le> t" and clk: "clocks_ok t clk"
    and "pinnedAuthIDFromMetadata (rq_metadata rq) = []"
    and "length (normalizeProviderKeys providers) \<noteq> 1"
  shows "mixedContract (set (normalizeProviderKeys providers))
    (\<lambda>pk. freeCandidates env sha rq (as_strategy s = schedulerStrategyWeightedRoundRobin) pk
       (canonicalModelKey (canonicalModelKey model)) (tm_ensure clk) s)
    (fst (pickMixed env sha rq clk providers model s))"
proof (cases "normalizeProviderKeys providers = []")
  case True
  then show ?thesis by (simp add: pickMixed_def pickMixedWithStrategy_def mixedContract_def)
next
  case ne: False
  define N where "N = normalizeProviderKeys providers"
  define w where "w \<longleftrightarrow> as_strategy s = schedulerStrategyWeightedRoundRobin"
  let ?k = "canonicalModelKey model" and ?now = "tm_ensure clk" and ?P = "requestPredicate sha rq w"
  have now: "0 \<le> ?now" and inv: "sched_inv env ?now s"
    using inv0 t0 clk by (auto simp: clocks_ok_def intro: sched_inv_later)
  have dN: "distinct N" unfolding N_def by (rule normalizeProviderKeys_distinct)
  obtain best s1 where cb: "collectBest env N ?k ?P ?now s = (best, s1)" by fastforce
  note spec = collectBest_spec [OF now dN inv cb [unfolded collectBest_def]]
  have inv1: "sched_inv env ?now s1" and reg: "registered s1 = registered s" using spec by (simp_all add: keeps_def)
  let ?M = "\<lambda>pk. case shardOf pk ?k s1 of None \<Rightarrow> {} | Some sh \<Rightarrow> matching ?P sh"
  let ?F = "\<lambda>pk. freeCandidates env sha rq w pk (canonicalModelKey ?k) ?now s"
  have wf: "\<forall>pk \<in> set N. \<forall>sh. shardOf pk ?k s1 = Some sh \<longrightarrow> shard_wf sh"
    using shardOf_inv [OF inv1] by (simp add: shard_inv_def)
  have best: "case best of None \<Rightarrow> (\<Union>pk \<in> set N. ?M pk) = {}
      | Some p \<Rightarrow> (\<exists>e \<in> (\<Union>pk \<in> set N. ?M pk). e_priority e = p) \<and> (\<forall>e \<in> (\<Union>pk \<in> set N. ?M pk). e_priority e \<le> p)"
    using bestReady_fold [OF wf, of ?P] spec by simp
  show ?thesis
  proof (cases best)
    case None
    have "?F pk = {}" if "pk \<in> set N" for pk
    proof -
      have "?M pk = {}" using best None that by auto
      moreover have "upToDate env ?k ?now pk s1" using spec that by blast
      ultimately have "freeCandidates env sha rq w pk (canonicalModelKey ?k) ?now s1 = {}"
        using upToDate_free [OF inv1, of ?k pk sha rq w] by simp
      then show ?thesis unfolding freeCandidates_cong [OF reg] .
    qed
    moreover have "\<exists>e. fst (pickMixed env sha rq clk providers model s) = Inl e"
      using ne assms(4,5) cb None
      by (simp add: pickMixed_def pickMixedWithStrategy_def currentStrategy_def Let_def N_def w_def case_prod_beta')
    ultimately show ?thesis by (auto simp: mixedContract_def N_def w_def)
  next
    case (Some p)
    let ?r = "if as_strategy s = schedulerStrategyFillFirst then visitProviders (as_strategy s) p ?k ?P (\<lambda>_. False) N s1
      else if w then mixedWeighted (cursorKeyFor N ?k) (mixedEntries N ?k p s1) ?P s1
      else mixedRoundRobin (cursorKeyFor N ?k) N ?k p ?P s1"
    have "mixedChoice (set N) ?k p ?P s1 (fst ?r)"
    proof -
      have "\<forall>e. ?P e \<longrightarrow> strategyAdmits (as_strategy s) e"
        using requestPredicate_admits unfolding w_def by blast
      from visitProviders_choice [OF inv1 dN this, where skip = "\<lambda>_. False" and k = ?k and p = p]
      have "mixedChoice (set N) ?k p ?P s1 (fst (visitProviders (as_strategy s) p ?k ?P (\<lambda>_. False) N s1))" by simp
      moreover have "mixedChoice (set N) ?k p ?P s1 (fst (mixedWeighted (cursorKeyFor N ?k) (mixedEntries N ?k p s1) ?P s1))"
        if w by (rule mixedWeighted_choice [OF inv1]) (use that in \<open>auto simp: scheduledAuthPredicate_def positiveWeight_def split: if_splits\<close>)
      moreover have "mixedChoice (set N) ?k p ?P s1 (fst (mixedRoundRobin (cursorKeyFor N ?k) N ?k p ?P s1))"
        by (rule mixedRoundRobin_choice [OF inv1 dN])
      ultimately show ?thesis by presburger
    qed
    moreover have "\<forall>pk \<in> set N. upToDate env ?k ?now pk s1" using spec by blast
    ultimately obtain a pk where r: "fst ?r = Some (a, pk)" "mixedContract (set N) ?F (Inr (a, pk))"
      using choice_contract [OF inv1, of "set N" ?k sha rq w p "fst ?r"] best Some
      unfolding freeCandidates_cong [OF reg] by auto
    define s2 where "s2 = snd ?r"
    have r2: "?r = (Some (a, pk), s2)" unfolding s2_def by (rule prod_eqI) (simp_all only: r(1) fst_conv snd_conv)
    have str: "currentStrategy schedulerStrategyCurrent s = as_strategy s" by (simp add: currentStrategy_def)
    have N: "(N = []) = False" "(length N = 1) = False" using ne assms(5) by (simp_all add: N_def)
    have "fst (pickMixed env sha rq clk providers model s) = Inr (a, pk)"
      unfolding pickMixed_def pickMixedWithStrategy_def Let_def str N_def [symmetric] w_def [symmetric] assms(4)
      by (simp only: N cb [unfolded assms(4)] Some r2 [unfolded assms(4)] prod.case option.case if_False if_True
          simp_thms fst_conv)
    with r(2) show ?thesis by (simp add: N_def w_def)
  qed
qed

text \<open>
  C3: a pick over several providers (none of them pinned) errs only when none of them has a free
  credential that supports the model and is admitted by the request; otherwise it returns one together with its
  provider, and no provider has a free admitted credential of a higher priority. This holds for all three
  strategies, although each of them combines the providers in its own way.
\<close>

theorem pickMixed_correct:
  assumes "sched_reachable env t s" and "clocks_ok t clk"
    and "pinnedAuthIDFromMetadata (rq_metadata rq) = []"
    and "length (normalizeProviderKeys providers) \<noteq> 1"
  shows "mixedContract (set (normalizeProviderKeys providers))
    (\<lambda>pk. freeCandidates env sha rq (as_strategy s = schedulerStrategyWeightedRoundRobin) pk
       (canonicalModelKey (canonicalModelKey model)) (tm_ensure clk) s)
    (fst (pickMixed env sha rq clk providers model s))"
  using sched_reachable_inv [OF assms(1)] pickMixed_contract [OF _ _ assms(2-4)] by blast

definition mixedScheduler :: authScheduler where
  "mixedScheduler =
     upsertAuthLocked exampleEnv exampleModels ((exampleAuth ''z'' ''7'')\<lparr>a_Provider := ''claude''\<rparr>) 10 exampleScheduler"

lemma mixedScheduler_reachable: "sched_reachable exampleEnv 10 mixedScheduler"
  unfolding mixedScheduler_def by (rule sched_reachable.upsert [OF exampleScheduler_reachable]) code_simp

theorem pickMixed_correct_witness:
  "mixedContract {''codex'', ''claude''}
     (\<lambda>pk. freeCandidates exampleEnv (\<lambda>x. x) exampleRequest False pk ''gpt-5'' 20 mixedScheduler)
     (Inr ((exampleAuth ''z'' ''7'')\<lparr>a_Provider := ''claude''\<rparr>, ''claude''))"
proof -
  have "normalizeProviderKeys [''codex'', ''Claude''] = [''codex'', ''claude'']"
    and "canonicalModelKey (canonicalModelKey ''gpt-5'') = ''gpt-5''"
    and "as_strategy mixedScheduler \<noteq> schedulerStrategyWeightedRoundRobin"
    and "pinnedAuthIDFromMetadata (rq_metadata exampleRequest) = []"
    and "fst (pickMixed exampleEnv (\<lambda>x. x) exampleRequest exampleClock [''codex'', ''Claude''] ''gpt-5'' mixedScheduler)
      = Inr ((exampleAuth ''z'' ''7'')\<lparr>a_Provider := ''claude''\<rparr>, ''claude'')"
    by code_simp+
  with pickMixed_correct [OF mixedScheduler_reachable exampleClock_ok, of exampleRequest "[''codex'', ''Claude'']" "\<lambda>x. x" "''gpt-5''"]
  show ?thesis by (simp add: exampleClock_def)
qed

end
