(* ===== verification/Quota_Signals.thy ===== *)
theory Quota_Signals
  imports Auth_Types "HOL-Library.Product_Lexorder"
begin

text \<open>
  Passive quota observation: \<^verbatim>\<open>sdk/cliproxy/auth/quota_signals.go\<close>. A response may carry
  quota watermarks in its headers; a bounded snapshot of them is kept in the \<open>QuotaState\<close>
  beside the cooldown fields, and the two halves of the record are updated independently.

  An \<open>http.Header\<close> is a map from names to lists of values; its list order is the order of
  Go's map iteration. \<open>CanonicalHeaderKey\<close> is the standard library's: a name with a byte
  that is not a token character is left alone.
\<close>

section \<open>Model\<close>

type_synonym Header = "(string, string list) gomap"

definition maxQuotaSignalHeaders :: nat where "maxQuotaSignalHeaders = 64"
definition maxQuotaSignalValue :: nat where "maxQuotaSignalValue = 512"

definition validHeaderFieldByte :: "char \<Rightarrow> bool" where
  "validHeaderFieldByte c \<longleftrightarrow>
     (CHR ''a'' \<le> c \<and> c \<le> CHR ''z'') \<or> (CHR ''A'' \<le> c \<and> c \<le> CHR ''Z'') \<or> (CHR ''0'' \<le> c \<and> c \<le> CHR ''9'')
     \<or> c \<in> set (''!#$%&*+-.^_|~'' @ [CHR 0x27, CHR 0x60])"

definition upper_char :: "char \<Rightarrow> char" where
  "upper_char c = (if CHR ''a'' \<le> c \<and> c \<le> CHR ''z'' then char_of (of_char c - 32 :: nat) else c)"

fun canonical_bytes :: "bool \<Rightarrow> string \<Rightarrow> string" where
  "canonical_bytes upper [] = []"
| "canonical_bytes upper (c # s) =
     (let d = (if upper then upper_char c else lower_char c) in d # canonical_bytes (d = CHR ''-'') s)"

definition CanonicalHeaderKey :: "string \<Rightarrow> string" where
  "CanonicalHeaderKey s = (if list_all validHeaderFieldByte s then canonical_bytes True s else s)"

definition ProviderSupportsQuotaObservation :: "string \<Rightarrow> bool" where
  "ProviderSupportsQuotaObservation provider \<longleftrightarrow> ToLower (TrimSpace provider) \<in> set [''claude'', ''codex'']"

text \<open>The source ranges over the runes of a value; a control character is a single byte.\<close>

definition validQuotaSignalValue :: "string \<Rightarrow> bool" where
  "validQuotaSignalValue value \<longleftrightarrow>
     value \<noteq> [] \<and> length value \<le> maxQuotaSignalValue
     \<and> list_all (\<lambda>c. \<not> (c < CHR 0x20 \<or> c = CHR 0x7F)) value"

definition quotaSignalRetentionRank :: "string \<Rightarrow> nat" where
  "quotaSignalRetentionRank name =
     (let lower = ToLower (TrimSpace name) in
      if lower = ''retry-after'' \<or> HasPrefix lower ''anthropic-ratelimit-unified-'' then 0
      else if lower = ''x-codex-plan-type'' \<or> lower = ''x-codex-active-limit'' \<or> HasPrefix lower ''x-codex-credits-'' then 1
      else if lower = ''x-codex-allowed'' \<or> lower = ''x-codex-limit-reached'' \<or> HasPrefix lower ''x-codex-primary-''
        \<or> HasPrefix lower ''x-codex-secondary-'' then 2
      else if HasPrefix lower ''x-codex-code-review-'' then 3
      else if HasPrefix lower ''x-codex-additional-'' then 5
      else if HasPrefix lower ''x-codex-'' then 4
      else 6)"

definition quotaSignalMarkers :: "string list" where
  "quotaSignalMarkers =
     [''-allowed'', ''-limit-reached'', ''-limit-name'', ''-used-percent'', ''-window-minutes'',
      ''-reset-after-seconds'', ''-reset-at'', ''-over-secondary-limit-percent'']"

definition isQuotaSignalHeaderForProvider :: "string \<Rightarrow> string \<Rightarrow> bool" where
  "isQuotaSignalHeaderForProvider provider0 name0 =
     (let provider = ToLower (TrimSpace provider0);
          name = ToLower (TrimSpace name0)
      in if name = ''retry-after'' then provider = ''claude'' \<or> provider = ''codex''
         else if HasPrefix name ''anthropic-ratelimit-unified-'' then provider = ''claude''
         else if HasPrefix name ''x-ratelimit-'' then provider = ''codex''
         else if \<not> HasPrefix name ''x-codex-'' then False
         else if provider \<noteq> ''codex'' then False
         else if name = ''x-codex-active-limit'' \<or> name = ''x-codex-plan-type'' \<or> HasPrefix name ''x-codex-credits-''
         then True
         else list_ex (Contains name) quotaSignalMarkers)"

text \<open>
  The loop of \<open>collectQuotaSignals\<close>: \<open>names\<close> in order of first acceptance, and the last
  value accepted for each of them.
\<close>

definition signalStep ::
  "string \<Rightarrow> string \<times> string list \<Rightarrow> string list \<times> (string, string) gomap \<Rightarrow> string list \<times> (string, string) gomap" where
  "signalStep provider kv acc =
     (case (kv, acc) of ((key, headerValues), (names, values)) \<Rightarrow>
        let canonicalKey = CanonicalHeaderKey (TrimSpace key)
        in if \<not> isQuotaSignalHeaderForProvider provider canonicalKey \<or> headerValues = [] then acc
           else let value = TrimSpace (last headerValues)
             in if \<not> validQuotaSignalValue value then acc
                else (if map_of values canonicalKey = None then names @ [canonicalKey] else names,
                      AList.update canonicalKey value values))"

definition collectQuotaSignals :: "string \<Rightarrow> Header \<Rightarrow> (string, string) gomap" where
  "collectQuotaSignals provider headers =
     (let (names, values) = fold (signalStep provider) headers ([], []);
          sorted_names = sort_key (\<lambda>name. (quotaSignalRetentionRank name, name)) names;
          kept = take maxQuotaSignalHeaders sorted_names
      in map (\<lambda>name. (name, get_str values name)) kept)"

definition ClearObservationSignals :: "QuotaState \<Rightarrow> QuotaState \<times> bool" where
  "ClearObservationSignals q =
     (if q_Signals q = [] \<and> IsZero (q_ObservedAt q) then (q, False)
      else (q\<lparr>q_Signals := [], q_ObservedAt := 0\<rparr>, True))"

text \<open>\<open>clock\<close> is the \<open>time.Now()\<close> used for a zero observation time.\<close>

definition ObserveResponseHeadersForProvider ::
  "time \<Rightarrow> string \<Rightarrow> Header \<Rightarrow> time \<Rightarrow> QuotaState \<Rightarrow> QuotaState \<times> bool" where
  "ObserveResponseHeadersForProvider clock provider headers observedAt q =
     (if \<not> ProviderSupportsQuotaObservation provider then ClearObservationSignals q
      else let next = collectQuotaSignals provider headers
        in if next = [] then (q, False)
           else (q\<lparr>q_Signals := next, q_ObservedAt := (if IsZero observedAt then clock else observedAt)\<rparr>, True))"

definition cooldownFieldsOf :: "QuotaState \<Rightarrow> QuotaState" where
  "cooldownFieldsOf q =
     zero_QuotaState\<lparr>q_Exceeded := q_Exceeded q, q_Reason := q_Reason q,
       q_NextRecoverAt := q_NextRecoverAt q, q_BackoffLevel := q_BackoffLevel q\<rparr>"

definition applyCooldownFields :: "QuotaState \<Rightarrow> QuotaState \<Rightarrow> QuotaState" where
  "applyCooldownFields dst cooldown =
     dst\<lparr>q_Exceeded := q_Exceeded cooldown, q_Reason := q_Reason cooldown,
       q_NextRecoverAt := q_NextRecoverAt cooldown, q_BackoffLevel := q_BackoffLevel cooldown\<rparr>"

definition mergeQuotaObservation :: "QuotaState \<Rightarrow> QuotaState \<Rightarrow> QuotaState" where
  "mergeQuotaObservation target source =
     (if IsZero (q_ObservedAt source) \<or> q_ObservedAt source < q_ObservedAt target then target
      else target\<lparr>q_ObservedAt := q_ObservedAt source, q_Signals := q_Signals source\<rparr>)"

section \<open>The two halves of a quota state\<close>

text \<open>The cooldown half and the observation half as the functions see them.\<close>

definition observationOf :: "QuotaState \<Rightarrow> time \<times> (string, string) gomap" where
  "observationOf q = (q_ObservedAt q, q_Signals q)"

lemma cooldownFieldsOf_eq_iff:
  "cooldownFieldsOf p = cooldownFieldsOf q \<longleftrightarrow>
     q_Exceeded p = q_Exceeded q \<and> q_Reason p = q_Reason q
     \<and> q_NextRecoverAt p = q_NextRecoverAt q \<and> q_BackoffLevel p = q_BackoffLevel q"
  by (simp add: cooldownFieldsOf_def zero_QuotaState_def)

lemma applyCooldownFields_sel [simp]:
  "q_Exceeded (applyCooldownFields d c) = q_Exceeded c"
  "q_Reason (applyCooldownFields d c) = q_Reason c"
  "q_NextRecoverAt (applyCooldownFields d c) = q_NextRecoverAt c"
  "q_BackoffLevel (applyCooldownFields d c) = q_BackoffLevel c"
  "q_ObservedAt (applyCooldownFields d c) = q_ObservedAt d"
  "q_Signals (applyCooldownFields d c) = q_Signals d"
  by (simp_all add: applyCooldownFields_def)

lemma cooldownFieldsOf_sel [simp]:
  "q_Exceeded (cooldownFieldsOf q) = q_Exceeded q"
  "q_Reason (cooldownFieldsOf q) = q_Reason q"
  "q_NextRecoverAt (cooldownFieldsOf q) = q_NextRecoverAt q"
  "q_BackoffLevel (cooldownFieldsOf q) = q_BackoffLevel q"
  by (simp_all add: cooldownFieldsOf_def)

lemma zero_QuotaState_sel [simp]:
  "\<not> q_Exceeded zero_QuotaState" "q_Reason zero_QuotaState = []"
  "q_NextRecoverAt zero_QuotaState = 0" "q_BackoffLevel zero_QuotaState = 0"
  "q_ObservedAt zero_QuotaState = 0" "q_Signals zero_QuotaState = []"
  by (simp_all add: zero_QuotaState_def)

lemma observe_cooldown_fields [simp]:
  "q_Exceeded (fst (ObserveResponseHeadersForProvider clock p hs t q)) = q_Exceeded q"
  "q_Reason (fst (ObserveResponseHeadersForProvider clock p hs t q)) = q_Reason q"
  "q_NextRecoverAt (fst (ObserveResponseHeadersForProvider clock p hs t q)) = q_NextRecoverAt q"
  "q_BackoffLevel (fst (ObserveResponseHeadersForProvider clock p hs t q)) = q_BackoffLevel q"
  by (simp_all add: ObserveResponseHeadersForProvider_def ClearObservationSignals_def Let_def)

lemma mergeQuotaObservation_sel [simp]:
  "q_Exceeded (mergeQuotaObservation t s) = q_Exceeded t"
  "q_Reason (mergeQuotaObservation t s) = q_Reason t"
  "q_NextRecoverAt (mergeQuotaObservation t s) = q_NextRecoverAt t"
  "q_BackoffLevel (mergeQuotaObservation t s) = q_BackoffLevel t"
  by (simp_all add: mergeQuotaObservation_def)

section \<open>What a snapshot holds\<close>

text \<open>A header entry that qualifies, by its canonical name and its trimmed last value.\<close>

definition qualifies :: "string \<Rightarrow> string \<Rightarrow> string \<Rightarrow> bool" where
  "qualifies provider name value \<longleftrightarrow>
     isQuotaSignalHeaderForProvider provider name \<and> validQuotaSignalValue value"

definition signalOf :: "string \<times> string list \<Rightarrow> string \<times> string" where
  "signalOf kv = (CanonicalHeaderKey (TrimSpace (fst kv)), TrimSpace (last (snd kv)))"

definition offered :: "string \<Rightarrow> Header \<Rightarrow> (string \<times> string) set" where
  "offered provider headers =
     {signalOf kv | kv. kv \<in> set headers \<and> snd kv \<noteq> [] \<and> qualifies provider (fst (signalOf kv)) (snd (signalOf kv))}"

text \<open>
  The loop keeps \<open>names\<close> and \<open>values\<close> in step, and holds a value for exactly the offered names.
\<close>

definition collected :: "(string \<times> string) set \<Rightarrow> string list \<times> (string, string) gomap \<Rightarrow> bool" where
  "collected S acc \<longleftrightarrow>
     distinct (fst acc) \<and> set (fst acc) = keys (snd acc) \<and> keys (snd acc) = fst ` S
     \<and> (\<forall>k v. map_of (snd acc) k = Some v \<longrightarrow> (k, v) \<in> S)"

lemma signalStep_collected:
  assumes "collected S acc"
  shows "collected (S \<union> offered provider [kv]) (signalStep provider kv acc)"
proof -
  obtain names "values" where acc: "acc = (names, values)" by (cases acc)
  let ?k = "fst (signalOf kv)" and ?v = "snd (signalOf kv)"
  show ?thesis
  proof (cases "snd kv \<noteq> [] \<and> qualifies provider ?k ?v")
    case True
    then have step: "signalStep provider kv acc =
        (if map_of values ?k = None then names @ [?k] else names, AList.update ?k ?v values)"
      by (simp add: signalStep_def acc signalOf_def qualifies_def Let_def case_prod_beta)
    have off: "offered provider [kv] = {(?k, ?v)}" 
    proof -
      have "offered provider [kv] = {signalOf kv}" unfolding offered_def using True by (cases kv) auto
      then show ?thesis by simp
    qed
    have c: "distinct names" "set names = keys values" "keys values = fst ` S"
      "\<forall>k v. map_of values k = Some v \<longrightarrow> (k, v) \<in> S"
      using assms by (simp_all add: collected_def acc)
    have "distinct (if map_of values ?k = None then names @ [?k] else names)"
      using c(1,2) by (simp add: map_of_eq_None_iff)
    moreover have "set (if map_of values ?k = None then names @ [?k] else names) = insert ?k (keys values)"
    proof (cases "map_of values ?k")
      case None
      then show ?thesis using c(2) by simp
    next
      case (Some v)
      then have "?k \<in> keys values" by (metis map_of_eq_None_iff option.distinct(1))
      then show ?thesis using c(2) Some by (simp add: insert_absorb)
    qed
    ultimately show ?thesis using c(3,4) unfolding collected_def step off by simp
  next
    case False
    then have "signalStep provider kv acc = acc"
      by (auto simp: signalStep_def acc signalOf_def qualifies_def Let_def case_prod_beta)
    moreover have "offered provider [kv] = {}" using False by (auto simp: offered_def)
    ultimately show ?thesis using assms by simp
  qed
qed

lemma offered_simps: "offered provider [] = {}"
  "offered provider (kv # hs) = offered provider [kv] \<union> offered provider hs"
  by (auto simp: offered_def)

lemma fold_signalStep_collected:
  "collected S acc \<Longrightarrow> collected (S \<union> offered provider hs) (fold (signalStep provider) hs acc)"
proof (induction hs arbitrary: S acc)
  case Nil
  then show ?case by (simp add: offered_simps)
next
  case (Cons kv hs)
  from Cons.IH [OF signalStep_collected [OF Cons.prems]] show ?case
    by (simp add: offered_simps(2) [of provider kv hs] Un_assoc)
qed

text \<open>Taking a prefix of a sorted list keeps the smallest elements.\<close>

lemma take_sort_key_least:
  assumes "x \<in> set (take n (sort_key f xs))" and "y \<in> set xs" and "y \<notin> set (take n (sort_key f xs))"
  shows "f x \<le> f y"
proof -
  let ?s = "sort_key f xs"
  have "y \<in> set (drop n ?s)"
    using assms(2,3) by (metis Un_iff append_take_drop_id set_append set_sort)
  then obtain j where j: "n + j < length ?s" "y = ?s ! (n + j)"
    by (auto simp: in_set_conv_nth intro!: that)
  obtain i where i: "i < n" "i < length ?s" "x = ?s ! i"
    using assms(1) by (auto simp: in_set_conv_nth)
  then show ?thesis using sorted_map_nth_mono [of f ?s i "n + j"] j by simp
qed

lemma collectQuotaSignals_spec:
  fixes provider hs
  defines "sigs \<equiv> collectQuotaSignals provider hs"
  shows "distinct_keys sigs" and "length sigs \<le> 64" and "set sigs \<subseteq> offered provider hs"
    and "fst ` offered provider hs \<subseteq> keys sigs \<or> length sigs = 64"
    and "n \<in> keys sigs \<Longrightarrow> m \<in> fst ` offered provider hs - keys sigs \<Longrightarrow>
      quotaSignalRetentionRank n \<le> quotaSignalRetentionRank m"
proof -
  obtain names "values" where fv: "fold (signalStep provider) hs ([], []) = (names, values)"
    by (cases "fold (signalStep provider) hs ([], [])")
  have "collected {} ([], [])" by (simp add: collected_def)
  from fold_signalStep_collected [OF this, of provider hs]
  have c: "distinct names" "set names = fst ` offered provider hs" "keys values = fst ` offered provider hs"
    "\<And>k v. map_of values k = Some v \<Longrightarrow> (k, v) \<in> offered provider hs"
    by (auto simp: fv collected_def)
  let ?key = "\<lambda>name. (quotaSignalRetentionRank name, name)"
  define kept where "kept = take 64 (sort_key ?key names)"
  have sigs: "sigs = map (\<lambda>n. (n, get_str values n)) kept"
    by (simp add: sigs_def collectQuotaSignals_def fv kept_def maxQuotaSignalHeaders_def)
  have ks: "keys sigs = set kept" by (auto simp: sigs image_iff)
  have kn: "set kept \<subseteq> set names" using set_take_subset [of 64 "sort_key ?key names"] by (simp add: kept_def)
  show "distinct_keys sigs" by (simp add: sigs kept_def c(1) comp_def)
  show "length sigs \<le> 64" by (simp add: sigs kept_def)
  show "set sigs \<subseteq> offered provider hs"
  proof
    fix x assume "x \<in> set sigs"
    then obtain n where n: "n \<in> set kept" "x = (n, get_str values n)" by (auto simp: sigs)
    then have "n \<in> keys values" using kn c(2,3) by blast
    then obtain v where "map_of values n = Some v" by (metis map_of_eq_None_iff not_Some_eq)
    then show "x \<in> offered provider hs" using c(4) n(2) by (simp add: get_str_def)
  qed
  show "fst ` offered provider hs \<subseteq> keys sigs \<or> length sigs = 64"
  proof (cases "length names \<le> 64")
    case True
    then have "set kept = set names" by (simp add: kept_def)
    then show ?thesis using ks c(2) by simp
  next
    case False
    then show ?thesis by (simp add: sigs kept_def)
  qed
  show "quotaSignalRetentionRank n \<le> quotaSignalRetentionRank m"
    if "n \<in> keys sigs" "m \<in> fst ` offered provider hs - keys sigs"
  proof -
    have "?key n \<le> ?key m"
      using that take_sort_key_least [of n 64 ?key names m] by (simp add: ks c(2) kept_def)
    then show ?thesis by (auto simp: less_eq_prod_def)
  qed
qed

text \<open>
  C26: an observation replaces the snapshot by at most 64 distinct signals, each of
  them a header of the response that is a quota signal of the provider with a printable value,
  keeps signals of a better retention rank before any other, and never touches the cooldown
  fields; a response without such a header leaves the snapshot as it was.
\<close>

theorem quota_observation_sound:
  assumes "ProviderSupportsQuotaObservation provider"
  shows "let q' = fst (ObserveResponseHeadersForProvider clock provider headers now q);
             S = offered provider headers
         in cooldownFieldsOf q' = cooldownFieldsOf q
            \<and> (if S = {} then q' = q
               else q_ObservedAt q' = (if IsZero now then clock else now)
                 \<and> q_Signals q' \<noteq> [] \<and> distinct_keys (q_Signals q') \<and> length (q_Signals q') \<le> 64
                 \<and> set (q_Signals q') \<subseteq> S
                 \<and> (\<forall>n \<in> keys (q_Signals q'). \<forall>m \<in> fst ` S - keys (q_Signals q').
                      quotaSignalRetentionRank n \<le> quotaSignalRetentionRank m))"
proof -
  note spec = collectQuotaSignals_spec [where provider = provider and hs = headers]
  have empty: "offered provider headers = {} \<longleftrightarrow> collectQuotaSignals provider headers = []"
    using spec(3,4) by auto
  show ?thesis
  proof (cases "collectQuotaSignals provider headers = []")
    case True
    then show ?thesis using assms empty
      by (simp add: ObserveResponseHeadersForProvider_def)
  next
    case False
    then have q': "fst (ObserveResponseHeadersForProvider clock provider headers now q) =
        q\<lparr>q_Signals := collectQuotaSignals provider headers, q_ObservedAt := (if IsZero now then clock else now)\<rparr>"
      using assms by (simp add: ObserveResponseHeadersForProvider_def)
    have "\<forall>n \<in> keys (collectQuotaSignals provider headers).
        \<forall>m \<in> fst ` offered provider headers - keys (collectQuotaSignals provider headers).
          quotaSignalRetentionRank n \<le> quotaSignalRetentionRank m"
      using spec(5) by blast
    then show ?thesis using False empty spec(1,2,3)
      unfolding Let_def q' by (simp add: cooldownFieldsOf_def)
  qed
qed

definition exampleHeaders :: Header where
  "exampleHeaders = [(''retry-after'', [''30'']), (''content-type'', [''text/plain'']), (''X-Codex-Plan-Type'', ['' plus ''])]"

theorem quota_observation_sound_witness:
  "q_Signals (fst (ObserveResponseHeadersForProvider 9 ''codex'' exampleHeaders 5 zero_QuotaState)) =
     [(''Retry-After'', ''30''), (''X-Codex-Plan-Type'', ''plus'')]
   \<and> set [(''Retry-After'', ''30''), (''X-Codex-Plan-Type'', ''plus'')] \<subseteq> offered ''codex'' exampleHeaders"
proof -
  have p: "ProviderSupportsQuotaObservation ''codex''" by code_simp
  have s: "q_Signals (fst (ObserveResponseHeadersForProvider 9 ''codex'' exampleHeaders 5 zero_QuotaState)) =
     [(''Retry-After'', ''30''), (''X-Codex-Plan-Type'', ''plus'')]" by code_simp
  have "offered ''codex'' exampleHeaders \<noteq> {}"
    using quota_observation_sound [OF p, of 9 exampleHeaders 5 zero_QuotaState] s
    by (auto simp: Let_def split: if_splits)
  then show ?thesis
    using quota_observation_sound [OF p, of 9 exampleHeaders 5 zero_QuotaState] s by (simp add: Let_def)
qed

end
