(* ===== verification/Cooldown_State.thy ===== *)
theory Cooldown_State
  imports Availability Error_Class Quota_Signals
begin

text \<open>
  The cooldown state of a credential and of its models: the helpers of
  \<^verbatim>\<open>sdk/cliproxy/auth/conductor_cooldown.go\<close> (\<open>ensureModelState\<close>,
  \<open>normalizeModelStates\<close>, \<open>mergeModelState\<close>, \<open>updateAggregatedAvailability\<close>, the backoff
  ladder, \<open>applyAuthFailureState\<close>, \<open>clearCooldownStateForAuth\<close>) and of
  \<^verbatim>\<open>credential_recovery.go\<close>.

  A pointer to a \<open>ModelState\<close> lives in one map entry only, so a state is a value and an update
  through the pointer is an update of the entry. \<open>cloneError\<close> is the identity on values, and
  \<open>Round(0)\<close>, which strips the monotonic clock reading, is the identity on instants. The two
  process-wide switches and the runtime configuration are the fields of \<open>cooling_env\<close>.
\<close>

section \<open>Switches and configuration\<close>

record OpenAICompatibility =
  oc_Name :: string
  oc_Disabled :: bool
  oc_DisableCooling :: "bool option"

record cooling_config =
  cc_HomeEnabled :: bool
  cc_DisableCooling :: bool
  cc_OpenAICompatibility :: "OpenAICompatibility list"

record cooling_env =
  ce_cfg :: "cooling_config option"
  ce_quotaCooldownDisabled :: bool
  ce_transientErrorCooldownSeconds :: int
  ce_json :: json_env

definition claudeUpstreamOverloadedStatus :: int where "claudeUpstreamOverloadedStatus = 529"
definition quotaBackoffBase :: duration where "quotaBackoffBase = Second"
definition quotaBackoffMax :: duration where "quotaBackoffMax = 30 * Minute"
definition minQuotaCooldownFloor :: duration where "minQuotaCooldownFloor = 10 * Second"
definition transientErrorCooldown :: duration where "transientErrorCooldown = Minute"
definition unauthorizedCooldown :: duration where "unauthorizedCooldown = 30 * Minute"

lemmas cooldown_constants = quotaBackoffBase_def quotaBackoffMax_def minQuotaCooldownFloor_def
  transientErrorCooldown_def unauthorizedCooldown_def duration_defs

definition resolveOpenAICompatConfig ::
  "cooling_config option \<Rightarrow> string \<Rightarrow> string \<Rightarrow> string \<Rightarrow> OpenAICompatibility option" where
  "resolveOpenAICompatConfig cfg providerKey compatName authProvider =
     (case cfg of
        None \<Rightarrow> None
      | Some cfg \<Rightarrow>
          let candidates = filter (\<lambda>v. v \<noteq> []) (map TrimSpace [compatName, providerKey, authProvider])
          in List.find (\<lambda>compat. \<not> oc_Disabled compat
               \<and> list_ex (\<lambda>candidate. EqualFold (TrimSpace candidate) (oc_Name compat)) candidates)
             (cc_OpenAICompatibility cfg))"

definition providerCoolingOverrideForAuth :: "Auth \<Rightarrow> cooling_config option \<Rightarrow> bool option" where
  "providerCoolingOverrideForAuth auth cfg =
     (if cfg = None then None
      else
        let provider = ToLower (TrimSpace (a_Provider auth)) in
        if provider = [] then None
        else
          let providerKey = TrimSpace (get_str (a_Attributes auth) ''provider_key'');
              compatName = TrimSpace (get_str (a_Attributes auth) ''compat_name'')
          in if providerKey = [] \<and> compatName = [] \<and> provider \<noteq> ''openai-compatibility'' then None
             else
               case resolveOpenAICompatConfig cfg (if providerKey = [] then provider else providerKey) compatName provider of
                 None \<Rightarrow> None
               | Some entry \<Rightarrow> oc_DisableCooling entry)"

definition quotaCooldownDisabledForAuthWithConfig :: "cooling_env \<Rightarrow> Auth \<Rightarrow> bool" where
  "quotaCooldownDisabledForAuthWithConfig env auth =
     (let cfg = ce_cfg env in
      if (case cfg of Some c \<Rightarrow> cc_HomeEnabled c | None \<Rightarrow> False) then True
      else case DisableCoolingOverride auth of
        Some override \<Rightarrow> override
      | None \<Rightarrow>
          (case providerCoolingOverrideForAuth auth cfg of
             Some override \<Rightarrow> override
           | None \<Rightarrow>
               if (case cfg of Some c \<Rightarrow> cc_DisableCooling c | None \<Rightarrow> False) then True
               else ce_quotaCooldownDisabled env))"

definition recoverableFailureRetryAfterWithHint ::
  "cooling_env \<Rightarrow> time \<Rightarrow> duration option \<Rightarrow> bool \<Rightarrow> time" where
  "recoverableFailureRetryAfterWithHint env now retryAfter disableCooling =
     (if disableCooling then 0
      else
        let seconds = ce_transientErrorCooldownSeconds env in
        if seconds < 0 then 0
        else case (case retryAfter of Some d \<Rightarrow> if d > 0 then Some d else None | None \<Rightarrow> None) of
          Some d \<Rightarrow> now + d
        | None \<Rightarrow>
            if seconds = 0 then now + transientErrorCooldown
            else now + wrap64 (seconds * Second))"

definition recoverableFailureRetryAfter :: "cooling_env \<Rightarrow> time \<Rightarrow> bool \<Rightarrow> time" where
  "recoverableFailureRetryAfter env now disableCooling =
     recoverableFailureRetryAfterWithHint env now None disableCooling"

section \<open>The backoff ladder\<close>

text \<open>The shift \<open>1 << n\<close> of an \<open>int64\<close>.\<close>

definition shl64 :: "int \<Rightarrow> int" where
  "shl64 n = (if n \<ge> 64 then 0 else wrap64 (2 ^ nat n))"

definition nextQuotaCooldown :: "int \<Rightarrow> bool \<Rightarrow> duration \<times> int" where
  "nextQuotaCooldown prevLevel0 disableCooling =
     (let prevLevel = (if prevLevel0 < 0 then 0 else prevLevel0) in
      if disableCooling then (0, prevLevel)
      else
        let cooldown0 = wrap64 (quotaBackoffBase * shl64 prevLevel);
            cooldown = (if cooldown0 < quotaBackoffBase then quotaBackoffBase else cooldown0)
        in if cooldown \<ge> quotaBackoffMax then (quotaBackoffMax, prevLevel)
           else (cooldown, prevLevel + 1))"

definition nextCloudflareCooldown :: "int \<Rightarrow> bool \<Rightarrow> time \<Rightarrow> time \<times> int" where
  "nextCloudflareCooldown backoffLevel disableCooling now =
     (if disableCooling then (0, backoffLevel)
      else
        let (cooldown0, nextLevel) = nextQuotaCooldown backoffLevel disableCooling;
            cooldown = (if cooldown0 < 10 * Second then 10 * Second else cooldown0)
        in (if cooldown > 0 then now + cooldown else 0, nextLevel))"

definition quotaCooldownAfterFailure :: "QuotaState \<Rightarrow> time \<Rightarrow> time \<times> int" where
  "quotaCooldownAfterFailure quota now =
     (if q_NextRecoverAt quota > now then (q_NextRecoverAt quota, q_BackoffLevel quota)
      else
        let (cooldown, nextLevel) = nextQuotaCooldown (q_BackoffLevel quota) False
        in (if cooldown > 0 then now + cooldown else 0, nextLevel))"

section \<open>Model states\<close>

definition existingModelState :: "Auth \<Rightarrow> string \<Rightarrow> ModelState option" where
  "existingModelState auth model0 =
     (let model = canonicalModelKey model0 in
      if model = [] then None
      else case map_of (a_ModelStates auth) model of Some st \<Rightarrow> st | None \<Rightarrow> None)"

definition mergeStates :: "ModelState \<Rightarrow> ModelState \<Rightarrow> ModelState" where
  "mergeStates target source =
     (let (preferred, fallback) =
            (if ms_UpdatedAt source > ms_UpdatedAt target then (source, target) else (target, source));
          tq = ms_Quota target; sq = ms_Quota source;
          quota = mergeQuotaObservation (mergeQuotaObservation
            (zero_QuotaState\<lparr>q_Exceeded := q_Exceeded tq \<or> q_Exceeded sq,
               q_Reason := q_Reason (ms_Quota preferred),
               q_NextRecoverAt := q_NextRecoverAt tq, q_BackoffLevel := q_BackoffLevel tq\<rparr>)
            (ms_Quota fallback)) (ms_Quota preferred);
          quota = quota\<lparr>q_NextRecoverAt :=
                     (if q_NextRecoverAt sq > q_NextRecoverAt quota then q_NextRecoverAt sq else q_NextRecoverAt quota),
                   q_BackoffLevel :=
                     (if q_BackoffLevel sq > q_BackoffLevel quota then q_BackoffLevel sq else q_BackoffLevel quota),
                   q_Reason := (if q_Reason quota = [] then q_Reason (ms_Quota fallback) else q_Reason quota)\<rparr>;
          unavailable = (ms_Unavailable target \<or> ms_Unavailable source)
      in \<lparr>ms_Status =
            (if ms_Status target = StatusDisabled \<or> ms_Status source = StatusDisabled then StatusDisabled
             else if unavailable \<or> q_Exceeded quota then StatusError
             else ms_Status preferred),
          ms_StatusMessage =
            (if ms_StatusMessage preferred = [] then ms_StatusMessage fallback else ms_StatusMessage preferred),
          ms_Unavailable = unavailable,
          ms_NextRetryAfter =
            (if ms_NextRetryAfter source > ms_NextRetryAfter target then ms_NextRetryAfter source
             else ms_NextRetryAfter target),
          ms_NonUnauthorizedRetryAfter =
            (if ms_NonUnauthorizedRetryAfter source > ms_NonUnauthorizedRetryAfter target
             then ms_NonUnauthorizedRetryAfter source else ms_NonUnauthorizedRetryAfter target),
          ms_LastError =
            (case ms_LastError preferred of None \<Rightarrow> ms_LastError fallback | Some e \<Rightarrow> Some e),
          ms_Quota = quota,
          ms_UpdatedAt =
            (if ms_UpdatedAt source > ms_UpdatedAt target then ms_UpdatedAt source else ms_UpdatedAt target)\<rparr>)"

definition mergeModelState :: "ModelState option \<Rightarrow> ModelState option \<Rightarrow> ModelState option" where
  "mergeModelState target source =
     (case (target, source) of
        (None, _) \<Rightarrow> source
      | (Some t, None) \<Rightarrow> Some t
      | (Some t, Some s) \<Rightarrow> Some (mergeStates t s))"

text \<open>The key a state is filed under, and one round of the loop of \<open>normalizeModelStates\<close>.\<close>

definition stateKey :: "string \<Rightarrow> string" where
  "stateKey model = (let modelKey = canonicalModelKey model in if modelKey = [] then TrimSpace model else modelKey)"

definition normalizeStep ::
  "string \<times> ModelState option \<Rightarrow> (string, ModelState option) gomap \<times> bool \<Rightarrow> (string, ModelState option) gomap \<times> bool" where
  "normalizeStep entry acc =
     (case (entry, acc) of ((model, state), (normalized, changed)) \<Rightarrow>
        case map_of normalized (stateKey model) of
          Some existing \<Rightarrow> (AList.update (stateKey model) (mergeModelState existing state) normalized, True)
        | None \<Rightarrow> (AList.update (stateKey model) state normalized, changed \<or> stateKey model \<noteq> model))"

definition normalizeModelStates :: "Auth \<Rightarrow> Auth \<times> bool" where
  "normalizeModelStates auth =
     (if a_ModelStates auth = [] then (auth, False)
      else
        let (normalized, changed) = fold normalizeStep (a_ModelStates auth) ([], False)
        in if changed then (auth\<lparr>a_ModelStates := normalized\<rparr>, True) else (auth, False))"

text \<open>The state that \<open>ensureModelState\<close> returns a pointer to, with the credential it belongs to.\<close>

definition ensureModelState :: "Auth \<Rightarrow> string \<Rightarrow> (Auth \<times> ModelState) option" where
  "ensureModelState auth model0 =
     (let model = canonicalModelKey model0 in
      if model = [] then None
      else
        let auth1 = fst (normalizeModelStates auth) in
        case map_of (a_ModelStates auth1) model of
          Some (Some state) \<Rightarrow> Some (auth1, state)
        | _ \<Rightarrow>
            let state = zero_ModelState\<lparr>ms_Status := StatusActive\<rparr>
            in Some (auth1\<lparr>a_ModelStates := AList.update model (Some state) (a_ModelStates auth1)\<rparr>, state))"

definition putModelState :: "string \<Rightarrow> ModelState \<Rightarrow> Auth \<Rightarrow> Auth" where
  "putModelState model state auth =
     auth\<lparr>a_ModelStates := AList.update model (Some state) (a_ModelStates auth)\<rparr>"

definition resetModelState :: "time \<Rightarrow> ModelState \<Rightarrow> ModelState" where
  "resetModelState now state =
     state\<lparr>ms_Unavailable := False, ms_Status := StatusActive, ms_StatusMessage := [],
       ms_NextRetryAfter := 0, ms_NonUnauthorizedRetryAfter := 0, ms_LastError := None,
       ms_Quota := applyCooldownFields (ms_Quota state) zero_QuotaState, ms_UpdatedAt := now\<rparr>"

definition isModelStateActiveCooldown :: "ModelState option \<Rightarrow> time \<Rightarrow> bool" where
  "isModelStateActiveCooldown st now =
     (case st of
        None \<Rightarrow> False
      | Some state \<Rightarrow>
          if ms_Status state = StatusDisabled then True
          else if \<not> IsZero (ms_NextRetryAfter state) \<and> ms_NextRetryAfter state > now then True
          else if \<not> IsZero (q_NextRecoverAt (ms_Quota state)) \<and> q_NextRecoverAt (ms_Quota state) > now then True
          else q_Exceeded (ms_Quota state) \<and> IsZero (q_NextRecoverAt (ms_Quota state)))"

definition modelStateIsClean :: "ModelState option \<Rightarrow> bool" where
  "modelStateIsClean st =
     (case st of
        None \<Rightarrow> True
      | Some state \<Rightarrow>
          if ms_Status state \<noteq> StatusActive then False
          else if ms_Unavailable state \<or> ms_StatusMessage state \<noteq> [] \<or> \<not> IsZero (ms_NextRetryAfter state)
            \<or> ms_LastError state \<noteq> None then False
          else let q = ms_Quota state in
            \<not> (q_Exceeded q \<or> q_Reason q \<noteq> [] \<or> \<not> IsZero (q_NextRecoverAt q) \<or> q_BackoffLevel q \<noteq> 0))"

section \<open>Aggregated availability\<close>

text \<open>The accumulators of the loop of \<open>updateAggregatedAvailability\<close>.\<close>

record aggregate =
  ag_allUnavailable :: bool
  ag_earliestRetry :: time
  ag_quotaExceeded :: bool
  ag_quotaRecover :: time
  ag_maxBackoffLevel :: int
  ag_hasState :: bool

definition aggregate_start :: aggregate where
  "aggregate_start = \<lparr>ag_allUnavailable = True, ag_earliestRetry = 0, ag_quotaExceeded = False,
     ag_quotaRecover = 0, ag_maxBackoffLevel = 0, ag_hasState = False\<rparr>"

text \<open>A per-model block that has run out is lifted while the loop passes it.\<close>

definition stateUnavailable :: "time \<Rightarrow> ModelState \<Rightarrow> bool" where
  "stateUnavailable now state \<longleftrightarrow>
     ms_Status state = StatusDisabled \<or> (ms_Unavailable state \<and> \<not> IsZero (ms_NextRetryAfter state) \<and> ms_NextRetryAfter state > now)"

definition liftExpired :: "time \<Rightarrow> ModelState \<Rightarrow> ModelState" where
  "liftExpired now state =
     (if ms_Status state \<noteq> StatusDisabled \<and> ms_Unavailable state \<and> \<not> IsZero (ms_NextRetryAfter state)
         \<and> \<not> ms_NextRetryAfter state > now
      then state\<lparr>ms_Unavailable := False, ms_NextRetryAfter := 0\<rparr> else state)"

definition aggregateStep :: "time \<Rightarrow> ModelState \<Rightarrow> aggregate \<Rightarrow> aggregate" where
  "aggregateStep now state ag =
     (let q = ms_Quota state;
          retry = ms_NextRetryAfter state
      in \<lparr>ag_allUnavailable = (ag_allUnavailable ag \<and> stateUnavailable now state),
          ag_earliestRetry =
            (if ms_Status state \<noteq> StatusDisabled \<and> stateUnavailable now state
                \<and> (IsZero (ag_earliestRetry ag) \<or> retry < ag_earliestRetry ag)
             then retry else ag_earliestRetry ag),
          ag_quotaExceeded = (ag_quotaExceeded ag \<or> q_Exceeded q),
          ag_quotaRecover =
            (if q_Exceeded q \<and> (IsZero (ag_quotaRecover ag)
                \<or> (\<not> IsZero (q_NextRecoverAt q) \<and> q_NextRecoverAt q < ag_quotaRecover ag))
             then q_NextRecoverAt q else ag_quotaRecover ag),
          ag_maxBackoffLevel =
            (if q_Exceeded q \<and> q_BackoffLevel q > ag_maxBackoffLevel ag then q_BackoffLevel q else ag_maxBackoffLevel ag),
          ag_hasState = True\<rparr>)"

definition clearAggregatedAvailability :: "Auth \<Rightarrow> Auth" where
  "clearAggregatedAvailability auth =
     auth\<lparr>a_Unavailable := False, a_NextRetryAfter := 0,
       a_Quota := applyCooldownFields (a_Quota auth) zero_QuotaState\<rparr>"

definition modelStateList :: "Auth \<Rightarrow> ModelState list" where
  "modelStateList auth = List.map_filter snd (a_ModelStates auth)"

definition updateAggregatedAvailability :: "time \<Rightarrow> Auth \<Rightarrow> Auth" where
  "updateAggregatedAvailability now auth =
     (if credentialQuotaActive auth now then auth\<lparr>a_Unavailable := True\<rparr>
      else if a_ModelStates auth = [] then clearAggregatedAvailability auth
      else
        let ag = fold (aggregateStep now) (modelStateList auth) aggregate_start;
            auth1 = auth\<lparr>a_ModelStates := map (\<lambda>(model, st). (model, map_option (liftExpired now) st)) (a_ModelStates auth)\<rparr>
        in if \<not> ag_hasState ag then clearAggregatedAvailability auth1
           else
             let q = a_Quota auth1
             in auth1\<lparr>a_Unavailable := ag_allUnavailable ag,
                  a_NextRetryAfter := (if ag_allUnavailable ag then ag_earliestRetry ag else 0),
                  a_Quota :=
                    (if ag_quotaExceeded ag then
                       q\<lparr>q_Exceeded := True, q_Reason := ''quota'',
                         q_NextRecoverAt :=
                           (if q_NextRecoverAt q > ag_quotaRecover ag then q_NextRecoverAt q else ag_quotaRecover ag),
                         q_BackoffLevel := ag_maxBackoffLevel ag\<rparr>
                     else if q_Exceeded q \<and> q_NextRecoverAt q > now then q
                     else q\<lparr>q_Exceeded := False, q_Reason := [], q_NextRecoverAt := 0, q_BackoffLevel := 0\<rparr>)\<rparr>)"

definition hasModelError :: "Auth \<Rightarrow> time \<Rightarrow> bool" where
  "hasModelError auth now \<longleftrightarrow>
     list_ex (\<lambda>state. ms_LastError state \<noteq> None
       \<or> (ms_Status state = StatusError \<and> ms_Unavailable state
           \<and> (IsZero (ms_NextRetryAfter state) \<or> ms_NextRetryAfter state > now)))
       (modelStateList auth)"

definition clearAuthStateOnSuccess :: "time \<Rightarrow> Auth \<Rightarrow> Auth" where
  "clearAuthStateOnSuccess now auth =
     auth\<lparr>a_Unavailable := False, a_Status := StatusActive, a_StatusMessage := [],
       a_Quota := (a_Quota auth)\<lparr>q_Exceeded := False, q_Reason := [], q_NextRecoverAt := 0, q_BackoffLevel := 0\<rparr>,
       a_LastError := None, a_NextRetryAfter := 0, a_NonUnauthorizedRetryAfter := 0, a_UpdatedAt := now\<rparr>"

definition stateNeedsClear :: "bool \<Rightarrow> time \<Rightarrow> time \<Rightarrow> QuotaState \<Rightarrow> bool" where
  "stateNeedsClear unavailable nextRetry indep quota \<longleftrightarrow>
     unavailable \<or> \<not> IsZero nextRetry \<or> \<not> IsZero indep \<or> q_Exceeded quota \<or> \<not> IsZero (q_NextRecoverAt quota)"

definition clearModelCooldown :: "time \<Rightarrow> ModelState \<Rightarrow> ModelState" where
  "clearModelCooldown now state =
     (if stateNeedsClear (ms_Unavailable state) (ms_NextRetryAfter state) (ms_NonUnauthorizedRetryAfter state) (ms_Quota state)
      then state\<lparr>ms_Unavailable := False, ms_NextRetryAfter := 0, ms_NonUnauthorizedRetryAfter := 0,
             ms_Quota := applyCooldownFields (ms_Quota state) zero_QuotaState, ms_UpdatedAt := now\<rparr>
      else state)"

definition clearCooldownStateForAuth :: "time \<Rightarrow> Auth \<Rightarrow> Auth \<times> bool" where
  "clearCooldownStateForAuth now auth =
     (let authChanged = stateNeedsClear (a_Unavailable auth) (a_NextRetryAfter auth) (a_NonUnauthorizedRetryAfter auth) (a_Quota auth);
          auth1 = (if authChanged then
                     auth\<lparr>a_Unavailable := False, a_NextRetryAfter := 0, a_NonUnauthorizedRetryAfter := 0,
                       a_Quota := applyCooldownFields (a_Quota auth) zero_QuotaState, a_UpdatedAt := now\<rparr>
                   else auth);
          statesChanged = list_ex (\<lambda>state. stateNeedsClear (ms_Unavailable state) (ms_NextRetryAfter state)
                            (ms_NonUnauthorizedRetryAfter state) (ms_Quota state)) (modelStateList auth);
          auth2 = auth1\<lparr>a_ModelStates := map (\<lambda>(model, st). (model, map_option (clearModelCooldown now) st)) (a_ModelStates auth1)\<rparr>;
          auth3 = (if a_ModelStates auth2 \<noteq> [] then updateAggregatedAvailability now auth2 else auth2)
      in if authChanged \<or> statesChanged then
           (auth3\<lparr>a_availabilityEpoch := a_availabilityEpoch auth3 + 1, a_Generation := a_Generation auth3 + 1,
              a_UpdatedAt := now\<rparr>, True)
         else (auth3, False))"

section \<open>Failure of the credential as a whole\<close>

definition rememberIndependentCooldown :: "time \<Rightarrow> time \<Rightarrow> Error option \<Rightarrow> string \<Rightarrow> time" where
  "rememberIndependentCooldown previous next lastError message =
     (if IsZero next then 0
      else if \<not> isUnauthorizedState lastError message \<and> next > previous then next
      else previous)"

definition transientStatuses :: "int list" where
  "transientStatuses = [408, 500, 502, 503, 504, 520, 521, 522, 523, 524, 525, 526]"

text \<open>The deadline of a rate-limit failure: the announced delay, but no less than the floor.\<close>

definition announcedCooldown :: "time \<Rightarrow> duration \<Rightarrow> time" where
  "announcedCooldown now retryAfter =
     now + (if retryAfter < minQuotaCooldownFloor then minQuotaCooldownFloor else retryAfter)"

text \<open>
  The body of \<open>applyAuthFailureState\<close> between the entry guard and the deferred function. The
  first component tells whether the code fell through the \<open>switch\<close> to the forced cooldown.
\<close>

definition authFailureSwitch ::
  "cooling_env \<Rightarrow> Error option \<Rightarrow> duration option \<Rightarrow> time \<Rightarrow> bool \<Rightarrow> Auth \<Rightarrow> bool \<times> Auth" where
  "authFailureSwitch env resultErr retryAfter now disableCooling auth =
     (let statusCode = statusCodeFromResult resultErr;
          fixed = (\<lambda>message d a. a\<lparr>a_StatusMessage := message, a_NextRetryAfter := (if disableCooling then 0 else now + d)\<rparr>)
      in if isCloudflareChallengeResultError resultErr then
           let (next, backoffLevel) = nextCloudflareCooldown (q_BackoffLevel (a_Quota auth)) disableCooling now
           in (False, auth\<lparr>a_StatusMessage := ''cloudflare challenge'',
                a_Quota := applyCooldownFields (a_Quota auth)
                  (zero_QuotaState\<lparr>q_Exceeded := True, q_Reason := ''cloudflare challenge'',
                     q_NextRecoverAt := next, q_BackoffLevel := backoffLevel\<rparr>),
                a_NextRetryAfter := next\<rparr>)
         else if isInvalidGrantResultError resultErr then (False, fixed ''invalid_grant'' (30 * Minute) auth)
         else if statusCode = 401 then (True, fixed ''unauthorized'' unauthorizedCooldown auth)
         else if statusCode \<in> set [402, 403] then (True, fixed ''payment_required'' (30 * Minute) auth)
         else if statusCode = 404 then (True, fixed ''not_found'' (12 * Hour) auth)
         else if statusCode = 429 then
           let q = (a_Quota auth)\<lparr>q_Exceeded := True, q_Reason := ''quota''\<rparr>;
               (next, level) =
                 (if disableCooling then (0, q_BackoffLevel q)
                  else let (next, level) =
                         (case retryAfter of
                            Some d \<Rightarrow> (announcedCooldown now d, q_BackoffLevel q)
                          | None \<Rightarrow> quotaCooldownAfterFailure q now)
                       in (if q_NextRecoverAt q > next then q_NextRecoverAt q else next, level))
           in (True, auth\<lparr>a_StatusMessage := ''quota exhausted'',
                a_Quota := q\<lparr>q_NextRecoverAt := next, q_BackoffLevel := level\<rparr>, a_NextRetryAfter := next\<rparr>)
         else if statusCode = claudeUpstreamOverloadedStatus then
           let next = (case retryAfter of
                         Some d \<Rightarrow> if \<not> disableCooling then now + d else recoverableFailureRetryAfter env now disableCooling
                       | None \<Rightarrow> recoverableFailureRetryAfter env now disableCooling)
           in (True, auth\<lparr>a_StatusMessage := ''overloaded'', a_NextRetryAfter := next, a_Unavailable := \<not> IsZero next\<rparr>)
         else if statusCode \<in> set transientStatuses then
           let next = recoverableFailureRetryAfterWithHint env now retryAfter disableCooling
           in (True, auth\<lparr>a_StatusMessage := ''transient upstream error'', a_NextRetryAfter := next,
                a_Unavailable := \<not> IsZero next\<rparr>)
         else
           let next = recoverableFailureRetryAfter env now disableCooling
           in (True, auth\<lparr>a_StatusMessage := (if a_StatusMessage auth = [] then ''request failed'' else a_StatusMessage auth),
                a_NextRetryAfter := next, a_Unavailable := \<not> IsZero next\<rparr>))"

definition isForceCooldown :: "Error option \<Rightarrow> bool" where
  "isForceCooldown err = (case err of Some e \<Rightarrow> e_Code e = ErrorCodeForceCooldown | None \<Rightarrow> False)"

definition noteAuthFailure :: "time \<Rightarrow> Error option \<Rightarrow> Auth \<Rightarrow> Auth" where
  "noteAuthFailure now resultErr auth =
     (let auth1 = auth\<lparr>a_Unavailable := True, a_Status := StatusError, a_UpdatedAt := now\<rparr>
      in case resultErr of
           None \<Rightarrow> auth1
         | Some e \<Rightarrow> auth1\<lparr>a_LastError := resultErr,
             a_StatusMessage := (if e_Message e \<noteq> [] then e_Message e else a_StatusMessage auth1)\<rparr>)"

text \<open>The deferred function of \<open>applyAuthFailureState\<close>.\<close>

definition settleAuthFailure :: "time \<Rightarrow> bool \<Rightarrow> time \<Rightarrow> Auth \<Rightarrow> Auth" where
  "settleAuthFailure now disableCooling prevAuthRetryAfter auth =
     (let auth1 = auth\<lparr>a_NonUnauthorizedRetryAfter :=
                    rememberIndependentCooldown (a_NonUnauthorizedRetryAfter auth) (a_NextRetryAfter auth)
                      (a_LastError auth) (a_StatusMessage auth)\<rparr>;
          auth2 = (if \<not> IsZero (a_NextRetryAfter auth1) \<and> prevAuthRetryAfter > a_NextRetryAfter auth1
                       \<and> prevAuthRetryAfter > now
                   then auth1\<lparr>a_NextRetryAfter := prevAuthRetryAfter\<rparr> else auth1)
      in if disableCooling \<and> IsZero (a_NextRetryAfter auth2) \<and> IsZero (q_NextRecoverAt (a_Quota auth2))
         then auth2\<lparr>a_Unavailable := False, a_Quota := (a_Quota auth2)\<lparr>q_Exceeded := False\<rparr>\<rparr>
         else auth2)"

definition applyAuthFailureState ::
  "cooling_env \<Rightarrow> Error option \<Rightarrow> duration option \<Rightarrow> time \<Rightarrow> bool \<Rightarrow> Auth \<Rightarrow> Auth" where
  "applyAuthFailureState env resultErr retryAfter now disableCooling auth =
     (if shouldSkipCredentialCooldown (ce_json env) resultErr then auth
      else
        let (through, auth3) = authFailureSwitch env resultErr retryAfter now disableCooling (noteAuthFailure now resultErr auth);
            auth4 = (if through \<and> isForceCooldown resultErr \<and> IsZero (a_NextRetryAfter auth3)
                     then auth3\<lparr>a_NextRetryAfter := now + transientErrorCooldown, a_Unavailable := True\<rparr> else auth3)
        in settleAuthFailure now disableCooling (a_NextRetryAfter auth) auth4)"

section \<open>credential\_recovery.go\<close>

definition quotaStillActive :: "QuotaState \<Rightarrow> time \<Rightarrow> bool" where
  "quotaStillActive quota now \<longleftrightarrow>
     q_Exceeded quota \<and> (IsZero (q_NextRecoverAt quota) \<or> q_NextRecoverAt quota > now)"

definition preserveIncomingAuthCooldown :: "Auth \<Rightarrow> time \<Rightarrow> Auth \<Rightarrow> Auth" where
  "preserveIncomingAuthCooldown existing now incoming =
     (let incoming1 = (if a_NonUnauthorizedRetryAfter existing > a_NonUnauthorizedRetryAfter incoming
                       then incoming\<lparr>a_NonUnauthorizedRetryAfter := a_NonUnauthorizedRetryAfter existing\<rparr> else incoming);
          quotaActive = quotaStillActive (a_Quota existing) now;
          incoming2 = (if quotaActive \<and> (\<not> q_Exceeded (a_Quota incoming1) \<or> IsZero (q_NextRecoverAt (a_Quota existing))
                           \<or> q_NextRecoverAt (a_Quota existing) > q_NextRecoverAt (a_Quota incoming1))
                       then incoming1\<lparr>a_Quota := a_Quota existing\<rparr> else incoming1)
      in if a_Unavailable existing \<and> (a_NextRetryAfter existing > now \<or> quotaActive
             \<or> isUnauthorizedState (a_LastError existing) (a_StatusMessage existing))
         then
           let incoming3 = incoming2\<lparr>a_Unavailable := True,
                 a_NextRetryAfter := (if a_NextRetryAfter existing > a_NextRetryAfter incoming2
                                      then a_NextRetryAfter existing else a_NextRetryAfter incoming2)\<rparr>;
               incoming4 = (if a_LastError incoming3 = None then
                              incoming3\<lparr>a_LastError := a_LastError existing, a_StatusMessage := a_StatusMessage existing,
                                a_UpdatedAt := a_UpdatedAt existing\<rparr>
                            else incoming3)
           in incoming4\<lparr>a_Status := StatusError\<rparr>
         else incoming2)"

definition remainingUnauthorizedCooldown ::
  "time \<Rightarrow> time \<Rightarrow> time \<Rightarrow> QuotaState \<Rightarrow> time \<Rightarrow> time \<times> bool" where
  "remainingUnauthorizedCooldown next indep updatedAt quota now =
     (let r1 = (if indep > now then indep else 0);
          quotaActive = quotaStillActive quota now;
          r2 = (if quotaActive \<and> q_NextRecoverAt quota > r1 then q_NextRecoverAt quota else r1);
          r3 = (if IsZero indep \<and> \<not> IsZero updatedAt \<and> next > now \<and> next > updatedAt + unauthorizedCooldown
                    \<and> next > r2 then next else r2)
      in (r3, quotaActive \<or> r3 > now))"

definition clearUnauthorizedModelState :: "time \<Rightarrow> ModelState \<Rightarrow> ModelState" where
  "clearUnauthorizedModelState now state =
     (let (next, blocked) = remainingUnauthorizedCooldown (ms_NextRetryAfter state) (ms_NonUnauthorizedRetryAfter state)
            (ms_UpdatedAt state) (ms_Quota state) now;
          state1 = state\<lparr>ms_LastError := None, ms_StatusMessage := [], ms_Status := StatusActive,
                     ms_NextRetryAfter := next, ms_Unavailable := blocked, ms_UpdatedAt := now\<rparr>
      in if blocked then
           state1\<lparr>ms_Status := StatusError,
             ms_StatusMessage := (if q_Exceeded (ms_Quota state1) then q_Reason (ms_Quota state1) else ''cooldown'')\<rparr>
         else state1\<lparr>ms_Quota := applyCooldownFields (ms_Quota state1) zero_QuotaState\<rparr>)"

definition unauthorizedModelState :: "ModelState option \<Rightarrow> bool" where
  "unauthorizedModelState st =
     (case st of
        None \<Rightarrow> False
      | Some state \<Rightarrow> ms_Status state \<noteq> StatusDisabled \<and> isUnauthorizedState (ms_LastError state) (ms_StatusMessage state))"

definition clearUnauthorizedModelStates :: "time \<Rightarrow> Auth \<Rightarrow> Auth \<times> string list" where
  "clearUnauthorizedModelStates now auth =
     (if a_Disabled auth \<or> a_Status auth = StatusDisabled then (auth, [])
      else
        let changed = map fst (filter (\<lambda>(model, st). unauthorizedModelState st) (a_ModelStates auth));
            auth1 = auth\<lparr>a_ModelStates := map (\<lambda>(model, st).
                      (model, if unauthorizedModelState st then map_option (clearUnauthorizedModelState now) st else st))
                      (a_ModelStates auth)\<rparr>
        in if changed = [] then (auth1, changed)
           else
             let quota = a_Quota auth1; retry = a_NextRetryAfter auth1; unavailable = a_Unavailable auth1;
                 indep = (\<not> isUnauthorizedState (a_LastError auth1) (a_StatusMessage auth1) \<and> unavailable \<and> retry > now
                   \<and> \<not> list_ex (\<lambda>state. ms_LastError state \<noteq> None \<and> ms_LastError state = a_LastError auth1)
                        (modelStateList auth1));
                 auth2 = updateAggregatedAvailability now auth1;
                 auth3 = (if quotaStillActive quota now then auth2\<lparr>a_Quota := quota\<rparr> else auth2)
             in ((if indep then auth3\<lparr>a_NextRetryAfter := retry, a_Unavailable := unavailable\<rparr> else auth3), changed))"

definition clearUnauthorizedAuthState :: "time \<Rightarrow> Auth \<Rightarrow> Auth \<times> bool" where
  "clearUnauthorizedAuthState now auth =
     (if a_Disabled auth \<or> a_Status auth = StatusDisabled then (auth, False)
      else
        let unauthorized = isUnauthorizedState (a_LastError auth) (a_StatusMessage auth);
            (next, blocked) = remainingUnauthorizedCooldown (a_NextRetryAfter auth) (a_NonUnauthorizedRetryAfter auth)
              (a_UpdatedAt auth) (a_Quota auth) now;
            (auth1, models) = clearUnauthorizedModelStates now auth
        in if \<not> unauthorized then (auth1, models \<noteq> [])
           else
             let auth2 = auth1\<lparr>a_LastError := None, a_StatusMessage := [], a_Status := StatusActive\<rparr>;
                 auth3 =
                   (if a_ModelStates auth2 = [] then auth2\<lparr>a_NextRetryAfter := next, a_Unavailable := blocked\<rparr>
                    else
                      let auth3 = updateAggregatedAvailability now auth2
                      in if blocked \<and> (q_Reason (a_Quota auth3) = ''credential_quota'' \<or> a_Unavailable auth3)
                         then auth3\<lparr>a_Unavailable := True,
                                a_NextRetryAfter := (if next > a_NextRetryAfter auth3 then next else a_NextRetryAfter auth3)\<rparr>
                         else auth3)
             in ((if a_Unavailable auth3 \<or> hasModelError auth3 now
                  then auth3\<lparr>a_Status := StatusError,
                         a_StatusMessage := (if q_Exceeded (a_Quota auth3) then q_Reason (a_Quota auth3) else a_StatusMessage auth3)\<rparr>
                  else auth3), True))"

end
