(* ===== verification/Cooldown_Facts.thy ===== *)
theory Cooldown_Facts
  imports Cooldown_State
begin

text \<open>
  Facts about the cooldown state: the backoff ladder, the aggregation of the model states of a
  credential, and the well-formedness of a model state under which every cooldown has an end.
\<close>

section \<open>The backoff ladder\<close>

lemma nextQuotaCooldown_ladder:
  assumes "0 \<le> l" and "l \<le> 11"
  shows "nextQuotaCooldown l False = (min quotaBackoffMax (2 ^ nat l * Second), min 11 (l + 1))"
proof -
  have "l = 0 \<or> l = 1 \<or> l = 2 \<or> l = 3 \<or> l = 4 \<or> l = 5 \<or> l = 6 \<or> l = 7 \<or> l = 8 \<or> l = 9 \<or> l = 10 \<or> l = 11"
    using assms by arith
  then show ?thesis
    by (elim disjE) (simp_all add: nextQuotaCooldown_def shl64_def wrap64_def cooldown_constants)
qed

lemma nextQuotaCooldown_pos: "fst (nextQuotaCooldown l False) > 0"
  by (auto simp: nextQuotaCooldown_def Let_def cooldown_constants)

lemma quotaCooldownAfterFailure_later: "0 \<le> now \<Longrightarrow> fst (quotaCooldownAfterFailure q now) > now"
  using nextQuotaCooldown_pos [of "q_BackoffLevel q"]
  by (auto simp: quotaCooldownAfterFailure_def split: prod.splits)

lemma nextCloudflareCooldown_later: "0 \<le> now \<Longrightarrow> fst (nextCloudflareCooldown l False now) \<ge> now + 10 * Second"
  by (auto simp: nextCloudflareCooldown_def Second_def split: prod.splits)

text \<open>
  C25: the quota backoff climbs a ladder of eleven rungs. A rate-limit failure inside an
  open window reuses the window and does not climb, so a burst of failures climbs once; a
  failure after the window opens one of \<open>min 30min 2^level\<close> seconds and climbs by one, up to
  level 11. On this ladder the shift of the source never overflows.
\<close>

theorem quota_backoff_ladder:
  assumes "0 \<le> q_BackoffLevel q" and "q_BackoffLevel q \<le> 11"
  shows "quotaCooldownAfterFailure q now =
      (if q_NextRecoverAt q > now then (q_NextRecoverAt q, q_BackoffLevel q)
       else (now + min quotaBackoffMax (2 ^ nat (q_BackoffLevel q) * Second), min 11 (q_BackoffLevel q + 1)))
    \<and> 0 \<le> snd (quotaCooldownAfterFailure q now) \<and> snd (quotaCooldownAfterFailure q now) \<le> 11"
proof -
  have "0 < min quotaBackoffMax (2 ^ nat (q_BackoffLevel q) * Second)" by (simp add: cooldown_constants)
  then show ?thesis
    using nextQuotaCooldown_ladder [OF assms] assms by (simp add: quotaCooldownAfterFailure_def)
qed

theorem quota_backoff_ladder_witness:
  "quotaCooldownAfterFailure (zero_QuotaState\<lparr>q_BackoffLevel := 10\<rparr>) 5 = (5 + 1024 * Second, 11)"
  using quota_backoff_ladder [of "zero_QuotaState\<lparr>q_BackoffLevel := 10\<rparr>" 5]
  by (simp add: cooldown_constants)

text \<open>Off the ladder the shift wraps: a restored level of 64 falls back to one second.\<close>

lemma nextQuotaCooldown_wraps: "nextQuotaCooldown 64 False = (1000000000, 65)"
  by (simp add: nextQuotaCooldown_def shl64_def wrap64_def cooldown_constants)

section \<open>Well-formed model states\<close>

text \<open>Every block of the state carries the time at which it ends.\<close>

definition state_ok :: "ModelState \<Rightarrow> bool" where
  "state_ok st \<longleftrightarrow>
     0 \<le> ms_NextRetryAfter st \<and> 0 \<le> q_NextRecoverAt (ms_Quota st)
     \<and> (q_Exceeded (ms_Quota st) \<longleftrightarrow> q_NextRecoverAt (ms_Quota st) \<noteq> 0)
     \<and> (ms_Unavailable st \<longrightarrow> ms_NextRetryAfter st \<noteq> 0 \<or> q_NextRecoverAt (ms_Quota st) \<noteq> 0)"

definition states_ok :: "Auth \<Rightarrow> bool" where
  "states_ok auth \<longleftrightarrow> (\<forall>st \<in> set (modelStateList auth). state_ok st)"

lemma set_modelStateList: "set (modelStateList auth) = {st. \<exists>k. (k, Some st) \<in> set (a_ModelStates auth)}"
  unfolding modelStateList_def map_filter_def by (force simp: image_iff)

lemma states_okI: "(\<And>k st. (k, Some st) \<in> set (a_ModelStates auth) \<Longrightarrow> state_ok st) \<Longrightarrow> states_ok auth"
  by (auto simp: states_ok_def set_modelStateList)

lemma states_okD: "states_ok auth \<Longrightarrow> (k, Some st) \<in> set (a_ModelStates auth) \<Longrightarrow> state_ok st"
  by (auto simp: states_ok_def set_modelStateList)

lemma state_ok_reset: "state_ok (resetModelState now st)"
  by (simp add: state_ok_def resetModelState_def)

lemma state_ok_fresh: "state_ok (zero_ModelState\<lparr>ms_Status := s\<rparr>)"
  by (simp add: state_ok_def zero_ModelState_def)

lemma state_ok_liftExpired: "state_ok st \<Longrightarrow> state_ok (liftExpired now st)"
  by (auto simp: state_ok_def liftExpired_def)

lemma state_ok_clearModelCooldown: "state_ok st \<Longrightarrow> state_ok (clearModelCooldown now st)"
  by (auto simp: state_ok_def clearModelCooldown_def)

lemma remainingUnauthorizedCooldown_nonneg:
  "0 \<le> now \<Longrightarrow> 0 \<le> q_NextRecoverAt q \<Longrightarrow> 0 \<le> fst (remainingUnauthorizedCooldown n i u q now)"
  by (auto simp: remainingUnauthorizedCooldown_def Let_def)

lemma state_ok_clearUnauthorized:
  assumes "0 \<le> now" and "state_ok st"
  shows "state_ok (clearUnauthorizedModelState now st)"
proof -
  obtain n b where nb: "remainingUnauthorizedCooldown (ms_NextRetryAfter st) (ms_NonUnauthorizedRetryAfter st)
      (ms_UpdatedAt st) (ms_Quota st) now = (n, b)" by fastforce
  have n0: "0 \<le> n"
    using remainingUnauthorizedCooldown_nonneg [OF assms(1), of "ms_Quota st"] assms(2) nb
    by (metis fst_conv state_ok_def)
  have "n \<noteq> 0 \<or> q_NextRecoverAt (ms_Quota st) \<noteq> 0" if b
  proof -
    from that nb have "quotaStillActive (ms_Quota st) now \<or> n > now"
      by (auto simp: remainingUnauthorizedCooldown_def Let_def)
    then show ?thesis using assms by (auto simp: quotaStillActive_def state_ok_def)
  qed
  with n0 assms(2) show ?thesis
    by (auto simp: clearUnauthorizedModelState_def nb state_ok_def Let_def)
qed

lemma modelAvailabilityBlock_ok_state:
  assumes "0 \<le> now" and "state_ok st"
  shows "fst (modelAvailabilityBlock st now) \<longleftrightarrow> snd (snd (modelAvailabilityBlock st now)) \<noteq> 0"
    and "snd (snd (modelAvailabilityBlock st now)) =
      (if ms_Unavailable st \<or> q_Exceeded (ms_Quota st)
       then max (after now (ms_NextRetryAfter st)) (after now (q_NextRecoverAt (ms_Quota st))) else 0)"
  using assms
  by (auto simp: modelAvailabilityBlock_def availabilityBlock_eq upgradeReason_def no_block_def after_def state_ok_def)

lemma hardBlocked_ok: "0 \<le> now \<Longrightarrow> state_ok st \<Longrightarrow> hardBlocked now st \<longleftrightarrow> ms_Status st = StatusDisabled"
  using modelAvailabilityBlock_ok_state [of now st] by (auto simp: hardBlocked_def)

lemma stateDeadline_ok_state:
  "0 \<le> now \<Longrightarrow> state_ok st \<Longrightarrow> stateDeadline now st =
     (if ms_Unavailable st \<or> q_Exceeded (ms_Quota st)
      then max (after now (ms_NextRetryAfter st)) (after now (q_NextRecoverAt (ms_Quota st))) else 0)"
  unfolding stateDeadline_def by (rule modelAvailabilityBlock_ok_state(2))

text \<open>A block lifted by the aggregation was over.\<close>

lemma stateDeadline_liftExpired:
  assumes "0 \<le> now" and "now \<le> t" and "state_ok st"
  shows "stateDeadline t (liftExpired now st) = stateDeadline t st"
proof -
  have "q_Exceeded (ms_Quota st) \<longleftrightarrow> q_NextRecoverAt (ms_Quota st) \<noteq> 0" using assms(3) by (simp add: state_ok_def)
  then show ?thesis
    using assms state_ok_liftExpired [OF assms(3), of now]
    by (auto simp: stateDeadline_ok_state liftExpired_def after_def)
qed

section \<open>Aggregated availability\<close>

abbreviation mapStates :: "(ModelState \<Rightarrow> ModelState) \<Rightarrow> (string, ModelState option) gomap \<Rightarrow> (string, ModelState option) gomap" where
  "mapStates f m \<equiv> map (\<lambda>(model, st). (model, map_option f st)) m"

lemma matchStates_mapStates: "matchStates k (mapStates f m) = f ` matchStates k m"
proof (induction m)
  case (Cons a m)
  then show ?case by (cases a; cases "snd a") auto
qed simp

text \<open>A map over the states that keeps what blocks them keeps what blocks the models.\<close>

lemma model_result_mapStates:
  assumes "0 \<le> t" and "a_ModelStates auth' = mapStates f (a_ModelStates auth)"
    and "\<forall>st \<in> set (modelStateList auth). hardBlocked t (f st) = hardBlocked t st \<and> stateDeadline t (f st) = stateDeadline t st"
  shows "fst (model_result auth' model t) = fst (model_result auth model t)"
    and "snd (snd (model_result auth' model t)) = snd (snd (model_result auth model t))"
proof -
  let ?S = "matchStates (canonicalModelKey model) (a_ModelStates auth)"
  have sub: "?S \<subseteq> set (modelStateList auth)" by (auto simp: matchStates_def set_modelStateList)
  have S': "matchStates (canonicalModelKey model) (a_ModelStates auth') = f ` ?S"
    by (simp add: assms(2) matchStates_mapStates)
  have e: "hardBlocked t (f st) = hardBlocked t st" "stateDeadline t (f st) = stateDeadline t st" if "st \<in> ?S" for st
    using that sub assms(3) by blast+
  have dl: "stateDeadline t ` f ` ?S = stateDeadline t ` ?S"
    by (simp add: image_image e cong: image_cong)
  have h: "(\<exists>st \<in> f ` ?S. hardBlocked t st) \<longleftrightarrow> (\<exists>st \<in> ?S. hardBlocked t st)" by (simp add: e cong: bex_cong)
  have b: "(\<exists>st \<in> f ` ?S. hardBlocked t st \<or> stateDeadline t st \<noteq> 0)
      \<longleftrightarrow> (\<exists>st \<in> ?S. hardBlocked t st \<or> stateDeadline t st \<noteq> 0)" by (simp add: e cong: bex_cong)
  show "fst (model_result auth' model t) = fst (model_result auth model t)"
    by (simp only: model_result_spec(1) [OF assms(1)] S' b)
  show "snd (snd (model_result auth' model t)) = snd (snd (model_result auth model t))"
    by (simp only: model_result_spec(2) [OF assms(1)] S' h latestDeadline_def dl)
qed

lemma states_ok_mapStates:
  "a_ModelStates auth' = mapStates f (a_ModelStates auth) \<Longrightarrow>
   \<forall>st \<in> set (modelStateList auth). state_ok (f st) \<Longrightarrow> states_ok auth'"
  by (rule states_okI) (auto simp: set_modelStateList dest!: sym [of "Some _"])

lemma liftExpired_blocks:
  assumes "0 \<le> now" and "now \<le> t" and "state_ok st"
  shows "hardBlocked t (liftExpired now st) = hardBlocked t st \<and> stateDeadline t (liftExpired now st) = stateDeadline t st"
  using assms stateDeadline_liftExpired [OF assms]
    hardBlocked_ok [of t "liftExpired now st"] hardBlocked_ok [of t st] state_ok_liftExpired [OF assms(3), of now]
  by (simp add: liftExpired_def)

text \<open>What the loop has gathered from a list of states.\<close>

lemma fold_aggregateStep:
  fixes now xs
  defines "ag \<equiv> fold (aggregateStep now) xs aggregate_start"
  shows "ag_hasState ag \<longleftrightarrow> xs \<noteq> []"
    and "ag_allUnavailable ag \<longleftrightarrow> (\<forall>st \<in> set xs. stateUnavailable now st)"
    and "ag_quotaExceeded ag \<longleftrightarrow> (\<exists>st \<in> set xs. q_Exceeded (ms_Quota st))"
    and "0 \<le> ag_maxBackoffLevel ag"
    and "\<forall>st \<in> set xs. q_Exceeded (ms_Quota st) \<longrightarrow> q_BackoffLevel (ms_Quota st) \<le> ag_maxBackoffLevel ag"
  unfolding ag_def
  by (induction xs rule: rev_induct) (auto simp: aggregate_start_def aggregateStep_def Let_def)

definition timedStates :: "time \<Rightarrow> ModelState list \<Rightarrow> ModelState list" where
  "timedStates now xs = filter (\<lambda>st. ms_Status st \<noteq> StatusDisabled \<and> stateUnavailable now st) xs"

lemma aggregateStep_earliest:
  "ag_earliestRetry (aggregateStep now st ag) =
     (if ms_Status st \<noteq> StatusDisabled \<and> stateUnavailable now st
         \<and> (IsZero (ag_earliestRetry ag) \<or> ms_NextRetryAfter st < ag_earliestRetry ag)
      then ms_NextRetryAfter st else ag_earliestRetry ag)"
  by (simp add: aggregateStep_def Let_def)

lemma fold_aggregateStep_earliest:
  assumes "0 \<le> now"
  shows "ag_earliestRetry (fold (aggregateStep now) xs aggregate_start) =
    (if timedStates now xs = [] then 0 else Min (ms_NextRetryAfter ` set (timedStates now xs)))"
proof (induction xs rule: rev_induct)
  case Nil
  then show ?case by (simp add: aggregate_start_def timedStates_def)
next
  case (snoc st xs)
  let ?T = "ms_NextRetryAfter ` set (timedStates now xs)"
  have pos: "Min ?T \<noteq> 0" if "timedStates now xs \<noteq> []"
  proof -
    have "Min ?T \<in> ?T" using that by (intro Min_in) auto
    then show ?thesis using assms by (auto simp: timedStates_def stateUnavailable_def)
  qed
  show ?case
  proof (cases "ms_Status st \<noteq> StatusDisabled \<and> stateUnavailable now st")
    case True
    then have ts: "timedStates now (xs @ [st]) = timedStates now xs @ [st]" by (simp add: timedStates_def)
    have ag: "ag_earliestRetry (fold (aggregateStep now) (xs @ [st]) aggregate_start) =
        (if timedStates now xs = [] \<or> ms_NextRetryAfter st < Min ?T then ms_NextRetryAfter st else Min ?T)"
      using True pos unfolding aggregateStep_earliest fold_append comp_apply fold_simps id_apply snoc.IH
      by (cases "timedStates now xs = []") simp_all
    show ?thesis
    proof (cases "timedStates now xs = []")
      case False
      have lt: "(if False \<or> a < b then a else b) = min a b" for a b :: int by simp
      have "Min (insert (ms_NextRetryAfter st) ?T) = min (ms_NextRetryAfter st) (Min ?T)"
        using False by (simp add: Min_insert)
      moreover have "(timedStates now xs = []) = False" using False by simp
      ultimately show ?thesis unfolding ag ts by (simp only: lt) simp
    next
      case True
      then show ?thesis unfolding ag ts by simp
    qed
  next
    case False
    then have "timedStates now (xs @ [st]) = timedStates now xs" by (auto simp: timedStates_def)
    moreover have "ag_earliestRetry (aggregateStep now st ag) = ag_earliestRetry ag" for ag
      using False by (auto simp: aggregateStep_earliest)
    ultimately show ?thesis by (simp add: snoc.IH)
  qed
qed

lemma updateAggregatedAvailability_states:
  "a_ModelStates (updateAggregatedAvailability now auth) =
     (if credentialQuotaActive auth now then a_ModelStates auth else mapStates (liftExpired now) (a_ModelStates auth))"
  by (simp add: updateAggregatedAvailability_def clearAggregatedAvailability_def Let_def)

lemma updateAggregatedAvailability_frame [simp]:
  "a_Disabled (updateAggregatedAvailability now auth) = a_Disabled auth"
  "a_Status (updateAggregatedAvailability now auth) = a_Status auth"
  "a_ID (updateAggregatedAvailability now auth) = a_ID auth"
  "a_Attributes (updateAggregatedAvailability now auth) = a_Attributes auth"
  "a_Metadata (updateAggregatedAvailability now auth) = a_Metadata auth"
  by (simp_all add: updateAggregatedAvailability_def clearAggregatedAvailability_def Let_def)

lemma credentialQuotaActive_updateAggregated:
  "now \<le> t \<Longrightarrow> credentialQuotaActive (updateAggregatedAvailability now auth) t \<longleftrightarrow> credentialQuotaActive auth t"
  by (auto simp: updateAggregatedAvailability_def clearAggregatedAvailability_def credentialQuotaActive_def Let_def)

text \<open>
  C20: the aggregate of a credential without a live credential-wide quota is exact and
  independent of the iteration order: it is unavailable exactly when it has model states and
  all of them are disabled or cooling, its retry time is then the earliest deadline of a
  cooling model, its quota is exceeded when a model's is, and the pass that lifts expired
  blocks changes for no model whether or until when it is blocked.
\<close>

theorem aggregate_exact:
  assumes "0 \<le> now" and "\<not> credentialQuotaActive auth now" and "states_ok auth"
  shows "let auth' = updateAggregatedAvailability now auth;
             S = set (modelStateList auth);
             timed = {st \<in> S. ms_Status st \<noteq> StatusDisabled \<and> stateUnavailable now st}
         in (a_Unavailable auth' \<longleftrightarrow> S \<noteq> {} \<and> (\<forall>st \<in> S. stateUnavailable now st))
            \<and> a_NextRetryAfter auth' =
                (if a_Unavailable auth' \<and> timed \<noteq> {} then Min (ms_NextRetryAfter ` timed) else 0)
            \<and> ((\<exists>st \<in> S. q_Exceeded (ms_Quota st)) \<longrightarrow>
                 q_Exceeded (a_Quota auth') \<and> q_Reason (a_Quota auth') = ''quota''
                 \<and> (\<forall>st \<in> S. q_Exceeded (ms_Quota st) \<longrightarrow>
                      q_BackoffLevel (ms_Quota st) \<le> q_BackoffLevel (a_Quota auth')))
            \<and> states_ok auth'
            \<and> (\<forall>model t. now \<le> t \<longrightarrow>
                 fst (model_result auth' model t) = fst (model_result auth model t)
                 \<and> snd (snd (model_result auth' model t)) = snd (snd (model_result auth model t)))"
proof -
  let ?auth' = "updateAggregatedAvailability now auth" and ?xs = "modelStateList auth"
  note ag = fold_aggregateStep [where now = now and xs = ?xs]
  have T: "set (timedStates now ?xs) = {st \<in> set ?xs. ms_Status st \<noteq> StatusDisabled \<and> stateUnavailable now st}"
    "timedStates now ?xs = [] \<longleftrightarrow> {st \<in> set ?xs. ms_Status st \<noteq> StatusDisabled \<and> stateUnavailable now st} = {}"
    by (auto simp: timedStates_def filter_empty_conv)
  have empty: "a_ModelStates auth = [] \<Longrightarrow> ?xs = []" by (simp add: modelStateList_def map_filter_def)
  have st: "a_ModelStates ?auth' = mapStates (liftExpired now) (a_ModelStates auth)"
    using assms(2) by (simp add: updateAggregatedAvailability_states)
  have u: "a_Unavailable ?auth' \<longleftrightarrow> set ?xs \<noteq> {} \<and> (\<forall>st \<in> set ?xs. stateUnavailable now st)"
    using assms(2) ag(1,2) empty by (auto simp: updateAggregatedAvailability_def clearAggregatedAvailability_def Let_def)
  have r: "a_NextRetryAfter ?auth' =
      (if a_Unavailable ?auth' \<and> timedStates now ?xs \<noteq> [] then Min (ms_NextRetryAfter ` set (timedStates now ?xs)) else 0)"
    using assms(2) ag(1) fold_aggregateStep_earliest [OF assms(1), of ?xs] empty
    by (simp add: updateAggregatedAvailability_def clearAggregatedAvailability_def Let_def)
  have q: "q_Exceeded (a_Quota ?auth') \<and> q_Reason (a_Quota ?auth') = ''quota''
      \<and> (\<forall>st \<in> set ?xs. q_Exceeded (ms_Quota st) \<longrightarrow> q_BackoffLevel (ms_Quota st) \<le> q_BackoffLevel (a_Quota ?auth'))"
    if "\<exists>st \<in> set ?xs. q_Exceeded (ms_Quota st)"
    using that assms(2) ag(1,3,5) empty by (auto simp: updateAggregatedAvailability_def Let_def)
  have ok: "states_ok ?auth'"
    using states_ok_mapStates [OF st] assms(3) state_ok_liftExpired by (simp add: states_ok_def)
  have "\<forall>st \<in> set ?xs. hardBlocked t (liftExpired now st) = hardBlocked t st
      \<and> stateDeadline t (liftExpired now st) = stateDeadline t st" if "now \<le> t" for t
    using liftExpired_blocks [OF assms(1) that] assms(3) by (auto simp: states_ok_def)
  then have m: "fst (model_result ?auth' model t) = fst (model_result auth model t)
      \<and> snd (snd (model_result ?auth' model t)) = snd (snd (model_result auth model t))" if "now \<le> t" for model t
    using model_result_mapStates [OF _ st, of t] that assms(1) by simp
  show ?thesis unfolding Let_def using u r [unfolded T] q ok m by blast
qed

definition exampleCoolingState :: "time \<Rightarrow> ModelState" where
  "exampleCoolingState t = zero_ModelState\<lparr>ms_Status := StatusError, ms_Unavailable := True, ms_NextRetryAfter := t\<rparr>"

definition exampleTwoModels :: Auth where
  "exampleTwoModels = zero_Auth\<lparr>a_ID := ''a'', a_Status := StatusActive,
     a_ModelStates := [(''m1'', Some (exampleCoolingState 50)), (''m2'', Some (exampleCoolingState 40))]\<rparr>"

theorem aggregate_exact_witness:
  "a_Unavailable (updateAggregatedAvailability 10 exampleTwoModels)
   \<and> a_NextRetryAfter (updateAggregatedAvailability 10 exampleTwoModels) = 40
   \<and> states_ok (updateAggregatedAvailability 10 exampleTwoModels)"
proof -
  have ok: "states_ok exampleTwoModels"
    by (simp add: states_ok_def modelStateList_def map_filter_def exampleTwoModels_def exampleCoolingState_def state_ok_def
        zero_ModelState_def)
  have nq: "\<not> credentialQuotaActive exampleTwoModels 10"
    by (simp add: credentialQuotaActive_def exampleTwoModels_def zero_Auth_def)
  have "states_ok (updateAggregatedAvailability 10 exampleTwoModels)"
    using aggregate_exact [OF _ nq ok] by (simp add: Let_def)
  moreover have "a_Unavailable (updateAggregatedAvailability 10 exampleTwoModels)"
    "a_NextRetryAfter (updateAggregatedAvailability 10 exampleTwoModels) = 40" by code_simp+
  ultimately show ?thesis by blast
qed

section \<open>Merging model states\<close>

text \<open>A state that blocks at least as much, for at least as long.\<close>

definition covers :: "ModelState \<Rightarrow> ModelState \<Rightarrow> bool" where
  "covers st' st \<longleftrightarrow>
     (ms_Status st = StatusDisabled \<longrightarrow> ms_Status st' = StatusDisabled)
     \<and> (ms_Unavailable st \<longrightarrow> ms_Unavailable st')
     \<and> ms_NextRetryAfter st \<le> ms_NextRetryAfter st'
     \<and> (q_Exceeded (ms_Quota st) \<longrightarrow> q_Exceeded (ms_Quota st'))
     \<and> q_NextRecoverAt (ms_Quota st) \<le> q_NextRecoverAt (ms_Quota st')
     \<and> q_BackoffLevel (ms_Quota st) \<le> q_BackoffLevel (ms_Quota st')"

lemma covers_refl [simp]: "covers st st"
  by (simp add: covers_def)

lemma covers_trans: "covers a b \<Longrightarrow> covers b c \<Longrightarrow> covers a c"
  by (auto simp: covers_def)

lemma mergeStates_covers: "covers (mergeStates t s) t" "covers (mergeStates t s) s"
  by (simp_all add: covers_def mergeStates_def Let_def case_prod_beta)

lemma mergeStates_ok: "state_ok t \<Longrightarrow> state_ok s \<Longrightarrow> state_ok (mergeStates t s)"
  by (auto simp: state_ok_def mergeStates_def Let_def case_prod_beta)

lemma mergeModelState_covers:
  "t = Some st \<or> s = Some st \<Longrightarrow> \<exists>st'. mergeModelState t s = Some st' \<and> covers st' st"
  by (auto simp: mergeModelState_def mergeStates_covers split: option.splits)

text \<open>What the loop of \<open>normalizeModelStates\<close> has filed so far.\<close>

definition filed :: "(string, ModelState option) gomap \<Rightarrow> (string, ModelState option) gomap \<times> bool \<Rightarrow> bool" where
  "filed done acc \<longleftrightarrow>
     distinct_keys (fst acc) \<and> keys (fst acc) = stateKey ` keys done
     \<and> (\<forall>k st. (k, Some st) \<in> set done \<longrightarrow>
          (\<exists>st'. map_of (fst acc) (stateKey k) = Some (Some st') \<and> covers st' st))
     \<and> ((\<forall>k st. (k, Some st) \<in> set done \<longrightarrow> state_ok st) \<longrightarrow> (\<forall>k st. (k, Some st) \<in> set (fst acc) \<longrightarrow> state_ok st))
     \<and> (\<not> snd acc \<longrightarrow> (\<forall>k \<in> keys done. stateKey k = k))"

lemma normalizeStep_filed:
  assumes "filed m acc"
  shows "filed (m @ [(model, state)]) (normalizeStep (model, state) acc)"
proof -
  obtain n c where acc: "acc = (n, c)" by (cases acc)
  have d: "distinct_keys n" using assms by (simp add: filed_def acc)
  have keep: "\<exists>st'. map_of n (stateKey k) = Some (Some st') \<and> covers st' st" if "(k, Some st) \<in> set m" for k st
    using assms that unfolding filed_def acc fst_conv by blast
  define v where "v = (case map_of n (stateKey model) of Some e \<Rightarrow> mergeModelState e state | None \<Rightarrow> state)"
  have step: "fst (normalizeStep (model, state) acc) = AList.update (stateKey model) v n"
    "\<not> snd (normalizeStep (model, state) acc) \<Longrightarrow> stateKey model = model \<and> \<not> c"
    by (auto simp: normalizeStep_def acc v_def split: option.splits)
  have cov: "\<exists>st'. map_of (AList.update (stateKey model) v n) (stateKey k) = Some (Some st') \<and> covers st' st"
    if "(k, Some st) \<in> set (m @ [(model, state)])" for k st
  proof (cases "(k, Some st) \<in> set m")
    case True
    from keep [OF this] obtain st' where st': "map_of n (stateKey k) = Some (Some st')" "covers st' st" by blast
    show ?thesis
    proof (cases "stateKey k = stateKey model")
      case True
      then obtain st'' where "v = Some st''" "covers st'' st'"
        using mergeModelState_covers [of "Some st'" st' state] st'(1) by (auto simp: v_def)
      then show ?thesis using True st'(2) covers_trans by auto
    next
      case False
      then show ?thesis using st' by auto
    qed
  next
    case False
    with that have "k = model" "state = Some st" by auto
    then show ?thesis
      using mergeModelState_covers [of "the (map_of n (stateKey model))" st state]
      by (cases "map_of n (stateKey model)") (auto simp: v_def)
  qed
  have ok': "\<forall>k st. (k, Some st) \<in> set (AList.update (stateKey model) v n) \<longrightarrow> state_ok st"
    if ok: "\<forall>k st. (k, Some st) \<in> set (m @ [(model, state)]) \<longrightarrow> state_ok st"
  proof (intro allI impI)
    fix k st
    assume "(k, Some st) \<in> set (AList.update (stateKey model) v n)"
    have n_ok: "(k, Some st) \<in> set n \<Longrightarrow> state_ok st" for k st
    proof -
      assume "(k, Some st) \<in> set n"
      moreover have "\<forall>k st. (k, Some st) \<in> set m \<longrightarrow> state_ok st" using ok by simp
      ultimately show "state_ok st" using assms unfolding filed_def acc fst_conv by blast
    qed
    from \<open>(k, Some st) \<in> _\<close> consider "v = Some st" | "(k, Some st) \<in> set n"
      unfolding set_update_distinct [OF d] by auto
    then show "state_ok st"
    proof cases
      case 1
      have "map_of n (stateKey model) = Some (Some e) \<Longrightarrow> state_ok e" for e using n_ok map_of_SomeD by metis
      moreover have "state = Some s \<Longrightarrow> state_ok s" for s using ok by auto
      ultimately show ?thesis using 1
        by (auto simp: v_def mergeModelState_def intro: mergeStates_ok split: option.splits)
    next
      case 2
      then show ?thesis by (rule n_ok)
    qed
  qed
  have ks: "keys n = stateKey ` keys m" and un: "\<not> c \<Longrightarrow> \<forall>k \<in> keys m. stateKey k = k"
    using assms unfolding filed_def acc fst_conv snd_conv by blast+
  show ?thesis unfolding filed_def step(1)
  proof (intro conjI)
    show "keys (AList.update (stateKey model) v n) = stateKey ` keys (m @ [(model, state)])" by (simp add: ks)
    show "\<not> snd (normalizeStep (model, state) acc) \<longrightarrow> (\<forall>k \<in> keys (m @ [(model, state)]). stateKey k = k)"
      using step(2) un by auto
  qed (use d cov ok' in \<open>simp_all only: distinct_keys_update, blast+\<close>)
qed

lemma fold_normalizeStep_filed: "filed m acc \<Longrightarrow> filed (m @ xs) (fold normalizeStep xs acc)"
proof (induction xs arbitrary: m acc)
  case (Cons x xs)
  from Cons.IH [OF normalizeStep_filed [OF Cons.prems, of "fst x" "snd x"]] show ?case by simp
qed simp

lemma normalizeModelStates_filed:
  assumes "distinct_keys (a_ModelStates auth)"
  shows "filed (a_ModelStates auth) (a_ModelStates (fst (normalizeModelStates auth)), True)"
proof -
  obtain n c where nc: "fold normalizeStep (a_ModelStates auth) ([], False) = (n, c)" by fastforce
  have "filed [] ([], False)" by (simp add: filed_def)
  from fold_normalizeStep_filed [OF this, of "a_ModelStates auth"] have f: "filed (a_ModelStates auth) (n, c)" by (simp add: nc)
  show ?thesis
  proof (cases c)
    case True
    then have "a_ModelStates (fst (normalizeModelStates auth)) = n"
      using nc by (auto simp: normalizeModelStates_def)
    then show ?thesis using f unfolding filed_def fst_conv snd_conv by blast
  next
    case False
    then have same: "a_ModelStates (fst (normalizeModelStates auth)) = a_ModelStates auth"
      using nc by (auto simp: normalizeModelStates_def)
    have keys: "\<forall>k \<in> keys (a_ModelStates auth). stateKey k = k" using f False by (simp add: filed_def)
    then have "stateKey ` keys (a_ModelStates auth) = keys (a_ModelStates auth)"
      by (simp add: image_image cong: image_cong)
    moreover have "map_of (a_ModelStates auth) (stateKey k) = Some (Some st)"
      if "(k, Some st) \<in> set (a_ModelStates auth)" for k st
    proof -
      have "stateKey k = k" using keys that by force
      then show ?thesis using that assms by (simp add: map_of_is_SomeI)
    qed
    ultimately show ?thesis unfolding same filed_def fst_conv snd_conv using assms covers_refl by metis
  qed
qed

end
