(* ===== verification/Mark_Result.thy ===== *)
theory Mark_Result
  imports Cooldown_Facts Recent_Requests
begin

text \<open>
  What an execution result does to a credential: the locked section of \<open>MarkResult\<close> and
  \<open>recordAvailabilityNeutralResult\<close> in \<^verbatim>\<open>sdk/cliproxy/auth/conductor_cooldown.go\<close>, and the
  checks that bind a result to the credential it was produced with
  (\<^verbatim>\<open>lifecycle_state.go\<close>).

  The resolution of a route model through the alias tables (\<open>selectionModelKeyForAuth\<close>) is the
  argument \<open>selectionKey\<close>; it is consulted only when a result names no upstream model.
\<close>

section \<open>Results\<close>

record Result =
  r_AuthID :: string
  r_RegistrationEpoch :: uint64
  r_CredentialVersion :: uint64
  r_authSnapshot :: "Auth option"
  r_Provider :: string
  r_Model :: string
  r_RouteModel :: string
  r_Success :: bool
  r_RetryAfter :: "duration option"
  r_CredentialScope :: bool
  r_Error :: "Error option"
  r_Metadata :: "(string, goval) gomap"
  r_AttemptStartedAt :: time
  r_SkipQuotaObservation :: bool

definition bindResultAuth :: "Auth option \<Rightarrow> Result \<Rightarrow> Result" where
  "bindResultAuth auth res =
     (case auth of
        None \<Rightarrow> res
      | Some a \<Rightarrow> res\<lparr>r_RegistrationEpoch := a_RegistrationEpoch a, r_CredentialVersion := a_CredentialVersion a,
          r_authSnapshot := Some a\<rparr>)"

definition resultMatchesRegistration :: "Result \<Rightarrow> Auth option \<Rightarrow> bool" where
  "resultMatchesRegistration res auth =
     (case auth of
        None \<Rightarrow> False
      | Some a \<Rightarrow> r_RegistrationEpoch res = 0 \<or> r_RegistrationEpoch res = a_RegistrationEpoch a)"

definition resultMatchesCredential :: "Result \<Rightarrow> Auth option \<Rightarrow> bool" where
  "resultMatchesCredential res auth =
     (case auth of
        None \<Rightarrow> False
      | Some a \<Rightarrow> resultMatchesRegistration res auth
          \<and> (r_CredentialVersion res = 0 \<or> r_CredentialVersion res = a_CredentialVersion a))"

definition resultMatchesAvailabilityEpoch :: "Result \<Rightarrow> Auth option \<Rightarrow> bool" where
  "resultMatchesAvailabilityEpoch res auth =
     (case auth of
        None \<Rightarrow> False
      | Some a \<Rightarrow> (case r_authSnapshot res of None \<Rightarrow> True | Some s \<Rightarrow> a_availabilityEpoch s = a_availabilityEpoch a))"

definition resultMayClearModelState :: "Result \<Rightarrow> ModelState option \<Rightarrow> time \<Rightarrow> bool" where
  "resultMayClearModelState res st now =
     (case st of
        None \<Rightarrow> True
      | Some state \<Rightarrow>
          if IsZero (r_AttemptStartedAt res) \<or> IsZero (ms_UpdatedAt state) then True
          else
            let blocked = fst (availabilityBlock (ms_Unavailable state) (q_Exceeded (ms_Quota state))
                            (ms_NextRetryAfter state) (q_NextRecoverAt (ms_Quota state)) now)
            in if \<not> blocked \<and> ms_Status state \<noteq> StatusDisabled then True
               else \<not> ms_UpdatedAt state > r_AttemptStartedAt res)"

section \<open>A failure of one model\<close>

text \<open>The rate-limit branch: the deadlines of the model and of the credential, and the level.\<close>

definition quotaFailureDeadlines ::
  "Result \<Rightarrow> time \<Rightarrow> bool \<Rightarrow> Auth \<Rightarrow> ModelState \<Rightarrow> time \<times> time \<times> int" where
  "quotaFailureDeadlines res now disableCooling auth state =
     (let quotaForFailure =
            (if r_CredentialScope res then
               (if q_Exceeded (a_Quota auth) \<and> q_Reason (a_Quota auth) = ''credential_quota'' then a_Quota auth
                else zero_QuotaState)
             else ms_Quota state)
      in if disableCooling then (0, 0, q_BackoffLevel quotaForFailure)
         else
           let (credentialNext, backoffLevel) =
                 (case r_RetryAfter res of
                    Some d \<Rightarrow> (announcedCooldown now d, q_BackoffLevel quotaForFailure)
                  | None \<Rightarrow> quotaCooldownAfterFailure quotaForFailure now);
               next = (if q_Exceeded (ms_Quota state) \<and> q_NextRecoverAt (ms_Quota state) > credentialNext
                       then q_NextRecoverAt (ms_Quota state) else credentialNext)
           in (next, credentialNext, backoffLevel))"

definition propagateCredentialQuota :: "time \<Rightarrow> int \<Rightarrow> ModelState \<Rightarrow> ModelState" where
  "propagateCredentialQuota credentialNext backoffLevel otherState =
     (let otherQuotaNext =
            (if q_Exceeded (ms_Quota otherState) \<and> q_NextRecoverAt (ms_Quota otherState) > credentialNext
             then q_NextRecoverAt (ms_Quota otherState) else credentialNext);
          otherRetryAfter =
            (if \<not> IsZero (ms_NextRetryAfter otherState) \<and> ms_NextRetryAfter otherState > otherQuotaNext
             then ms_NextRetryAfter otherState else otherQuotaNext)
      in otherState\<lparr>ms_Unavailable := True, ms_Status := StatusError, ms_NextRetryAfter := otherRetryAfter,
           ms_Quota := applyCooldownFields (ms_Quota otherState)
             (zero_QuotaState\<lparr>q_Exceeded := True, q_Reason := ''credential_quota'', q_NextRecoverAt := otherQuotaNext,
                q_BackoffLevel := backoffLevel\<rparr>)\<rparr>)"

definition markCredentialQuota :: "string \<Rightarrow> time \<Rightarrow> int \<Rightarrow> Auth \<Rightarrow> Auth" where
  "markCredentialQuota modelKey credentialNext backoffLevel auth =
     (let q = a_Quota auth;
          authNext = (if q_Exceeded q \<and> q_Reason q = ''credential_quota'' \<and> q_NextRecoverAt q > credentialNext
                      then q_NextRecoverAt q else credentialNext)
      in auth\<lparr>a_ModelStates := map (\<lambda>(model, st).
             (model, if model = modelKey then st else map_option (propagateCredentialQuota credentialNext backoffLevel) st))
             (a_ModelStates auth),
           a_Unavailable := True,
           a_Quota := q\<lparr>q_Exceeded := True, q_Reason := ''credential_quota'', q_NextRecoverAt := authNext,
                        q_BackoffLevel := backoffLevel\<rparr>,
           a_NextRetryAfter := authNext\<rparr>)"

text \<open>The branches on the error: the state of the model and, for a credential-wide limit, the credential.\<close>

definition modelFailureSwitch ::
  "cooling_env \<Rightarrow> time \<Rightarrow> Result \<Rightarrow> bool \<Rightarrow> string \<Rightarrow> Auth \<Rightarrow> ModelState \<Rightarrow> Auth \<times> ModelState" where
  "modelFailureSwitch env now res disableCooling modelKey auth state =
     (let err = r_Error res;
          statusCode = statusCodeFromResult err;
          until = (\<lambda>d. state\<lparr>ms_NextRetryAfter := (if disableCooling then 0 else now + d)\<rparr>);
          recoverable = (\<lambda>next. state\<lparr>ms_NextRetryAfter := next, ms_Unavailable := \<not> IsZero next\<rparr>)
      in if isModelSupportResultError err then (auth, state\<lparr>ms_NextRetryAfter := now + 12 * Hour\<rparr>)
         else if isCloudflareChallengeResultError err then
           let (next, backoffLevel) = nextCloudflareCooldown (q_BackoffLevel (ms_Quota state)) disableCooling now
           in (if a_LastError auth \<noteq> None then auth\<lparr>a_StatusMessage := ''cloudflare challenge''\<rparr> else auth,
               state\<lparr>ms_NextRetryAfter := next, ms_StatusMessage := ''cloudflare challenge'',
                 ms_Quota := applyCooldownFields (ms_Quota state)
                   (zero_QuotaState\<lparr>q_Exceeded := True, q_Reason := ''cloudflare challenge'', q_NextRecoverAt := next,
                      q_BackoffLevel := backoffLevel\<rparr>)\<rparr>)
         else if isInvalidGrantResultError err then (auth, until (30 * Minute))
         else if statusCode \<in> set [401, 402, 403] then (auth, until unauthorizedCooldown)
         else if statusCode = 404 then (auth, until (12 * Hour))
         else if statusCode = 429 then
           let (next, credentialNext, backoffLevel) = quotaFailureDeadlines res now disableCooling auth state;
               state' = state\<lparr>ms_NextRetryAfter := next,
                 ms_Quota := applyCooldownFields (ms_Quota state)
                   (zero_QuotaState\<lparr>q_Exceeded := True, q_Reason := ''quota'', q_NextRecoverAt := next,
                      q_BackoffLevel := backoffLevel\<rparr>)\<rparr>
           in (if r_CredentialScope res \<and> \<not> disableCooling
               then markCredentialQuota modelKey credentialNext backoffLevel auth else auth, state')
         else if statusCode = claudeUpstreamOverloadedStatus then
           (auth, recoverable (case r_RetryAfter res of
                      Some d \<Rightarrow> if \<not> disableCooling then now + d else recoverableFailureRetryAfter env now disableCooling
                    | None \<Rightarrow> recoverableFailureRetryAfter env now disableCooling))
         else if statusCode \<in> set transientStatuses then
           (auth, recoverable (recoverableFailureRetryAfterWithHint env now (r_RetryAfter res) disableCooling))
         else (auth, recoverable (recoverableFailureRetryAfter env now disableCooling)))"

text \<open>What follows the branches; \<open>prevModelRetryAfter\<close> is the deadline before the failure.\<close>

definition settleModelFailure :: "time \<Rightarrow> Error option \<Rightarrow> bool \<Rightarrow> time \<Rightarrow> ModelState \<Rightarrow> ModelState" where
  "settleModelFailure now err disableCooling prevModelRetryAfter state =
     (let state1 = (if disableCooling \<and> IsZero (ms_NextRetryAfter state) \<and> IsZero (q_NextRecoverAt (ms_Quota state))
                    then state\<lparr>ms_Unavailable := False, ms_Quota := (ms_Quota state)\<lparr>q_Exceeded := False\<rparr>\<rparr> else state);
          state2 = (if isForceCooldown err \<and> IsZero (ms_NextRetryAfter state1)
                    then state1\<lparr>ms_NextRetryAfter := now + transientErrorCooldown, ms_Unavailable := True\<rparr> else state1);
          state3 = state2\<lparr>ms_NonUnauthorizedRetryAfter :=
                     rememberIndependentCooldown (ms_NonUnauthorizedRetryAfter state2) (ms_NextRetryAfter state2)
                       (ms_LastError state2) (ms_StatusMessage state2)\<rparr>
      in if \<not> IsZero (ms_NextRetryAfter state3) \<and> prevModelRetryAfter > ms_NextRetryAfter state3 \<and> prevModelRetryAfter > now
         then state3\<lparr>ms_NextRetryAfter := prevModelRetryAfter\<rparr> else state3)"

definition coolingDisabledFor :: "cooling_env \<Rightarrow> Error option \<Rightarrow> Auth \<Rightarrow> bool" where
  "coolingDisabledFor env err auth = (\<not> isForceCooldown err \<and> quotaCooldownDisabledForAuthWithConfig env auth)"

definition applyModelFailure :: "cooling_env \<Rightarrow> time \<Rightarrow> Result \<Rightarrow> string \<Rightarrow> Auth \<Rightarrow> Auth" where
  "applyModelFailure env now res modelKey auth =
     (let disableCooling = coolingDisabledFor env (r_Error res) auth
      in case ensureModelState auth modelKey of
           None \<Rightarrow> auth
         | Some (auth1, state0) \<Rightarrow>
             let key = canonicalModelKey modelKey;
                 state1 = state0\<lparr>ms_Unavailable := True, ms_Status := StatusError, ms_UpdatedAt := now\<rparr>;
                 (auth2, state2) =
                   (case r_Error res of
                      None \<Rightarrow> (auth1, state1)
                    | Some e \<Rightarrow> (auth1\<lparr>a_LastError := Some e, a_StatusMessage := e_Message e\<rparr>,
                                 state1\<lparr>ms_LastError := Some e, ms_StatusMessage := e_Message e\<rparr>));
                 (auth3, state3) = modelFailureSwitch env now res disableCooling key auth2 state2;
                 state4 = settleModelFailure now (r_Error res) disableCooling (ms_NextRetryAfter state0) state3
             in updateAggregatedAvailability now ((putModelState key state4 auth3)\<lparr>a_Status := StatusError\<rparr>))"

section \<open>A success\<close>

definition applySuccess :: "time \<Rightarrow> Result \<Rightarrow> string \<Rightarrow> Auth \<Rightarrow> Auth" where
  "applySuccess now res modelKey auth =
     (if q_Reason (a_Quota auth) = ''credential_quota'' \<and> q_NextRecoverAt (a_Quota auth) > now then auth
      else if modelKey \<noteq> [] then
        (case ensureModelState auth modelKey of
           None \<Rightarrow> auth
         | Some (auth1, state) \<Rightarrow>
             if resultMayClearModelState res (Some state) now then
               let auth2 = updateAggregatedAvailability now
                             (putModelState (canonicalModelKey modelKey) (resetModelState now state) auth1);
                   auth3 = (if \<not> hasModelError auth2 now
                            then auth2\<lparr>a_LastError := None, a_StatusMessage := [], a_Status := StatusActive\<rparr> else auth2)
               in auth3\<lparr>a_UpdatedAt := now\<rparr>
             else auth1)
      else clearAuthStateOnSuccess now auth)"

section \<open>MarkResult on one credential\<close>

definition resultModelKey :: "(Auth \<Rightarrow> string \<Rightarrow> string) \<Rightarrow> Result \<Rightarrow> Auth \<Rightarrow> string" where
  "resultModelKey selectionKey res auth =
     (let modelKey = canonicalModelKey (r_Model res) in
      if modelKey = [] \<and> TrimSpace (r_RouteModel res) \<noteq> [] then
        let selected = selectionKey auth (r_RouteModel res)
        in if selected = [] then canonicalModelKey (r_RouteModel res) else selected
      else modelKey)"

definition countResult :: "time \<Rightarrow> bool \<Rightarrow> Auth \<Rightarrow> Auth" where
  "countResult now success auth =
     (let a = recordRecentRequest now success auth
      in if success then a\<lparr>a_Success := a_Success a + 1\<rparr> else a\<lparr>a_Failed := a_Failed a + 1\<rparr>)"

definition markAvailability :: "cooling_env \<Rightarrow> time \<Rightarrow> Result \<Rightarrow> string \<Rightarrow> Auth \<Rightarrow> Auth" where
  "markAvailability env now res modelKey auth =
     (if a_Disabled auth \<or> a_Status auth = StatusDisabled \<or> \<not> resultMatchesAvailabilityEpoch res (Some auth) then auth
      else if r_Success res \<and> r_SkipQuotaObservation res then auth
      else if r_Success res then applySuccess now res modelKey auth
      else if modelKey \<noteq> [] then
        (if \<not> shouldSkipCredentialCooldown (ce_json env) (r_Error res) then applyModelFailure env now res modelKey auth
         else auth)
      else applyAuthFailureState env (r_Error res) (r_RetryAfter res) now (coolingDisabledFor env (r_Error res) auth) auth)"

definition observeHeaders :: "time \<Rightarrow> Result \<Rightarrow> Header \<Rightarrow> string \<Rightarrow> Auth \<Rightarrow> Auth" where
  "observeHeaders now res headers modelKey auth =
     (if r_SkipQuotaObservation res then auth
      else
        let observe = (\<lambda>q. fst (ObserveResponseHeadersForProvider now (r_Provider res) headers now q));
            auth1 = auth\<lparr>a_Quota := observe (a_Quota auth)\<rparr>
        in case existingModelState auth1 modelKey of
             None \<Rightarrow> auth1
           | Some st \<Rightarrow> putModelState (canonicalModelKey modelKey) (st\<lparr>ms_Quota := observe (ms_Quota st)\<rparr>) auth1)"

definition markResultAuth ::
  "cooling_env \<Rightarrow> (Auth \<Rightarrow> string \<Rightarrow> string) \<Rightarrow> Header \<Rightarrow> time \<Rightarrow> Result \<Rightarrow> Auth \<Rightarrow> Auth" where
  "markResultAuth env selectionKey headers now res auth =
     (let modelKey = resultModelKey selectionKey res auth;
          auth1 = countResult now (r_Success res) auth;
          auth2 = markAvailability env now res modelKey auth1;
          auth3 = auth2\<lparr>a_Generation := a_Generation auth2 + 1, a_UpdatedAt := now\<rparr>
      in observeHeaders now res headers modelKey auth3)"

definition neutralResultAuth :: "time \<Rightarrow> Result \<Rightarrow> Auth \<Rightarrow> Auth" where
  "neutralResultAuth now res auth =
     (let a = countResult now (r_Success res) auth
      in a\<lparr>a_Generation := a_Generation a + 1, a_UpdatedAt := now\<rparr>)"

end
