(* ===== verification/Mark_Facts.thy ===== *)
theory Mark_Facts
  imports Mark_Result
begin

text \<open>
  What marking a result does to the model states of a credential, entry by entry, and the
  properties that rest on it: every cooldown set by a result has an end, a failure never
  shortens a live cooldown, a rate limit blocks the model or the whole credential for the
  announced time, and a success clears the model it was served with.
\<close>

section \<open>The state filed under a key\<close>

definition stateAt :: "Auth \<Rightarrow> string \<Rightarrow> ModelState option" where
  "stateAt auth k = (case map_of (a_ModelStates auth) k of Some st \<Rightarrow> st | None \<Rightarrow> None)"

definition auth_wf :: "Auth \<Rightarrow> bool" where
  "auth_wf auth \<longleftrightarrow> distinct_keys (a_ModelStates auth) \<and> (\<forall>k st. stateAt auth k = Some st \<longrightarrow> state_ok st)"

lemma stateAt_mem:
  "distinct_keys (a_ModelStates auth) \<Longrightarrow> stateAt auth k = Some st \<longleftrightarrow> (k, Some st) \<in> set (a_ModelStates auth)"
  by (auto simp: stateAt_def split: option.splits dest: map_of_SomeD map_of_is_SomeI eq_key_imp_eq_value)

lemma auth_wf_iff: "auth_wf auth \<longleftrightarrow> distinct_keys (a_ModelStates auth) \<and> states_ok auth"
proof (cases "distinct_keys (a_ModelStates auth)")
  case True
  show ?thesis unfolding auth_wf_def states_ok_def set_modelStateList stateAt_mem [OF True] by blast
qed (simp add: auth_wf_def)

lemma auth_wf_ok: "auth_wf auth \<Longrightarrow> stateAt auth k = Some st \<Longrightarrow> state_ok st"
  by (simp add: auth_wf_def)

lemma stateAt_putModelState [simp]:
  "stateAt (putModelState k st auth) k' = (if k' = k then Some st else stateAt auth k')"
  by (simp add: stateAt_def putModelState_def)

lemma stateAt_update [simp]:
  "stateAt (auth\<lparr>a_Quota := q\<rparr>) k = stateAt auth k"
  "stateAt (auth\<lparr>a_Status := s\<rparr>) k = stateAt auth k"
  "stateAt (auth\<lparr>a_StatusMessage := m\<rparr>) k = stateAt auth k"
  "stateAt (auth\<lparr>a_LastError := e\<rparr>) k = stateAt auth k"
  "stateAt (auth\<lparr>a_UpdatedAt := t\<rparr>) k = stateAt auth k"
  "stateAt (auth\<lparr>a_Generation := g\<rparr>) k = stateAt auth k"
  "stateAt (auth\<lparr>a_Success := n\<rparr>) k = stateAt auth k"
  "stateAt (auth\<lparr>a_Failed := n\<rparr>) k = stateAt auth k"
  by (simp_all add: stateAt_def)

lemma stateAt_updateAggregated:
  "stateAt (updateAggregatedAvailability now auth) k =
     (if credentialQuotaActive auth now then stateAt auth k else map_option (liftExpired now) (stateAt auth k))"
  unfolding stateAt_def updateAggregatedAvailability_states
  by (simp add: map_of_map_values split: option.splits)

lemma distinct_updateAggregated [simp]:
  "distinct_keys (a_ModelStates (updateAggregatedAvailability now auth)) = distinct_keys (a_ModelStates auth)"
  by (simp add: updateAggregatedAvailability_states)

lemma distinct_putModelState [simp]:
  "distinct_keys (a_ModelStates auth) \<Longrightarrow> distinct_keys (a_ModelStates (putModelState k st auth))"
  by (simp add: putModelState_def)

lemma stateAt_markCredentialQuota:
  "stateAt (markCredentialQuota key n l auth) k =
     (if k = key then stateAt auth k else map_option (propagateCredentialQuota n l) (stateAt auth k))"
  unfolding stateAt_def markCredentialQuota_def
  by (simp add: Let_def map_of_map_values split: option.splits)

lemma distinct_markCredentialQuota [simp]:
  "distinct_keys (a_ModelStates (markCredentialQuota key n l auth)) = distinct_keys (a_ModelStates auth)"
  by (simp add: markCredentialQuota_def Let_def)

lemma auth_wf_updateAggregated: "auth_wf auth \<Longrightarrow> auth_wf (updateAggregatedAvailability now auth)"
  by (auto simp: auth_wf_def stateAt_updateAggregated state_ok_liftExpired)

lemma auth_wf_putModelState: "auth_wf auth \<Longrightarrow> state_ok st \<Longrightarrow> auth_wf (putModelState k st auth)"
  by (simp add: auth_wf_def)

lemma auth_wf_cong: "a_ModelStates auth' = a_ModelStates auth \<Longrightarrow> auth_wf auth' = auth_wf auth"
  by (simp add: auth_wf_def stateAt_def)

subsection \<open>The state a result is filed under\<close>

lemma normalizeModelStates_frame:
  "fst (normalizeModelStates auth) = auth\<lparr>a_ModelStates := a_ModelStates (fst (normalizeModelStates auth))\<rparr>"
  by (simp add: normalizeModelStates_def Let_def case_prod_beta)

lemma ensureModelState_spec:
  assumes "distinct_keys (a_ModelStates auth)" and "canonicalModelKey model \<noteq> []"
  obtains auth1 st where "ensureModelState auth model = Some (auth1, st)"
    and "stateAt auth1 (canonicalModelKey model) = Some st"
    and "auth1 = auth\<lparr>a_ModelStates := a_ModelStates auth1\<rparr>"
    and "distinct_keys (a_ModelStates auth1)"
    and "auth_wf auth \<Longrightarrow> auth_wf auth1"
    and "\<And>k st0. stateAt auth k = Some st0 \<Longrightarrow> stateKey k = canonicalModelKey model \<Longrightarrow> covers st st0"
    and "keys (a_ModelStates auth1) = insert (canonicalModelKey model) (stateKey ` keys (a_ModelStates auth))"
proof -
  let ?n = "fst (normalizeModelStates auth)" and ?key = "canonicalModelKey model"
  let ?fresh = "zero_ModelState\<lparr>ms_Status := StatusActive\<rparr>"
  note f = normalizeModelStates_filed [OF assms(1)]
  have d: "distinct_keys (a_ModelStates ?n)" and ks: "keys (a_ModelStates ?n) = stateKey ` keys (a_ModelStates auth)"
    using f unfolding filed_def fst_conv by blast+
  have cov: "\<exists>st'. map_of (a_ModelStates ?n) (stateKey k) = Some (Some st') \<and> covers st' st0"
    if "stateAt auth k = Some st0" for k st0
    using f that unfolding filed_def fst_conv stateAt_mem [OF assms(1)] by blast
  have ok: "states_ok auth \<Longrightarrow> states_ok ?n"
  proof -
    assume "states_ok auth"
    then have "\<forall>k st. (k, Some st) \<in> set (a_ModelStates auth) \<longrightarrow> state_ok st" using states_okD by blast
    then have "\<forall>k st. (k, Some st) \<in> set (a_ModelStates ?n) \<longrightarrow> state_ok st"
      using f unfolding filed_def fst_conv by blast
    then show "states_ok ?n" by (intro states_okI) blast
  qed
  have wf: "auth_wf auth \<Longrightarrow> auth_wf ?n" using ok d by (simp add: auth_wf_iff)
  have fr: "?n = auth\<lparr>a_ModelStates := a_ModelStates ?n\<rparr>" by (rule normalizeModelStates_frame)
  show ?thesis
  proof (cases "stateAt ?n ?key")
    case (Some st)
    then have m: "map_of (a_ModelStates ?n) ?key = Some (Some st)" by (simp add: stateAt_def split: option.splits)
    then have "?key \<in> keys (a_ModelStates ?n)" by (metis map_of_eq_None_iff option.distinct(1))
    then have k1: "keys (a_ModelStates ?n) = insert ?key (stateKey ` keys (a_ModelStates auth))" using ks by blast
    have e: "ensureModelState auth model = Some (?n, st)" using assms(2) m by (simp add: ensureModelState_def Let_def)
    have "covers st st0" if "stateAt auth k = Some st0" "stateKey k = ?key" for k st0
      using cov [OF that(1)] m that(2) by simp
    then show ?thesis using that [OF e Some fr d wf _ k1] by blast
  next
    case None
    let ?a = "?n\<lparr>a_ModelStates := AList.update ?key (Some ?fresh) (a_ModelStates ?n)\<rparr>"
    have "map_of (a_ModelStates ?n) ?key = None \<or> map_of (a_ModelStates ?n) ?key = Some None"
      using None by (simp add: stateAt_def split: option.splits)
    then have e: "ensureModelState auth model = Some (?a, ?fresh)"
      using assms(2) by (elim disjE) (simp_all add: ensureModelState_def Let_def)
    have a: "?a = putModelState ?key ?fresh ?n" by (simp add: putModelState_def)
    have "stateAt ?a ?key = Some ?fresh" unfolding a by simp
    moreover have "?a = auth\<lparr>a_ModelStates := a_ModelStates ?a\<rparr>" by (subst fr) simp
    moreover have "distinct_keys (a_ModelStates ?a)" using d by simp
    moreover have "auth_wf auth \<Longrightarrow> auth_wf ?a" unfolding a using wf auth_wf_putModelState state_ok_fresh by blast
    moreover have "covers ?fresh st0" if "stateAt auth k = Some st0" "stateKey k = ?key" for k st0
      using cov [OF that(1)] None that(2) by (auto simp: stateAt_def)
    moreover have "keys (a_ModelStates ?a) = insert ?key (stateKey ` keys (a_ModelStates auth))" using ks by simp
    ultimately show ?thesis by (rule that [OF e])
  qed
qed

subsection \<open>Observation\<close>

text \<open>The same state but for its observation.\<close>

definition same_block :: "ModelState \<Rightarrow> ModelState \<Rightarrow> bool" where
  "same_block st' st \<longleftrightarrow>
     (\<exists>q. st' = st\<lparr>ms_Quota := q\<rparr> \<and> q_Exceeded q = q_Exceeded (ms_Quota st)
        \<and> q_NextRecoverAt q = q_NextRecoverAt (ms_Quota st))"

lemma same_block_refl [simp]: "same_block st st"
  unfolding same_block_def by (rule exI [of _ "ms_Quota st"]) simp

lemma same_block_sel:
  assumes "same_block st' st"
  shows "ms_Unavailable st' = ms_Unavailable st" "ms_NextRetryAfter st' = ms_NextRetryAfter st"
    "ms_Status st' = ms_Status st" "q_Exceeded (ms_Quota st') = q_Exceeded (ms_Quota st)"
    "q_NextRecoverAt (ms_Quota st') = q_NextRecoverAt (ms_Quota st)" "state_ok st' = state_ok st"
    "hardBlocked t st' = hardBlocked t st" "stateDeadline t st' = stateDeadline t st"
  using assms by (auto simp: same_block_def state_ok_def hardBlocked_def stateDeadline_def modelAvailabilityBlock_def)

lemma existingModelState_update [simp]:
  "existingModelState (auth\<lparr>a_Quota := q\<rparr>) k = existingModelState auth k"
  by (simp add: existingModelState_def Let_def)

lemma same_block_observe: "same_block (st\<lparr>ms_Quota := fst (ObserveResponseHeadersForProvider c p hs t (ms_Quota st))\<rparr>) st"
  unfolding same_block_def
  by (rule exI [of _ "fst (ObserveResponseHeadersForProvider c p hs t (ms_Quota st))"]) simp

lemma observeHeaders_states:
  assumes "distinct_keys (a_ModelStates auth)"
  obtains g where "a_ModelStates (observeHeaders now res headers modelKey auth) =
      map (\<lambda>(k, st). (k, map_option (g k) st)) (a_ModelStates auth)"
    and "\<And>k st. same_block (g k st) st"
proof (cases "r_SkipQuotaObservation res \<or> existingModelState auth modelKey = None")
  case True
  then have "a_ModelStates (observeHeaders now res headers modelKey auth) = a_ModelStates auth"
    by (auto simp: observeHeaders_def Let_def)
  also have "\<dots> = map (\<lambda>(k, st). (k, map_option (\<lambda>st. st) st)) (a_ModelStates auth)"
    by (simp add: option.map_ident)
  finally show ?thesis using that [of "\<lambda>k st. st"] by simp
next
  case False
  let ?key = "canonicalModelKey modelKey"
  let ?q = "\<lambda>q. fst (ObserveResponseHeadersForProvider now (r_Provider res) headers now q)"
  obtain st where st: "existingModelState auth modelKey = Some st" using False by auto
  then have m: "map_of (a_ModelStates auth) ?key = Some (Some st)"
    by (auto simp: existingModelState_def Let_def split: if_splits option.splits)
  let ?g = "\<lambda>k st. if k = ?key then st\<lparr>ms_Quota := ?q (ms_Quota st)\<rparr> else st"
  have "a_ModelStates (observeHeaders now res headers modelKey auth) =
      AList.update ?key (Some (st\<lparr>ms_Quota := ?q (ms_Quota st)\<rparr>)) (a_ModelStates auth)"
    using False st by (simp add: observeHeaders_def putModelState_def Let_def)
  also have "\<dots> = map (\<lambda>(a, b). (a, if a = ?key then Some (st\<lparr>ms_Quota := ?q (ms_Quota st)\<rparr>) else b)) (a_ModelStates auth)"
    by (rule update_as_map [OF assms m, of "\<lambda>_. Some (st\<lparr>ms_Quota := ?q (ms_Quota st)\<rparr>)"])
  also have "\<dots> = map (\<lambda>(k, st). (k, map_option (?g k) st)) (a_ModelStates auth)"
    using m map_of_is_SomeI [OF assms] by (auto simp: option.map_ident)
  finally show ?thesis by (rule that [of ?g]) (simp add: same_block_observe)
qed

section \<open>One failure\<close>

text \<open>The configured transient cooldown fits the clock, and a retry hint is not negative.\<close>

definition env_ok :: "cooling_env \<Rightarrow> bool" where
  "env_ok env \<longleftrightarrow> ce_transientErrorCooldownSeconds env \<le> 9000000000"

definition hint_ok :: "duration option \<Rightarrow> bool" where
  "hint_ok hint \<longleftrightarrow> (case hint of Some d \<Rightarrow> 0 \<le> d | None \<Rightarrow> True)"

lemma recoverable_nonneg:
  "env_ok env \<Longrightarrow> 0 \<le> now \<Longrightarrow> 0 \<le> recoverableFailureRetryAfterWithHint env now hint dc"
  by (auto simp: recoverableFailureRetryAfterWithHint_def env_ok_def cooldown_constants int64_defs Let_def split: option.splits)

lemma recoverable_later:
  "env_ok env \<Longrightarrow> 0 \<le> ce_transientErrorCooldownSeconds env \<Longrightarrow>
     now < recoverableFailureRetryAfterWithHint env now hint False"
  by (auto simp: recoverableFailureRetryAfterWithHint_def env_ok_def cooldown_constants int64_defs Let_def split: option.splits)

lemma announcedCooldown_later: "announcedCooldown now d \<ge> now + minQuotaCooldownFloor" "announcedCooldown now d \<ge> now + d"
  by (simp_all add: announcedCooldown_def)

text \<open>A state between the branches of a failure and the steps that settle it.\<close>

definition unsettled_ok :: "bool \<Rightarrow> ModelState \<Rightarrow> bool" where
  "unsettled_ok dc st \<longleftrightarrow>
     0 \<le> ms_NextRetryAfter st \<and> 0 \<le> q_NextRecoverAt (ms_Quota st)
     \<and> ((q_Exceeded (ms_Quota st) \<longleftrightarrow> q_NextRecoverAt (ms_Quota st) \<noteq> 0)
         \<or> dc \<and> ms_NextRetryAfter st = 0 \<and> q_NextRecoverAt (ms_Quota st) = 0)
     \<and> (ms_Unavailable st \<longrightarrow> ms_NextRetryAfter st \<noteq> 0 \<or> q_NextRecoverAt (ms_Quota st) \<noteq> 0 \<or> dc)"

lemma quotaFailureDeadlines_later:
  assumes "0 \<le> now" and "quotaFailureDeadlines res now False auth st = (next, credentialNext, level)"
  shows "now < credentialNext" and "credentialNext \<le> next"
    and "r_RetryAfter res = Some d \<Longrightarrow> now + minQuotaCooldownFloor \<le> credentialNext \<and> now + d \<le> credentialNext"
proof -
  show "r_RetryAfter res = Some d \<Longrightarrow> now + minQuotaCooldownFloor \<le> credentialNext \<and> now + d \<le> credentialNext"
    using assms(2) announcedCooldown_later [of now d]
    by (auto simp: quotaFailureDeadlines_def Let_def split: if_splits)
  show "credentialNext \<le> next"
    using assms(2) by (auto simp: quotaFailureDeadlines_def Let_def case_prod_beta split: if_splits)
  have "now < announcedCooldown now d" for d
    using announcedCooldown_later(1) [of now d] by (simp add: cooldown_constants)
  moreover have "now < c" if "quotaCooldownAfterFailure q now = (c, l)" for q c l
    using quotaCooldownAfterFailure_later [OF assms(1), of q] that by simp
  ultimately show "now < credentialNext"
    using assms(2) by (auto simp: quotaFailureDeadlines_def Let_def case_prod_beta prod_eq_iff split: option.splits)
qed

lemma propagateCredentialQuota_ok:
  "0 < n \<Longrightarrow> state_ok st \<Longrightarrow> state_ok (propagateCredentialQuota n l st)"
  by (auto simp: propagateCredentialQuota_def state_ok_def Let_def)

text \<open>The kinds of branches a failure can take.\<close>

lemma modelFailureSwitch_cases [case_names support cloudflare fixed quota recoverable]:
  assumes support: "isModelSupportResultError (r_Error res) \<Longrightarrow> P (auth, st\<lparr>ms_NextRetryAfter := now + 12 * Hour\<rparr>)"
    and cloudflare: "\<And>auth'. isCloudflareChallengeResultError (r_Error res) \<Longrightarrow>
        auth' = auth \<or> auth' = auth\<lparr>a_StatusMessage := ''cloudflare challenge''\<rparr> \<Longrightarrow>
        P (auth', st\<lparr>ms_NextRetryAfter := fst (nextCloudflareCooldown (q_BackoffLevel (ms_Quota st)) dc now),
             ms_StatusMessage := ''cloudflare challenge'',
             ms_Quota := applyCooldownFields (ms_Quota st)
               (zero_QuotaState\<lparr>q_Exceeded := True, q_Reason := ''cloudflare challenge'',
                  q_NextRecoverAt := fst (nextCloudflareCooldown (q_BackoffLevel (ms_Quota st)) dc now),
                  q_BackoffLevel := snd (nextCloudflareCooldown (q_BackoffLevel (ms_Quota st)) dc now)\<rparr>)\<rparr>)"
    and fixed: "\<And>d. 30 * Minute \<le> d \<Longrightarrow> statusCodeFromResult (r_Error res) \<noteq> 429 \<Longrightarrow>
        P (auth, st\<lparr>ms_NextRetryAfter := (if dc then 0 else now + d)\<rparr>)"
    and quota: "\<And>next credentialNext level. statusCodeFromResult (r_Error res) = 429 \<Longrightarrow>
        quotaFailureDeadlines res now dc auth st = (next, credentialNext, level) \<Longrightarrow>
        P (if r_CredentialScope res \<and> \<not> dc then markCredentialQuota key credentialNext level auth else auth,
           st\<lparr>ms_NextRetryAfter := next,
             ms_Quota := applyCooldownFields (ms_Quota st)
               (zero_QuotaState\<lparr>q_Exceeded := True, q_Reason := ''quota'', q_NextRecoverAt := next,
                  q_BackoffLevel := level\<rparr>)\<rparr>)"
    and recoverable: "\<And>next. (\<exists>h. next = recoverableFailureRetryAfterWithHint env now h dc)
          \<or> (\<exists>d. \<not> dc \<and> r_RetryAfter res = Some d \<and> next = now + d) \<Longrightarrow>
        statusCodeFromResult (r_Error res) \<noteq> 429 \<Longrightarrow>
        P (auth, st\<lparr>ms_NextRetryAfter := next, ms_Unavailable := next \<noteq> 0\<rparr>)"
  shows "P (modelFailureSwitch env now res dc key auth st)"
proof -
  let ?err = "r_Error res"
  have f: "P (auth, st\<lparr>ms_NextRetryAfter := (if dc then 0 else now + d)\<rparr>)"
    if "d \<in> {30 * Minute, unauthorizedCooldown, 12 * Hour}" "statusCodeFromResult ?err \<noteq> 429" for d
    by (rule fixed) (use that in \<open>auto simp: cooldown_constants\<close>)
  have ig: "isInvalidGrantResultError ?err \<Longrightarrow> statusCodeFromResult ?err \<noteq> 429"
    by (auto simp: isInvalidGrantResultError_def statusCodeFromResult_def Error_StatusCode_def split: option.splits)
  have q: "statusCodeFromResult ?err = 429 \<Longrightarrow>
      P (case quotaFailureDeadlines res now dc auth st of (next, credentialNext, level) \<Rightarrow>
           (if r_CredentialScope res \<and> \<not> dc then markCredentialQuota key credentialNext level auth else auth,
           st\<lparr>ms_NextRetryAfter := next,
             ms_Quota := applyCooldownFields (ms_Quota st)
               (zero_QuotaState\<lparr>q_Exceeded := True, q_Reason := ''quota'', q_NextRecoverAt := next,
                  q_BackoffLevel := level\<rparr>)\<rparr>))"
    using quota by (cases "quotaFailureDeadlines res now dc auth st") simp
  have r: "P (auth, st\<lparr>ms_NextRetryAfter := recoverableFailureRetryAfterWithHint env now h dc,
        ms_Unavailable := recoverableFailureRetryAfterWithHint env now h dc \<noteq> 0\<rparr>)"
    if "statusCodeFromResult ?err \<noteq> 429" for h
    using recoverable [of "recoverableFailureRetryAfterWithHint env now h dc"] that by blast
  have o: "P (auth, st\<lparr>ms_NextRetryAfter := next, ms_Unavailable := next \<noteq> 0\<rparr>)"
    if "next = (case r_RetryAfter res of
            Some d \<Rightarrow> if \<not> dc then now + d else recoverableFailureRetryAfter env now dc
          | None \<Rightarrow> recoverableFailureRetryAfter env now dc)" "statusCodeFromResult ?err \<noteq> 429" for "next"
    using recoverable [of "next"] that unfolding recoverableFailureRetryAfter_def
    by (cases "r_RetryAfter res"; cases dc) auto
  show ?thesis
    unfolding modelFailureSwitch_def Let_def case_prod_beta [of "\<lambda>next backoffLevel. _ next backoffLevel"]
      recoverableFailureRetryAfter_def [symmetric]
    using support cloudflare f ig q r o
    by (simp add: claudeUpstreamOverloadedStatus_def recoverableFailureRetryAfter_def case_prod_beta split: if_split)
qed

lemma modelFailureSwitch_ok:
  assumes "env_ok env" and "hint_ok (r_RetryAfter res)" and "0 \<le> now" and "unsettled_ok True st"
    and "q_Exceeded (ms_Quota st) \<longleftrightarrow> q_NextRecoverAt (ms_Quota st) \<noteq> 0"
  shows "unsettled_ok dc (snd (modelFailureSwitch env now res dc key auth st))"
proof (rule modelFailureSwitch_cases)
  have nn: "0 \<le> q_NextRecoverAt (ms_Quota st)" using assms(4) by (simp add: unsettled_ok_def)
  show "unsettled_ok dc (snd (auth, st\<lparr>ms_NextRetryAfter := now + 12 * Hour\<rparr>))"
    using nn assms(3,5) by (simp add: unsettled_ok_def cooldown_constants)
  show "unsettled_ok dc (snd (auth, st\<lparr>ms_NextRetryAfter := (if dc then 0 else now + d)\<rparr>))" if "30 * Minute \<le> d" for d
    using that nn assms(3,5) by (simp add: unsettled_ok_def cooldown_constants)
  have "0 < fst (nextCloudflareCooldown l False now)" for l
    using nextCloudflareCooldown_later [OF assms(3), of l] assms(3) by (simp add: Second_def)
  then have cf: "dc \<and> fst (nextCloudflareCooldown l dc now) = 0 \<or> 0 < fst (nextCloudflareCooldown l dc now)" for l
    by (cases dc) (simp_all add: nextCloudflareCooldown_def [of _ True])
  show "unsettled_ok dc (snd (auth', st\<lparr>ms_NextRetryAfter := fst (nextCloudflareCooldown (q_BackoffLevel (ms_Quota st)) dc now),
             ms_StatusMessage := ''cloudflare challenge'',
             ms_Quota := applyCooldownFields (ms_Quota st)
               (zero_QuotaState\<lparr>q_Exceeded := True, q_Reason := ''cloudflare challenge'',
                  q_NextRecoverAt := fst (nextCloudflareCooldown (q_BackoffLevel (ms_Quota st)) dc now),
                  q_BackoffLevel := snd (nextCloudflareCooldown (q_BackoffLevel (ms_Quota st)) dc now)\<rparr>)\<rparr>))" for auth'
    using cf [of "q_BackoffLevel (ms_Quota st)"] by (auto simp: unsettled_ok_def)
  show "unsettled_ok dc (snd (a, st\<lparr>ms_NextRetryAfter := next,
             ms_Quota := applyCooldownFields (ms_Quota st)
               (zero_QuotaState\<lparr>q_Exceeded := True, q_Reason := ''quota'', q_NextRecoverAt := next,
                  q_BackoffLevel := level\<rparr>)\<rparr>))"
    if "quotaFailureDeadlines res now dc auth st = (next, c, level)" for "next" c level a
  proof (cases dc)
    case True
    then have "next = 0" using that by (simp add: quotaFailureDeadlines_def Let_def)
    then show ?thesis using True by (simp add: unsettled_ok_def)
  next
    case False
    then have "0 < next" using quotaFailureDeadlines_later [OF assms(3), of res auth st "next" c level] that assms(3) by simp
    then show ?thesis by (simp add: unsettled_ok_def)
  qed
  have "0 \<le> next" if "(\<exists>h. next = recoverableFailureRetryAfterWithHint env now h dc)
          \<or> (\<exists>d. \<not> dc \<and> r_RetryAfter res = Some d \<and> next = now + d)" for "next"
    using that recoverable_nonneg [OF assms(1,3)] assms(2,3) by (auto simp: hint_ok_def)
  then show "unsettled_ok dc (snd (auth, st\<lparr>ms_NextRetryAfter := next, ms_Unavailable := next \<noteq> 0\<rparr>))"
    if "(\<exists>h. next = recoverableFailureRetryAfterWithHint env now h dc)
          \<or> (\<exists>d. \<not> dc \<and> r_RetryAfter res = Some d \<and> next = now + d)" for "next"
    using that nn assms(5) by (simp add: unsettled_ok_def)
qed

lemma settleModelFailure_ok:
  assumes "0 \<le> now" and "unsettled_ok dc st" and "isForceCooldown err \<Longrightarrow> \<not> dc"
  shows "state_ok (settleModelFailure now err dc prev st)"
  using assms
  by (auto simp: settleModelFailure_def unsettled_ok_def state_ok_def cooldown_constants Let_def)

lemma modelFailureSwitch_auth:
  assumes "0 \<le> now"
  shows "auth_wf auth \<Longrightarrow> auth_wf (fst (modelFailureSwitch env now res dc key auth st))"
    and "distinct_keys (a_ModelStates (fst (modelFailureSwitch env now res dc key auth st))) = distinct_keys (a_ModelStates auth)"
proof -
  have wf: "auth_wf (markCredentialQuota key n l auth)" if "auth_wf auth" "0 < n" for n l
    using that by (auto simp: auth_wf_def stateAt_markCredentialQuota propagateCredentialQuota_ok)
  have q: "0 < c" if "quotaFailureDeadlines res now False auth st = (n, c, l)" for n c l
    using quotaFailureDeadlines_later [OF assms that] assms by simp
  show "auth_wf (fst (modelFailureSwitch env now res dc key auth st))" if "auth_wf auth"
    by (rule modelFailureSwitch_cases) (use that wf q in \<open>auto simp: auth_wf_def\<close>)
  show "distinct_keys (a_ModelStates (fst (modelFailureSwitch env now res dc key auth st))) = distinct_keys (a_ModelStates auth)"
    by (rule modelFailureSwitch_cases) auto
qed

text \<open>With cooling on, the state after a failure is blocked, no less than before and no less than announced.\<close>

lemma modelFailureSwitch_blocks:
  assumes "env_ok env" and "0 \<le> ce_transientErrorCooldownSeconds env" and "hint_ok (r_RetryAfter res)" and "0 < now"
    and "ms_Unavailable st"
  shows "ms_Unavailable (snd (modelFailureSwitch env now res False key auth st))
    \<and> now \<le> ms_NextRetryAfter (snd (modelFailureSwitch env now res False key auth st))"
proof (rule modelFailureSwitch_cases)
  have "fst (nextCloudflareCooldown l False now) \<ge> now" for l
    using nextCloudflareCooldown_later [of now l] assms(4) by (simp add: Second_def)
  then show "ms_Unavailable (snd (auth', st\<lparr>ms_NextRetryAfter := fst (nextCloudflareCooldown (q_BackoffLevel (ms_Quota st)) False now),
             ms_StatusMessage := ''cloudflare challenge'', ms_Quota := q\<rparr>))
      \<and> now \<le> ms_NextRetryAfter (snd (auth', st\<lparr>ms_NextRetryAfter := fst (nextCloudflareCooldown (q_BackoffLevel (ms_Quota st)) False now),
             ms_StatusMessage := ''cloudflare challenge'', ms_Quota := q\<rparr>))" for auth' q
    using assms(5) by simp
  show "ms_Unavailable (snd (a, st\<lparr>ms_NextRetryAfter := next, ms_Quota := q\<rparr>))
      \<and> now \<le> ms_NextRetryAfter (snd (a, st\<lparr>ms_NextRetryAfter := next, ms_Quota := q\<rparr>))"
    if "quotaFailureDeadlines res now False auth st = (next, c, level)" for "next" c level a q
    using quotaFailureDeadlines_later [OF _ that] assms(4,5) by simp
  show "ms_Unavailable (snd (auth, st\<lparr>ms_NextRetryAfter := next, ms_Unavailable := next \<noteq> 0\<rparr>))
      \<and> now \<le> ms_NextRetryAfter (snd (auth, st\<lparr>ms_NextRetryAfter := next, ms_Unavailable := next \<noteq> 0\<rparr>))"
    if "(\<exists>h. next = recoverableFailureRetryAfterWithHint env now h False)
          \<or> (\<exists>d. \<not> False \<and> r_RetryAfter res = Some d \<and> next = now + d)" for "next"
  proof -
    from that consider h where "next = recoverableFailureRetryAfterWithHint env now h False"
      | d where "r_RetryAfter res = Some d" "next = now + d" by blast
    then have "now \<le> next"
      by cases (use recoverable_later [OF assms(1,2), of now] assms(3) in \<open>auto simp: hint_ok_def less_imp_le\<close>)
    then show ?thesis using assms(4) by simp
  qed
qed (use assms(4,5) in \<open>simp_all add: cooldown_constants\<close>)

lemma settleModelFailure_blocks:
  assumes "0 < now" and "ms_Unavailable st" and "now \<le> ms_NextRetryAfter st"
  shows "ms_Unavailable (settleModelFailure now err False prev st)"
    and "ms_NextRetryAfter st \<le> ms_NextRetryAfter (settleModelFailure now err False prev st)"
    and "now < prev \<Longrightarrow> prev \<le> ms_NextRetryAfter (settleModelFailure now err False prev st)"
  using assms by (auto simp: settleModelFailure_def Let_def)

text \<open>The pieces of a model failure.\<close>

lemma applyModelFailure_steps:
  fixes env now res auth
  assumes "distinct_keys (a_ModelStates auth)" and "canonicalModelKey modelKey \<noteq> []"
  defines "dc \<equiv> coolingDisabledFor env (r_Error res) auth" and "key \<equiv> canonicalModelKey modelKey"
  obtains auth2 st0 st2 auth3 st3 where
    "applyModelFailure env now res modelKey auth = updateAggregatedAvailability now
       ((putModelState key (settleModelFailure now (r_Error res) dc (ms_NextRetryAfter st0) st3) auth3)\<lparr>a_Status := StatusError\<rparr>)"
    and "modelFailureSwitch env now res dc key auth2 st2 = (auth3, st3)"
    and "distinct_keys (a_ModelStates auth2)" and "auth_wf auth \<Longrightarrow> auth_wf auth2" and "a_Quota auth2 = a_Quota auth"
    and "keys (a_ModelStates auth2) = insert key (stateKey ` keys (a_ModelStates auth))"
    and "a_Disabled auth2 = a_Disabled auth" "a_ID auth2 = a_ID auth" "a_Metadata auth2 = a_Metadata auth"
      "a_Attributes auth2 = a_Attributes auth"
    and "auth_wf auth \<Longrightarrow> state_ok st0"
    and "\<And>k st. stateAt auth k = Some st \<Longrightarrow> stateKey k = key \<Longrightarrow> covers st0 st"
    and "ms_Unavailable st2" and "ms_NextRetryAfter st2 = ms_NextRetryAfter st0" and "ms_Quota st2 = ms_Quota st0"
proof -
  obtain auth1 st0 where e: "ensureModelState auth modelKey = Some (auth1, st0)"
    and at: "stateAt auth1 key = Some st0" and fr: "auth1 = auth\<lparr>a_ModelStates := a_ModelStates auth1\<rparr>"
    and d: "distinct_keys (a_ModelStates auth1)" and wf: "auth_wf auth \<Longrightarrow> auth_wf auth1"
    and cov: "\<And>k st. stateAt auth k = Some st \<Longrightarrow> stateKey k = key \<Longrightarrow> covers st0 st"
    and ks: "keys (a_ModelStates auth1) = insert key (stateKey ` keys (a_ModelStates auth))"
    unfolding key_def by (rule ensureModelState_spec [OF assms(1,2)]) blast
  let ?st1 = "st0\<lparr>ms_Unavailable := True, ms_Status := StatusError, ms_UpdatedAt := now\<rparr>"
  obtain auth2 st2 where p2: "(case r_Error res of
                      None \<Rightarrow> (auth1, ?st1)
                    | Some e \<Rightarrow> (auth1\<lparr>a_LastError := Some e, a_StatusMessage := e_Message e\<rparr>,
                                 ?st1\<lparr>ms_LastError := Some e, ms_StatusMessage := e_Message e\<rparr>)) = (auth2, st2)" by fastforce
  obtain auth3 st3 where p3: "modelFailureSwitch env now res dc key auth2 st2 = (auth3, st3)" by fastforce
  have eq: "applyModelFailure env now res modelKey auth = updateAggregatedAvailability now
       ((putModelState key (settleModelFailure now (r_Error res) dc (ms_NextRetryAfter st0) st3) auth3)\<lparr>a_Status := StatusError\<rparr>)"
    using p3 by (simp add: applyModelFailure_def e p2 dc_def key_def Let_def)
  have ms: "a_ModelStates auth2 = a_ModelStates auth1" using p2 by (auto split: option.splits)
  have f2: "a_Quota auth2 = a_Quota auth1" "a_Disabled auth2 = a_Disabled auth1" "a_ID auth2 = a_ID auth1"
    "a_Metadata auth2 = a_Metadata auth1" "a_Attributes auth2 = a_Attributes auth1" using p2 by (auto split: option.splits)
  have f1: "a_Quota auth1 = a_Quota auth" "a_Disabled auth1 = a_Disabled auth" "a_ID auth1 = a_ID auth"
    "a_Metadata auth1 = a_Metadata auth" "a_Attributes auth1 = a_Attributes auth" by (subst fr, simp)+
  have s2: "ms_Unavailable st2" "ms_NextRetryAfter st2 = ms_NextRetryAfter st0" "ms_Quota st2 = ms_Quota st0"
    using p2 by (auto split: option.splits)
  show ?thesis
  proof (rule that [OF eq p3])
    show "auth_wf auth \<Longrightarrow> auth_wf auth2" using wf auth_wf_cong [OF ms] by simp
    show "auth_wf auth \<Longrightarrow> state_ok st0" using wf auth_wf_ok [OF _ at] by blast
    show "covers st0 st" if "stateAt auth k = Some st" "stateKey k = key" for k st using that by (rule cov)
  qed (use d ms ks f1 f2 s2 in simp_all)
qed

end
