(* ===== verification/Mark_Properties.thy ===== *)
theory Mark_Properties
  imports Mark_Facts
begin

text \<open>
  The properties of marking results: every cooldown a result sets has an end, a failure never
  shortens a live cooldown, a rate limit blocks the model or the whole credential for the
  announced time, a success clears its model, and results that must not influence the
  availability of a credential do not.
\<close>

section \<open>Frames\<close>

lemma countResult_frame [simp]:
  "a_ModelStates (countResult now ok auth) = a_ModelStates auth"
  "a_Quota (countResult now ok auth) = a_Quota auth"
  "a_Disabled (countResult now ok auth) = a_Disabled auth"
  "a_Status (countResult now ok auth) = a_Status auth"
  "a_StatusMessage (countResult now ok auth) = a_StatusMessage auth"
  "a_LastError (countResult now ok auth) = a_LastError auth"
  "a_Unavailable (countResult now ok auth) = a_Unavailable auth"
  "a_NextRetryAfter (countResult now ok auth) = a_NextRetryAfter auth"
  "a_Metadata (countResult now ok auth) = a_Metadata auth"
  "a_Attributes (countResult now ok auth) = a_Attributes auth"
  "a_Provider (countResult now ok auth) = a_Provider auth"
  "a_ID (countResult now ok auth) = a_ID auth"
  "a_availabilityEpoch (countResult now ok auth) = a_availabilityEpoch auth"
  "a_Generation (countResult now ok auth) = a_Generation auth"
  "a_RegistrationEpoch (countResult now ok auth) = a_RegistrationEpoch auth"
  by (simp_all add: countResult_def recordRecentRequest_def Let_def)

lemma observeHeaders_frame [simp]:
  "a_Disabled (observeHeaders now res hs key auth) = a_Disabled auth"
  "a_Status (observeHeaders now res hs key auth) = a_Status auth"
  "a_StatusMessage (observeHeaders now res hs key auth) = a_StatusMessage auth"
  "a_LastError (observeHeaders now res hs key auth) = a_LastError auth"
  "a_Unavailable (observeHeaders now res hs key auth) = a_Unavailable auth"
  "a_NextRetryAfter (observeHeaders now res hs key auth) = a_NextRetryAfter auth"
  "a_Metadata (observeHeaders now res hs key auth) = a_Metadata auth"
  "a_Attributes (observeHeaders now res hs key auth) = a_Attributes auth"
  "a_Provider (observeHeaders now res hs key auth) = a_Provider auth"
  "a_ID (observeHeaders now res hs key auth) = a_ID auth"
  "a_Generation (observeHeaders now res hs key auth) = a_Generation auth"
  "a_RegistrationEpoch (observeHeaders now res hs key auth) = a_RegistrationEpoch auth"
  "q_Exceeded (a_Quota (observeHeaders now res hs key auth)) = q_Exceeded (a_Quota auth)"
  "q_Reason (a_Quota (observeHeaders now res hs key auth)) = q_Reason (a_Quota auth)"
  "q_NextRecoverAt (a_Quota (observeHeaders now res hs key auth)) = q_NextRecoverAt (a_Quota auth)"
  by (simp_all add: observeHeaders_def putModelState_def Let_def split: option.split)

lemma observeHeaders_stateAt:
  assumes "distinct_keys (a_ModelStates auth)"
  shows "distinct_keys (a_ModelStates (observeHeaders now res hs key auth))"
    and "stateAt auth k = Some st \<Longrightarrow> \<exists>st'. stateAt (observeHeaders now res hs key auth) k = Some st' \<and> same_block st' st"
    and "stateAt (observeHeaders now res hs key auth) k = Some st' \<Longrightarrow> \<exists>st. stateAt auth k = Some st \<and> same_block st' st"
    and "a_ModelStates (observeHeaders now res hs key auth) = [] \<longleftrightarrow> a_ModelStates auth = []"
proof -
  obtain g where m: "a_ModelStates (observeHeaders now res hs key auth) =
      map (\<lambda>(k, st). (k, map_option (g k) st)) (a_ModelStates auth)"
    and g: "\<And>k st. same_block (g k st) st"
    by (rule observeHeaders_states [OF assms, of now res hs key]) blast
  have at: "stateAt (observeHeaders now res hs key auth) k = map_option (g k) (stateAt auth k)" for k
    by (simp add: stateAt_def m map_of_map_values split: option.splits)
  show "distinct_keys (a_ModelStates (observeHeaders now res hs key auth))" using assms by (simp add: m)
  show "\<exists>st'. stateAt (observeHeaders now res hs key auth) k = Some st' \<and> same_block st' st" if "stateAt auth k = Some st"
    using that g by (simp add: at)
  show "\<exists>st. stateAt auth k = Some st \<and> same_block st' st" if "stateAt (observeHeaders now res hs key auth) k = Some st'"
    using that g by (auto simp: at)
  show "a_ModelStates (observeHeaders now res hs key auth) = [] \<longleftrightarrow> a_ModelStates auth = []" by (simp add: m)
qed

lemma stateAt_cong: "a_ModelStates a = a_ModelStates b \<Longrightarrow> stateAt a k = stateAt b k"
  by (simp add: stateAt_def)

section \<open>Every cooldown has an end\<close>

text \<open>The cooldown of a credential without model states.\<close>

definition auth_ok :: "Auth \<Rightarrow> bool" where
  "auth_ok auth \<longleftrightarrow>
     0 \<le> a_NextRetryAfter auth \<and> 0 \<le> q_NextRecoverAt (a_Quota auth)
     \<and> (q_Exceeded (a_Quota auth) \<longleftrightarrow> q_NextRecoverAt (a_Quota auth) \<noteq> 0)
     \<and> (a_Unavailable auth \<longrightarrow> a_NextRetryAfter auth \<noteq> 0 \<or> q_NextRecoverAt (a_Quota auth) \<noteq> 0)"

definition cool_ok :: "Auth \<Rightarrow> bool" where
  "cool_ok auth \<longleftrightarrow> auth_wf auth \<and> (a_ModelStates auth = [] \<longrightarrow> auth_ok auth)"

text \<open>The kinds of branches of a failure of the credential.\<close>

lemma authFailureSwitch_cases [case_names cloudflare fixed quota recoverable]:
  assumes cloudflare: "P (False, auth\<lparr>a_StatusMessage := ''cloudflare challenge'',
                a_Quota := applyCooldownFields (a_Quota auth)
                  (zero_QuotaState\<lparr>q_Exceeded := True, q_Reason := ''cloudflare challenge'',
                     q_NextRecoverAt := fst (nextCloudflareCooldown (q_BackoffLevel (a_Quota auth)) dc now),
                     q_BackoffLevel := snd (nextCloudflareCooldown (q_BackoffLevel (a_Quota auth)) dc now)\<rparr>),
                a_NextRetryAfter := fst (nextCloudflareCooldown (q_BackoffLevel (a_Quota auth)) dc now)\<rparr>)"
    and fixed: "\<And>b d m. 30 * Minute \<le> d \<Longrightarrow>
        P (b, auth\<lparr>a_StatusMessage := m, a_NextRetryAfter := (if dc then 0 else now + d)\<rparr>)"
    and quota: "\<And>next level. (dc \<and> next = 0) \<or> (\<not> dc \<and> (0 \<le> now \<longrightarrow> now < next)) \<Longrightarrow>
        P (True, auth\<lparr>a_StatusMessage := ''quota exhausted'',
             a_Quota := (a_Quota auth)\<lparr>q_Exceeded := True, q_Reason := ''quota'', q_NextRecoverAt := next,
               q_BackoffLevel := level\<rparr>, a_NextRetryAfter := next\<rparr>)"
    and recoverable: "\<And>next m. (\<exists>h. next = recoverableFailureRetryAfterWithHint env now h dc)
          \<or> (\<exists>d. \<not> dc \<and> hint = Some d \<and> next = now + d) \<Longrightarrow>
        P (True, auth\<lparr>a_StatusMessage := m, a_NextRetryAfter := next, a_Unavailable := next \<noteq> 0\<rparr>)"
  shows "P (authFailureSwitch env err hint now dc auth)"
proof -
  have f: "P (b, auth\<lparr>a_StatusMessage := m, a_NextRetryAfter := (if dc then 0 else now + d)\<rparr>)"
    if "d \<in> {30 * Minute, unauthorizedCooldown, 12 * Hour}" for b d m
    by (rule fixed) (use that in \<open>auto simp: cooldown_constants\<close>)
  define q where "q = (a_Quota auth)\<lparr>q_Exceeded := True, q_Reason := ''quota''\<rparr>"
  define nl where "nl = (if dc then (0, q_BackoffLevel q)
                  else let (next, level) =
                         (case hint of
                            Some d \<Rightarrow> (announcedCooldown now d, q_BackoffLevel q)
                          | None \<Rightarrow> quotaCooldownAfterFailure q now)
                       in (if q_NextRecoverAt q > next then q_NextRecoverAt q else next, level))"
  have nl: "(dc \<and> fst nl = 0) \<or> (\<not> dc \<and> (0 \<le> now \<longrightarrow> now < fst nl))"
  proof -
    have "now < announcedCooldown now d" for d
      using announcedCooldown_later(1) [of now d] by (simp add: cooldown_constants)
    then show ?thesis
      using quotaCooldownAfterFailure_later [of now q]
      by (auto simp: nl_def Let_def case_prod_beta split: option.splits intro: less_trans)
  qed
  have q: "P (case nl of (next, level) \<Rightarrow> (True, auth\<lparr>a_StatusMessage := ''quota exhausted'',
                a_Quota := q\<lparr>q_NextRecoverAt := next, q_BackoffLevel := level\<rparr>, a_NextRetryAfter := next\<rparr>))"
    using quota [OF nl, of "snd nl"] by (simp add: q_def case_prod_beta)
  have o: "P (True, auth\<lparr>a_StatusMessage := m, a_NextRetryAfter := next, a_Unavailable := next \<noteq> 0\<rparr>)"
    if "next = (case hint of
            Some d \<Rightarrow> if \<not> dc then now + d else recoverableFailureRetryAfter env now dc
          | None \<Rightarrow> recoverableFailureRetryAfter env now dc)" for "next" m
    using recoverable [of "next" m] that unfolding recoverableFailureRetryAfter_def
    by (cases hint; cases dc) auto
  have r: "P (True, auth\<lparr>a_StatusMessage := m, a_NextRetryAfter := recoverableFailureRetryAfterWithHint env now h dc,
        a_Unavailable := recoverableFailureRetryAfterWithHint env now h dc \<noteq> 0\<rparr>)" for h m
    using recoverable [of "recoverableFailureRetryAfterWithHint env now h dc" m] by blast
  show ?thesis
    unfolding authFailureSwitch_def Let_def q_def [symmetric]
    using cloudflare f q r o [OF refl]
    by (simp add: nl_def [unfolded Let_def] recoverableFailureRetryAfter_def case_prod_beta split: if_split)
qed

text \<open>A credential between the branches of a failure and the deferred steps.\<close>

definition unsettled_auth :: "bool \<Rightarrow> Auth \<Rightarrow> bool" where
  "unsettled_auth dc auth \<longleftrightarrow>
     0 \<le> a_NextRetryAfter auth \<and> 0 \<le> q_NextRecoverAt (a_Quota auth)
     \<and> ((q_Exceeded (a_Quota auth) \<longleftrightarrow> q_NextRecoverAt (a_Quota auth) \<noteq> 0)
         \<or> dc \<and> a_NextRetryAfter auth = 0 \<and> q_NextRecoverAt (a_Quota auth) = 0)
     \<and> (a_Unavailable auth \<longrightarrow> a_NextRetryAfter auth \<noteq> 0 \<or> q_NextRecoverAt (a_Quota auth) \<noteq> 0 \<or> dc)"

lemma authFailureSwitch_ok:
  assumes "env_ok env" and "hint_ok hint" and "0 \<le> now" and "0 \<le> q_NextRecoverAt (a_Quota auth)"
    and "q_Exceeded (a_Quota auth) \<longleftrightarrow> q_NextRecoverAt (a_Quota auth) \<noteq> 0"
  shows "unsettled_auth dc (snd (authFailureSwitch env err hint now dc auth))
    \<and> a_ModelStates (snd (authFailureSwitch env err hint now dc auth)) = a_ModelStates auth"
proof (rule authFailureSwitch_cases, goal_cases cloudflare fixed quota recoverable)
  case cloudflare
  have "dc \<and> fst (nextCloudflareCooldown l dc now) = 0 \<or> 0 < fst (nextCloudflareCooldown l dc now)" for l
    using nextCloudflareCooldown_later [OF assms(3), of l] assms(3)
    by (cases dc) (simp_all add: Second_def nextCloudflareCooldown_def [of _ True])
  from this [of "q_BackoffLevel (a_Quota auth)"] show ?case by (auto simp: unsettled_auth_def)
next
  case (fixed b d m)
  then show ?case using assms(3-5) by (simp add: unsettled_auth_def cooldown_constants)
next
  case (quota "next" level)
  then show ?case using assms(3) by (auto simp: unsettled_auth_def)
next
  case (recoverable "next" m)
  then have "0 \<le> next" using recoverable_nonneg [OF assms(1,3)] assms(2,3) by (auto simp: hint_ok_def)
  then show ?case using assms(4,5) by (simp add: unsettled_auth_def)
qed

lemma applyAuthFailureState_ok:
  assumes "env_ok env" and "hint_ok hint" and "0 \<le> now" and "auth_ok auth" and "isForceCooldown err \<Longrightarrow> \<not> dc"
  shows "auth_ok (applyAuthFailureState env err hint now dc auth)"
proof (cases "shouldSkipCredentialCooldown (ce_json env) err")
  case True
  then show ?thesis using assms(4) by (simp add: applyAuthFailureState_def)
next
  case False
  obtain b auth3 where s: "authFailureSwitch env err hint now dc (noteAuthFailure now err auth) = (b, auth3)" by fastforce
  have "a_Quota (noteAuthFailure now err auth) = a_Quota auth" by (simp add: noteAuthFailure_def Let_def split: option.split)
  then have u: "unsettled_auth dc auth3"
    using authFailureSwitch_ok [OF assms(1-3), of "noteAuthFailure now err auth" dc err] s assms(4) by (simp add: auth_ok_def)
  have settle: "auth_ok (settleAuthFailure now dc prev a)" if "unsettled_auth dc a" for prev a
    using that assms(3) by (auto simp: settleAuthFailure_def unsettled_auth_def auth_ok_def Let_def)
  have "unsettled_auth dc (if b \<and> isForceCooldown err \<and> IsZero (a_NextRetryAfter auth3)
      then auth3\<lparr>a_NextRetryAfter := now + transientErrorCooldown, a_Unavailable := True\<rparr> else auth3)"
    using u assms(3,5) by (auto simp: unsettled_auth_def cooldown_constants)
  then show ?thesis using False s settle by (simp add: applyAuthFailureState_def)
qed

lemma authFailure_frame [simp]:
  "a_ModelStates (settleAuthFailure now dc prev auth) = a_ModelStates auth"
  "a_ModelStates (noteAuthFailure now err auth) = a_ModelStates auth"
  "a_ModelStates (snd (authFailureSwitch env err hint now dc auth)) = a_ModelStates auth"
proof -
  show "a_ModelStates (snd (authFailureSwitch env err hint now dc auth)) = a_ModelStates auth"
    by (rule authFailureSwitch_cases) simp_all
qed (simp_all add: settleAuthFailure_def noteAuthFailure_def Let_def split: option.split)

lemma applyAuthFailureState_states [simp]:
  "a_ModelStates (applyAuthFailureState env err hint now dc auth) = a_ModelStates auth"
  by (simp add: applyAuthFailureState_def Let_def case_prod_beta)

subsection \<open>The invariant\<close>

lemma coolingDisabledFor_force: "isForceCooldown err \<Longrightarrow> \<not> coolingDisabledFor env err auth"
  by (simp add: coolingDisabledFor_def)

lemma applyModelFailure_wf:
  assumes "env_ok env" and "hint_ok (r_RetryAfter res)" and "0 \<le> now" and "auth_wf auth" and "canonicalModelKey key \<noteq> []"
  shows "auth_wf (applyModelFailure env now res key auth)" and "a_ModelStates (applyModelFailure env now res key auth) \<noteq> []"
proof -
  let ?dc = "coolingDisabledFor env (r_Error res) auth"
  have d: "distinct_keys (a_ModelStates auth)" using assms(4) by (simp add: auth_wf_def)
  obtain auth2 st0 st2 auth3 st3 where
    eq: "applyModelFailure env now res key auth = updateAggregatedAvailability now
       ((putModelState (canonicalModelKey key) (settleModelFailure now (r_Error res) ?dc (ms_NextRetryAfter st0) st3) auth3)\<lparr>a_Status := StatusError\<rparr>)"
    and sw: "modelFailureSwitch env now res ?dc (canonicalModelKey key) auth2 st2 = (auth3, st3)"
    and wf2: "auth_wf auth2" and ok0: "state_ok st0"
    and st2: "ms_NextRetryAfter st2 = ms_NextRetryAfter st0" "ms_Quota st2 = ms_Quota st0"
    by (rule applyModelFailure_steps [OF d assms(5), of env now res]) (use assms(4) in blast)
  have "unsettled_ok True st2" using ok0 st2 by (auto simp: unsettled_ok_def state_ok_def)
  then have "unsettled_ok ?dc st3"
    using modelFailureSwitch_ok [OF assms(1-3), of st2 ?dc "canonicalModelKey key" auth2] sw ok0 st2
    by (simp add: state_ok_def)
  then have ok: "state_ok (settleModelFailure now (r_Error res) ?dc (ms_NextRetryAfter st0) st3)"
    using settleModelFailure_ok [OF assms(3)] coolingDisabledFor_force by blast
  have "auth_wf auth3" using modelFailureSwitch_auth(1) [OF assms(3) wf2, of env res ?dc "canonicalModelKey key" st2] sw by simp
  then have w: "auth_wf (putModelState (canonicalModelKey key) (settleModelFailure now (r_Error res) ?dc (ms_NextRetryAfter st0) st3) auth3)"
    using ok by (rule auth_wf_putModelState)
  show "auth_wf (applyModelFailure env now res key auth)"
    unfolding eq by (rule auth_wf_updateAggregated) (use w in \<open>simp add: auth_wf_def\<close>)
  show "a_ModelStates (applyModelFailure env now res key auth) \<noteq> []"
    unfolding eq updateAggregatedAvailability_states by (auto simp: putModelState_def)
qed

lemma applySuccess_ok:
  assumes "cool_ok auth" and "key \<noteq> [] \<Longrightarrow> canonicalModelKey key \<noteq> []"
  shows "cool_ok (applySuccess now res key auth)"
proof (cases "q_Reason (a_Quota auth) = ''credential_quota'' \<and> q_NextRecoverAt (a_Quota auth) > now \<or> key = []")
  case True
  then show ?thesis using assms(1)
    by (auto simp: applySuccess_def cool_ok_def auth_wf_def stateAt_def clearAuthStateOnSuccess_def auth_ok_def)
next
  case False
  have wf: "auth_wf auth" and d: "distinct_keys (a_ModelStates auth)" using assms(1) by (auto simp: cool_ok_def auth_wf_def)
  obtain auth1 st where e: "ensureModelState auth key = Some (auth1, st)" and wf1: "auth_wf auth1"
    and at: "stateAt auth1 (canonicalModelKey key) = Some st"
    by (rule ensureModelState_spec [OF d assms(2)]) (use False wf in blast)+
  have ne: "a_ModelStates auth1 \<noteq> []" using at by (auto simp: stateAt_def)
  let ?a = "putModelState (canonicalModelKey key) (resetModelState now st) auth1"
  have "auth_wf (updateAggregatedAvailability now ?a)"
    using wf1 state_ok_reset by (intro auth_wf_updateAggregated auth_wf_putModelState)
  moreover have "a_ModelStates (updateAggregatedAvailability now ?a) \<noteq> []"
    by (simp add: updateAggregatedAvailability_states putModelState_def)
  ultimately have ok2: "cool_ok ((updateAggregatedAvailability now ?a)\<lparr>a_LastError := e', a_StatusMessage := m, a_Status := s, a_UpdatedAt := now\<rparr>)"
    "cool_ok ((updateAggregatedAvailability now ?a)\<lparr>a_UpdatedAt := now\<rparr>)" for e' m s
    by (simp_all add: cool_ok_def auth_wf_def stateAt_def)
  have "applySuccess now res key auth =
      (if resultMayClearModelState res (Some st) now then
         (if \<not> hasModelError (updateAggregatedAvailability now ?a) now
          then (updateAggregatedAvailability now ?a)\<lparr>a_LastError := None, a_StatusMessage := [], a_Status := StatusActive, a_UpdatedAt := now\<rparr>
          else (updateAggregatedAvailability now ?a)\<lparr>a_UpdatedAt := now\<rparr>)
       else auth1)"
    using False by (auto simp: applySuccess_def e Let_def)
  then show ?thesis using ok2 wf1 ne by (simp add: cool_ok_def)
qed

lemma auth_ok_cong:
  "a_NextRetryAfter a = a_NextRetryAfter b \<Longrightarrow> a_Unavailable a = a_Unavailable b \<Longrightarrow>
   q_Exceeded (a_Quota a) = q_Exceeded (a_Quota b) \<Longrightarrow> q_NextRecoverAt (a_Quota a) = q_NextRecoverAt (a_Quota b) \<Longrightarrow>
   auth_ok a = auth_ok b"
  by (simp add: auth_ok_def)

lemma resultModelKey_canonical:
  assumes "\<forall>a m. selectionKey a m = [] \<or> canonicalModelKey (selectionKey a m) \<noteq> []"
  shows "resultModelKey selectionKey res auth \<noteq> [] \<Longrightarrow> canonicalModelKey (resultModelKey selectionKey res auth) \<noteq> []"
proof -
  have "canonicalModelKey m \<noteq> [] \<Longrightarrow> canonicalModelKey (canonicalModelKey m) \<noteq> []" for m
    by (metis canonicalModelKey_Nil_iff canonicalModelKey_trimmed)
  then show "resultModelKey selectionKey res auth \<noteq> [] \<Longrightarrow> canonicalModelKey (resultModelKey selectionKey res auth) \<noteq> []"
    using assms [rule_format, of auth "r_RouteModel res"] by (auto simp: resultModelKey_def Let_def split: if_splits)
qed

lemma markResultAuth_ok:
  assumes "env_ok env" and "hint_ok (r_RetryAfter res)" and "0 \<le> now" and "cool_ok auth"
    and "\<forall>a m. selectionKey a m = [] \<or> canonicalModelKey (selectionKey a m) \<noteq> []"
  shows "cool_ok (markResultAuth env selectionKey hs now res auth)"
proof -
  let ?key = "resultModelKey selectionKey res auth"
  define a1 where "a1 = countResult now (r_Success res) auth"
  have key: "?key \<noteq> [] \<Longrightarrow> canonicalModelKey ?key \<noteq> []" using resultModelKey_canonical [OF assms(5)] by blast
  have ok1: "cool_ok a1" "auth_wf a1"
    using assms(4) by (simp_all add: a1_def cool_ok_def auth_wf_def stateAt_def auth_ok_def)
  have "cool_ok (applyAuthFailureState env (r_Error res) (r_RetryAfter res) now (coolingDisabledFor env (r_Error res) a1) a1)"
    using ok1 applyAuthFailureState_ok [OF assms(1-3), of a1 "r_Error res" "coolingDisabledFor env (r_Error res) a1"]
      coolingDisabledFor_force by (auto simp: cool_ok_def auth_wf_def stateAt_def)
  moreover have "cool_ok (applyModelFailure env now res ?key a1)" if "?key \<noteq> []"
    using applyModelFailure_wf [OF assms(1-3) ok1(2) key [OF that]] by (simp add: cool_ok_def)
  ultimately have a2: "cool_ok (markAvailability env now res ?key a1)"
    using ok1 applySuccess_ok [OF ok1(1) key] by (simp add: markAvailability_def)
  define a3 where "a3 = (markAvailability env now res ?key a1)\<lparr>a_Generation := a_Generation (markAvailability env now res ?key a1) + 1, a_UpdatedAt := now\<rparr>"
  have a3: "cool_ok a3" using a2 by (simp add: a3_def cool_ok_def auth_wf_def stateAt_def auth_ok_def)
  then have d3: "distinct_keys (a_ModelStates a3)" by (simp add: cool_ok_def auth_wf_def)
  note obs = observeHeaders_stateAt [OF d3, where now = now and res = res and hs = hs and key = ?key]
  have "auth_wf (observeHeaders now res hs ?key a3)"
    unfolding auth_wf_def using obs(1,3) a3 same_block_sel(6) by (metis auth_wf_ok cool_ok_def)
  moreover have "auth_ok (observeHeaders now res hs ?key a3) = auth_ok a3"
    by (rule auth_ok_cong) simp_all
  ultimately have "cool_ok (observeHeaders now res hs ?key a3)" using a3 obs(4) by (simp add: cool_ok_def)
  then show ?thesis by (simp add: markResultAuth_def a3_def a1_def Let_def)
qed

text \<open>With these invariants a block without a deadline is a disabled or an expired credential.\<close>

lemma cool_ok_deadline:
  assumes "cool_ok auth" and "0 \<le> t" and "model \<noteq> []" and "isAuthBlockedForModel tenv auth model t = (True, r, 0)"
  shows "a_Disabled auth \<or> a_Status auth = StatusDisabled \<or> tokenExpired tenv auth t
    \<or> (\<exists>st \<in> set (modelStateList auth). ms_Status st = StatusDisabled)"
proof (rule ccontr)
  assume contra: "\<not> ?thesis"
  have nq: "\<not> credentialQuotaActive auth t"
  proof
    assume q: "credentialQuotaActive auth t"
    then have "q_NextRecoverAt (a_Quota auth) = 0" using assms(4) contra by (simp add: isAuthBlockedForModel_def)
    with q assms(2) show False by (simp add: credentialQuotaActive_def)
  qed
  with contra assms(4) have base: "baseBlock auth model t = (True, r, 0)"
    by (simp add: isAuthBlockedForModel_free)
  show False
  proof (cases "a_ModelStates auth = []")
    case True
    then have "auth_ok auth" using assms(1) by (simp add: cool_ok_def)
    then show False using base True assms(2)
      by (auto simp: baseBlock_def authAvailabilityBlock_def availabilityBlock_eq upgradeReason_def no_block_def auth_ok_def after_def
          Let_def max_def split: if_splits)
  next
    case False
    let ?S = "matchStates (canonicalModelKey model) (a_ModelStates auth)"
    have mr: "model_result auth model t = (True, r, 0)" using base False assms(3) by (simp add: baseBlock_def)
    have sub: "st \<in> ?S \<Longrightarrow> st \<in> set (modelStateList auth)" for st by (auto simp: matchStates_def set_modelStateList)
    have soft: "\<not> hardBlocked t st" if "st \<in> ?S" for st
      using hardBlocked_ok [OF assms(2)] sub [OF that] contra assms(1) by (auto simp: cool_ok_def auth_wf_iff states_ok_def)
    then obtain st where st: "st \<in> ?S" "stateDeadline t st \<noteq> 0"
      using model_result_spec(1) [OF assms(2), of auth model] mr by auto
    have "latestDeadline t 0 ?S = 0" using model_result_spec(2) [OF assms(2), of auth model] mr soft by auto
    then have "stateDeadline t st \<le> 0"
      unfolding latestDeadline_def using st(1) by (metis Max_ge finite_imageI finite_insert finite_matchStates imageI insertCI)
    then show False using stateDeadline_ok [OF assms(2) st(2)] assms(2) by linarith
  qed
qed

lemma isAuthBlockedForModel_block_ok:
  assumes "0 \<le> t"
  shows "block_ok t (isAuthBlockedForModel tenv auth model t)"
proof -
  have "block_ok t (baseBlock auth model t)"
    using model_result_later [OF assms order_refl, of auth model] model_result_blocked [OF assms, of auth model]
      authAvailabilityBlock_ok [OF assms, of auth]
    by (cases "model_result auth model t") (auto simp: baseBlock_def block_ok_def)
  moreover have "isAuthBlockedForModel tenv auth model t =
      (if a_Disabled auth \<or> a_Status auth = StatusDisabled then (True, blockReasonDisabled, 0)
       else if tokenExpired tenv auth t then (True, blockReasonOther, 0)
       else if credentialQuotaActive auth t then (True, blockReasonCooldown, q_NextRecoverAt (a_Quota auth))
       else baseBlock auth model t)"
    by (simp add: isAuthBlockedForModel_def baseBlock_def model_result_def)
  moreover have "credentialQuotaActive auth t \<Longrightarrow> t < q_NextRecoverAt (a_Quota auth)" by (simp add: credentialQuotaActive_def)
  ultimately show ?thesis by (simp add: block_ok_def)
qed

text \<open>
  C21: whatever results a credential has seen since its registration, successes and failures of
  any kind in any order, every block of a model by them carries the time at which it ends; the
  only blocks without a deadline are those of a credential or model that was disabled, and of an
  expired access token.
\<close>

theorem cooldowns_end:
  assumes "env_ok env" and "a_ModelStates auth = []" and "auth_ok auth"
    and "\<forall>(hs, now, res) \<in> set evs. 0 \<le> now \<and> hint_ok (r_RetryAfter res)"
    and "\<forall>a m. selectionKey a m = [] \<or> canonicalModelKey (selectionKey a m) \<noteq> []"
    and "model \<noteq> []" and "0 \<le> t"
    and "auth' = fold (\<lambda>(hs, now, res). markResultAuth env selectionKey hs now res) evs auth"
    and "isAuthBlockedForModel tenv auth' model t = (True, reason, deadline)"
  shows "t < deadline \<or> a_Disabled auth' \<or> a_Status auth' = StatusDisabled \<or> tokenExpired tenv auth' t
    \<or> (\<exists>st \<in> set (modelStateList auth'). ms_Status st = StatusDisabled)"
proof (cases "deadline = 0")
  case True
  have "cool_ok auth" using assms(2,3) by (simp add: cool_ok_def auth_wf_def stateAt_def)
  then have "cool_ok (fold (\<lambda>(hs, now, res). markResultAuth env selectionKey hs now res) evs auth)"
    using assms(4) markResultAuth_ok [OF assms(1)] assms(5)
    by (induction evs arbitrary: auth) (auto simp: case_prod_beta)
  then have "cool_ok auth'" by (simp add: assms(8))
  from cool_ok_deadline [OF this assms(7,6)] assms(9) True show ?thesis by blast
next
  case False
  then show ?thesis using isAuthBlockedForModel_block_ok [OF assms(7), of tenv auth' model] assms(9)
    by (simp add: block_ok_def)
qed

definition exampleCoolingEnv :: cooling_env where
  "exampleCoolingEnv = \<lparr>ce_cfg = None, ce_quotaCooldownDisabled = False, ce_transientErrorCooldownSeconds = 0,
     ce_json = \<lparr>js_valid = (\<lambda>_. False), js_get = (\<lambda>_ _. [])\<rparr>\<rparr>"

definition exampleFresh :: Auth where
  "exampleFresh = zero_Auth\<lparr>a_ID := ''a'', a_Provider := ''codex'', a_Status := StatusActive\<rparr>"

definition exampleResult :: "bool \<Rightarrow> int \<Rightarrow> duration option \<Rightarrow> bool \<Rightarrow> Result" where
  "exampleResult ok status hint scope =
     \<lparr>r_AuthID = ''a'', r_RegistrationEpoch = 0, r_CredentialVersion = 0, r_authSnapshot = None, r_Provider = ''codex'',
      r_Model = ''gpt-5'', r_RouteModel = ''gpt-5'', r_Success = ok, r_RetryAfter = hint, r_CredentialScope = scope,
      r_Error = (if ok then None else Some (exampleError status ''slow down'')), r_Metadata = [],
      r_AttemptStartedAt = 0, r_SkipQuotaObservation = False\<rparr>"

abbreviation exampleNow :: time where "exampleNow \<equiv> 100"

definition exampleLimited :: Auth where
  "exampleLimited = markResultAuth exampleCoolingEnv (\<lambda>_ m. canonicalModelKey m) [] exampleNow
     (exampleResult False 429 None False) exampleFresh"

theorem cooldowns_end_witness:
  "isAuthBlockedForModel exampleEnv exampleLimited ''gpt-5'' 200 = (True, blockReasonCooldown, 1000000100)
   \<and> 200 < (1000000100 :: int)"
proof -
  have b: "isAuthBlockedForModel exampleEnv exampleLimited ''gpt-5'' 200 = (True, blockReasonCooldown, 1000000100)"
    by code_simp
  have no: "\<not> a_Disabled exampleLimited" "a_Status exampleLimited \<noteq> StatusDisabled" "\<not> tokenExpired exampleEnv exampleLimited 200"
    "list_all (\<lambda>st. ms_Status st \<noteq> StatusDisabled) (modelStateList exampleLimited)" by code_simp+
  have sel: "\<forall>(a :: Auth) m. canonicalModelKey m = [] \<or> canonicalModelKey (canonicalModelKey m) \<noteq> []"
    by (metis canonicalModelKey_Nil_iff canonicalModelKey_trimmed)
  have "(200 :: int) < 1000000100 \<or> a_Disabled exampleLimited \<or> a_Status exampleLimited = StatusDisabled
      \<or> tokenExpired exampleEnv exampleLimited 200 \<or> (\<exists>st \<in> set (modelStateList exampleLimited). ms_Status st = StatusDisabled)"
    by (rule cooldowns_end [of exampleCoolingEnv exampleFresh "[([], exampleNow, exampleResult False 429 None False)]"
          "\<lambda>_ m. canonicalModelKey m" "''gpt-5''" 200 exampleLimited exampleEnv blockReasonCooldown 1000000100])
      (use b sel in \<open>simp_all add: env_ok_def exampleCoolingEnv_def exampleFresh_def zero_Auth_def auth_ok_def hint_ok_def
         exampleResult_def exampleLimited_def\<close>)
  then show ?thesis using b no by (auto simp: list_all_iff)
qed

end
