(* ===== verification/Mark_Blocks.thy ===== *)
theory Mark_Blocks
  imports Mark_Properties
begin

text \<open>
  What a single result means for the availability of the credential: a failure blocks its model
  and never shortens a live cooldown, a credential-wide rate limit blocks every model, a success
  frees its model, and an outcome that must not count leaves every model as it was.
\<close>

section \<open>Blocking through one state\<close>

lemma blocked_by_state:
  assumes "0 \<le> t" and "distinct_keys (a_ModelStates auth)" and "stateAt auth k = Some st"
    and "canonicalModelKey k = canonicalModelKey model" and "model \<noteq> []"
    and "ms_Unavailable st" and "t < ms_NextRetryAfter st"
  shows "fst (isAuthBlockedForModel tenv auth model t)"
proof (cases "a_Disabled auth \<or> a_Status auth = StatusDisabled \<or> tokenExpired tenv auth t \<or> credentialQuotaActive auth t")
  case True
  then show ?thesis by (auto simp: isAuthBlockedForModel_def)
next
  case False
  have mem: "(k, Some st) \<in> set (a_ModelStates auth)" using assms(2,3) by (simp add: stateAt_mem)
  then have S: "st \<in> matchStates (canonicalModelKey model) (a_ModelStates auth)"
    using assms(4) by (auto simp: matchStates_def)
  have "stateDeadline t st \<noteq> 0"
    using assms(1,6,7)
    by (auto simp: stateDeadline_def modelAvailabilityBlock_def availabilityBlock_eq after_def upgradeReason_def)
  then have "fst (model_result auth model t)" using model_result_spec(1) [OF assms(1), of auth model] S by blast
  moreover have "a_ModelStates auth \<noteq> []" using mem by auto
  ultimately show ?thesis using False assms(5) by (simp add: isAuthBlockedForModel_free baseBlock_def)
qed

text \<open>A failure that may cool the model filed under \<open>modelKey\<close>.\<close>

definition coolingFailure :: "cooling_env \<Rightarrow> Result \<Rightarrow> string \<Rightarrow> Auth \<Rightarrow> bool" where
  "coolingFailure env res modelKey auth \<longleftrightarrow>
     \<not> r_Success res \<and> \<not> a_Disabled auth \<and> a_Status auth \<noteq> StatusDisabled
     \<and> resultMatchesAvailabilityEpoch res (Some auth)
     \<and> \<not> shouldSkipCredentialCooldown (ce_json env) (r_Error res)
     \<and> \<not> coolingDisabledFor env (r_Error res) auth
     \<and> modelKey \<noteq> [] \<and> canonicalModelKey modelKey = modelKey"

lemma coolingDisabledFor_cong:
  "a_Metadata a = a_Metadata b \<Longrightarrow> a_Attributes a = a_Attributes b \<Longrightarrow> a_Provider a = a_Provider b \<Longrightarrow>
     coolingDisabledFor env err a = coolingDisabledFor env err b"
  unfolding coolingDisabledFor_def quotaCooldownDisabledForAuthWithConfig_def DisableCoolingOverride_def
    providerCoolingOverrideForAuth_def by (simp only:)

lemma resultMatchesAvailabilityEpoch_cong:
  "a_availabilityEpoch a = a_availabilityEpoch b \<Longrightarrow>
     resultMatchesAvailabilityEpoch res (Some a) = resultMatchesAvailabilityEpoch res (Some b)"
  by (cases "r_authSnapshot res") (simp_all add: resultMatchesAvailabilityEpoch_def)

text \<open>The credential after such a failure, before the headers are observed.\<close>

lemma markResultAuth_failure:
  assumes "coolingFailure env res modelKey auth" and "modelKey = resultModelKey selectionKey res auth"
    and "distinct_keys (a_ModelStates auth)" and "env_ok env" and "0 \<le> ce_transientErrorCooldownSeconds env"
    and "hint_ok (r_RetryAfter res)" and "0 < now"
  obtains auth2 st0 st2 auth3 st3 auth4 where
    "markResultAuth env selectionKey hs now res auth = observeHeaders now res hs modelKey
       ((updateAggregatedAvailability now auth4)
         \<lparr>a_Generation := a_Generation (updateAggregatedAvailability now auth4) + 1, a_UpdatedAt := now\<rparr>)"
    and "auth4 = (putModelState modelKey (settleModelFailure now (r_Error res) False (ms_NextRetryAfter st0) st3) auth3)
           \<lparr>a_Status := StatusError\<rparr>"
    and "modelFailureSwitch env now res False modelKey auth2 st2 = (auth3, st3)"
    and "distinct_keys (a_ModelStates auth4)" and "a_Quota auth2 = a_Quota auth"
    and "\<And>st. stateAt auth modelKey = Some st \<Longrightarrow> covers st0 st"
    and "ms_Unavailable st3" and "now \<le> ms_NextRetryAfter st3"
proof -
  define a1 where "a1 = countResult now (r_Success res) auth"
  have a1: "distinct_keys (a_ModelStates a1)" "a_Quota a1 = a_Quota auth" "stateAt a1 = stateAt auth"
    using assms(3) by (simp_all add: a1_def stateAt_def fun_eq_iff)
  have dc: "coolingDisabledFor env (r_Error res) a1 = False"
    using assms(1) coolingDisabledFor_cong [of a1 auth env] by (simp add: coolingFailure_def a1_def)
  have ck: "canonicalModelKey modelKey = modelKey" and ne: "canonicalModelKey modelKey \<noteq> []"
    using assms(1) by (simp_all add: coolingFailure_def)
  have sk: "stateKey modelKey = modelKey" using ck ne by (simp add: stateKey_def)
  obtain auth2 st0 st2 auth3 st3 where
    eq: "applyModelFailure env now res modelKey a1 = updateAggregatedAvailability now
       ((putModelState modelKey (settleModelFailure now (r_Error res) False (ms_NextRetryAfter st0) st3) auth3)\<lparr>a_Status := StatusError\<rparr>)"
    and sw: "modelFailureSwitch env now res False modelKey auth2 st2 = (auth3, st3)"
    and d2: "distinct_keys (a_ModelStates auth2)" and q2: "a_Quota auth2 = a_Quota a1"
    and cov: "\<And>k st. stateAt a1 k = Some st \<Longrightarrow> stateKey k = modelKey \<Longrightarrow> covers st0 st"
    and u2: "ms_Unavailable st2"
    by (rule applyModelFailure_steps [OF a1(1) ne, of env now res, unfolded dc ck]) blast
  let ?auth4 = "(putModelState modelKey (settleModelFailure now (r_Error res) False (ms_NextRetryAfter st0) st3) auth3)
           \<lparr>a_Status := StatusError\<rparr>"
  have "markAvailability env now res modelKey a1 = updateAggregatedAvailability now ?auth4"
    using assms(1) resultMatchesAvailabilityEpoch_cong [of a1 auth res] eq
    by (simp add: markAvailability_def coolingFailure_def a1_def)
  then have m: "markResultAuth env selectionKey hs now res auth = observeHeaders now res hs modelKey
       ((updateAggregatedAvailability now ?auth4)
         \<lparr>a_Generation := a_Generation (updateAggregatedAvailability now ?auth4) + 1, a_UpdatedAt := now\<rparr>)"
    by (simp add: markResultAuth_def Let_def assms(2) a1_def)
  have d3: "distinct_keys (a_ModelStates auth3)"
    using modelFailureSwitch_auth(2) [of now env res False modelKey auth2 st2] sw d2 assms(7) by simp
  have b: "ms_Unavailable st3" "now \<le> ms_NextRetryAfter st3"
    using modelFailureSwitch_blocks [OF assms(4-7) u2, of modelKey auth2] sw by simp_all
  show ?thesis
  proof (rule that [OF m refl sw _ _ _ b])
    show "distinct_keys (a_ModelStates ?auth4)" using d3 by simp
    show "a_Quota auth2 = a_Quota auth" using q2 a1(2) by simp
    show "covers st0 st" if "stateAt auth modelKey = Some st" for st using cov [OF _ sk] that a1(3) by simp
  qed
qed

text \<open>The model of such a failure is blocked until any deadline the settled state reaches.\<close>

lemma failure_blocks_until:
  assumes "coolingFailure env res modelKey auth" and "modelKey = resultModelKey selectionKey res auth"
    and "distinct_keys (a_ModelStates auth)" and "env_ok env" and "0 \<le> ce_transientErrorCooldownSeconds env"
    and "hint_ok (r_RetryAfter res)" and "0 < now"
    and "\<And>auth2 auth3 st0 st2 st3. modelFailureSwitch env now res False modelKey auth2 st2 = (auth3, st3) \<Longrightarrow>
      a_Quota auth2 = a_Quota auth \<Longrightarrow> (\<And>st. stateAt auth modelKey = Some st \<Longrightarrow> covers st0 st) \<Longrightarrow>
      ms_Unavailable st3 \<Longrightarrow> now \<le> ms_NextRetryAfter st3 \<Longrightarrow>
      until \<le> ms_NextRetryAfter (settleModelFailure now (r_Error res) False (ms_NextRetryAfter st0) st3)"
    and "now \<le> t" and "t < until" and "canonicalModelKey model = modelKey"
  shows "fst (isAuthBlockedForModel tenv (markResultAuth env selectionKey hs now res auth) model t)"
proof -
  obtain auth2 st0 st2 auth3 st3 auth4 where
    m: "markResultAuth env selectionKey hs now res auth = observeHeaders now res hs modelKey
       ((updateAggregatedAvailability now auth4)
         \<lparr>a_Generation := a_Generation (updateAggregatedAvailability now auth4) + 1, a_UpdatedAt := now\<rparr>)"
    and a4: "auth4 = (putModelState modelKey (settleModelFailure now (r_Error res) False (ms_NextRetryAfter st0) st3) auth3)
           \<lparr>a_Status := StatusError\<rparr>"
    and sw: "modelFailureSwitch env now res False modelKey auth2 st2 = (auth3, st3)"
    and d4: "distinct_keys (a_ModelStates auth4)" and q2: "a_Quota auth2 = a_Quota auth"
    and cov: "\<And>st. stateAt auth modelKey = Some st \<Longrightarrow> covers st0 st"
    and b3: "ms_Unavailable st3" "now \<le> ms_NextRetryAfter st3"
    by (rule markResultAuth_failure [OF assms(1-7)]) blast
  let ?st4 = "settleModelFailure now (r_Error res) False (ms_NextRetryAfter st0) st3"
  let ?a5 = "(updateAggregatedAvailability now auth4)
         \<lparr>a_Generation := a_Generation (updateAggregatedAvailability now auth4) + 1, a_UpdatedAt := now\<rparr>"
  have u: "until \<le> ms_NextRetryAfter ?st4" by (rule assms(8) [OF sw q2 cov b3])
  then have live: "t < ms_NextRetryAfter ?st4" "now < ms_NextRetryAfter ?st4" using assms(9,10) by simp_all
  have "stateAt ?a5 modelKey = Some ?st4"
    using live(2) by (simp add: stateAt_updateAggregated a4 liftExpired_def)
  moreover have d5: "distinct_keys (a_ModelStates ?a5)" using d4 by simp
  ultimately obtain st where st: "stateAt (observeHeaders now res hs modelKey ?a5) modelKey = Some st" "same_block st ?st4"
    using observeHeaders_stateAt(2) by blast
  have "model \<noteq> []" "canonicalModelKey modelKey = canonicalModelKey model"
    using assms(1,11) by (auto simp: coolingFailure_def)
  then show ?thesis
    unfolding m using st same_block_sel(1,2) [OF st(2)] live settleModelFailure_blocks(1) [OF assms(7) b3]
      observeHeaders_stateAt(1) [OF d5] assms(7,9)
    by (intro blocked_by_state [of t _ modelKey st]) auto
qed

text \<open>
  C22: a failure never shortens a live cooldown: with cooling on, a model that was blocked
  until \<open>d\<close> is still blocked at every moment before \<open>d\<close> after any further failure, whatever
  its status, its retry hint or its scope.
\<close>

theorem failure_never_shortens:
  assumes "coolingFailure env res modelKey auth" and "modelKey = resultModelKey selectionKey res auth"
    and "distinct_keys (a_ModelStates auth)" and "env_ok env" and "0 \<le> ce_transientErrorCooldownSeconds env"
    and "hint_ok (r_RetryAfter res)" and "0 < now"
    and "existingModelState auth modelKey = Some st" and "now \<le> t" and "t < ms_NextRetryAfter st"
    and "canonicalModelKey model = modelKey"
  shows "fst (isAuthBlockedForModel tenv (markResultAuth env selectionKey hs now res auth) model t)"
proof (rule failure_blocks_until [OF assms(1-7) _ assms(9,10,11)])
  fix auth2 auth3 :: Auth and st0 st2 st3 :: ModelState
  assume cov: "\<And>st. stateAt auth modelKey = Some st \<Longrightarrow> covers st0 st"
    and b: "ms_Unavailable st3" "now \<le> ms_NextRetryAfter st3"
  have "stateAt auth modelKey = Some st"
    using assms(1,8) by (auto simp: existingModelState_def stateAt_def coolingFailure_def split: if_splits option.splits)
  then have "ms_NextRetryAfter st \<le> ms_NextRetryAfter st0" using cov by (simp add: covers_def)
  moreover from this have "now < ms_NextRetryAfter st0" using assms(9,10) by simp
  ultimately show "ms_NextRetryAfter st \<le> ms_NextRetryAfter (settleModelFailure now (r_Error res) False (ms_NextRetryAfter st0) st3)"
    using settleModelFailure_blocks(3) [OF assms(7) b, of "ms_NextRetryAfter st0" "r_Error res"] by simp
qed

text \<open>
  After a rate-limit failure with a retry hint the model is blocked for the announced
  time, and for no less than ten seconds.
\<close>

lemma rate_limit_blocks_model:
  assumes "coolingFailure env res modelKey auth" and "modelKey = resultModelKey selectionKey res auth"
    and "distinct_keys (a_ModelStates auth)" and "env_ok env" and "0 \<le> ce_transientErrorCooldownSeconds env"
    and "0 < now" and "r_RetryAfter res = Some d" and "0 \<le> d"
    and "statusCodeFromResult (r_Error res) = 429" and "\<not> isCloudflareChallengeResultError (r_Error res)"
    and "now \<le> t" and "t < now + max minQuotaCooldownFloor d" and "canonicalModelKey model = modelKey"
  shows "fst (isAuthBlockedForModel tenv (markResultAuth env selectionKey hs now res auth) model t)"
proof (rule failure_blocks_until [OF assms(1-5) _ assms(6) _ assms(11,12,13)])
  show "hint_ok (r_RetryAfter res)" using assms(7,8) by (simp add: hint_ok_def)
  fix auth2 auth3 st0 st2 st3
  assume sw: "modelFailureSwitch env now res False modelKey auth2 st2 = (auth3, st3)"
    and b: "ms_Unavailable st3" "now \<le> ms_NextRetryAfter st3"
  have ns: "\<not> isModelSupportResultError (r_Error res)"
    using assms(9) by (auto simp: isModelSupportResultError_def statusCodeFromResult_def Error_StatusCode_def split: option.splits)
  have "now + max minQuotaCooldownFloor d \<le> ms_NextRetryAfter (snd (modelFailureSwitch env now res False modelKey auth2 st2))"
  proof (rule modelFailureSwitch_cases, goal_cases support cloudflare fixed quota recoverable)
    case (quota "next" c l)
    then show ?case using quotaFailureDeadlines_later [of now res auth2 st2 "next" c l] quotaFailureDeadlines_later(3) [of now res auth2 st2 "next" c l d] assms(6,7) by (auto simp: max_def)
  qed (use assms(9,10) ns in simp_all)
  then show "now + max minQuotaCooldownFloor d \<le> ms_NextRetryAfter (settleModelFailure now (r_Error res) False (ms_NextRetryAfter st0) st3)"
    using settleModelFailure_blocks(2) [OF assms(6) b, of "r_Error res" "ms_NextRetryAfter st0"] sw by simp
qed

text \<open>
  C23: a rate limit announced for the whole credential blocks every model of it, those it has
  never served included, for the announced time and no less than ten seconds.
\<close>

theorem credential_limit_blocks_all:
  assumes "coolingFailure env res modelKey auth" and "modelKey = resultModelKey selectionKey res auth"
    and "distinct_keys (a_ModelStates auth)" and "env_ok env" and "0 \<le> ce_transientErrorCooldownSeconds env"
    and "0 < now" and "r_RetryAfter res = Some d" and "0 \<le> d" and "r_CredentialScope res"
    and "statusCodeFromResult (r_Error res) = 429" and "\<not> isCloudflareChallengeResultError (r_Error res)"
    and "now \<le> t" and "t < now + max minQuotaCooldownFloor d"
  shows "\<forall>model. fst (isAuthBlockedForModel tenv (markResultAuth env selectionKey hs now res auth) model t)"
proof -
  have h: "hint_ok (r_RetryAfter res)" using assms(7,8) by (simp add: hint_ok_def)
  obtain auth2 st2 auth3 st3 auth4 and st0 :: ModelState where
    m: "markResultAuth env selectionKey hs now res auth = observeHeaders now res hs modelKey
       ((updateAggregatedAvailability now auth4)
         \<lparr>a_Generation := a_Generation (updateAggregatedAvailability now auth4) + 1, a_UpdatedAt := now\<rparr>)"
    and a4: "auth4 = (putModelState modelKey (settleModelFailure now (r_Error res) False (ms_NextRetryAfter st0) st3) auth3)
           \<lparr>a_Status := StatusError\<rparr>"
    and sw: "modelFailureSwitch env now res False modelKey auth2 st2 = (auth3, st3)"
    by (rule markResultAuth_failure [OF assms(1-5) h assms(6), where hs = hs]) (rule that)
  have ns: "\<not> isModelSupportResultError (r_Error res)"
    using assms(10) by (auto simp: isModelSupportResultError_def statusCodeFromResult_def Error_StatusCode_def split: option.splits)
  have "credentialQuotaActive (fst (modelFailureSwitch env now res False modelKey auth2 st2)) t"
  proof (rule modelFailureSwitch_cases, goal_cases support cloudflare fixed quota recoverable)
    case (quota "next" c l)
    have "now + max minQuotaCooldownFloor d \<le> c"
      using quotaFailureDeadlines_later(3) [OF _ quota(2) assms(7)] assms(6) by (auto simp: max_def)
    then have "t < c" using assms(13) by simp
    then show ?case using assms(9) by (simp add: markCredentialQuota_def credentialQuotaActive_def Let_def)
  qed (use assms(10,11) ns in simp_all)
  then have "credentialQuotaActive auth4 t"
    using sw by (simp add: a4 credentialQuotaActive_def putModelState_def)
  then have "credentialQuotaActive (updateAggregatedAvailability now auth4) t"
    using credentialQuotaActive_updateAggregated [OF assms(12)] by blast
  then have "credentialQuotaActive (markResultAuth env selectionKey hs now res auth) t"
    by (simp add: m credentialQuotaActive_def)
  then show ?thesis by (simp add: isAuthBlockedForModel_def)
qed

section \<open>Success\<close>

text \<open>The keys of the model states stay apart once more suffixes are stripped.\<close>

definition keys_stable :: "Auth \<Rightarrow> bool" where
  "keys_stable auth \<longleftrightarrow> (\<forall>k \<in> keys (a_ModelStates auth). canonicalModelKey (stateKey k) = stateKey k)"

definition clearingSuccess :: "time \<Rightarrow> Result \<Rightarrow> string \<Rightarrow> Auth \<Rightarrow> bool" where
  "clearingSuccess now res modelKey auth \<longleftrightarrow>
     r_Success res \<and> \<not> r_SkipQuotaObservation res \<and> \<not> a_Disabled auth \<and> a_Status auth \<noteq> StatusDisabled
     \<and> resultMatchesAvailabilityEpoch res (Some auth)
     \<and> \<not> (q_Reason (a_Quota auth) = ''credential_quota'' \<and> q_NextRecoverAt (a_Quota auth) > now)
     \<and> modelKey \<noteq> [] \<and> canonicalModelKey modelKey = modelKey
     \<and> resultMayClearModelState res (map_option snd (ensureModelState auth modelKey)) now"

lemma hardBlocked_reset: "\<not> hardBlocked t (resetModelState now st)" "stateDeadline t (resetModelState now st) = 0"
  by (simp_all add: hardBlocked_def stateDeadline_def modelAvailabilityBlock_def availabilityBlock_def upgradeReason_def
      resetModelState_def status_defs)

lemma model_result_free:
  assumes "0 \<le> t" and "distinct_keys (a_ModelStates auth)"
    and "\<And>k st. stateAt auth k = Some st \<Longrightarrow> canonicalModelKey k = canonicalModelKey model \<Longrightarrow>
      \<not> hardBlocked t st \<and> stateDeadline t st = 0"
  shows "\<not> fst (model_result auth model t)"
  using model_result_spec(1) [OF assms(1), of auth model] assms(3) stateAt_mem [OF assms(2)]
  by (auto simp: matchStates_def)

lemma ensureModelState_states_cong:
  "a_ModelStates a = a_ModelStates b \<Longrightarrow> map_option snd (ensureModelState a m) = map_option snd (ensureModelState b m)"
  by (simp add: ensureModelState_def normalizeModelStates_def Let_def case_prod_beta split: option.split)

text \<open>What a success that may clear the state leaves: the model is reset, and no credential-wide quota is live.\<close>

lemma applySuccess_cleared:
  assumes d: "distinct_keys (a_ModelStates a)" and ks: "keys_stable a" and key: "modelKey \<noteq> []" "canonicalModelKey modelKey = modelKey"
    and q: "\<not> (q_Reason (a_Quota a) = ''credential_quota'' \<and> q_NextRecoverAt (a_Quota a) > now)"
    and may: "resultMayClearModelState res (map_option snd (ensureModelState a modelKey)) now"
    and active: "a_Status a \<noteq> StatusDisabled"
  defines "w \<equiv> applySuccess now res modelKey a"
  shows "distinct_keys (a_ModelStates w)" and "a_ModelStates w \<noteq> []" and "a_Disabled w = a_Disabled a" and "a_Status w \<noteq> StatusDisabled"
    and "now \<le> s \<Longrightarrow> \<not> credentialQuotaActive w s"
    and "stateAt w k = Some st' \<Longrightarrow> canonicalModelKey k = modelKey \<Longrightarrow> \<exists>st. st' = resetModelState now st"
proof -
  have ne: "canonicalModelKey modelKey \<noteq> []" using key by simp
  obtain a1 st where e: "ensureModelState a modelKey = Some (a1, st)" and d1: "distinct_keys (a_ModelStates a1)"
    and fr: "a1 = a\<lparr>a_ModelStates := a_ModelStates a1\<rparr>"
    and k1: "keys (a_ModelStates a1) = insert (canonicalModelKey modelKey) (stateKey ` keys (a_ModelStates a))"
    by (rule ensureModelState_spec [OF d ne]) blast
  let ?p = "putModelState modelKey (resetModelState now st) a1"
  define u where "u = updateAggregatedAvailability now ?p"
  have f1: "a_Quota a1 = a_Quota a" "a_Status a1 = a_Status a" "a_Disabled a1 = a_Disabled a" by (subst fr, simp)+
  have nq: "\<not> credentialQuotaActive ?p s" if "now \<le> s" for s
    using q that f1(1) by (auto simp: credentialQuotaActive_def putModelState_def)
  have at: "stateAt u k = map_option (liftExpired now) (if k = modelKey then Some (resetModelState now st) else stateAt a1 k)" for k
    using nq [of now] by (simp add: u_def stateAt_updateAggregated)
  define v where "v = (if \<not> hasModelError u now then u\<lparr>a_LastError := None, a_StatusMessage := [], a_Status := StatusActive\<rparr> else u)"
  have w: "w = v\<lparr>a_UpdatedAt := now\<rparr>" using key q e may by (auto simp: w_def applySuccess_def v_def u_def Let_def)
  then have fw: "a_ModelStates w = a_ModelStates u" "a_Quota w = a_Quota u" by (simp_all add: v_def)
  show "a_Disabled w = a_Disabled a" "a_Status w \<noteq> StatusDisabled"
    using active by (simp_all add: w v_def u_def f1 putModelState_def status_defs)
  show "distinct_keys (a_ModelStates w)" unfolding fw(1) using d1 by (simp add: u_def)
  show "a_ModelStates w \<noteq> []" unfolding fw(1) by (simp add: u_def updateAggregatedAvailability_states putModelState_def)
  show "\<not> credentialQuotaActive w s" if "now \<le> s"
    using nq [OF that] credentialQuotaActive_updateAggregated [OF that, of ?p] fw(2) by (simp add: credentialQuotaActive_def u_def)
  assume st': "stateAt w k = Some st'" and ck: "canonicalModelKey k = modelKey"
  have su: "stateAt u k = Some st'" using st' stateAt_cong [OF fw(1)] by simp
  have "k = modelKey"
  proof (rule ccontr)
    assume nk: "k \<noteq> modelKey"
    then have "map_of (a_ModelStates a1) k \<noteq> None" using su at [of k] by (auto simp: stateAt_def split: option.splits)
    then obtain k0 where "k0 \<in> keys (a_ModelStates a)" "k = stateKey k0" using k1 nk key(2) by (auto simp: map_of_eq_None_iff)
    then have "canonicalModelKey k = k" using ks unfolding keys_stable_def by blast
    with ck nk show False by simp
  qed
  then show "\<exists>st. st' = resetModelState now st" using su at [of k] by (auto simp: liftExpired_def resetModelState_def)
qed


section \<open>Outcomes that do not count\<close>

text \<open>A map over the states that keeps each block keeps the result of the loop over them.\<close>

lemma modelStatesBlock_same:
  assumes "\<And>k st. ms_Status (g k st) = ms_Status st" and "\<And>k st. modelAvailabilityBlock (g k st) t = modelAvailabilityBlock st t"
  shows "modelStatesBlock key t (map (\<lambda>(k, st). (k, map_option (g k) st)) m) matched acc = modelStatesBlock key t m matched acc"
proof (induction m arbitrary: matched acc)
  case (Cons x m)
  then show ?case by (cases x; cases "snd x") (simp_all add: assms split: prod.split)
qed simp

lemma same_block_modelAvailabilityBlock: "same_block st' st \<Longrightarrow> modelAvailabilityBlock st' t = modelAvailabilityBlock st t"
  by (auto simp: same_block_def modelAvailabilityBlock_def)

lemma isAuthBlockedForModel_observe:
  assumes "distinct_keys (a_ModelStates auth)"
    and "a_ModelStates auth' = a_ModelStates auth" and "a_Quota auth' = a_Quota auth"
    and "a_Disabled auth' = a_Disabled auth" "a_Status auth' = a_Status auth" "a_Metadata auth' = a_Metadata auth"
      "a_Attributes auth' = a_Attributes auth" "a_StatusMessage auth' = a_StatusMessage auth" "a_LastError auth' = a_LastError auth"
      "a_Unavailable auth' = a_Unavailable auth" "a_NextRetryAfter auth' = a_NextRetryAfter auth"
  shows "isAuthBlockedForModel tenv (observeHeaders now res hs key auth') model t = isAuthBlockedForModel tenv auth model t"
proof -
  let ?o = "observeHeaders now res hs key auth'"
  have d: "distinct_keys (a_ModelStates auth')" using assms(1,2) by simp
  obtain g where m: "a_ModelStates ?o = map (\<lambda>(k, st). (k, map_option (g k) st)) (a_ModelStates auth)"
    and g: "\<And>k st. same_block (g k st) st"
    by (rule observeHeaders_states [OF d, of now res hs key, unfolded assms(2)]) (rule that)
  have "modelStatesBlock k t (a_ModelStates ?o) b acc = modelStatesBlock k t (a_ModelStates auth) b acc" for k b acc
    unfolding m using g same_block_sel(3) same_block_modelAvailabilityBlock by (intro modelStatesBlock_same) blast+
  moreover have "AccessTokenExpirationTime tenv ?o = AccessTokenExpirationTime tenv auth"
    by (rule AccessTokenExpirationTime_cong) (simp_all add: assms)
  moreover have "a_ModelStates ?o = [] \<longleftrightarrow> a_ModelStates auth = []" by (simp add: m)
  ultimately show ?thesis
    by (simp add: isAuthBlockedForModel_def tokenExpired_def credentialQuotaActive_def authAvailabilityBlock_def assms)
qed

text \<open>
  Some outcomes change no availability: those of a disabled credential, those of an attempt
  that began before the availability of the credential was reset, the success of an auxiliary
  request, and a failure of a model that the request itself is to blame for.
\<close>

lemma neutral_results_change_nothing:
  assumes "distinct_keys (a_ModelStates auth)"
    and "a_Disabled auth \<or> a_Status auth = StatusDisabled \<or> \<not> resultMatchesAvailabilityEpoch res (Some auth)
      \<or> (r_Success res \<and> r_SkipQuotaObservation res)
      \<or> (\<not> r_Success res \<and> resultModelKey selectionKey res auth \<noteq> [] \<and> shouldSkipCredentialCooldown (ce_json env) (r_Error res))"
  shows "isAuthBlockedForModel tenv (markResultAuth env selectionKey hs now res auth) model t =
    isAuthBlockedForModel tenv auth model t"
proof -
  define a1 where "a1 = countResult now (r_Success res) auth"
  have ep: "resultMatchesAvailabilityEpoch res (Some a1) = resultMatchesAvailabilityEpoch res (Some auth)"
    by (rule resultMatchesAvailabilityEpoch_cong) (simp add: a1_def)
  have "a_Disabled a1 = a_Disabled auth" "a_Status a1 = a_Status auth" by (simp_all add: a1_def)
  then have same: "markAvailability env now res (resultModelKey selectionKey res auth) a1 = a1"
    using assms(2) ep by (auto simp: markAvailability_def)
  have "markResultAuth env selectionKey hs now res auth =
      observeHeaders now res hs (resultModelKey selectionKey res auth) (a1\<lparr>a_Generation := a_Generation a1 + 1, a_UpdatedAt := now\<rparr>)"
    using same by (simp add: markResultAuth_def Let_def a1_def)
  moreover have "isAuthBlockedForModel tenv (observeHeaders now res hs (resultModelKey selectionKey res auth)
      (a1\<lparr>a_Generation := a_Generation a1 + 1, a_UpdatedAt := now\<rparr>)) model t = isAuthBlockedForModel tenv auth model t"
    by (rule isAuthBlockedForModel_observe [OF assms(1)]) (simp_all add: a1_def)
  ultimately show ?thesis by simp
qed

section \<open>Examples\<close>

abbreviation exampleKey :: "Auth \<Rightarrow> string \<Rightarrow> string" where "exampleKey \<equiv> (\<lambda>_ m. canonicalModelKey m)"

lemma example_coolingFailure:
  "coolingFailure exampleCoolingEnv (exampleResult False 429 (Some 60000000000) True) ''gpt-5'' exampleLimited"
  "resultModelKey exampleKey (exampleResult False 429 (Some 60000000000) True) exampleLimited = ''gpt-5''"
  "distinct_keys (a_ModelStates exampleLimited)" by code_simp+

lemma example_env: "env_ok exampleCoolingEnv" "0 \<le> ce_transientErrorCooldownSeconds exampleCoolingEnv"
  by (simp_all add: env_ok_def exampleCoolingEnv_def)

theorem failure_never_shortens_witness:
  "fst (isAuthBlockedForModel exampleEnv (markResultAuth exampleCoolingEnv exampleKey [] 200
     (exampleResult False 503 (Some 5) False) exampleLimited) ''gpt-5'' 1000000000)"
proof -
  have c: "coolingFailure exampleCoolingEnv (exampleResult False 503 (Some 5) False) ''gpt-5'' exampleLimited"
    "resultModelKey exampleKey (exampleResult False 503 (Some 5) False) exampleLimited = ''gpt-5''"
    "canonicalModelKey ''gpt-5'' = ''gpt-5''" by code_simp+
  have "map_option ms_NextRetryAfter (existingModelState exampleLimited ''gpt-5'') = Some 1000000100" by code_simp
  then obtain st where st: "existingModelState exampleLimited ''gpt-5'' = Some st" "ms_NextRetryAfter st = 1000000100" by blast
  show ?thesis
    by (rule failure_never_shortens [OF c(1) c(2) [symmetric] example_coolingFailure(3) example_env _ _ st(1)])
      (use st(2) c(3) in \<open>simp_all add: hint_ok_def exampleResult_def\<close>)
qed

theorem rate_limit_blocks_model_witness:
  "fst (isAuthBlockedForModel exampleEnv (markResultAuth exampleCoolingEnv exampleKey [] 200
     (exampleResult False 429 (Some 60000000000) True) exampleLimited) ''gpt-5'' 50000000000)"
proof -
  have c: "canonicalModelKey ''gpt-5'' = ''gpt-5''"
    "\<not> isCloudflareChallengeResultError (r_Error (exampleResult False 429 (Some 60000000000) True))" by code_simp+
  show ?thesis
    by (rule rate_limit_blocks_model [OF example_coolingFailure(1) example_coolingFailure(2) [symmetric] example_coolingFailure(3)
          example_env _ _ _ _ c(2), where d = 60000000000])
      (use c(1) in \<open>simp_all add: exampleResult_def exampleError_def statusCodeFromResult_def Error_StatusCode_def cooldown_constants\<close>)
qed

theorem credential_limit_blocks_all_witness:
  "fst (isAuthBlockedForModel exampleEnv (markResultAuth exampleCoolingEnv exampleKey [] 200
     (exampleResult False 429 (Some 60000000000) True) exampleLimited) ''never-served'' 50000000000)"
proof -
  have c: "\<not> isCloudflareChallengeResultError (r_Error (exampleResult False 429 (Some 60000000000) True))" by code_simp
  have "\<forall>model. fst (isAuthBlockedForModel exampleEnv (markResultAuth exampleCoolingEnv exampleKey [] 200
     (exampleResult False 429 (Some 60000000000) True) exampleLimited) model 50000000000)"
    by (rule credential_limit_blocks_all [OF example_coolingFailure(1) example_coolingFailure(2) [symmetric] example_coolingFailure(3)
          example_env _ _ _ _ _ c, where d = 60000000000])
      (simp_all add: exampleResult_def exampleError_def statusCodeFromResult_def Error_StatusCode_def cooldown_constants)
  then show ?thesis by blast
qed


end
