(* ===== verification/Cooldown_Records.thy ===== *)
theory Cooldown_Records
  imports Mark_Blocks Model_Info
begin

text \<open>
  Cooldowns that survive a restart: the snapshot of the live cooldowns as records, their restoration
  into the registered credentials, and the operations that clear cooldowns
  (\<^verbatim>\<open>sdk/cliproxy/auth/conductor_cooldown.go\<close>; the record of \<^verbatim>\<open>cooldown_state.go\<close>).

  The credentials of the manager are a map by identifier. The store itself is a
  \<open>CooldownStateStore\<close>; what it loads is an argument of the restoration. \<open>models\<close> is
  \<open>GetModelsForClient\<close> of the global model registry.
\<close>

section \<open>Records\<close>

record CooldownStateRecord =
  cr_Provider :: string
  cr_AuthID :: string
  cr_AuthFile :: string
  cr_Model :: string
  cr_Status :: string
  cr_NextRetryAfter :: time
  cr_NonUnauthorizedRetryAfter :: time
  cr_Reason :: string
  cr_Quota :: QuotaState
  cr_LastError :: "Error option"
  cr_UpdatedAt :: time

definition cooldownAuthFile :: "Auth \<Rightarrow> string" where
  "cooldownAuthFile auth =
     (let path = TrimSpace (get_str (a_Attributes auth) ''path'')
      in if path \<noteq> [] then path else TrimSpace (a_FileName auth))"

definition cooldownReason :: "string \<Rightarrow> QuotaState \<Rightarrow> Error option \<Rightarrow> string" where
  "cooldownReason statusMessage quota lastErr =
     (let reason = TrimSpace (q_Reason quota); message = TrimSpace statusMessage
      in if reason \<noteq> [] then reason
         else if message \<noteq> [] then message
         else case lastErr of
           None \<Rightarrow> []
         | Some e \<Rightarrow>
             if TrimSpace (e_Code e) \<noteq> [] then TrimSpace (e_Code e)
             else TrimSpace (e_Message e))"

definition authCooldownStateRecord :: "Auth \<Rightarrow> time \<Rightarrow> CooldownStateRecord option" where
  "authCooldownStateRecord auth now =
     (if \<not> a_Unavailable auth \<or> IsZero (a_NextRetryAfter auth) \<or> \<not> a_NextRetryAfter auth > now then None
      else Some
        \<lparr>cr_Provider = TrimSpace (a_Provider auth), cr_AuthID = a_ID auth, cr_AuthFile = cooldownAuthFile auth,
         cr_Model = [], cr_Status = ''cooling'', cr_NextRetryAfter = a_NextRetryAfter auth,
         cr_NonUnauthorizedRetryAfter = a_NonUnauthorizedRetryAfter auth,
         cr_Reason = cooldownReason (a_StatusMessage auth) (a_Quota auth) (a_LastError auth),
         cr_Quota = cooldownFieldsOf (a_Quota auth), cr_LastError = a_LastError auth, cr_UpdatedAt = a_UpdatedAt auth\<rparr>)"

definition modelCooldownStateRecord :: "Auth \<Rightarrow> string \<Rightarrow> ModelState option \<Rightarrow> time \<Rightarrow> CooldownStateRecord option" where
  "modelCooldownStateRecord auth model0 st now =
     (let model = TrimSpace model0
      in case st of
           None \<Rightarrow> None
         | Some state \<Rightarrow>
             if model = [] \<or> \<not> ms_Unavailable state \<or> IsZero (ms_NextRetryAfter state) \<or> \<not> ms_NextRetryAfter state > now
             then None
             else Some
               \<lparr>cr_Provider = TrimSpace (a_Provider auth), cr_AuthID = a_ID auth, cr_AuthFile = cooldownAuthFile auth,
                cr_Model = model, cr_Status = ''cooling'', cr_NextRetryAfter = ms_NextRetryAfter state,
                cr_NonUnauthorizedRetryAfter = ms_NonUnauthorizedRetryAfter state,
                cr_Reason = cooldownReason (ms_StatusMessage state) (ms_Quota state) (ms_LastError state),
                cr_Quota = cooldownFieldsOf (ms_Quota state), cr_LastError = ms_LastError state,
                cr_UpdatedAt = ms_UpdatedAt state\<rparr>)"

definition cooldownStateRecordsForAuthLocked :: "cooling_env \<Rightarrow> Auth \<Rightarrow> time \<Rightarrow> CooldownStateRecord list" where
  "cooldownStateRecordsForAuthLocked env auth now =
     (if a_ID auth = [] \<or> a_Disabled auth \<or> a_Status auth = StatusDisabled \<or> quotaCooldownDisabledForAuthWithConfig env auth
      then []
      else
        sort_key cr_Model
          ((case authCooldownStateRecord auth now of Some r \<Rightarrow> [r] | None \<Rightarrow> [])
           @ List.map_filter (\<lambda>(model, st). modelCooldownStateRecord auth model st now) (a_ModelStates auth)))"

definition cooldownStateRecordsSnapshot :: "cooling_env \<Rightarrow> time \<Rightarrow> (string, Auth) gomap \<Rightarrow> CooldownStateRecord list" where
  "cooldownStateRecordsSnapshot env now auths =
     sort_key (\<lambda>r. (cr_Provider r, cr_AuthID r, cr_Model r))
       (concat (map (\<lambda>(i, auth). cooldownStateRecordsForAuthLocked env auth now) auths))"

definition cooldownQuotaEqual :: "QuotaState \<Rightarrow> QuotaState \<Rightarrow> bool" where
  "cooldownQuotaEqual a b \<longleftrightarrow>
     q_Exceeded a = q_Exceeded b \<and> q_Reason a = q_Reason b \<and> q_BackoffLevel a = q_BackoffLevel b
     \<and> q_NextRecoverAt a = q_NextRecoverAt b"

definition cooldownErrorEqual :: "Error option \<Rightarrow> Error option \<Rightarrow> bool" where
  "cooldownErrorEqual a b =
     (case (a, b) of
        (Some x, Some y) \<Rightarrow> e_Code x = e_Code y \<and> e_Message x = e_Message y \<and> e_Retryable x = e_Retryable y
          \<and> e_HTTPStatus x = e_HTTPStatus y
      | (None, None) \<Rightarrow> True
      | _ \<Rightarrow> False)"

definition cooldownStateRecordEqual :: "CooldownStateRecord \<Rightarrow> CooldownStateRecord \<Rightarrow> bool" where
  "cooldownStateRecordEqual a b \<longleftrightarrow>
     cr_Provider a = cr_Provider b \<and> cr_AuthID a = cr_AuthID b \<and> cr_AuthFile a = cr_AuthFile b
     \<and> cr_Model a = cr_Model b \<and> cr_Status a = cr_Status b \<and> cr_Reason a = cr_Reason b
     \<and> cr_NextRetryAfter a = cr_NextRetryAfter b
     \<and> cr_NonUnauthorizedRetryAfter a = cr_NonUnauthorizedRetryAfter b
     \<and> cr_UpdatedAt a = cr_UpdatedAt b \<and> cooldownQuotaEqual (cr_Quota a) (cr_Quota b)
     \<and> cooldownErrorEqual (cr_LastError a) (cr_LastError b)"

definition cooldownStateRecordsEqual :: "CooldownStateRecord list \<Rightarrow> CooldownStateRecord list \<Rightarrow> bool" where
  "cooldownStateRecordsEqual a b \<longleftrightarrow> list_all2 cooldownStateRecordEqual a b"

section \<open>Restoration\<close>

definition restoreAuthRecord :: "CooldownStateRecord \<Rightarrow> QuotaState \<Rightarrow> time \<Rightarrow> Auth \<Rightarrow> Auth" where
  "restoreAuthRecord record quota updatedAt auth =
     (let reason = TrimSpace (cr_Reason record)
      in auth\<lparr>a_Unavailable := True, a_Status := StatusError, a_NextRetryAfter := cr_NextRetryAfter record,
           a_NonUnauthorizedRetryAfter := cr_NonUnauthorizedRetryAfter record,
           a_Quota := mergeQuotaObservation (applyCooldownFields (a_Quota auth) quota) quota,
           a_Generation := a_Generation auth + 1, a_UpdatedAt := updatedAt,
           a_StatusMessage := (if reason \<noteq> [] then reason else a_StatusMessage auth),
           a_LastError := cr_LastError record\<rparr>)"

definition recordState :: "CooldownStateRecord \<Rightarrow> QuotaState \<Rightarrow> time \<Rightarrow> ModelState" where
  "recordState record quota updatedAt =
     \<lparr>ms_Status = StatusError, ms_StatusMessage = TrimSpace (cr_Reason record), ms_Unavailable = True,
      ms_NextRetryAfter = cr_NextRetryAfter record,
      ms_NonUnauthorizedRetryAfter = cr_NonUnauthorizedRetryAfter record,
      ms_LastError = cr_LastError record, ms_Quota = quota, ms_UpdatedAt = updatedAt\<rparr>"

definition restoreModelRecord :: "CooldownStateRecord \<Rightarrow> QuotaState \<Rightarrow> time \<Rightarrow> time \<Rightarrow> Auth \<Rightarrow> Auth" where
  "restoreModelRecord record quota updatedAt now auth =
     (let model = TrimSpace (cr_Model record);
          auth1 = (case ensureModelState auth model of
                     None \<Rightarrow> auth
                   | Some (auth1, state) \<Rightarrow>
                       putModelState (canonicalModelKey model) (mergeStates state (recordState record quota updatedAt)) auth1)
      in updateAggregatedAvailability now
           (auth1\<lparr>a_Generation := a_Generation auth1 + 1, a_UpdatedAt := updatedAt\<rparr>))"

definition restoreCooldownRecordLocked ::
  "cooling_env \<Rightarrow> time \<Rightarrow> CooldownStateRecord \<Rightarrow> (string, Auth) gomap \<Rightarrow> (string, Auth) gomap \<times> bool" where
  "restoreCooldownRecordLocked env now record auths =
     (let authID = TrimSpace (cr_AuthID record) in
      if authID = [] \<or> IsZero (cr_NextRetryAfter record) \<or> \<not> cr_NextRetryAfter record > now then (auths, False)
      else case map_of auths authID of
        None \<Rightarrow> (auths, False)
      | Some auth \<Rightarrow>
          if a_Disabled auth \<or> a_Status auth = StatusDisabled \<or> quotaCooldownDisabledForAuthWithConfig env auth
          then (auths, False)
          else
            let updatedAt = (if IsZero (cr_UpdatedAt record) then now else cr_UpdatedAt record);
                quota = cr_Quota record;
                quota = (if q_Exceeded quota \<and> IsZero (q_NextRecoverAt quota)
                         then quota\<lparr>q_NextRecoverAt := cr_NextRetryAfter record\<rparr> else quota);
                auth' = (if TrimSpace (cr_Model record) = [] then restoreAuthRecord record quota updatedAt auth
                         else restoreModelRecord record quota updatedAt now auth)
            in (AList.update authID auth' auths, True))"

text \<open>The snapshots to be published to the scheduler are kept by identifier, the latest last.\<close>

definition restoreStep ::
  "cooling_env \<Rightarrow> time \<Rightarrow> CooldownStateRecord \<Rightarrow> (string, Auth) gomap \<times> (string, Auth) gomap
    \<Rightarrow> (string, Auth) gomap \<times> (string, Auth) gomap" where
  "restoreStep env now record acc =
     (case acc of (auths, snapshotsByID) \<Rightarrow>
        case restoreCooldownRecordLocked env now record auths of
          (auths', False) \<Rightarrow> (auths', snapshotsByID)
        | (auths', True) \<Rightarrow>
            (case map_of auths' (TrimSpace (cr_AuthID record)) of
               Some auth \<Rightarrow> (auths', AList.update (a_ID auth) auth snapshotsByID)
             | None \<Rightarrow> (auths', snapshotsByID)))"

definition RestoreCooldownStates ::
  "cooling_env \<Rightarrow> time \<Rightarrow> CooldownStateRecord list \<Rightarrow> (string, Auth) gomap \<Rightarrow> (string, Auth) gomap \<times> (string, Auth) gomap" where
  "RestoreCooldownStates env now records auths =
     (let modelRecords = filter (\<lambda>r. TrimSpace (cr_Model r) \<noteq> []) records;
          authLevelRecords = filter (\<lambda>r. TrimSpace (cr_Model r) = []) records
      in fold (restoreStep env now) authLevelRecords (fold (restoreStep env now) modelRecords (auths, [])))"

section \<open>Clearing\<close>

fun dedupeLoop :: "string list \<Rightarrow> string list \<Rightarrow> string list" where
  "dedupeLoop seen [] = []"
| "dedupeLoop seen (v # vs) =
     (let value = TrimSpace v in
      if value = [] \<or> value \<in> set seen then dedupeLoop seen vs
      else value # dedupeLoop (value # seen) vs)"

definition dedupeStrings :: "string list \<Rightarrow> string list" where
  "dedupeStrings values = (if length values < 2 then values else dedupeLoop [] values)"

definition modelsForRegisteredAuth :: "(string \<Rightarrow> ModelInfo option list) \<Rightarrow> string \<Rightarrow> string list" where
  "modelsForRegisteredAuth models authID =
     map (\<lambda>m. canonicalModelKey (mi_ID m))
       (filter (\<lambda>m. TrimSpace (mi_ID m) \<noteq> []) (List.map_filter (\<lambda>m. m) (models authID)))"

definition resetQuotaAuth :: "time \<Rightarrow> Auth \<Rightarrow> Auth" where
  "resetQuotaAuth now auth =
     (let auth1 = auth\<lparr>a_ModelStates := map (\<lambda>(model, st).
             (model, if TrimSpace model = [] then st else map_option (resetModelState now) st)) (a_ModelStates auth)\<rparr>;
          (auth2, cleared) = clearCooldownStateForAuth now auth1;
          auth3 = (if cleared then auth2
                   else if a_ModelStates auth2 \<noteq> [] then updateAggregatedAvailability now auth2 else auth2);
          auth4 = (if \<not> a_Disabled auth3 \<and> a_Status auth3 \<noteq> StatusDisabled \<and> \<not> hasModelError auth3 now
                   then auth3\<lparr>a_LastError := None, a_StatusMessage := [], a_Status := StatusActive\<rparr> else auth3)
      in auth4\<lparr>a_availabilityEpoch := a_availabilityEpoch auth4 + 1, a_Generation := a_Generation auth4 + 1,
           a_UpdatedAt := now\<rparr>)"

text \<open>The models whose registry routing is resumed: those with a state, or else the registered ones.\<close>

definition resetQuotaModels :: "(string \<Rightarrow> ModelInfo option list) \<Rightarrow> string \<Rightarrow> Auth \<Rightarrow> string list" where
  "resetQuotaModels models authID auth =
     (let own = filter (\<lambda>k. TrimSpace k \<noteq> []) (map fst (a_ModelStates auth))
      in dedupeStrings (if own = [] then modelsForRegisteredAuth models authID else own))"

text \<open>\<open>errPersist\<close> is what \<open>m.persist\<close> returns: it hides the result, not the change of the state.\<close>

definition ResetQuota ::
  "(string \<Rightarrow> ModelInfo option list) \<Rightarrow> string option \<Rightarrow> time \<Rightarrow> string \<Rightarrow> (string, Auth) gomap
    \<Rightarrow> (string, Auth) gomap \<times> (string + (Auth \<times> string list) option)" where
  "ResetQuota models errPersist now authID0 auths =
     (let authID = TrimSpace authID0 in
      if authID = [] then (auths, Inl ''auth id is required'')
      else case map_of auths authID of
        None \<Rightarrow> (auths, Inr None)
      | Some auth \<Rightarrow>
          let auth' = resetQuotaAuth now auth
          in (AList.update authID auth' auths,
              case errPersist of
                Some e \<Rightarrow> Inl e
              | None \<Rightarrow> Inr (Some (auth', resetQuotaModels models authID auth))))"

definition clearDisabledCooldownStates :: "cooling_env \<Rightarrow> time \<Rightarrow> (string, Auth) gomap \<Rightarrow> (string, Auth) gomap \<times> Auth list" where
  "clearDisabledCooldownStates env now auths =
     (let eligible = (\<lambda>auth. quotaCooldownDisabledForAuthWithConfig env auth \<or> a_Disabled auth \<or> a_Status auth = StatusDisabled)
      in (map (\<lambda>(i, auth). (i, if eligible auth then fst (clearCooldownStateForAuth now auth) else auth)) auths,
          List.map_filter (\<lambda>(i, auth). if eligible auth \<and> snd (clearCooldownStateForAuth now auth)
             then Some (fst (clearCooldownStateForAuth now auth)) else None) auths))"

section \<open>Restored cooldowns\<close>

text \<open>A model of the credential is known to cool down at least until \<open>u\<close>.\<close>

definition coolsUntil :: "Auth \<Rightarrow> string \<Rightarrow> time \<Rightarrow> bool" where
  "coolsUntil auth k u \<longleftrightarrow> (\<exists>st. stateAt auth k = Some st \<and> ms_Unavailable st \<and> u \<le> ms_NextRetryAfter st)"

definition stableKey :: "string \<Rightarrow> bool" where
  "stableKey k \<longleftrightarrow> k \<noteq> [] \<and> canonicalModelKey k = k"

lemma coolsUntil_blocked:
  assumes "coolsUntil auth k u" and "stableKey k" and "distinct_keys (a_ModelStates auth)"
    and "0 \<le> t" and "t < u" and "canonicalModelKey model = k"
  shows "fst (isAuthBlockedForModel tenv auth model t)"
proof -
  obtain st where "stateAt auth k = Some st" "ms_Unavailable st" "u \<le> ms_NextRetryAfter st"
    using assms(1) by (auto simp: coolsUntil_def)
  then show ?thesis using assms by (intro blocked_by_state [of t auth k st]) (auto simp: stableKey_def)
qed

text \<open>A credential that records may be restored into.\<close>

definition restorable :: "cooling_env \<Rightarrow> Auth \<Rightarrow> bool" where
  "restorable env auth \<longleftrightarrow> \<not> a_Disabled auth \<and> a_Status auth \<noteq> StatusDisabled
     \<and> \<not> quotaCooldownDisabledForAuthWithConfig env auth \<and> distinct_keys (a_ModelStates auth)"

lemma cooldownDisabled_cong:
  "a_Metadata a = a_Metadata b \<Longrightarrow> a_Attributes a = a_Attributes b \<Longrightarrow> a_Provider a = a_Provider b \<Longrightarrow>
     quotaCooldownDisabledForAuthWithConfig env a = quotaCooldownDisabledForAuthWithConfig env b"
  unfolding quotaCooldownDisabledForAuthWithConfig_def DisableCoolingOverride_def providerCoolingOverrideForAuth_def
  by (simp only:)

lemma updateAggregated_provider [simp]: "a_Provider (updateAggregatedAvailability now auth) = a_Provider auth"
  by (simp add: updateAggregatedAvailability_def clearAggregatedAvailability_def Let_def)

lemma restoreAuthRecord_spec:
  assumes "restorable env auth"
  shows "restorable env (restoreAuthRecord r q u auth)"
    and "a_ModelStates (restoreAuthRecord r q u auth) = a_ModelStates auth"
    and "a_Unavailable (restoreAuthRecord r q u auth)"
    and "a_NextRetryAfter (restoreAuthRecord r q u auth) = cr_NextRetryAfter r"
proof -
  have "quotaCooldownDisabledForAuthWithConfig env (restoreAuthRecord r q u auth) =
      quotaCooldownDisabledForAuthWithConfig env auth"
    by (rule cooldownDisabled_cong) (simp_all add: restoreAuthRecord_def Let_def)
  then show "restorable env (restoreAuthRecord r q u auth)"
    using assms by (simp add: restorable_def) (simp add: restoreAuthRecord_def Let_def status_defs)
qed (simp_all add: restoreAuthRecord_def Let_def)

lemma ensureModelState_keeps:
  assumes "distinct_keys (a_ModelStates auth)" and "ensureModelState auth model = Some (auth1, st)"
    and "stateAt auth k = Some st0"
  shows "\<exists>st'. stateAt auth1 (stateKey k) = Some st' \<and> covers st' st0"
proof -
  let ?n = "fst (normalizeModelStates auth)"
  have "(k, Some st0) \<in> set (a_ModelStates auth)" using assms(1,3) by (simp add: stateAt_mem)
  moreover have "\<forall>k st. (k, Some st) \<in> set (a_ModelStates auth) \<longrightarrow>
      (\<exists>st'. map_of (a_ModelStates ?n) (stateKey k) = Some (Some st') \<and> covers st' st)"
    using normalizeModelStates_filed [OF assms(1)] unfolding filed_def fst_conv by (elim conjE)
  ultimately obtain st' where st': "map_of (a_ModelStates ?n) (stateKey k) = Some (Some st')" "covers st' st0" by blast
  have e: "auth1 = ?n \<or> (\<exists>v. map_of (a_ModelStates ?n) (canonicalModelKey model) \<noteq> Some (Some st')
      \<and> auth1 = ?n\<lparr>a_ModelStates := AList.update (canonicalModelKey model) v (a_ModelStates ?n)\<rparr>)"
  proof (cases "\<exists>s. map_of (a_ModelStates ?n) (canonicalModelKey model) = Some (Some s)")
    case True
    then obtain s where "map_of (a_ModelStates ?n) (canonicalModelKey model) = Some (Some s)" by blast
    then have "auth1 = ?n" using assms(2) by (simp add: ensureModelState_def Let_def split: if_split_asm)
    then show ?thesis ..
  next
    case False
    have ne: "canonicalModelKey model \<noteq> []" using assms(2) by (simp add: ensureModelState_def Let_def split: if_split_asm)
    have "map_of (a_ModelStates ?n) (canonicalModelKey model) = None
        \<or> map_of (a_ModelStates ?n) (canonicalModelKey model) = Some None" using False by (metis option.exhaust)
    then have "auth1 = ?n\<lparr>a_ModelStates := AList.update (canonicalModelKey model) (Some st) (a_ModelStates ?n)\<rparr>"
      using assms(2) ne by (elim disjE) (simp_all add: ensureModelState_def Let_def, blast+)
    then show ?thesis using False by blast
  qed
  have "map_of (a_ModelStates auth1) (stateKey k) = Some (Some st')"
  proof (cases "auth1 = ?n")
    case False
    then obtain v where v: "map_of (a_ModelStates ?n) (canonicalModelKey model) \<noteq> Some (Some st')"
      "auth1 = ?n\<lparr>a_ModelStates := AList.update (canonicalModelKey model) v (a_ModelStates ?n)\<rparr>" using e by blast
    then have "stateKey k \<noteq> canonicalModelKey model" using st'(1) by metis
    then show ?thesis using st'(1) unfolding v(2) by (simp add: update_conv')
  qed (simp only: st'(1))
  then show ?thesis using st'(2) by (simp add: stateAt_def)
qed

lemma stableKey_stateKey: "stableKey k \<Longrightarrow> stateKey k = k"
  by (simp add: stableKey_def stateKey_def)

lemma coolsUntil_updateAggregated:
  "coolsUntil auth k v \<Longrightarrow> now < v \<Longrightarrow> coolsUntil (updateAggregatedAvailability now auth) k v"
proof -
  assume "coolsUntil auth k v" and v: "now < v"
  then obtain st where st: "stateAt auth k = Some st" "ms_Unavailable st" "v \<le> ms_NextRetryAfter st"
    unfolding coolsUntil_def by blast
  have "liftExpired now st = st" using v st(3) by (simp add: liftExpired_def)
  then have "stateAt (updateAggregatedAvailability now auth) k = Some st" using st(1) by (simp add: stateAt_updateAggregated)
  then show ?thesis unfolding coolsUntil_def using st(2,3) by blast
qed

lemma coolsUntil_covers: "covers st' st \<Longrightarrow> ms_Unavailable st \<Longrightarrow> v \<le> ms_NextRetryAfter st \<Longrightarrow>
    ms_Unavailable st' \<and> v \<le> ms_NextRetryAfter st'"
  by (auto simp: covers_def)

lemma restoreModelRecord_spec:
  assumes "restorable env auth" and "TrimSpace (cr_Model r) \<noteq> []" and "now < cr_NextRetryAfter r"
  shows "restorable env (restoreModelRecord r q u now auth)"
    and "coolsUntil (restoreModelRecord r q u now auth) (canonicalModelKey (cr_Model r)) (cr_NextRetryAfter r)"
    and "stableKey k \<Longrightarrow> now < v \<Longrightarrow> coolsUntil auth k v \<Longrightarrow> coolsUntil (restoreModelRecord r q u now auth) k v"
proof -
  let ?key = "canonicalModelKey (cr_Model r)" and ?new = "recordState r q u"
  have ne: "canonicalModelKey (TrimSpace (cr_Model r)) \<noteq> []" using assms(2) by (simp add: canonicalModelKey_Nil_iff)
  have d: "distinct_keys (a_ModelStates auth)" using assms(1) by (simp add: restorable_def)
  obtain auth1 st where e: "ensureModelState auth (TrimSpace (cr_Model r)) = Some (auth1, st)"
    and fr: "auth1 = auth\<lparr>a_ModelStates := a_ModelStates auth1\<rparr>"
    and d1: "distinct_keys (a_ModelStates auth1)"
    and st: "stateAt auth1 (canonicalModelKey (TrimSpace (cr_Model r))) = Some st"
    by (rule ensureModelState_spec [OF d ne]) blast
  define p where "p = putModelState ?key (mergeStates st ?new) auth1"
  let ?p = "p\<lparr>a_Generation := a_Generation p + 1, a_UpdatedAt := u\<rparr>"
  have eq: "restoreModelRecord r q u now auth = updateAggregatedAvailability now ?p"
    using e by (simp add: restoreModelRecord_def Let_def p_def)
  have f: "a_Disabled ?p = a_Disabled auth" "a_Status ?p = a_Status auth" "a_Metadata ?p = a_Metadata auth"
    "a_Attributes ?p = a_Attributes auth" "a_Provider ?p = a_Provider auth"
    unfolding p_def by (subst fr, simp add: putModelState_def)+
  have at: "stateAt ?p k = (if k = ?key then Some (mergeStates st ?new) else stateAt auth1 k)" for k
    by (simp add: p_def)
  have "quotaCooldownDisabledForAuthWithConfig env (updateAggregatedAvailability now ?p) =
      quotaCooldownDisabledForAuthWithConfig env auth"
    by (rule cooldownDisabled_cong) (use f in simp_all)
  then show "restorable env (restoreModelRecord r q u now auth)"
    using assms(1) f d1 by (simp add: restorable_def eq p_def)
  have m: "ms_Unavailable (mergeStates st ?new) \<and> cr_NextRetryAfter r \<le> ms_NextRetryAfter (mergeStates st ?new)"
    by (rule coolsUntil_covers [OF mergeStates_covers(2)]) (simp_all add: recordState_def)
  then have "coolsUntil ?p ?key (cr_NextRetryAfter r)" unfolding coolsUntil_def at by simp
  then show "coolsUntil (restoreModelRecord r q u now auth) ?key (cr_NextRetryAfter r)"
    unfolding eq using assms(3) by (rule coolsUntil_updateAggregated)
  show "coolsUntil (restoreModelRecord r q u now auth) k v" if k: "stableKey k" "now < v" "coolsUntil auth k v"
  proof -
    obtain st0 where st0: "stateAt auth k = Some st0" "ms_Unavailable st0" "v \<le> ms_NextRetryAfter st0"
      using k(3) by (auto simp: coolsUntil_def)
    obtain st1 where st1: "stateAt auth1 k = Some st1" "covers st1 st0"
      using ensureModelState_keeps [OF d e st0(1)] stableKey_stateKey [OF k(1)] by auto
    have "\<exists>st'. stateAt ?p k = Some st' \<and> covers st' st1"
      using at [of k] st st1(1) mergeStates_covers(1) by (cases "k = ?key") auto
    then have "coolsUntil ?p k v" using coolsUntil_covers [OF covers_trans [OF _ st1(2)] st0(2,3)]
      unfolding coolsUntil_def by blast
    then show ?thesis unfolding eq using k(2) by (rule coolsUntil_updateAggregated)
  qed
qed

subsection \<open>Record by record\<close>

text \<open>What restoring a sequence of records leaves of one credential.\<close>

definition kept :: "cooling_env \<Rightarrow> time \<Rightarrow> Auth \<Rightarrow> Auth \<Rightarrow> bool" where
  "kept env now auth auth' \<longleftrightarrow> restorable env auth'
     \<and> (\<forall>k v. stableKey k \<longrightarrow> now < v \<longrightarrow> coolsUntil auth k v \<longrightarrow> coolsUntil auth' k v)"

lemma kept_refl: "restorable env auth \<Longrightarrow> kept env now auth auth"
  by (simp add: kept_def)

lemma kept_trans: "kept env now a b \<Longrightarrow> kept env now b c \<Longrightarrow> kept env now a c"
  unfolding kept_def by blast

text \<open>A record that is restored into the credential filed under \<open>i\<close>.\<close>

definition restores :: "time \<Rightarrow> CooldownStateRecord \<Rightarrow> string \<Rightarrow> bool" where
  "restores now r i \<longleftrightarrow> TrimSpace (cr_AuthID r) = i \<and> i \<noteq> [] \<and> cr_NextRetryAfter r \<noteq> 0 \<and> now < cr_NextRetryAfter r"

lemma restoreStep_auths:
  "fst (restoreStep env now r acc) = fst (restoreCooldownRecordLocked env now r (fst acc))"
  by (simp add: restoreStep_def split: prod.splits bool.splits option.splits)

lemma restoreStep_other:
  "TrimSpace (cr_AuthID r) \<noteq> i \<or> \<not> restores now r i \<Longrightarrow> map_of (fst (restoreStep env now r acc)) i = map_of (fst acc) i"
  by (auto simp: restoreStep_auths restoreCooldownRecordLocked_def restores_def Let_def update_conv' split: option.splits)

lemma restoreStep_same:
  assumes "restores now r i" and "map_of (fst acc) i = Some auth" and "restorable env auth"
  obtains q u where "map_of (fst (restoreStep env now r acc)) i =
      Some (if TrimSpace (cr_Model r) = [] then restoreAuthRecord r q u auth else restoreModelRecord r q u now auth)"
  using assms by (auto simp: restoreStep_auths restoreCooldownRecordLocked_def restores_def restorable_def Let_def update_conv')

lemma restoreStep_kept:
  assumes "map_of (fst acc) i = Some auth" and "restorable env auth"
  obtains auth' where "map_of (fst (restoreStep env now r acc)) i = Some auth'" and "kept env now auth auth'"
    and "restores now r i \<Longrightarrow> TrimSpace (cr_Model r) \<noteq> [] \<Longrightarrow>
      coolsUntil auth' (canonicalModelKey (cr_Model r)) (cr_NextRetryAfter r)"
    and "restores now r i \<Longrightarrow> TrimSpace (cr_Model r) = [] \<Longrightarrow>
      a_Unavailable auth' \<and> a_NextRetryAfter auth' = cr_NextRetryAfter r \<and> a_ModelStates auth' = a_ModelStates auth"
    and "\<not> restores now r i \<Longrightarrow> auth' = auth"
proof (cases "restores now r i")
  case False
  then show ?thesis using that [of auth] restoreStep_other [of r i now env acc] assms kept_refl by simp
next
  case True
  obtain q u where m: "map_of (fst (restoreStep env now r acc)) i =
      Some (if TrimSpace (cr_Model r) = [] then restoreAuthRecord r q u auth else restoreModelRecord r q u now auth)"
    by (rule restoreStep_same [OF True assms])
  have n: "now < cr_NextRetryAfter r" using True by (simp add: restores_def)
  show ?thesis
  proof (cases "TrimSpace (cr_Model r) = []")
    case authLevel: True
    let ?a = "restoreAuthRecord r q u auth"
    note sp = restoreAuthRecord_spec [OF assms(2), of r q u]
    have "kept env now auth ?a" using sp(1) stateAt_cong [OF sp(2)] unfolding kept_def coolsUntil_def by simp
    moreover have "map_of (fst (restoreStep env now r acc)) i = Some ?a" using m authLevel by simp
    ultimately show ?thesis using that [of ?a] sp(2-4) authLevel True by blast
  next
    case False
    let ?a = "restoreModelRecord r q u now auth"
    note sp = restoreModelRecord_spec [OF assms(2) False n, where q = q and u = u]
    have "kept env now auth ?a" using sp(1,3) unfolding kept_def by blast
    moreover have "map_of (fst (restoreStep env now r acc)) i = Some ?a" using m False by simp
    ultimately show ?thesis using that [of ?a] sp(2) False True by blast
  qed
qed

lemma fold_restoreStep_models:
  assumes "map_of (fst acc) i = Some auth" and "restorable env auth"
  shows "\<exists>auth'. map_of (fst (fold (restoreStep env now) rs acc)) i = Some auth' \<and> kept env now auth auth'
    \<and> (\<forall>r \<in> set rs. restores now r i \<longrightarrow> TrimSpace (cr_Model r) \<noteq> [] \<longrightarrow> stableKey (canonicalModelKey (cr_Model r)) \<longrightarrow>
         coolsUntil auth' (canonicalModelKey (cr_Model r)) (cr_NextRetryAfter r))
    \<and> ((\<forall>r \<in> set rs. \<not> restores now r i) \<longrightarrow> auth' = auth)"
  using assms
proof (induction rs arbitrary: acc auth)
  case Nil
  then show ?case using kept_refl by auto
next
  case (Cons r rs)
  obtain auth1 where a1: "map_of (fst (restoreStep env now r acc)) i = Some auth1" "kept env now auth auth1"
    and new: "restores now r i \<Longrightarrow> TrimSpace (cr_Model r) \<noteq> [] \<Longrightarrow>
      coolsUntil auth1 (canonicalModelKey (cr_Model r)) (cr_NextRetryAfter r)"
    and same: "\<not> restores now r i \<Longrightarrow> auth1 = auth"
    by (rule restoreStep_kept [OF Cons.prems]) blast
  have "restorable env auth1" using a1(2) by (simp add: kept_def)
  from Cons.IH [OF a1(1) this] obtain auth' where a': "kept env now auth1 auth'"
    "map_of (fst (fold (restoreStep env now) rs (restoreStep env now r acc))) i = Some auth'"
    "\<forall>r \<in> set rs. restores now r i \<longrightarrow> TrimSpace (cr_Model r) \<noteq> [] \<longrightarrow> stableKey (canonicalModelKey (cr_Model r)) \<longrightarrow>
         coolsUntil auth' (canonicalModelKey (cr_Model r)) (cr_NextRetryAfter r)"
    "(\<forall>r \<in> set rs. \<not> restores now r i) \<longrightarrow> auth' = auth1" by blast
  have "coolsUntil auth' (canonicalModelKey (cr_Model r)) (cr_NextRetryAfter r)"
    if "restores now r i" "TrimSpace (cr_Model r) \<noteq> []" "stableKey (canonicalModelKey (cr_Model r))"
    using new [OF that(1,2)] that a'(1) unfolding kept_def restores_def by blast
  then show ?case using a' kept_trans [OF a1(2) a'(1)] same by (intro exI [of _ auth']) simp
qed

text \<open>The records of the credential itself come last and leave the model states alone.\<close>

lemma fold_restoreStep_auth:
  assumes "map_of (fst acc) i = Some auth" and "restorable env auth" and "\<forall>r \<in> set rs. TrimSpace (cr_Model r) = []"
    and "\<forall>r \<in> set rs. restores now r i \<longrightarrow> cr_NextRetryAfter r = u"
  shows "\<exists>auth'. map_of (fst (fold (restoreStep env now) rs acc)) i = Some auth' \<and> restorable env auth'
    \<and> a_ModelStates auth' = a_ModelStates auth
    \<and> ((\<exists>r \<in> set rs. restores now r i) \<or> a_Unavailable auth \<and> a_NextRetryAfter auth = u \<longrightarrow>
         a_Unavailable auth' \<and> a_NextRetryAfter auth' = u)"
  using assms
proof (induction rs arbitrary: acc auth)
  case (Cons r rs)
  obtain auth1 where a1: "map_of (fst (restoreStep env now r acc)) i = Some auth1" "kept env now auth auth1"
    and new: "restores now r i \<Longrightarrow> TrimSpace (cr_Model r) = [] \<Longrightarrow>
      a_Unavailable auth1 \<and> a_NextRetryAfter auth1 = cr_NextRetryAfter r \<and> a_ModelStates auth1 = a_ModelStates auth"
    and same: "\<not> restores now r i \<Longrightarrow> auth1 = auth"
    by (rule restoreStep_kept [OF Cons.prems(1,2)]) blast
  have "restorable env auth1" using a1(2) by (simp add: kept_def)
  from Cons.IH [OF a1(1) this] Cons.prems(3,4) obtain auth' where a': "restorable env auth'"
    "map_of (fst (fold (restoreStep env now) rs (restoreStep env now r acc))) i = Some auth'"
    "a_ModelStates auth' = a_ModelStates auth1"
    "(\<exists>r \<in> set rs. restores now r i) \<or> a_Unavailable auth1 \<and> a_NextRetryAfter auth1 = u \<longrightarrow>
       a_Unavailable auth' \<and> a_NextRetryAfter auth' = u" by auto
  show ?case
  proof (intro exI [of _ auth'] conjI)
    show "a_ModelStates auth' = a_ModelStates auth" using a'(3) new same Cons.prems(3) by (cases "restores now r i") auto
    show "(\<exists>r \<in> set (r # rs). restores now r i) \<or> a_Unavailable auth \<and> a_NextRetryAfter auth = u \<longrightarrow>
        a_Unavailable auth' \<and> a_NextRetryAfter auth' = u"
      using a'(4) new same Cons.prems(3,4) by (cases "restores now r i") auto
  qed (use a' in simp_all)
qed simp

text \<open>The records of one restoration, seen from one credential.\<close>

lemma RestoreCooldownStates_spec:
  assumes "map_of auths i = Some auth" and "restorable env auth"
    and "\<forall>r \<in> set rs. restores now r i \<longrightarrow> TrimSpace (cr_Model r) = [] \<longrightarrow> cr_NextRetryAfter r = u"
  obtains auth' where "map_of (fst (RestoreCooldownStates env now rs auths)) i = Some auth'" and "restorable env auth'"
    and "\<And>r. r \<in> set rs \<Longrightarrow> restores now r i \<Longrightarrow> TrimSpace (cr_Model r) \<noteq> [] \<Longrightarrow> stableKey (canonicalModelKey (cr_Model r)) \<Longrightarrow>
      coolsUntil auth' (canonicalModelKey (cr_Model r)) (cr_NextRetryAfter r)"
    and "\<And>r. r \<in> set rs \<Longrightarrow> restores now r i \<Longrightarrow> TrimSpace (cr_Model r) = [] \<Longrightarrow>
      a_Unavailable auth' \<and> a_NextRetryAfter auth' = u"
    and "(\<And>r. r \<in> set rs \<Longrightarrow> restores now r i \<Longrightarrow> TrimSpace (cr_Model r) = []) \<Longrightarrow> a_ModelStates auth' = a_ModelStates auth"
proof -
  let ?ms = "filter (\<lambda>r. TrimSpace (cr_Model r) \<noteq> []) rs" and ?as = "filter (\<lambda>r. TrimSpace (cr_Model r) = []) rs"
  let ?acc = "fold (restoreStep env now) ?ms (auths, [])"
  have "map_of (fst (auths, [] :: (string, Auth) gomap)) i = Some auth" using assms(1) by simp
  from fold_restoreStep_models [OF this assms(2), of now ?ms] obtain auth1 where a1:
    "map_of (fst ?acc) i = Some auth1" "kept env now auth auth1"
    "\<forall>r \<in> set ?ms. restores now r i \<longrightarrow> TrimSpace (cr_Model r) \<noteq> [] \<longrightarrow> stableKey (canonicalModelKey (cr_Model r)) \<longrightarrow>
         coolsUntil auth1 (canonicalModelKey (cr_Model r)) (cr_NextRetryAfter r)"
    "(\<forall>r \<in> set ?ms. \<not> restores now r i) \<longrightarrow> auth1 = auth" by blast
  have r1: "restorable env auth1" using a1(2) by (simp add: kept_def)
  have "\<forall>r \<in> set ?as. TrimSpace (cr_Model r) = []" "\<forall>r \<in> set ?as. restores now r i \<longrightarrow> cr_NextRetryAfter r = u"
    using assms(3) by auto
  from fold_restoreStep_auth [OF a1(1) r1 this] obtain auth' where a':
    "map_of (fst (fold (restoreStep env now) ?as ?acc)) i = Some auth'" "restorable env auth'"
    "a_ModelStates auth' = a_ModelStates auth1"
    "(\<exists>r \<in> set ?as. restores now r i) \<longrightarrow> a_Unavailable auth' \<and> a_NextRetryAfter auth' = u" by blast
  show ?thesis
  proof (rule that [of auth'])
    show "map_of (fst (RestoreCooldownStates env now rs auths)) i = Some auth'"
      using a'(1) by (simp add: RestoreCooldownStates_def Let_def)
    show "restorable env auth'" by (rule a'(2))
    fix r assume r: "r \<in> set rs" "restores now r i"
    show "coolsUntil auth' (canonicalModelKey (cr_Model r)) (cr_NextRetryAfter r)"
      if "TrimSpace (cr_Model r) \<noteq> []" "stableKey (canonicalModelKey (cr_Model r))"
      using a1(3) r that stateAt_cong [OF a'(3)] unfolding coolsUntil_def by simp
    show "a_Unavailable auth' \<and> a_NextRetryAfter auth' = u" if "TrimSpace (cr_Model r) = []" using a'(4) r that by auto
  next
    assume "\<And>r. r \<in> set rs \<Longrightarrow> restores now r i \<Longrightarrow> TrimSpace (cr_Model r) = []"
    then show "a_ModelStates auth' = a_ModelStates auth" using a1(4) a'(3) by auto
  qed
qed

subsection \<open>The snapshot\<close>

text \<open>A manager files its credentials under their identifiers, which have no surrounding space.\<close>

definition filedByID :: "(string, Auth) gomap \<Rightarrow> bool" where
  "filedByID auths \<longleftrightarrow> distinct_keys auths
     \<and> list_all (\<lambda>(i, auth). a_ID auth = i \<and> TrimSpace i = i \<and> i \<noteq> []) auths"

lemma snapshot_mem:
  "r \<in> set (cooldownStateRecordsSnapshot env now auths) \<longleftrightarrow>
     (\<exists>i auth. (i, auth) \<in> set auths \<and> r \<in> set (cooldownStateRecordsForAuthLocked env auth now))"
  by (auto simp: cooldownStateRecordsSnapshot_def)

lemma recordsForAuth_mem:
  assumes "a_ID auth \<noteq> []" and "restorable env auth"
  shows "r \<in> set (cooldownStateRecordsForAuthLocked env auth now) \<longleftrightarrow>
     authCooldownStateRecord auth now = Some r
     \<or> (\<exists>k st. (k, st) \<in> set (a_ModelStates auth) \<and> modelCooldownStateRecord auth k st now = Some r)"
  using assms
  by (auto simp: cooldownStateRecordsForAuthLocked_def restorable_def map_filter_def image_iff split: option.splits)
    force+

lemma recordsForAuth_id:
  "r \<in> set (cooldownStateRecordsForAuthLocked env auth now) \<Longrightarrow> cr_AuthID r = a_ID auth
     \<and> (TrimSpace (cr_Model r) = [] \<longrightarrow> cr_NextRetryAfter r = a_NextRetryAfter auth)
     \<and> (a_ModelStates auth = [] \<longrightarrow> TrimSpace (cr_Model r) = [])"
  by (auto simp: cooldownStateRecordsForAuthLocked_def map_filter_def authCooldownStateRecord_def
      modelCooldownStateRecord_def Let_def split: if_splits option.splits)

lemma snapshot_own:
  assumes "filedByID auths" and "r \<in> set (cooldownStateRecordsSnapshot env now auths)" and "(i, auth) \<in> set auths"
    and "TrimSpace (cr_AuthID r) = i"
  shows "r \<in> set (cooldownStateRecordsForAuthLocked env auth now)"
proof -
  obtain j a where j: "(j, a) \<in> set auths" "r \<in> set (cooldownStateRecordsForAuthLocked env a now)"
    using assms(2) unfolding snapshot_mem by blast
  have "a_ID a = j" "TrimSpace j = j" using assms(1) j(1) by (auto simp: filedByID_def list_all_iff)
  then have "j = i" using recordsForAuth_id [OF j(2)] assms(4) by simp
  then have "a = auth" using j(1) assms(1,3) by (auto simp: filedByID_def dest: eq_key_imp_eq_value)
  then show ?thesis using j(2) by simp
qed

lemma authAvailabilityBlock_cooling:
  assumes "a_Unavailable auth" and "t < a_NextRetryAfter auth" and "0 \<le> t"
  shows "fst (isAuthBlockedForModel tenv auth [] t)"
    and "a_ModelStates auth = [] \<Longrightarrow> fst (isAuthBlockedForModel tenv auth model t)"
  using assms by (auto simp: isAuthBlockedForModel_def authAvailabilityBlock_def availabilityBlock_eq after_def
      upgradeReason_def Let_def)

text \<open>The snapshot holds a record of every model that cools down, and of the credential when it does.\<close>

lemma snapshot_model_record:
  assumes filed: "filedByID auths" "(i, auth) \<in> set auths" and r: "restorable env auth" and now: "0 \<le> now"
    and st: "stateAt auth k = Some st" "ms_Unavailable st" "now < ms_NextRetryAfter st" and k: "TrimSpace k \<noteq> []"
  shows "\<exists>r \<in> set (cooldownStateRecordsSnapshot env now auths). cr_AuthID r = i \<and> cr_Model r = TrimSpace k
    \<and> cr_NextRetryAfter r = ms_NextRetryAfter st"
proof -
  have i: "a_ID auth = i" "TrimSpace i = i" "i \<noteq> []" using filed by (auto simp: filedByID_def list_all_iff)
  have "(k, Some st) \<in> set (a_ModelStates auth)" using st(1) r by (simp add: stateAt_mem restorable_def)
  moreover have "\<exists>r. modelCooldownStateRecord auth k (Some st) now = Some r \<and> cr_AuthID r = i \<and> cr_Model r = TrimSpace k
      \<and> cr_NextRetryAfter r = ms_NextRetryAfter st"
    using k st(2,3) now i(1) by (simp add: modelCooldownStateRecord_def Let_def)
  ultimately obtain rec where rec: "rec \<in> set (cooldownStateRecordsForAuthLocked env auth now)" "cr_AuthID rec = i" "cr_Model rec = TrimSpace k"
      "cr_NextRetryAfter rec = ms_NextRetryAfter st"
    using recordsForAuth_mem [of auth env _ now] i r by metis
  have "rec \<in> set (cooldownStateRecordsSnapshot env now auths)" using rec(1) filed(2) unfolding snapshot_mem by blast
  with rec(2-4) show ?thesis by blast
qed

lemma snapshot_auth_record:
  assumes filed: "filedByID auths" "(i, auth) \<in> set auths" and r: "restorable env auth" and now: "0 \<le> now"
    and cools: "a_Unavailable auth" "now < a_NextRetryAfter auth"
  shows "\<exists>r \<in> set (cooldownStateRecordsSnapshot env now auths). cr_AuthID r = i \<and> cr_Model r = []
    \<and> cr_NextRetryAfter r = a_NextRetryAfter auth"
proof -
  have i: "a_ID auth = i" "TrimSpace i = i" "i \<noteq> []" using filed by (auto simp: filedByID_def list_all_iff)
  have "\<exists>r. authCooldownStateRecord auth now = Some r \<and> cr_AuthID r = i \<and> cr_Model r = [] \<and> cr_NextRetryAfter r = a_NextRetryAfter auth"
    using cools now i(1) by (simp add: authCooldownStateRecord_def)
  then obtain rec where rec: "rec \<in> set (cooldownStateRecordsForAuthLocked env auth now)" "cr_AuthID rec = i" "cr_Model rec = []"
      "cr_NextRetryAfter rec = a_NextRetryAfter auth"
    using recordsForAuth_mem [of auth env _ now] i r by metis
  have "rec \<in> set (cooldownStateRecordsSnapshot env now auths)" using rec(1) filed(2) unfolding snapshot_mem by blast
  with rec(2-4) show ?thesis by blast
qed

text \<open>
  C27: cooldowns survive a restart. The records that a snapshot takes of the credentials,
  restored into the credentials registered later, block each model that was cooling down until
  its deadline at least, whatever those credentials already knew; the credential as a whole stays
  blocked as well, and with it every model of a credential that has no model states.
\<close>

theorem cooldowns_survive_restart:
  assumes "filedByID auths" and "(i, auth) \<in> set auths" and "restorable env auth"
    and "map_of registered i = Some auth0" and "restorable env' auth0"
    and "0 \<le> now" and "now \<le> now'"
  shows "\<exists>auth'. map_of (fst (RestoreCooldownStates env' now' (cooldownStateRecordsSnapshot env now auths) registered)) i = Some auth'
    \<and> (\<forall>k st model t. stateAt auth k = Some st \<and> ms_Unavailable st \<and> stableKey (canonicalModelKey k)
         \<and> canonicalModelKey model = canonicalModelKey k \<and> now' \<le> t \<and> t < ms_NextRetryAfter st \<longrightarrow>
         fst (isAuthBlockedForModel tenv auth' model t))
    \<and> (\<forall>t. a_Unavailable auth \<and> now' \<le> t \<and> t < a_NextRetryAfter auth \<longrightarrow>
         fst (isAuthBlockedForModel tenv auth' [] t)
         \<and> (a_ModelStates auth = [] \<and> a_ModelStates auth0 = [] \<longrightarrow>
              (\<forall>model. fst (isAuthBlockedForModel tenv auth' model t))))"
proof -
  let ?rs = "cooldownStateRecordsSnapshot env now auths"
  have i: "a_ID auth = i" "TrimSpace i = i" "i \<noteq> []" using assms(1,2) by (auto simp: filedByID_def list_all_iff)
  have own: "r \<in> set (cooldownStateRecordsForAuthLocked env auth now)" if "r \<in> set ?rs" "restores now' r i" for r
    using snapshot_own [OF assms(1) that(1) assms(2)] that(2) by (simp add: restores_def)
  have u: "\<forall>r \<in> set ?rs. restores now' r i \<longrightarrow> TrimSpace (cr_Model r) = [] \<longrightarrow> cr_NextRetryAfter r = a_NextRetryAfter auth"
    using own recordsForAuth_id by blast
  obtain auth' where a': "map_of (fst (RestoreCooldownStates env' now' ?rs registered)) i = Some auth'" "restorable env' auth'"
    and models: "\<And>r. r \<in> set ?rs \<Longrightarrow> restores now' r i \<Longrightarrow> TrimSpace (cr_Model r) \<noteq> [] \<Longrightarrow>
      stableKey (canonicalModelKey (cr_Model r)) \<Longrightarrow> coolsUntil auth' (canonicalModelKey (cr_Model r)) (cr_NextRetryAfter r)"
    and whole: "\<And>r. r \<in> set ?rs \<Longrightarrow> restores now' r i \<Longrightarrow> TrimSpace (cr_Model r) = [] \<Longrightarrow>
      a_Unavailable auth' \<and> a_NextRetryAfter auth' = a_NextRetryAfter auth"
    and states: "(\<And>r. r \<in> set ?rs \<Longrightarrow> restores now' r i \<Longrightarrow> TrimSpace (cr_Model r) = []) \<Longrightarrow> a_ModelStates auth' = a_ModelStates auth0"
    by (rule RestoreCooldownStates_spec [OF assms(4,5) u]) blast
  have d': "distinct_keys (a_ModelStates auth')" using a'(2) by (simp add: restorable_def)
  have A: "fst (isAuthBlockedForModel tenv auth' model t)"
    if st: "stateAt auth k = Some st" "ms_Unavailable st" and k: "stableKey (canonicalModelKey k)"
      "canonicalModelKey model = canonicalModelKey k" and t: "now' \<le> t" "t < ms_NextRetryAfter st" for k st model t
  proof -
    have ne: "TrimSpace k \<noteq> []" using k(1) canonicalModelKey_Nil_iff by (auto simp: stableKey_def)
    have "now < ms_NextRetryAfter st" using t assms(7) by simp
    from snapshot_model_record [OF assms(1-3,6) st this ne]
    obtain r where r: "r \<in> set ?rs" "cr_AuthID r = i" "cr_Model r = TrimSpace k" "cr_NextRetryAfter r = ms_NextRetryAfter st" by blast
    have "restores now' r i" using r i t assms(6,7) by (simp add: restores_def)
    then have "coolsUntil auth' (canonicalModelKey k) (ms_NextRetryAfter st)" using models [OF r(1)] r ne k(1) by simp
    then show ?thesis using coolsUntil_blocked k d' t assms(6,7) by simp
  qed
  have B: "fst (isAuthBlockedForModel tenv auth' [] t)
      \<and> (a_ModelStates auth = [] \<and> a_ModelStates auth0 = [] \<longrightarrow> (\<forall>model. fst (isAuthBlockedForModel tenv auth' model t)))"
    if t: "a_Unavailable auth" "now' \<le> t" "t < a_NextRetryAfter auth" for t
  proof -
    have "now < a_NextRetryAfter auth" using t assms(7) by simp
    from snapshot_auth_record [OF assms(1-3,6) t(1) this]
    obtain r where r: "r \<in> set ?rs" "cr_AuthID r = i" "cr_Model r = []" "cr_NextRetryAfter r = a_NextRetryAfter auth" by blast
    have "restores now' r i" using r i t assms(6,7) by (simp add: restores_def)
    then have w: "a_Unavailable auth'" "t < a_NextRetryAfter auth'" using whole [OF r(1)] r(3) t(3) by simp_all
    have "0 \<le> t" using t(2) assms(6,7) by simp
    moreover have "a_ModelStates auth' = []" if "a_ModelStates auth = []" "a_ModelStates auth0 = []"
      using states own recordsForAuth_id that by metis
    ultimately show ?thesis using authAvailabilityBlock_cooling [OF w] by blast
  qed
  show ?thesis using a'(1) A B by blast
qed

definition exampleRegistered :: "(string, Auth) gomap" where
  "exampleRegistered = [(''a'', zero_Auth\<lparr>a_ID := ''a'', a_Status := StatusActive\<rparr>)]"

theorem cooldowns_survive_restart_witness:
  "\<exists>auth'. map_of (fst (RestoreCooldownStates exampleCoolingEnv 20
       (cooldownStateRecordsSnapshot exampleCoolingEnv 10 [(''a'', exampleTwoModels)]) exampleRegistered)) ''a'' = Some auth'
     \<and> fst (isAuthBlockedForModel exampleEnv auth' ''m1'' 45)"
proof -
  have c: "filedByID [(''a'', exampleTwoModels)]" "stableKey (canonicalModelKey ''m1'')" by code_simp+
  have r: "restorable exampleCoolingEnv exampleTwoModels"
    "restorable exampleCoolingEnv (zero_Auth\<lparr>a_ID := ''a'', a_Status := StatusActive\<rparr>)"
    unfolding restorable_def by (intro conjI; code_simp)+
  have m: "map_of exampleRegistered ''a'' = Some (zero_Auth\<lparr>a_ID := ''a'', a_Status := StatusActive\<rparr>)"
    by (simp add: exampleRegistered_def)
  have st: "stateAt exampleTwoModels ''m1'' = Some (exampleCoolingState 50)" "ms_Unavailable (exampleCoolingState 50)"
    "ms_NextRetryAfter (exampleCoolingState 50) = 50"
    by (simp_all add: stateAt_def exampleTwoModels_def exampleCoolingState_def)
  have mem: "(''a'', exampleTwoModels) \<in> set [(''a'', exampleTwoModels)]" by simp
  from cooldowns_survive_restart [OF c(1) mem r(1) m r(2), of 10 20 exampleEnv] obtain auth' where
    a': "map_of (fst (RestoreCooldownStates exampleCoolingEnv 20
       (cooldownStateRecordsSnapshot exampleCoolingEnv 10 [(''a'', exampleTwoModels)]) exampleRegistered)) ''a'' = Some auth'"
    and b: "\<forall>k st model t. stateAt exampleTwoModels k = Some st \<and> ms_Unavailable st \<and> stableKey (canonicalModelKey k)
         \<and> canonicalModelKey model = canonicalModelKey k \<and> 20 \<le> t \<and> t < ms_NextRetryAfter st \<longrightarrow>
         fst (isAuthBlockedForModel exampleEnv auth' model t)" by auto
  have "fst (isAuthBlockedForModel exampleEnv auth' ''m1'' 45)"
    using b [rule_format, of "''m1''" "exampleCoolingState 50" "''m1''" 45] st c(2) by simp
  then show ?thesis using a' by blast
qed

section \<open>Cleared cooldowns\<close>

definition idle :: "ModelState \<Rightarrow> bool" where
  "idle st \<longleftrightarrow> \<not> ms_Unavailable st \<and> ms_NextRetryAfter st = 0 \<and> \<not> q_Exceeded (ms_Quota st) \<and> q_NextRecoverAt (ms_Quota st) = 0"

lemma idle_clearModelCooldown: "idle (clearModelCooldown now st)"
  by (simp add: idle_def clearModelCooldown_def stateNeedsClear_def)

lemma idle_lift: "idle st \<Longrightarrow> liftExpired now st = st"
  by (simp add: idle_def liftExpired_def)

lemma idle_free: "idle st \<Longrightarrow> ms_Status st \<noteq> StatusDisabled \<Longrightarrow> \<not> hardBlocked t st \<and> stateDeadline t st = 0"
  by (simp add: idle_def hardBlocked_def stateDeadline_def modelAvailabilityBlock_def availabilityBlock_def upgradeReason_def)

text \<open>The credential of \<open>clearCooldownStateForAuth\<close> before the aggregate is recomputed.\<close>

lemma clearCooldown_steps:
  obtains auth2 where "fst (clearCooldownStateForAuth now auth) =
      (let auth3 = (if a_ModelStates auth2 \<noteq> [] then updateAggregatedAvailability now auth2 else auth2)
       in if snd (clearCooldownStateForAuth now auth)
          then auth3\<lparr>a_availabilityEpoch := a_availabilityEpoch auth3 + 1, a_Generation := a_Generation auth3 + 1, a_UpdatedAt := now\<rparr>
          else auth3)"
    and "a_ModelStates auth2 = mapStates (clearModelCooldown now) (a_ModelStates auth)"
    and "\<not> a_Unavailable auth2" and "\<not> q_Exceeded (a_Quota auth2)"
    and "a_Disabled auth2 = a_Disabled auth" and "a_Status auth2 = a_Status auth"
    and "a_Metadata auth2 = a_Metadata auth" and "a_Attributes auth2 = a_Attributes auth"
    and "a_availabilityEpoch auth2 = a_availabilityEpoch auth"
proof -
  define c where "c = stateNeedsClear (a_Unavailable auth) (a_NextRetryAfter auth) (a_NonUnauthorizedRetryAfter auth) (a_Quota auth)"
  define a1 where "a1 = (if c then auth\<lparr>a_Unavailable := False, a_NextRetryAfter := 0, a_NonUnauthorizedRetryAfter := 0,
     a_Quota := applyCooldownFields (a_Quota auth) zero_QuotaState, a_UpdatedAt := now\<rparr> else auth)"
  define a2 where "a2 = a1\<lparr>a_ModelStates := mapStates (clearModelCooldown now) (a_ModelStates a1)\<rparr>"
  have "\<not> a_Unavailable a1 \<and> \<not> q_Exceeded (a_Quota a1)" by (simp add: a1_def c_def stateNeedsClear_def)
  then have u: "\<not> a_Unavailable a2" "\<not> q_Exceeded (a_Quota a2)" by (simp_all add: a2_def)
  have f: "a_ModelStates a2 = mapStates (clearModelCooldown now) (a_ModelStates auth)"
    "a_Disabled a2 = a_Disabled auth" "a_Status a2 = a_Status auth"
    "a_Metadata a2 = a_Metadata auth" "a_Attributes a2 = a_Attributes auth" "a_availabilityEpoch a2 = a_availabilityEpoch auth"
    by (simp_all add: a2_def a1_def)
  define a3 where "a3 = (if a_ModelStates a2 \<noteq> [] then updateAggregatedAvailability now a2 else a2)"
  define s where "s = list_ex (\<lambda>state. stateNeedsClear (ms_Unavailable state) (ms_NextRetryAfter state)
     (ms_NonUnauthorizedRetryAfter state) (ms_Quota state)) (modelStateList auth)"
  have "clearCooldownStateForAuth now auth =
      (if c \<or> s then (a3\<lparr>a_availabilityEpoch := a_availabilityEpoch a3 + 1, a_Generation := a_Generation a3 + 1, a_UpdatedAt := now\<rparr>, True)
       else (a3, False))"
    unfolding clearCooldownStateForAuth_def Let_def a3_def a2_def a1_def c_def s_def by (rule refl)
  then have "fst (clearCooldownStateForAuth now auth) =
      (if snd (clearCooldownStateForAuth now auth)
       then a3\<lparr>a_availabilityEpoch := a_availabilityEpoch a3 + 1, a_Generation := a_Generation a3 + 1, a_UpdatedAt := now\<rparr> else a3)"
    by (cases "c \<or> s") simp_all
  then show ?thesis by (rule that [OF _ f(1) u f(2-), unfolded Let_def a3_def [symmetric]])
qed

lemma updateAggregated_epoch [simp]: "a_availabilityEpoch (updateAggregatedAvailability now auth) = a_availabilityEpoch auth"
  by (simp add: updateAggregatedAvailability_def clearAggregatedAvailability_def Let_def)

lemma stateAt_mapStates: "a_ModelStates b = mapStates f (a_ModelStates a) \<Longrightarrow> stateAt b k = map_option f (stateAt a k)"
  by (simp add: stateAt_def map_of_map_values split: option.splits)

text \<open>A credential no cooldown is left of.\<close>

definition cleared :: "Auth \<Rightarrow> bool" where
  "cleared auth \<longleftrightarrow> (\<forall>k st. stateAt auth k = Some st \<longrightarrow> idle st) \<and> (\<forall>t. \<not> credentialQuotaActive auth t)
     \<and> (a_ModelStates auth = [] \<longrightarrow> \<not> a_Unavailable auth \<and> \<not> q_Exceeded (a_Quota auth))"

lemma updateAggregated_cleared:
  assumes "cleared auth" and "a_ModelStates auth \<noteq> []"
  shows "cleared (updateAggregatedAvailability now auth)"
    and "stateAt (updateAggregatedAvailability now auth) k = stateAt auth k"
    and "a_ModelStates (updateAggregatedAvailability now auth) \<noteq> []"
proof -
  have nq: "\<not> credentialQuotaActive auth t" for t using assms(1) by (simp add: cleared_def)
  have idle: "stateAt auth k = Some st \<Longrightarrow> idle st" for k st using assms(1) by (simp add: cleared_def)
  show at: "stateAt (updateAggregatedAvailability now auth) k = stateAt auth k" for k
    using nq idle [of k] by (cases "stateAt auth k") (simp_all add: stateAt_updateAggregated idle_lift)
  show ne: "a_ModelStates (updateAggregatedAvailability now auth) \<noteq> []"
    using assms(2) by (simp add: updateAggregatedAvailability_states)
  have "\<not> credentialQuotaActive (updateAggregatedAvailability now auth) t" for t
    using nq by (auto simp: updateAggregatedAvailability_def clearAggregatedAvailability_def credentialQuotaActive_def Let_def)
  then show "cleared (updateAggregatedAvailability now auth)" using at ne idle by (simp add: cleared_def)
qed

lemma cleared_cong:
  "a_ModelStates b = a_ModelStates a \<Longrightarrow> a_Quota b = a_Quota a \<Longrightarrow> a_Unavailable b = a_Unavailable a \<Longrightarrow> cleared b = cleared a"
  by (simp add: cleared_def stateAt_def credentialQuotaActive_def)

lemma clearCooldown_cleared:
  shows "cleared (fst (clearCooldownStateForAuth now auth))"
    and "stateAt (fst (clearCooldownStateForAuth now auth)) k = map_option (clearModelCooldown now) (stateAt auth k)"
    and "distinct_keys (a_ModelStates (fst (clearCooldownStateForAuth now auth))) = distinct_keys (a_ModelStates auth)"
    and "a_ModelStates (fst (clearCooldownStateForAuth now auth)) = [] \<longleftrightarrow> a_ModelStates auth = []"
    and "a_Disabled (fst (clearCooldownStateForAuth now auth)) = a_Disabled auth" and "a_Status (fst (clearCooldownStateForAuth now auth)) = a_Status auth"
    and "a_Metadata (fst (clearCooldownStateForAuth now auth)) = a_Metadata auth" and "a_Attributes (fst (clearCooldownStateForAuth now auth)) = a_Attributes auth"
    and "a_availabilityEpoch (fst (clearCooldownStateForAuth now auth)) = a_availabilityEpoch auth + (if snd (clearCooldownStateForAuth now auth) then 1 else 0)"
proof -
  obtain auth2 where eq: "fst (clearCooldownStateForAuth now auth) =
      (let auth3 = (if a_ModelStates auth2 \<noteq> [] then updateAggregatedAvailability now auth2 else auth2)
       in if snd (clearCooldownStateForAuth now auth)
          then auth3\<lparr>a_availabilityEpoch := a_availabilityEpoch auth3 + 1, a_Generation := a_Generation auth3 + 1, a_UpdatedAt := now\<rparr>
          else auth3)"
    and m: "a_ModelStates auth2 = mapStates (clearModelCooldown now) (a_ModelStates auth)"
    and u: "\<not> a_Unavailable auth2" "\<not> q_Exceeded (a_Quota auth2)"
    and f: "a_Disabled auth2 = a_Disabled auth" "a_Status auth2 = a_Status auth"
    "a_Metadata auth2 = a_Metadata auth" "a_Attributes auth2 = a_Attributes auth"
    "a_availabilityEpoch auth2 = a_availabilityEpoch auth"
    by (rule clearCooldown_steps [of now auth]) (rule that)
  define auth3 where "auth3 = (if a_ModelStates auth2 \<noteq> [] then updateAggregatedAvailability now auth2 else auth2)"
  have at2: "stateAt auth2 k = map_option (clearModelCooldown now) (stateAt auth k)" for k by (rule stateAt_mapStates [OF m])
  have "idle st" if "stateAt auth2 k = Some st" for k st using that by (auto simp: at2 idle_clearModelCooldown)
  then have c2: "cleared auth2" using u by (simp add: cleared_def credentialQuotaActive_def)
  have a3: "cleared auth3" "stateAt auth3 k = stateAt auth2 k" "a_ModelStates auth3 = [] \<longleftrightarrow> a_ModelStates auth2 = []"
    "distinct_keys (a_ModelStates auth3) = distinct_keys (a_ModelStates auth)" for k
    using c2 updateAggregated_cleared [OF c2] by (simp_all add: auth3_def m)
  have f3: "a_Disabled auth3 = a_Disabled auth" "a_Status auth3 = a_Status auth"
    "a_Metadata auth3 = a_Metadata auth" "a_Attributes auth3 = a_Attributes auth"
    "a_availabilityEpoch auth3 = a_availabilityEpoch auth" by (simp_all add: auth3_def f)
  have eq3: "fst (clearCooldownStateForAuth now auth) = (if snd (clearCooldownStateForAuth now auth)
          then auth3\<lparr>a_availabilityEpoch := a_availabilityEpoch auth3 + 1, a_Generation := a_Generation auth3 + 1, a_UpdatedAt := now\<rparr>
          else auth3)" unfolding eq auth3_def Let_def by (rule refl)
  have s: "a_ModelStates (fst (clearCooldownStateForAuth now auth)) = a_ModelStates auth3" by (simp add: eq3)
  have "cleared (fst (clearCooldownStateForAuth now auth)) = cleared auth3" by (rule cleared_cong) (simp_all add: eq3)
  then show "cleared (fst (clearCooldownStateForAuth now auth))" using a3(1) by simp
  show "stateAt (fst (clearCooldownStateForAuth now auth)) k = map_option (clearModelCooldown now) (stateAt auth k)"
    using stateAt_cong [OF s] a3(2) at2 by simp
  show "distinct_keys (a_ModelStates (fst (clearCooldownStateForAuth now auth))) = distinct_keys (a_ModelStates auth)" by (simp only: s a3(4))
  show "a_ModelStates (fst (clearCooldownStateForAuth now auth)) = [] \<longleftrightarrow> a_ModelStates auth = []" by (simp add: s a3(3) m)
  show "a_Disabled (fst (clearCooldownStateForAuth now auth)) = a_Disabled auth"
    "a_Status (fst (clearCooldownStateForAuth now auth)) = a_Status auth"
    "a_Metadata (fst (clearCooldownStateForAuth now auth)) = a_Metadata auth"
    "a_Attributes (fst (clearCooldownStateForAuth now auth)) = a_Attributes auth"
    "a_availabilityEpoch (fst (clearCooldownStateForAuth now auth)) =
       a_availabilityEpoch auth + (if snd (clearCooldownStateForAuth now auth) then 1 else 0)"
    unfolding eq3 by (simp_all add: f3)
qed

lemma cleared_free:
  assumes "cleared auth" and "distinct_keys (a_ModelStates auth)" and "0 \<le> t" and "TrimSpace model \<noteq> []"
    and "\<And>k st. stateAt auth k = Some st \<Longrightarrow> TrimSpace k \<noteq> [] \<Longrightarrow> ms_Status st \<noteq> StatusDisabled"
    and "\<not> a_Disabled auth" and "a_Status auth \<noteq> StatusDisabled" and "\<not> tokenExpired tenv auth t"
  shows "\<not> fst (isAuthBlockedForModel tenv auth model t)"
proof -
  have b: "isAuthBlockedForModel tenv auth model t = baseBlock auth model t"
    using assms(1,6-8) by (intro isAuthBlockedForModel_free) (auto simp: cleared_def)
  show ?thesis
  proof (cases "a_ModelStates auth = []")
    case True
    then show ?thesis using assms(1) by (simp add: b baseBlock_def cleared_def authAvailabilityBlock_def
        availabilityBlock_def upgradeReason_def)
  next
    case False
    have "\<not> hardBlocked t st \<and> stateDeadline t st = 0"
      if "stateAt auth k = Some st" "canonicalModelKey k = canonicalModelKey model" for k st
    proof -
      have "TrimSpace k \<noteq> []" using that(2) assms(4) canonicalModelKey_Nil_iff by metis
      then show ?thesis using idle_free assms(1) assms(5) [OF that(1)] that(1) by (auto simp: cleared_def)
    qed
    then have "\<not> fst (model_result auth model t)" by (intro model_result_free [OF assms(3,2)]) blast
    then show ?thesis using False assms(4) by (auto simp: b baseBlock_def)
  qed
qed

lemma resetQuotaAuth_spec:
  assumes "\<not> a_Disabled auth" and "a_Status auth \<noteq> StatusDisabled" and "distinct_keys (a_ModelStates auth)"
  shows "cleared (resetQuotaAuth now auth)" and "distinct_keys (a_ModelStates (resetQuotaAuth now auth))"
    and "stateAt (resetQuotaAuth now auth) k = Some st \<Longrightarrow> TrimSpace k \<noteq> [] \<Longrightarrow> ms_Status st \<noteq> StatusDisabled"
    and "\<not> a_Disabled (resetQuotaAuth now auth)" and "a_Status (resetQuotaAuth now auth) \<noteq> StatusDisabled"
    and "a_Metadata (resetQuotaAuth now auth) = a_Metadata auth" and "a_Attributes (resetQuotaAuth now auth) = a_Attributes auth"
    and "a_availabilityEpoch (resetQuotaAuth now auth) \<noteq> a_availabilityEpoch auth"
proof -
  define a1 where "a1 = auth\<lparr>a_ModelStates := map (\<lambda>(model, st).
             (model, if TrimSpace model = [] then st else map_option (resetModelState now) st)) (a_ModelStates auth)\<rparr>"
  define a2 where "a2 = fst (clearCooldownStateForAuth now a1)"
  define c where "c = snd (clearCooldownStateForAuth now a1)"
  define a3 where "a3 = (if c then a2 else if a_ModelStates a2 \<noteq> [] then updateAggregatedAvailability now a2 else a2)"
  define a4 where "a4 = (if \<not> a_Disabled a3 \<and> a_Status a3 \<noteq> StatusDisabled \<and> \<not> hasModelError a3 now
                   then a3\<lparr>a_LastError := None, a_StatusMessage := [], a_Status := StatusActive\<rparr> else a3)"
  have eq: "resetQuotaAuth now auth = a4\<lparr>a_availabilityEpoch := a_availabilityEpoch a4 + 1, a_Generation := a_Generation a4 + 1,
           a_UpdatedAt := now\<rparr>"
    unfolding resetQuotaAuth_def Let_def a4_def a3_def c_def a2_def a1_def case_prod_beta by (rule refl)
  note cl = clearCooldown_cleared [of now a1, folded a2_def c_def]
  have at1: "stateAt a1 k = (if TrimSpace k = [] then stateAt auth k else map_option (resetModelState now) (stateAt auth k))" for k
    by (simp add: stateAt_def a1_def map_of_map_values split: option.splits)
  have d1: "distinct_keys (a_ModelStates a1)" using assms(3) by (simp add: a1_def)
  have a3: "cleared a3" "stateAt a3 k = stateAt a2 k" for k
    using cl(1) updateAggregated_cleared [OF cl(1)] by (simp_all add: a3_def)
  have d3: "distinct_keys (a_ModelStates a3)" using cl(3) d1 by (simp add: a3_def)
  have f3: "a_Disabled a3 = a_Disabled auth" "a_Status a3 = a_Status auth" "a_Metadata a3 = a_Metadata auth"
    "a_Attributes a3 = a_Attributes auth"
    using cl(5-8) by (simp_all add: a3_def a1_def)
  have s4: "a_ModelStates a4 = a_ModelStates a3" by (simp add: a4_def)
  have s: "a_ModelStates (resetQuotaAuth now auth) = a_ModelStates a3" by (simp add: eq s4)
  have "cleared (resetQuotaAuth now auth) = cleared a3" by (rule cleared_cong) (simp_all add: eq a4_def)
  then show "cleared (resetQuotaAuth now auth)" using a3(1) by simp
  show "distinct_keys (a_ModelStates (resetQuotaAuth now auth))" using d3 by (simp add: s)
  show "ms_Status st \<noteq> StatusDisabled" if "stateAt (resetQuotaAuth now auth) k = Some st" "TrimSpace k \<noteq> []"
    using that stateAt_cong [OF s] a3(2) cl(2) at1
    by (auto simp: clearModelCooldown_def resetModelState_def status_defs split: if_split_asm)
  show "\<not> a_Disabled (resetQuotaAuth now auth)" using assms(1) f3 by (simp add: eq a4_def)
  show "a_Status (resetQuotaAuth now auth) \<noteq> StatusDisabled" using assms(2) f3 by (simp add: eq a4_def status_defs)
  show "a_Metadata (resetQuotaAuth now auth) = a_Metadata auth" "a_Attributes (resetQuotaAuth now auth) = a_Attributes auth"
    using f3 by (simp_all add: eq a4_def)
  have "a_availabilityEpoch a4 = a_availabilityEpoch auth \<or> a_availabilityEpoch a4 = a_availabilityEpoch auth + 1"
    using cl(9) by (simp add: a4_def a3_def a1_def)
  then show "a_availabilityEpoch (resetQuotaAuth now auth) \<noteq> a_availabilityEpoch auth"
    by (auto simp: eq add.assoc)
qed

text \<open>
  C28: resetting the quota of a credential frees every model of it at once, whatever was
  cooling down, and outdates the attempts that began before: their results no longer count. An
  empty identifier is an error and an unknown one changes nothing.
\<close>

theorem reset_frees_credential:
  assumes "map_of auths i = Some auth" and "TrimSpace authID = i"
    and "\<not> a_Disabled auth" and "a_Status auth \<noteq> StatusDisabled" and "distinct_keys (a_ModelStates auth)"
  shows "(TrimSpace x = [] \<longrightarrow> ResetQuota models e now x auths = (auths, Inl ''auth id is required''))
    \<and> (TrimSpace x \<noteq> [] \<and> map_of auths (TrimSpace x) = None \<longrightarrow> ResetQuota models e now x auths = (auths, Inr None))
    \<and> (i \<noteq> [] \<longrightarrow>
        (\<exists>auth'. map_of (fst (ResetQuota models e now authID auths)) i = Some auth'
          \<and> (e = None \<longrightarrow> snd (ResetQuota models e now authID auths) = Inr (Some (auth', resetQuotaModels models i auth)))
          \<and> (\<forall>model t. TrimSpace model \<noteq> [] \<and> 0 \<le> t \<and> \<not> tokenExpired tenv auth t \<longrightarrow>
               \<not> fst (isAuthBlockedForModel tenv auth' model t))
          \<and> (\<forall>res. r_authSnapshot res = Some auth \<longrightarrow> \<not> resultMatchesAvailabilityEpoch res (Some auth'))))"
proof -
  let ?a = "resetQuotaAuth now auth"
  note sp = resetQuotaAuth_spec [OF assms(3-5), of now]
  have tok: "tokenExpired tenv ?a t = tokenExpired tenv auth t" for t
    unfolding tokenExpired_def using AccessTokenExpirationTime_cong [OF sp(6,7)] by simp
  have free: "\<forall>model t. TrimSpace model \<noteq> [] \<and> 0 \<le> t \<and> \<not> tokenExpired tenv auth t \<longrightarrow>
      \<not> fst (isAuthBlockedForModel tenv ?a model t)"
  proof (intro allI impI)
    fix model t assume "TrimSpace model \<noteq> [] \<and> 0 \<le> t \<and> \<not> tokenExpired tenv auth t"
    then show "\<not> fst (isAuthBlockedForModel tenv ?a model t)" using tok by (intro cleared_free sp) auto
  qed
  have stale: "\<forall>res. r_authSnapshot res = Some auth \<longrightarrow> \<not> resultMatchesAvailabilityEpoch res (Some ?a)"
    using sp(8) by (simp add: resultMatchesAvailabilityEpoch_def)
  have m: "map_of (fst (ResetQuota models e now authID auths)) i = Some ?a"
    "e = None \<longrightarrow> snd (ResetQuota models e now authID auths) = Inr (Some (?a, resetQuotaModels models i auth))" if "i \<noteq> []"
    using that assms(1,2) by (simp_all add: ResetQuota_def Let_def)
  have "TrimSpace x = [] \<longrightarrow> ResetQuota models e now x auths = (auths, Inl ''auth id is required'')"
    "TrimSpace x \<noteq> [] \<and> map_of auths (TrimSpace x) = None \<longrightarrow> ResetQuota models e now x auths = (auths, Inr None)"
    by (simp_all add: ResetQuota_def Let_def)
  then show ?thesis using m free stale by blast
qed

theorem reset_frees_credential_witness:
  "fst (isAuthBlockedForModel exampleEnv exampleLimited ''gpt-5'' 200)
   \<and> (\<exists>auth'. map_of (fst (ResetQuota (\<lambda>_. []) None 200 ''a'' [(''a'', exampleLimited)])) ''a'' = Some auth'
        \<and> \<not> fst (isAuthBlockedForModel exampleEnv auth' ''gpt-5'' 200))"
proof
  show "fst (isAuthBlockedForModel exampleEnv exampleLimited ''gpt-5'' 200)" by code_simp
  have c: "map_of [(''a'', exampleLimited)] ''a'' = Some exampleLimited" "''a'' \<noteq> []" by simp_all
  have c': "TrimSpace ''a'' = ''a''" "\<not> a_Disabled exampleLimited" "a_Status exampleLimited \<noteq> StatusDisabled"
    "TrimSpace ''gpt-5'' \<noteq> []" "\<not> tokenExpired exampleEnv exampleLimited 200" by code_simp+
  show "\<exists>auth'. map_of (fst (ResetQuota (\<lambda>_. []) None 200 ''a'' [(''a'', exampleLimited)])) ''a'' = Some auth'
        \<and> \<not> fst (isAuthBlockedForModel exampleEnv auth' ''gpt-5'' 200)"
    using reset_frees_credential [OF c(1) c'(1-3) example_coolingFailure(3), where models = "\<lambda>_. []" and e = None and now = 200 and tenv = exampleEnv]
      c(2) c'(4,5) zero_le_numeral by blast
qed

end
