(* ===== verification/Go_Path.thy ===== *)
theory Go_Path
  imports Auth_Types
begin

text \<open>
  What the program uses of Go's \<^verbatim>\<open>path/filepath\<close> on Unix: \<open>Clean\<close>, \<open>Base\<close>, \<open>Dir\<close>,
  \<open>Ext\<close>, \<open>Join\<close>, \<open>IsAbs\<close> and \<open>Rel\<close> for absolute targets. A path is a list of elements
  between slashes; \<open>FromSlash\<close> is the identity.
\<close>

section \<open>Operations\<close>

abbreviation slash :: char where "slash \<equiv> CHR ''/''"

fun joinSlash :: "string list \<Rightarrow> string" where
  "joinSlash [] = []"
| "joinSlash [x] = x"
| "joinSlash (x # y # xs) = x @ slash # joinSlash (y # xs)"

definition IsAbs :: "string \<Rightarrow> bool" where
  "IsAbs path \<longleftrightarrow> path \<noteq> [] \<and> hd path = slash"

text \<open>The elements kept so far, the last one first.\<close>

definition cleanStep :: "bool \<Rightarrow> string \<Rightarrow> string list \<Rightarrow> string list" where
  "cleanStep rooted e kept =
     (if e = [] \<or> e = ''.'' then kept
      else if e = ''..'' then
        (case kept of
           [] \<Rightarrow> if rooted then [] else [''..'']
         | k # ks \<Rightarrow> if k = ''..'' then ''..'' # kept else ks)
      else e # kept)"

definition cleanElems :: "bool \<Rightarrow> string list \<Rightarrow> string list" where
  "cleanElems rooted es = rev (fold (cleanStep rooted) es [])"

definition elems :: "string \<Rightarrow> string list" where
  "elems path = cleanElems (IsAbs path) (Split slash path)"

definition Clean :: "string \<Rightarrow> string" where
  "Clean path =
     (if IsAbs path then slash # joinSlash (elems path)
      else if elems path = [] then ''.'' else joinSlash (elems path))"

definition stripSlashes :: "string \<Rightarrow> string" where
  "stripSlashes path = rev (dropWhile (\<lambda>c. c = slash) (rev path))"

definition Base :: "string \<Rightarrow> string" where
  "Base path =
     (if path = [] then ''.''
      else let p = rev (takeWhile (\<lambda>c. c \<noteq> slash) (rev (stripSlashes path)))
           in if p = [] then [slash] else p)"

definition Dir :: "string \<Rightarrow> string" where
  "Dir path = Clean (rev (dropWhile (\<lambda>c. c \<noteq> slash) (rev path)))"

text \<open>The extension of the last element, with its dot.\<close>

definition Ext :: "string \<Rightarrow> string" where
  "Ext path =
     (let tail = takeWhile (\<lambda>c. c \<noteq> slash \<and> c \<noteq> CHR ''.'') (rev path);
          rest = dropWhile (\<lambda>c. c \<noteq> slash \<and> c \<noteq> CHR ''.'') (rev path)
      in if rest \<noteq> [] \<and> hd rest = CHR ''.'' then CHR ''.'' # rev tail else [])"

definition JoinPath :: "string list \<Rightarrow> string" where
  "JoinPath ps = (case dropWhile (\<lambda>p. p = []) ps of [] \<Rightarrow> [] | qs \<Rightarrow> Clean (joinSlash qs))"

fun dropCommon :: "string list \<Rightarrow> string list \<Rightarrow> string list \<times> string list" where
  "dropCommon (x # xs) (y # ys) = (if x = y then dropCommon xs ys else (x # xs, y # ys))"
| "dropCommon xs ys = (xs, ys)"

definition RelAbs :: "string \<Rightarrow> string \<Rightarrow> string option" where
  "RelAbs base targ =
     (if \<not> IsAbs base then None
      else case dropCommon (elems base) (elems targ) of
        (bs, ts) \<Rightarrow>
          if bs = [] \<and> ts = [] then Some ''.''
          else Some (joinSlash (replicate (length bs) ''..'' @ ts)))"

section \<open>Plain elements\<close>

text \<open>An element that names something in its directory.\<close>

definition plain :: "string \<Rightarrow> bool" where
  "plain e \<longleftrightarrow> e \<noteq> [] \<and> e \<noteq> ''.'' \<and> e \<noteq> ''..'' \<and> slash \<notin> set e"

lemma fold_plain: "\<forall>e \<in> set es. plain e \<Longrightarrow> fold (cleanStep rooted) es kept = rev es @ kept"
  by (induction es arbitrary: kept) (simp_all add: cleanStep_def plain_def)

lemma cleanElems_plain_append:
  "\<forall>e \<in> set es. plain e \<Longrightarrow> cleanElems rooted (xs @ es) = cleanElems rooted xs @ es"
  by (simp add: cleanElems_def fold_plain)

section \<open>Cleaned paths\<close>

lemma Split_ne [simp]: "Split sep s \<noteq> []"
  by (induction s) (auto split: list.split)

lemma Split_free: "e \<in> set (Split sep s) \<Longrightarrow> sep \<notin> set e"
proof (induction s arbitrary: e)
  case (Cons c s)
  then show ?case by (cases "Split sep s") (auto split: if_split_asm)
qed simp

lemma Split_append: "Split sep (s @ sep # t) = Split sep s @ Split sep t"
proof (induction s)
  case (Cons c s)
  then show ?case by (cases "Split sep s") auto
qed simp

lemma Split_one: "sep \<notin> set s \<Longrightarrow> Split sep s = [s]"
  by (induction s) auto

lemma Split_joinSlash: "es \<noteq> [] \<Longrightarrow> \<forall>e \<in> set es. slash \<notin> set e \<Longrightarrow> Split slash (joinSlash es) = es"
  by (induction es rule: joinSlash.induct) (simp_all add: Split_one Split_append)

lemma joinSlash_snoc: "es \<noteq> [] \<Longrightarrow> joinSlash (es @ [x]) = joinSlash es @ slash # x"
  by (induction es rule: joinSlash.induct) simp_all

text \<open>A cleaned list of elements starts with steps to the parent, unless it is rooted, and goes down from there.\<close>

definition cleaned :: "bool \<Rightarrow> string list \<Rightarrow> bool" where
  "cleaned rooted es \<longleftrightarrow> (\<exists>n ps. es = replicate n ''..'' @ ps \<and> (\<forall>p \<in> set ps. plain p) \<and> (rooted \<longrightarrow> n = 0))"

lemma cleanedI:
  "es = replicate n ''..'' @ ps \<Longrightarrow> \<forall>p \<in> set ps. plain p \<Longrightarrow> (rooted \<Longrightarrow> n = 0) \<Longrightarrow> cleaned rooted es"
  unfolding cleaned_def by (intro exI [of _ n] exI [of _ ps] conjI impI)

lemma cleanedE:
  assumes "cleaned rooted es"
  obtains n ps where "es = replicate n ''..'' @ ps" and "\<forall>p \<in> set ps. plain p" and "rooted \<longrightarrow> n = 0"
  using assms unfolding cleaned_def by blast

lemma plain_dots [simp]: "\<not> plain ''..''" "\<not> plain ''.''" "\<not> plain []"
  by (simp_all add: plain_def)

lemma cleaned_snoc_plain: "cleaned rooted es \<Longrightarrow> plain e \<Longrightarrow> cleaned rooted (es @ [e])"
proof -
  assume "cleaned rooted es" and e: "plain e"
  then obtain n ps where np: "es = replicate n ''..'' @ ps" "\<forall>p \<in> set ps. plain p" "rooted \<longrightarrow> n = 0"
    unfolding cleaned_def by blast
  then have "es @ [e] = replicate n ''..'' @ (ps @ [e])" "\<forall>p \<in> set (ps @ [e]). plain p" using e by simp_all
  then show ?thesis using np(3) by (intro cleanedI [of _ n "ps @ [e]"]) auto
qed

lemma cleaned_snoc_dots: "cleaned rooted (es @ [''..'']) \<Longrightarrow> cleaned rooted ((es @ [''..'']) @ [''..''])"
proof -
  assume "cleaned rooted (es @ [''..''])"
  then obtain n ps where np: "es @ [''..''] = replicate n ''..'' @ ps" "\<forall>p \<in> set ps. plain p" "rooted \<longrightarrow> n = 0"
    by (auto simp: cleaned_def)
  have "ps = []"
  proof (rule ccontr)
    assume "ps \<noteq> []"
    then have "last (replicate n ''..'' @ ps) = last ps" "last ps \<in> set ps" by simp_all
    moreover have "last (es @ [''..'']) = ''..''" by simp
    ultimately show False using np(1,2) plain_dots(1) by metis
  qed
  then have e: "es @ [''..''] = replicate n ''..''" using np(1) by simp
  then have "n \<noteq> 0" by (cases n) simp_all
  then have "\<not> rooted" using np(3) by simp
  moreover have "(es @ [''..'']) @ [''..''] = replicate (Suc n) ''..'' @ []" unfolding e by (simp add: replicate_append_same)
  ultimately show ?thesis by (intro cleanedI [of _ "Suc n" "[]"]) auto
qed

lemma cleaned_butlast: "cleaned rooted (es @ [e]) \<Longrightarrow> cleaned rooted es"
proof -
  assume "cleaned rooted (es @ [e])"
  then obtain n ps where np: "es @ [e] = replicate n ''..'' @ ps" "\<forall>p \<in> set ps. plain p" "rooted \<longrightarrow> n = 0"
    by (auto simp: cleaned_def)
  show ?thesis
  proof (cases ps rule: rev_cases)
    case Nil
    then have "n \<noteq> 0" using np(1) by (cases n) simp_all
    then obtain n' where "n = Suc n'" by (cases n) simp_all
    moreover have "replicate (Suc n') ''..'' = replicate n' ''..'' @ [''..'']" by (simp add: replicate_append_same)
    ultimately have "es = replicate n' ''..'' @ []" using np(1) Nil by simp
    then show ?thesis using np(3) \<open>n = Suc n'\<close> by (intro cleanedI [of _ n' "[]"]) auto
  next
    case (snoc ps' p)
    then have "es = replicate n ''..'' @ ps'" "\<forall>p \<in> set ps'. plain p" using np by simp_all
    then show ?thesis using np(3) by (intro cleanedI [of _ n ps']) auto
  qed
qed

lemma cleanStep_cleaned:
  assumes "cleaned rooted (rev kept)" and "slash \<notin> set e"
  shows "cleaned rooted (rev (cleanStep rooted e kept))"
proof (cases "e = [] \<or> e = ''.''")
  case True
  then show ?thesis using assms(1) by (auto simp: cleanStep_def)
next
  case False
  show ?thesis
  proof (cases "e = ''..''")
    case dots: True
    show ?thesis
    proof (cases kept)
      case Nil
      have "cleaned False [''..'']" by (rule cleanedI [of _ 1 "[]"]) simp_all
      moreover have "cleaned rooted []" by (simp add: cleaned_def)
      ultimately show ?thesis using dots Nil by (cases rooted) (simp_all add: cleanStep_def)
    next
      case (Cons k ks)
      then show ?thesis
        using assms(1) cleaned_snoc_dots [of rooted "rev ks"] cleaned_butlast [of rooted "rev ks" k] dots
        by (cases "k = ''..''") (simp_all add: cleanStep_def)
    qed
  next
    case plain: False
    then have "plain e" using False assms(2) by (simp add: plain_def)
    then show ?thesis using assms(1) False plain by (simp add: cleanStep_def cleaned_snoc_plain)
  qed
qed

lemma fold_cleaned:
  "cleaned rooted (rev kept) \<Longrightarrow> \<forall>e \<in> set es. slash \<notin> set e \<Longrightarrow> cleaned rooted (rev (fold (cleanStep rooted) es kept))"
  by (induction es arbitrary: kept) (simp_all add: cleanStep_cleaned)

lemma fold_dots: "fold (cleanStep False) (replicate n ''..'') (replicate m ''..'') = replicate (n + m) ''..''"
proof (induction n arbitrary: m)
  case (Suc n)
  have "cleanStep False ''..'' (replicate m ''..'') = replicate (Suc m) ''..''" by (cases m) (simp_all add: cleanStep_def)
  then show ?case using Suc.IH [of "Suc m"] by simp
qed simp

lemma cleanElems_fix:
  assumes "cleaned rooted es"
  shows "cleanElems rooted es = es"
proof -
  obtain n ps where np: "es = replicate n ''..'' @ ps" "\<forall>p \<in> set ps. plain p" "rooted \<longrightarrow> n = 0"
    using assms unfolding cleaned_def by blast
  have "fold (cleanStep rooted) (replicate n ''..'') [] = replicate n ''..''"
    using np(3) fold_dots [of n 0] by (cases rooted) simp_all
  then show ?thesis by (simp add: np(1) cleanElems_def fold_plain [OF np(2)])
qed

lemma elems_cleaned: "cleaned (IsAbs path) (elems path)"
proof -
  have "cleaned (IsAbs path) (rev [])" by (simp add: cleaned_def)
  then show ?thesis unfolding elems_def cleanElems_def using Split_free by (intro fold_cleaned) blast+
qed

lemma cleaned_free: "cleaned rooted es \<Longrightarrow> e \<in> set es \<Longrightarrow> slash \<notin> set e \<and> e \<noteq> []"
proof -
  assume "cleaned rooted es" and e: "e \<in> set es"
  then obtain n ps where np: "es = replicate n ''..'' @ ps" "\<forall>p \<in> set ps. plain p" by (elim cleanedE)
  then have "e = ''..'' \<or> plain e" using e by (auto simp: set_replicate_conv_if split: if_split_asm)
  then show ?thesis by (elim disjE) (simp_all add: plain_def)
qed

lemma joinSlash_relative: "es \<noteq> [] \<Longrightarrow> \<forall>e \<in> set es. slash \<notin> set e \<and> e \<noteq> [] \<Longrightarrow> \<not> IsAbs (joinSlash es) \<and> joinSlash es \<noteq> []"
proof (induction es rule: joinSlash.induct)
  case (3 x y xs)
  then have "x \<noteq> []" "slash \<notin> set x" by simp_all
  then have "x \<noteq> []" "hd x \<noteq> slash" using list.set_sel(1) [of x] by metis+
  then show ?case by (simp add: IsAbs_def)
next
  case (2 x)
  then have "x \<noteq> []" "slash \<notin> set x" by simp_all
  then have "hd x \<noteq> slash" using list.set_sel(1) [of x] by metis
  then show ?case using \<open>x \<noteq> []\<close> by (simp add: IsAbs_def)
qed simp

lemma elems_Clean: "elems (Clean path) = elems path" and IsAbs_Clean: "IsAbs (Clean path) = IsAbs path"
proof -
  let ?es = "elems path"
  have c: "cleaned (IsAbs path) ?es" by (rule elems_cleaned)
  have free: "\<forall>e \<in> set ?es. slash \<notin> set e" "\<forall>e \<in> set ?es. slash \<notin> set e \<and> e \<noteq> []" using cleaned_free [OF c] by blast+
  have "elems (Clean path) = ?es \<and> IsAbs (Clean path) = IsAbs path"
  proof (cases "IsAbs path")
    case True
    then have cl: "Clean path = slash # joinSlash ?es" by (simp add: Clean_def)
    have "cleanElems True (Split slash (slash # joinSlash ?es)) = ?es"
    proof (cases "?es = []")
      case False
      then have "Split slash (joinSlash ?es) = ?es" using Split_joinSlash free(1) by blast
      then show ?thesis using cleanElems_fix [OF c] True by (simp add: cleanElems_def cleanStep_def)
    qed (simp add: cleanElems_def cleanStep_def)
    then show ?thesis using True by (simp add: cl elems_def [of "slash # joinSlash ?es"] IsAbs_def)
  next
    case False
    show ?thesis
    proof (cases "?es = []")
      case True
      then have "Clean path = ''.''" using False by (simp add: Clean_def)
      then show ?thesis using True False by (simp add: elems_def [of "''.''"] IsAbs_def cleanElems_def cleanStep_def)
    next
      case ne: False
      then have cl: "Clean path = joinSlash ?es" using False by (simp add: Clean_def)
      have "\<not> IsAbs (joinSlash ?es)" using joinSlash_relative [OF ne] free(2) by blast
      moreover have "Split slash (joinSlash ?es) = ?es" using Split_joinSlash ne free(1) by blast
      ultimately show ?thesis using cleanElems_fix c False by (simp add: cl elems_def [of "joinSlash ?es"])
    qed
  qed
  then show "elems (Clean path) = elems path" "IsAbs (Clean path) = IsAbs path" by blast+
qed

text \<open>A path of plain elements below a directory leads nowhere else.\<close>

lemma JoinPath_below:
  assumes "dir \<noteq> []" and "es \<noteq> []" and "\<forall>e \<in> set es. plain e"
  shows "elems (JoinPath [dir, joinSlash es]) = elems dir @ es" and "IsAbs (JoinPath [dir, joinSlash es]) = IsAbs dir"
proof -
  have free: "\<forall>e \<in> set es. slash \<notin> set e" using assms(3) by (simp add: plain_def)
  have j: "JoinPath [dir, joinSlash es] = Clean (dir @ slash # joinSlash es)" using assms(1) by (simp add: JoinPath_def)
  have abs: "IsAbs (dir @ slash # joinSlash es) = IsAbs dir" using assms(1) by (simp add: IsAbs_def)
  have "elems (dir @ slash # joinSlash es) = elems dir @ es"
    unfolding elems_def abs Split_append Split_joinSlash [OF assms(2) free] by (rule cleanElems_plain_append [OF assms(3)])
  then show "elems (JoinPath [dir, joinSlash es]) = elems dir @ es" "IsAbs (JoinPath [dir, joinSlash es]) = IsAbs dir"
    by (simp_all add: j elems_Clean IsAbs_Clean abs)
qed

lemma Clean_relative: "\<not> IsAbs path \<Longrightarrow> Clean path \<noteq> ''.'' \<Longrightarrow> elems path \<noteq> [] \<and> Clean path = joinSlash (elems path)"
  by (auto simp: Clean_def split: if_split_asm)

lemma plain_rev_tail: "plain x \<Longrightarrow> takeWhile (\<lambda>c. c \<noteq> slash) (rev x @ slash # s) = rev x
    \<and> dropWhile (\<lambda>c. c \<noteq> slash) (rev x @ slash # s) = slash # s"
  by (auto simp: plain_def takeWhile_append dropWhile_append)

lemma stripSlashes_plain: "plain x \<Longrightarrow> stripSlashes (s @ x) = s @ x"
proof -
  assume x: "plain x"
  then obtain y c where "x = y @ [c]" "c \<noteq> slash" by (cases x rule: rev_cases) (auto simp: plain_def)
  then show ?thesis by (simp add: stripSlashes_def)
qed

lemma Base_joinSlash: "plain x \<Longrightarrow> Base (joinSlash (es @ [x])) = x"
proof (cases "es = []")
  case True
  assume x: "plain x"
  have "takeWhile (\<lambda>c. c \<noteq> slash) (rev x) = rev x" using x by (simp only: takeWhile_eq_all_conv) (auto simp: plain_def)
  moreover have "stripSlashes x = x" using stripSlashes_plain [OF x, of "[]"] by simp
  ultimately have "rev (takeWhile (\<lambda>c. c \<noteq> slash) (rev (stripSlashes x))) = x" by (simp only: rev_rev_ident)
  then have "Base x = x" using x unfolding Base_def Let_def by (simp only:) (simp add: plain_def)
  then show ?thesis using True by simp
next
  case False
  assume x: "plain x"
  have "stripSlashes (joinSlash es @ slash # x) = joinSlash es @ slash # x"
    using stripSlashes_plain [OF x, of "joinSlash es @ [slash]"] by simp
  then show ?thesis using plain_rev_tail [OF x, of "rev (joinSlash es)"] x False
    by (simp add: Base_def joinSlash_snoc plain_def)
qed

lemma Dir_joinSlash:
  assumes "plain x" and "cleaned False es"
  shows "Dir (joinSlash (es @ [x])) = (if es = [] then ''.'' else joinSlash es)"
proof (cases "es = []")
  case True
  have "dropWhile (\<lambda>c. c \<noteq> slash) (rev x) = []"
    using assms(1) by (simp only: dropWhile_eq_Nil_conv) (auto simp: plain_def)
  then have "Dir x = Clean []" unfolding Dir_def by (simp only: rev.simps)
  then show ?thesis using True by (simp add: Clean_def elems_def IsAbs_def cleanElems_def cleanStep_def)
next
  case False
  have f: "\<forall>e \<in> set es. slash \<notin> set e" "\<forall>e \<in> set es. slash \<notin> set e \<and> e \<noteq> []" using cleaned_free [OF assms(2)] by blast+
  have d: "Dir (joinSlash (es @ [x])) = Clean (joinSlash es @ [slash])"
    using plain_rev_tail [OF assms(1), of "rev (joinSlash es)"] False by (simp add: Dir_def joinSlash_snoc)
  have na: "\<not> IsAbs (joinSlash es @ [slash])" using joinSlash_relative [OF False f(2)] by (auto simp: IsAbs_def)
  have "Split slash (joinSlash es @ slash # []) = es @ [[]]" unfolding Split_append Split_joinSlash [OF False f(1)] by simp
  moreover have "cleanElems r (xs @ [[]]) = cleanElems r xs" for r xs by (simp add: cleanElems_def cleanStep_def)
  ultimately have "elems (joinSlash es @ [slash]) = es" using na cleanElems_fix [OF assms(2)] by (simp add: elems_def)
  then show ?thesis using na False by (simp add: d Clean_def)
qed

end
