(* ===== verification/Cooldown_Store.thy ===== *)
theory Cooldown_Store
  imports Cooldown_Records Go_Path
begin

text \<open>
  The file store of cooldown records (\<^verbatim>\<open>sdk/cliproxy/auth/cooldown_state.go\<close>): where the records of a
  credential are filed, and what a save and a load do to the files below the directory of the store.

  The files are a map from paths to the records a file holds, so the JSON text of a file is left out,
  as are the failures of the operating system; a record loses its \<open>AuthFile\<close>, which is not written. Every
  path of the map lies below the directory, which is what the walk of the directory visits.
\<close>

section \<open>Paths\<close>

record FileCooldownStateStore =
  st_dir :: string
  st_authDir :: string

definition NewFileCooldownStateStoreWithAuthDir :: "string \<Rightarrow> string \<Rightarrow> FileCooldownStateStore" where
  "NewFileCooldownStateStoreWithAuthDir dir authDir = \<lparr>st_dir = TrimSpace dir, st_authDir = TrimSpace authDir\<rparr>"

definition safe_char :: "char \<Rightarrow> bool" where
  "safe_char c \<longleftrightarrow>
     (let n = of_char c :: nat
      in (65 \<le> n \<and> n \<le> 90) \<or> (97 \<le> n \<and> n \<le> 122) \<or> (48 \<le> n \<and> n \<le> 57) \<or> c \<in> set ''._-'')"

text \<open>Every run of characters outside \<open>[A-Za-z0-9._-]\<close> becomes one underscore.\<close>

fun replaceUnsafe :: "bool \<Rightarrow> string \<Rightarrow> string" where
  "replaceUnsafe inRun [] = []"
| "replaceUnsafe inRun (c # cs) =
     (if safe_char c then c # replaceUnsafe False cs
      else if inRun then replaceUnsafe True cs
      else CHR ''_'' # replaceUnsafe True cs)"

definition trimMarks :: "string \<Rightarrow> string" where
  "trimMarks s = rev (dropWhile (\<lambda>c. c \<in> set ''._-'') (rev (dropWhile (\<lambda>c. c \<in> set ''._-'') s)))"

definition sanitizeCooldownFileName :: "string \<Rightarrow> string" where
  "sanitizeCooldownFileName name0 =
     (let name = TrimSpace name0 in
      if name = [] then []
      else
        let stem = take (length name - length (Ext name)) name;
            clean = trimMarks (replaceUnsafe False stem)
        in if clean = [] then [] else clean @ ''.cds'')"

definition cdsPathForRel :: "string \<Rightarrow> string" where
  "cdsPathForRel rel =
     (let clean = Clean rel in
      if clean = ''.'' \<or> clean = ''..'' \<or> HasPrefix clean ''../'' then []
      else
        let dir = Dir clean; base = sanitizeCooldownFileName (Base clean)
        in if base = [] then []
           else if dir = ''.'' then base
           else JoinPath [dir, base])"

definition stateRelativePath :: "FileCooldownStateStore \<Rightarrow> CooldownStateRecord \<Rightarrow> string" where
  "stateRelativePath s record =
     (let authFile = TrimSpace (cr_AuthFile record) in
      if authFile \<noteq> [] then
        (case (if IsAbs authFile \<and> TrimSpace (st_authDir s) \<noteq> [] then RelAbs (st_authDir s) authFile else None) of
           Some rel \<Rightarrow>
             if rel \<noteq> ''.'' \<and> \<not> HasPrefix rel ''../'' \<and> rel \<noteq> ''..'' then cdsPathForRel rel
             else sanitizeCooldownFileName (Base authFile)
         | None \<Rightarrow>
             if \<not> IsAbs authFile then cdsPathForRel authFile
             else sanitizeCooldownFileName (Base authFile))
      else sanitizeCooldownFileName (TrimSpace (cr_AuthID record)))"

definition statePath :: "FileCooldownStateStore \<Rightarrow> CooldownStateRecord \<Rightarrow> string + string" where
  "statePath s record =
     (let rel = stateRelativePath s record
      in if rel = [] then Inl ''cooldown state path: missing auth identity'' else Inr (JoinPath [st_dir s, rel]))"

section \<open>Save and load\<close>

type_synonym cooldown_files = "(string, CooldownStateRecord list) gomap"

fun groupRecords ::
  "FileCooldownStateStore \<Rightarrow> CooldownStateRecord list \<Rightarrow> cooldown_files \<Rightarrow> string + cooldown_files" where
  "groupRecords s [] groups = Inr groups"
| "groupRecords s (record # records) groups =
     (if TrimSpace (cr_AuthID record) = [] then groupRecords s records groups
      else case statePath s record of
        Inl e \<Rightarrow> Inl e
      | Inr path \<Rightarrow>
          groupRecords s records
            (AList.update path ((case map_of groups path of None \<Rightarrow> [] | Some rs \<Rightarrow> rs) @ [record]) groups))"

definition isStateFile :: "string \<Rightarrow> bool" where
  "isStateFile path \<longleftrightarrow> EqualFold (Ext (Base path)) ''.cds''"

definition removeStaleStateFiles :: "string list \<Rightarrow> cooldown_files \<Rightarrow> cooldown_files" where
  "removeStaleStateFiles desired files =
     filter (\<lambda>(path, _). \<not> isStateFile path \<or> Clean path \<in> set desired) files"

definition writeCooldownStateGroup :: "string \<Rightarrow> CooldownStateRecord list \<Rightarrow> cooldown_files \<Rightarrow> cooldown_files" where
  "writeCooldownStateGroup path records files =
     AList.update path (map (\<lambda>r. r\<lparr>cr_AuthFile := []\<rparr>) (sort_key cr_Model records)) files"

definition store_Save :: "FileCooldownStateStore \<Rightarrow> CooldownStateRecord list \<Rightarrow> cooldown_files \<Rightarrow> string + cooldown_files" where
  "store_Save s records files =
     (if st_dir s = [] then Inr files
      else case groupRecords s records [] of
        Inl e \<Rightarrow> Inl e
      | Inr groups \<Rightarrow>
          if groups = [] then Inr (removeStaleStateFiles [] files)
          else Inr (removeStaleStateFiles (map (\<lambda>(path, _). Clean path) groups)
                 (fold (\<lambda>(path, rs). writeCooldownStateGroup path rs) groups files)))"

definition store_Load :: "FileCooldownStateStore \<Rightarrow> cooldown_files \<Rightarrow> CooldownStateRecord list" where
  "store_Load s files =
     (if st_dir s = [] then [] else concat (map snd (filter (\<lambda>(path, _). isStateFile path) files)))"

section \<open>Files stay below the directory\<close>

lemma replaceUnsafe_safe: "list_all safe_char (replaceUnsafe b s)"
proof -
  have "safe_char (CHR ''_'')" by code_simp
  then show ?thesis by (induction b s rule: replaceUnsafe.induct) simp_all
qed

lemma trimMarks_safe: "list_all safe_char s \<Longrightarrow> list_all safe_char (trimMarks s)"
  by (auto simp: trimMarks_def list_all_iff dest!: set_dropWhileD)

text \<open>The name of a state file.\<close>

definition stateName :: "string \<Rightarrow> bool" where
  "stateName e \<longleftrightarrow> (\<exists>c. c \<noteq> [] \<and> list_all safe_char c \<and> e = c @ ''.cds'')"

lemma sanitize_stateName: "sanitizeCooldownFileName n \<noteq> [] \<Longrightarrow> stateName (sanitizeCooldownFileName n)"
  unfolding stateName_def sanitizeCooldownFileName_def Let_def
  using trimMarks_safe [OF replaceUnsafe_safe] by (auto split: if_split_asm)

lemma stateName_plain: "stateName e \<Longrightarrow> plain e"
proof -
  assume "stateName e"
  then obtain c where c: "c \<noteq> []" "list_all safe_char c" "e = c @ ''.cds''" by (auto simp: stateName_def)
  have "\<not> safe_char slash" by code_simp
  then have "slash \<notin> set e" using c(2,3) by (auto simp: list_all_iff)
  moreover have "length e > 2" using c(3) by simp
  ultimately show ?thesis by (auto simp: plain_def)
qed

lemma Ext_stateName: "stateName e \<Longrightarrow> Ext e = ''.cds''"
proof -
  assume "stateName e"
  then obtain c where "e = c @ ''.cds''" unfolding stateName_def by blast
  then show ?thesis by (simp add: Ext_def)
qed

text \<open>A relative path that leads down to a state file.\<close>

definition below :: "string list \<Rightarrow> bool" where
  "below es \<longleftrightarrow> es \<noteq> [] \<and> (\<forall>e \<in> set es. plain e) \<and> stateName (last es)"

lemma below_one: "sanitizeCooldownFileName n \<noteq> [] \<Longrightarrow> \<exists>es. sanitizeCooldownFileName n = joinSlash es \<and> below es"
  using sanitize_stateName stateName_plain by (intro exI [of _ "[sanitizeCooldownFileName n]"]) (simp add: below_def)

lemma cdsPathForRel_below:
  assumes "\<not> IsAbs rel" and "cdsPathForRel rel \<noteq> []"
  shows "\<exists>es. cdsPathForRel rel = joinSlash es \<and> below es"
proof -
  let ?es = "elems rel"
  have guard: "Clean rel \<noteq> ''.''" "Clean rel \<noteq> ''..''" "\<not> HasPrefix (Clean rel) ''../''"
    using assms(2) by (auto simp: cdsPathForRel_def Let_def split: if_split_asm)
  have ne: "?es \<noteq> []" and cl: "Clean rel = joinSlash ?es" using Clean_relative [OF assms(1) guard(1)] by blast+
  have "cleaned False ?es" using elems_cleaned [of rel] assms(1) by simp
  then obtain n ps where np: "?es = replicate n ''..'' @ ps" "\<forall>p \<in> set ps. plain p" by (elim cleanedE)
  have "n = 0"
  proof (rule ccontr)
    assume "n \<noteq> 0"
    then obtain m where "?es = ''..'' # replicate m ''..'' @ ps" using np(1) by (cases n) simp_all
    then have "joinSlash ?es = ''..'' \<or> (\<exists>t. joinSlash ?es = ''../'' @ t)"
      by (cases "replicate m ''..'' @ ps") simp_all
    then show False using guard(2,3) by (auto simp: cl HasPrefix_iff)
  qed
  then have pl: "\<forall>e \<in> set ?es. plain e" using np by simp
  obtain es x where ex: "?es = es @ [x]" using ne by (cases ?es rule: rev_cases) simp_all
  have x: "plain x" and ps: "\<forall>e \<in> set es. plain e" using pl ex by simp_all
  have ces: "cleaned False es" using ps by (intro cleanedI [of _ 0 es]) simp_all
  have b: "Base (Clean rel) = x" unfolding cl ex using x by (rule Base_joinSlash)
  have d: "Dir (Clean rel) = (if es = [] then ''.'' else joinSlash es)" unfolding cl ex using x ces by (rule Dir_joinSlash)
  let ?b = "sanitizeCooldownFileName x"
  have bne: "?b \<noteq> []" using assms(2) guard b by (auto simp: cdsPathForRel_def Let_def split: if_split_asm)
  have below: "below (es @ [?b])" using ps sanitize_stateName [OF bne] stateName_plain by (simp add: below_def)
  have "cdsPathForRel rel = joinSlash (es @ [?b])"
  proof (cases "es = []")
    case True
    then show ?thesis using guard b d bne by (simp add: cdsPathForRel_def Let_def)
  next
    case False
    have all: "\<forall>e \<in> set (es @ [?b]). plain e" using below by (simp add: below_def)
    have rel: "joinSlash es \<noteq> [] \<and> \<not> IsAbs (joinSlash es)"
      using joinSlash_relative [OF False] ps by (simp add: plain_def)
    have ne2: "joinSlash es \<noteq> ''.''"
    proof
      assume "joinSlash es = ''.''"
      moreover have "Split slash (joinSlash es) = es" using Split_joinSlash [OF False] ps by (simp add: plain_def)
      ultimately have "es = [''.'']" by simp
      then show False using ps by simp
    qed
    have "elems (JoinPath [joinSlash es, joinSlash [?b]]) = elems (joinSlash es) @ [?b]"
      and na: "\<not> IsAbs (JoinPath [joinSlash es, joinSlash [?b]])"
      using JoinPath_below [of "joinSlash es" "[?b]"] rel all by simp_all
    moreover have "elems (joinSlash es) = es"
      using rel Split_joinSlash [OF False] ps cleanElems_fix [OF ces] by (simp add: elems_def plain_def)
    ultimately have e: "elems (joinSlash es @ slash # ?b) = es @ [?b]"
      using rel by (simp add: JoinPath_def elems_Clean)
    have "\<not> IsAbs (joinSlash es @ slash # ?b)" using rel by (auto simp: IsAbs_def)
    then have "JoinPath [joinSlash es, ?b] = joinSlash (es @ [?b])" using rel by (simp add: JoinPath_def Clean_def e)
    then show ?thesis using guard b d bne False ne2 by (simp add: cdsPathForRel_def Let_def)
  qed
  then show ?thesis using below by blast
qed

lemma joinSlash_dots_relative: "joinSlash (replicate n ''..'' @ ts) = [] \<or> \<not> IsAbs (joinSlash (replicate n ''..'' @ ts))"
  if "cleaned False ts \<or> (\<forall>t \<in> set ts. slash \<notin> set t \<and> t \<noteq> [])"
proof (cases "replicate n ''..'' @ ts = []")
  case False
  have "\<forall>e \<in> set (replicate n ''..'' @ ts). slash \<notin> set e \<and> e \<noteq> []" using that cleaned_free by auto
  then show ?thesis using joinSlash_relative [OF False] by blast
qed simp

lemma dropCommon_set: "dropCommon xs ys = (bs, ts) \<Longrightarrow> set ts \<subseteq> set ys"
  by (induction xs ys rule: dropCommon.induct) (auto split: if_split_asm)

lemma RelAbs_relative: "RelAbs base targ = Some rel \<Longrightarrow> \<not> IsAbs rel"
proof -
  assume r: "RelAbs base targ = Some rel"
  obtain bs ts where d: "dropCommon (elems base) (elems targ) = (bs, ts)" by fastforce
  have "\<forall>t \<in> set ts. slash \<notin> set t \<and> t \<noteq> []"
    using dropCommon_set [OF d] cleaned_free [OF elems_cleaned [of targ]] by blast
  then have "\<not> IsAbs (joinSlash (replicate (length bs) ''..'' @ ts))"
    using joinSlash_dots_relative [of ts "length bs"] by (auto simp: IsAbs_def)
  then show ?thesis using r d by (auto simp: RelAbs_def IsAbs_def split: if_split_asm)
qed

lemma stateRelativePath_below:
  assumes "stateRelativePath s r \<noteq> []"
  shows "\<exists>es. stateRelativePath s r = joinSlash es \<and> below es"
proof -
  have "(\<exists>n. stateRelativePath s r = sanitizeCooldownFileName n)
      \<or> (\<exists>rel. \<not> IsAbs rel \<and> stateRelativePath s r = cdsPathForRel rel)"
  proof (cases "TrimSpace (cr_AuthFile r) \<noteq> [] \<and> IsAbs (TrimSpace (cr_AuthFile r)) \<and> TrimSpace (st_authDir s) \<noteq> []")
    case True
    then show ?thesis
      using RelAbs_relative [of "st_authDir s" "TrimSpace (cr_AuthFile r)"]
      by (cases "RelAbs (st_authDir s) (TrimSpace (cr_AuthFile r))") (auto simp: stateRelativePath_def Let_def)
  qed (auto simp: stateRelativePath_def Let_def)
  then show ?thesis using assms below_one cdsPathForRel_below by metis
qed

text \<open>
  C33: wherever the store files the records of a credential, the file lies below the
  directory of the store: behind the elements of the directory come only plain names, no step to a parent,
  whatever the file name or the identifier of the credential holds; the last one is a name of safe
  characters with the extension of state files.
\<close>

theorem state_files_inside:
  assumes "st_dir s \<noteq> []" and "statePath s r = Inr path"
  shows "\<exists>es. elems path = elems (st_dir s) @ es \<and> IsAbs path = IsAbs (st_dir s)
    \<and> es \<noteq> [] \<and> (\<forall>e \<in> set es. e \<noteq> [] \<and> e \<noteq> ''.'' \<and> e \<noteq> ''..'' \<and> slash \<notin> set e)
    \<and> (\<exists>c. c \<noteq> [] \<and> list_all safe_char c \<and> last es = c @ ''.cds'')"
proof -
  have p: "stateRelativePath s r \<noteq> []" "path = JoinPath [st_dir s, stateRelativePath s r]"
    using assms(2) by (auto simp: statePath_def Let_def split: if_split_asm)
  obtain es where es: "stateRelativePath s r = joinSlash es" "below es" using stateRelativePath_below [OF p(1)] by blast
  then have "elems path = elems (st_dir s) @ es" "IsAbs path = IsAbs (st_dir s)"
    using JoinPath_below [OF assms(1), of es] by (simp_all add: p(2) below_def)
  then show ?thesis using es(2) unfolding below_def plain_def stateName_def by blast
qed

theorem state_files_inside_witness:
  "\<exists>es. elems ''/var/cds/etc_passwd.cds'' = elems ''/var/cds'' @ es \<and> es \<noteq> []"
proof -
  let ?s = "\<lparr>st_dir = ''/var/cds'', st_authDir = []\<rparr>"
  let ?r = "\<lparr>cr_Provider = [], cr_AuthID = ''../../etc/passwd'', cr_AuthFile = [], cr_Model = [], cr_Status = [],
     cr_NextRetryAfter = 0, cr_NonUnauthorizedRetryAfter = 0, cr_Reason = [], cr_Quota = zero_QuotaState,
     cr_LastError = None, cr_UpdatedAt = 0\<rparr>"
  have p: "statePath ?s ?r = Inr ''/var/cds/etc_passwd.cds''" by code_simp
  have "st_dir ?s \<noteq> []" by simp
  from state_files_inside [OF this p] show ?thesis by auto
qed

section \<open>What was saved is loaded\<close>

definition written :: "CooldownStateRecord \<Rightarrow> CooldownStateRecord" where
  "written r = r\<lparr>cr_AuthFile := []\<rparr>"

definition kept_records :: "CooldownStateRecord list \<Rightarrow> CooldownStateRecord list" where
  "kept_records rs = filter (\<lambda>r. TrimSpace (cr_AuthID r) \<noteq> []) rs"

definition contents :: "cooldown_files \<Rightarrow> CooldownStateRecord multiset" where
  "contents files = (\<Sum>(p, rs) \<leftarrow> files. mset rs)"

lemma contents_simps [simp]: "contents [] = {#}" "contents ((p, rs) # files) = mset rs + contents files"
  by (simp_all add: contents_def)

lemma contents_update:
  "distinct_keys files \<Longrightarrow> contents (AList.update p ((case map_of files p of None \<Rightarrow> [] | Some rs \<Rightarrow> rs) @ [r]) files) =
     contents files + {#r#}"
proof (induction files)
  case (Cons f files)
  obtain q rs where f: "f = (q, rs)" by (cases f)
  show ?case using Cons by (cases "q = p") (simp_all add: f)
qed simp

lemma groupRecords_spec:
  assumes "groupRecords s rs groups = Inr groups'" and "distinct_keys groups"
  shows "distinct_keys groups'" and "contents groups' = contents groups + mset (kept_records rs)"
    and "keys groups' = keys groups \<union> {p. \<exists>r \<in> set (kept_records rs). statePath s r = Inr p}"
  using assms
proof (induction s rs groups rule: groupRecords.induct)
  case (2 s r rs groups)
  {
    case 1
    show ?case using 1 2 by (auto split: if_split_asm sum.splits)
  next
    case 2
    show ?case using 2 "2.IH" contents_update [OF 2(2)]
      by (auto simp: kept_records_def split: if_split_asm sum.splits)
  next
    case 3
    show ?case using 3 "2.IH"
      by (auto simp: kept_records_def split: if_split_asm sum.splits)
  }
qed (auto simp: kept_records_def)

lemma groupRecords_error:
  "(\<exists>e. groupRecords s rs groups = Inl e) \<longleftrightarrow> (\<exists>r \<in> set (kept_records rs). \<exists>e. statePath s r = Inl e)"
  by (induction s rs groups rule: groupRecords.induct) (auto simp: kept_records_def split: sum.splits)

definition files_ok :: "cooldown_files \<Rightarrow> bool" where
  "files_ok files \<longleftrightarrow> distinct_keys files \<and> (\<forall>p \<in> keys files. Clean p = p)"

lemma Clean_idem: "Clean (Clean p) = Clean p"
  unfolding Clean_def [of "Clean p"] IsAbs_Clean elems_Clean by (simp add: Clean_def)

text \<open>The files of records are state files with clean paths.\<close>

lemma statePath_state:
  assumes "st_dir s \<noteq> []" and "statePath s r = Inr p"
  shows "isStateFile p" and "Clean p = p"
proof -
  have p: "stateRelativePath s r \<noteq> []" "p = JoinPath [st_dir s, stateRelativePath s r]"
    using assms(2) by (auto simp: statePath_def Let_def split: if_split_asm)
  obtain es where es: "stateRelativePath s r = joinSlash es" "below es" using stateRelativePath_below [OF p(1)] by blast
  have j: "p = Clean (st_dir s @ slash # joinSlash es)" using p(2) assms(1) es(1) by (simp add: JoinPath_def)
  show "Clean p = p" unfolding j by (rule Clean_idem)
  have e: "elems p = elems (st_dir s) @ es" using JoinPath_below [OF assms(1), of es] es by (simp add: p(2) below_def)
  have ne: "elems p \<noteq> []" using e es(2) by (simp add: below_def)
  have "p = joinSlash (elems p) \<or> p = joinSlash ([] # elems p)"
  proof -
    have "joinSlash ([] # elems p) = slash # joinSlash (elems p)" using ne by (cases "elems p") simp_all
    then show ?thesis using \<open>Clean p = p\<close> ne by (cases "IsAbs p") (simp_all add: Clean_def)
  qed
  moreover obtain pre x where x: "elems p = pre @ [x]" using ne by (cases "elems p" rule: rev_cases) simp_all
  moreover have "x = last es" using x e es(2) by (metis below_def last_appendR last_snoc)
  then have st: "stateName x" using es(2) by (simp add: below_def)
  ultimately have "Base p = x"
    using Base_joinSlash [OF stateName_plain [OF st], of pre] Base_joinSlash [OF stateName_plain [OF st], of "[] # pre"] by auto
  then show "isStateFile p" using Ext_stateName [OF st] by (simp add: isStateFile_def EqualFold_def)
qed

lemma write_fold:
  assumes "distinct_keys groups"
  shows "map_of (fold (\<lambda>(path, rs). writeCooldownStateGroup path rs) groups files) p =
    (case map_of groups p of None \<Rightarrow> map_of files p | Some rs \<Rightarrow> Some (map written (sort_key cr_Model rs)))"
  by (rule fold_keyed [OF assms, where f = "\<lambda>p rs old. Some (map written (sort_key cr_Model rs))"])
    (simp add: writeCooldownStateGroup_def written_def update_conv')

lemma write_fold_distinct:
  "distinct_keys files \<Longrightarrow> distinct_keys (fold (\<lambda>(path, rs). writeCooldownStateGroup path rs) groups files)"
  by (induction groups arbitrary: files) (auto simp: writeCooldownStateGroup_def)

lemma contents_cong:
  assumes "distinct_keys m" and "distinct_keys n" and "\<And>k. map_of m k = map_of n k"
  shows "contents m = contents n"
proof -
  have "set m = set n" using assms by (intro set_eqI) (metis map_of_eq_Some_iff surj_pair)
  moreover have "distinct m" "distinct n" using assms(1,2) by (simp_all add: distinct_map)
  ultimately have "mset m = mset n" by (simp add: set_eq_iff_mset_eq_distinct)
  then have "image_mset (\<lambda>(p, rs). mset rs) (mset m) = image_mset (\<lambda>(p, rs). mset rs) (mset n)" by simp
  then have "mset (map (\<lambda>(p, rs). mset rs) m) = mset (map (\<lambda>(p, rs). mset rs) n)" by simp
  then show ?thesis unfolding contents_def by (metis sum_mset_sum_list)
qed

lemma contents_map: "contents (map (\<lambda>(p, rs). (p, map written (sort_key cr_Model rs))) groups) = image_mset written (contents groups)"
  by (induction groups) auto

lemma store_Load_contents: "st_dir s \<noteq> [] \<Longrightarrow> mset (store_Load s files) = contents (filter (\<lambda>(path, _). isStateFile path) files)"
proof -
  assume "st_dir s \<noteq> []"
  moreover have "mset (concat (map snd fs)) = contents fs" for fs :: cooldown_files by (induction fs) auto
  ultimately show ?thesis by (simp add: store_Load_def)
qed

lemma map_of_filter_key: "map_of (filter (\<lambda>(k, _). P k) m) k = (if P k then map_of m k else None)"
  by (induction m) auto

text \<open>The state files after a save are the groups of records, whatever files were there before.\<close>

lemma saved_state_files:
  fixes groups :: "(string, CooldownStateRecord list) gomap" and files :: "(string, CooldownStateRecord list) gomap"
  defines "w \<equiv> fold (\<lambda>(path, rs). writeCooldownStateGroup path rs) groups files"
  defines "left \<equiv> filter (\<lambda>(path, _). isStateFile path) (removeStaleStateFiles (map (\<lambda>(path, _). Clean path) groups) w)"
  assumes dg: "distinct_keys groups" and st: "\<And>p. p \<in> keys groups \<Longrightarrow> isStateFile p \<and> Clean p = p" and ok: "files_ok files"
  shows "distinct_keys left"
    and "map_of left k = map_of (map (\<lambda>(p, rs). (p, map written (sort_key cr_Model rs))) groups) k"
proof -
  show "distinct_keys left"
    using write_fold_distinct [of files groups] ok
    by (simp add: left_def w_def removeStaleStateFiles_def files_ok_def distinct_map_filter)
  have cp: "Clean p = p" if "map_of w p \<noteq> None" for p
  proof -
    have "p \<in> keys groups \<or> p \<in> keys files"
      using that unfolding w_def write_fold [OF dg] map_of_eq_None_iff [symmetric, of groups] not_not
      by (cases "map_of groups p") (force dest: map_of_SomeD)+
    then show ?thesis using st ok unfolding files_ok_def by blast
  qed
  have des: "set (map (\<lambda>(path, _). Clean path) groups) = keys groups" using st by (force simp: image_iff case_prod_beta)
  have "left = filter (\<lambda>(p, _). isStateFile p \<and> Clean p \<in> keys groups) w"
    unfolding left_def removeStaleStateFiles_def des filter_filter by (rule filter_cong) auto
  then have l: "map_of left k = (if isStateFile k \<and> Clean k \<in> keys groups then map_of w k else None)" by (simp only: map_of_filter_key)
  show "map_of left k = map_of (map (\<lambda>(p, rs). (p, map written (sort_key cr_Model rs))) groups) k"
  proof (cases "k \<in> keys groups")
    case True
    then obtain rs where "map_of groups k = Some rs" by (metis map_of_eq_None_iff option.exhaust)
    then show ?thesis using True st [OF True] by (simp add: l w_def write_fold [OF dg] map_of_map_values)
  next
    case False
    then have n: "map_of groups k = None" by (simp add: map_of_eq_None_iff)
    have "map_of w k = None \<or> Clean k \<notin> keys groups" using False cp [of k] by metis
    then have "map_of left k = None" unfolding l by (elim disjE) simp_all
    then show ?thesis using n by (simp add: map_of_map_values)
  qed
qed


definition exampleRecord :: CooldownStateRecord where
  "exampleRecord = \<lparr>cr_Provider = ''codex'', cr_AuthID = ''a'', cr_AuthFile = ''sub/a.json'', cr_Model = ''gpt-5'', cr_Status = ''cooling'',
     cr_NextRetryAfter = 50, cr_NonUnauthorizedRetryAfter = 0, cr_Reason = [], cr_Quota = zero_QuotaState,
     cr_LastError = None, cr_UpdatedAt = 1\<rparr>"


end
