(* ===== verification/Session_Cache.thy ===== *)
theory Session_Cache
  imports Auth_Types
begin

text \<open>
  The session cache (\<^verbatim>\<open>sdk/cliproxy/auth/session_cache.go\<close>): bindings of session
  identifiers to credentials with a time to live, where the identifiers of one logical
  session form a group of aliases that is refreshed, moved and removed together.

  Every operation takes the clock readings of its \<open>time.Now()\<close> calls. The mutex makes an
  operation atomic, except that \<open>Get\<close> reads under the read lock first; with no operation in
  between it sees the same map twice. The background goroutine only runs \<open>cleanup\<close>.

  The main result is the group invariant \<open>cache_wf\<close>: every key belongs to its own alias list and
  every alias of a group holds the identical entry. It is what makes removing or moving a
  group complete.
\<close>

section \<open>Model\<close>

definition maxStableSessionAliases :: nat where "maxStableSessionAliases = 64"

record sessionEntry =
  se_authID :: string
  se_expiresAt :: time
  se_aliases :: "string list"

record SessionCache =
  sc_entries :: "(string, sessionEntry) gomap"
  sc_ttl :: duration

definition NewSessionCache :: "duration \<Rightarrow> SessionCache" where
  "NewSessionCache ttl = \<lparr>sc_entries = [], sc_ttl = (if ttl \<le> 0 then 30 * Minute else ttl)\<rparr>"

fun equalSessionAliases :: "string list \<Rightarrow> string list \<Rightarrow> bool" where
  "equalSessionAliases [] [] = True"
| "equalSessionAliases (x # xs) (y # ys) = (x = y \<and> equalSessionAliases xs ys)"
| "equalSessionAliases _ _ = False"

definition removeAliasGroupLocked :: "sessionEntry \<Rightarrow> SessionCache \<Rightarrow> SessionCache" where
  "removeAliasGroupLocked entry c =
     fold (\<lambda>alias c.
       case map_of (sc_entries c) alias of
         None \<Rightarrow> c
       | Some current \<Rightarrow>
           if se_authID current \<noteq> se_authID entry \<or> se_expiresAt current \<noteq> se_expiresAt entry
              \<or> \<not> equalSessionAliases (se_aliases current) (se_aliases entry)
           then c
           else c\<lparr>sc_entries := AList.delete alias (sc_entries c)\<rparr>)
       (se_aliases entry) c"

definition replaceAliasGroupsLocked ::
  "string \<Rightarrow> time \<Rightarrow> string list \<Rightarrow> sessionEntry list \<Rightarrow> SessionCache \<Rightarrow> SessionCache" where
  "replaceAliasGroupsLocked authID expiresAt aliases previousGroups c =
     (let c1 = fold removeAliasGroupLocked previousGroups c;
          entry = \<lparr>se_authID = authID, se_expiresAt = expiresAt, se_aliases = aliases\<rparr>
      in fold (\<lambda>alias c. c\<lparr>sc_entries := AList.update alias entry (sc_entries c)\<rparr>) aliases c1)"

fun mergeLoop :: "string list \<Rightarrow> string list \<Rightarrow> string list" where
  "mergeLoop aliases [] = aliases"
| "mergeLoop aliases (alias # rest) =
     (if alias = [] \<or> alias \<in> set aliases then mergeLoop aliases rest
      else mergeLoop (aliases @ [alias]) rest)"

definition mergeSessionAliases :: "string list \<Rightarrow> string list \<Rightarrow> string list" where
  "mergeSessionAliases existing candidates = mergeLoop (mergeLoop [] existing) candidates"

fun compactLoop :: "(string \<Rightarrow> bool) \<Rightarrow> bool \<Rightarrow> nat \<Rightarrow> string list \<Rightarrow> string list" where
  "compactLoop isPromptCacheAlias hasPromptCacheKey stableAliases [] = []"
| "compactLoop isPromptCacheAlias hasPromptCacheKey stableAliases (alias # rest) =
     (if isPromptCacheAlias alias then
        (if hasPromptCacheKey then compactLoop isPromptCacheAlias hasPromptCacheKey stableAliases rest
         else alias # compactLoop isPromptCacheAlias True stableAliases rest)
      else if stableAliases \<ge> maxStableSessionAliases
        then compactLoop isPromptCacheAlias hasPromptCacheKey stableAliases rest
      else alias # compactLoop isPromptCacheAlias hasPromptCacheKey (stableAliases + 1) rest)"

definition compactSessionAliasesWith :: "string list \<Rightarrow> (string \<Rightarrow> bool) \<Rightarrow> string list" where
  "compactSessionAliasesWith aliases isPromptCacheAlias = compactLoop isPromptCacheAlias False 0 aliases"

text \<open>\<open>strings.Cut\<close>: what follows the first occurrence of the separator.\<close>

fun cut_after :: "string \<Rightarrow> string \<Rightarrow> string option" where
  "cut_after sep [] = (if sep = [] then Some [] else None)"
| "cut_after sep (c # cs) =
     (case strip_prefix sep (c # cs) of Some r \<Rightarrow> Some r | None \<Rightarrow> cut_after sep cs)"

definition isLocalPromptCacheSessionAlias :: "string \<Rightarrow> bool" where
  "isLocalPromptCacheSessionAlias alias =
     (if HasPrefix alias ''pck:'' then True
      else case cut_after ''::'' alias of
        Some sessionAndModel \<Rightarrow> HasPrefix sessionAndModel ''pck:''
      | None \<Rightarrow> False)"

definition compactSessionAliases :: "string list \<Rightarrow> string list" where
  "compactSessionAliases aliases = compactSessionAliasesWith aliases isLocalPromptCacheSessionAlias"

definition compactHomeSessionAliases :: "string list \<Rightarrow> string list" where
  "compactHomeSessionAliases aliases = compactSessionAliasesWith aliases (\<lambda>alias. HasPrefix alias ''pck:'')"

text \<open>\<open>t1\<close> and \<open>t2\<close> are the clock readings under the read and the write lock.\<close>

definition Get :: "time \<Rightarrow> time \<Rightarrow> string \<Rightarrow> SessionCache \<Rightarrow> string option \<times> SessionCache" where
  "Get t1 t2 sessionID c =
     (if sessionID = [] then (None, c)
      else case map_of (sc_entries c) sessionID of
        None \<Rightarrow> (None, c)
      | Some entry \<Rightarrow>
          if t1 < se_expiresAt entry then (Some (se_authID entry), c)
          else if t2 < se_expiresAt entry then (Some (se_authID entry), c)
          else (None, removeAliasGroupLocked entry c))"

definition GetAndRefresh :: "time \<Rightarrow> string \<Rightarrow> SessionCache \<Rightarrow> string option \<times> SessionCache" where
  "GetAndRefresh now sessionID c =
     (if sessionID = [] then (None, c)
      else case map_of (sc_entries c) sessionID of
        None \<Rightarrow> (None, c)
      | Some entry \<Rightarrow>
          if \<not> now < se_expiresAt entry then (None, removeAliasGroupLocked entry c)
          else
            let aliases = compactSessionAliases (mergeSessionAliases [sessionID] (se_aliases entry))
            in (Some (se_authID entry),
                replaceAliasGroupsLocked (se_authID entry) (now + sc_ttl c) aliases [entry] c))"

fun setAliasesLoop ::
  "time \<Rightarrow> string list \<Rightarrow> string list \<times> sessionEntry list \<times> SessionCache
    \<Rightarrow> string list \<times> sessionEntry list \<times> SessionCache" where
  "setAliasesLoop now [] acc = acc"
| "setAliasesLoop now (sessionID # rest) (aliases, previousGroups, c) =
     (case map_of (sc_entries c) sessionID of
        None \<Rightarrow> setAliasesLoop now rest (aliases, previousGroups, c)
      | Some entry \<Rightarrow>
          if \<not> now < se_expiresAt entry then
            setAliasesLoop now rest (aliases, previousGroups, removeAliasGroupLocked entry c)
          else
            setAliasesLoop now rest
              (mergeSessionAliases aliases (se_aliases entry), previousGroups @ [entry], c))"

definition SetAliases :: "time \<Rightarrow> string \<Rightarrow> string list \<Rightarrow> SessionCache \<Rightarrow> SessionCache" where
  "SetAliases now authID sessionIDs c =
     (if authID = [] then c
      else case setAliasesLoop now sessionIDs (mergeSessionAliases [] sessionIDs, [], c) of
        (aliases0, previousGroups, c1) \<Rightarrow>
          let aliases = compactSessionAliases aliases0
          in if aliases = [] then c1
             else replaceAliasGroupsLocked authID (now + sc_ttl c) aliases previousGroups c1)"

definition Set :: "time \<Rightarrow> string \<Rightarrow> string \<Rightarrow> SessionCache \<Rightarrow> SessionCache" where
  "Set now sessionID authID c = SetAliases now authID [sessionID] c"

definition Touch :: "time \<Rightarrow> string \<Rightarrow> string \<Rightarrow> SessionCache \<Rightarrow> bool \<times> SessionCache" where
  "Touch now sessionID expectedAuthID c =
     (if sessionID = [] \<or> expectedAuthID = [] then (False, c)
      else case map_of (sc_entries c) sessionID of
        None \<Rightarrow> (False, c)
      | Some entry \<Rightarrow>
          if se_authID entry \<noteq> expectedAuthID \<or> \<not> now < se_expiresAt entry then (False, c)
          else
            let aliases = compactSessionAliases (mergeSessionAliases [sessionID] (se_aliases entry))
            in (True, replaceAliasGroupsLocked expectedAuthID (now + sc_ttl c) aliases [entry] c))"

text \<open>The loop that \<open>CompareAndDelete\<close> and \<open>Invalidate\<close> share.\<close>

definition detachAlias :: "string \<Rightarrow> sessionEntry \<Rightarrow> SessionCache \<Rightarrow> SessionCache" where
  "detachAlias sessionID entry c =
     fold (\<lambda>alias c.
       if alias = sessionID then c
       else case map_of (sc_entries c) alias of
         None \<Rightarrow> c
       | Some current \<Rightarrow>
           if se_authID current \<noteq> se_authID entry then c
           else c\<lparr>sc_entries := AList.update alias
                    (current\<lparr>se_aliases := filter (\<lambda>candidate. candidate \<noteq> sessionID) (se_aliases current)\<rparr>)
                    (sc_entries c)\<rparr>)
       (se_aliases entry) c"

definition CompareAndDelete :: "string \<Rightarrow> string \<Rightarrow> SessionCache \<Rightarrow> bool \<times> SessionCache" where
  "CompareAndDelete sessionID expectedAuthID c =
     (if sessionID = [] \<or> expectedAuthID = [] then (False, c)
      else case map_of (sc_entries c) sessionID of
        None \<Rightarrow> (False, c)
      | Some entry \<Rightarrow>
          if se_authID entry \<noteq> expectedAuthID then (False, c)
          else (True, detachAlias sessionID entry (c\<lparr>sc_entries := AList.delete sessionID (sc_entries c)\<rparr>)))"

definition Invalidate :: "string \<Rightarrow> SessionCache \<Rightarrow> SessionCache" where
  "Invalidate sessionID c =
     (if sessionID = [] then c
      else
        let c1 = c\<lparr>sc_entries := AList.delete sessionID (sc_entries c)\<rparr>
        in case map_of (sc_entries c) sessionID of
             None \<Rightarrow> c1
           | Some entry \<Rightarrow> detachAlias sessionID entry c1)"

definition InvalidateAuth :: "string \<Rightarrow> SessionCache \<Rightarrow> SessionCache" where
  "InvalidateAuth authID c =
     (if authID = [] then c
      else c\<lparr>sc_entries := filter (\<lambda>(sid, entry). se_authID entry \<noteq> authID) (sc_entries c)\<rparr>)"

definition cleanup :: "time \<Rightarrow> SessionCache \<Rightarrow> SessionCache" where
  "cleanup now c = c\<lparr>sc_entries := filter (\<lambda>(sid, entry). now < se_expiresAt entry) (sc_entries c)\<rparr>"

section \<open>Lookups after each operation\<close>

abbreviation lookup :: "SessionCache \<Rightarrow> string \<Rightarrow> sessionEntry option" where
  "lookup c k \<equiv> map_of (sc_entries c) k"

lemma equalSessionAliases_iff: "equalSessionAliases xs ys \<longleftrightarrow> xs = ys"
  by (induction xs ys rule: equalSessionAliases.induct) auto

lemma remove_step:
  "(case lookup c alias of
      None \<Rightarrow> c
    | Some current \<Rightarrow>
        if se_authID current \<noteq> se_authID entry \<or> se_expiresAt current \<noteq> se_expiresAt entry
           \<or> \<not> equalSessionAliases (se_aliases current) (se_aliases entry)
        then c else c\<lparr>sc_entries := AList.delete alias (sc_entries c)\<rparr>)
   = (if lookup c alias = Some entry then c\<lparr>sc_entries := AList.delete alias (sc_entries c)\<rparr> else c)"
  by (auto simp: equalSessionAliases_iff split: option.splits)

lemma lookup_remove:
  "lookup (removeAliasGroupLocked e c) k =
     (if k \<in> set (se_aliases e) \<and> lookup c k = Some e then None else lookup c k)"
proof -
  have "lookup (fold (\<lambda>alias c. if lookup c alias = Some e
            then c\<lparr>sc_entries := AList.delete alias (sc_entries c)\<rparr> else c) as c) k =
      (if k \<in> set as \<and> lookup c k = Some e then None else lookup c k)" for as
    by (induction as arbitrary: c) auto
  then show ?thesis unfolding removeAliasGroupLocked_def remove_step .
qed

lemma distinct_remove: "distinct_keys (sc_entries c) \<Longrightarrow> distinct_keys (sc_entries (removeAliasGroupLocked e c))"
proof -
  have "distinct_keys (sc_entries c) \<Longrightarrow> distinct_keys (sc_entries (fold (\<lambda>alias c. if lookup c alias = Some e
      then c\<lparr>sc_entries := AList.delete alias (sc_entries c)\<rparr> else c) as c))" for as
    by (induction as arbitrary: c) auto
  then show "distinct_keys (sc_entries c) \<Longrightarrow> ?thesis" unfolding removeAliasGroupLocked_def remove_step .
qed

lemma ttl_remove [simp]: "sc_ttl (removeAliasGroupLocked e c) = sc_ttl c"
proof -
  have "sc_ttl (fold (\<lambda>alias c. if lookup c alias = Some e
      then c\<lparr>sc_entries := AList.delete alias (sc_entries c)\<rparr> else c) as c) = sc_ttl c" for as
    by (induction as arbitrary: c) auto
  then show ?thesis unfolding removeAliasGroupLocked_def remove_step .
qed

lemma fold_remove:
  "lookup (fold removeAliasGroupLocked ps c) k =
     (if \<exists>p \<in> set ps. k \<in> set (se_aliases p) \<and> lookup c k = Some p then None else lookup c k)"
  by (induction ps arbitrary: c) (auto simp: lookup_remove)

lemma distinct_fold_remove:
  "distinct_keys (sc_entries c) \<Longrightarrow> distinct_keys (sc_entries (fold removeAliasGroupLocked ps c))"
  by (induction ps arbitrary: c) (auto simp: distinct_remove)

lemma lookup_replace:
  "lookup (replaceAliasGroupsLocked a t aliases ps c) k =
     (if k \<in> set aliases then Some \<lparr>se_authID = a, se_expiresAt = t, se_aliases = aliases\<rparr>
      else lookup (fold removeAliasGroupLocked ps c) k)"
proof -
  have "lookup (fold (\<lambda>alias c. c\<lparr>sc_entries := AList.update alias e (sc_entries c)\<rparr>) as c) k =
      (if k \<in> set as then Some e else lookup c k)" for as e and c :: SessionCache
    by (induction as arbitrary: c) auto
  then show ?thesis by (simp add: replaceAliasGroupsLocked_def Let_def)
qed

lemma distinct_replace:
  "distinct_keys (sc_entries c) \<Longrightarrow> distinct_keys (sc_entries (replaceAliasGroupsLocked a t aliases ps c))"
proof -
  have "distinct_keys (sc_entries c) \<Longrightarrow>
      distinct_keys (sc_entries (fold (\<lambda>alias c. c\<lparr>sc_entries := AList.update alias e (sc_entries c)\<rparr>) as c))"
    for as e and c :: SessionCache
    by (induction as arbitrary: c) (auto simp: distinct_update)
  then show "distinct_keys (sc_entries c) \<Longrightarrow> ?thesis"
    by (simp add: replaceAliasGroupsLocked_def Let_def distinct_fold_remove)
qed

subsection \<open>Alias lists\<close>

lemma mergeLoop_facts:
  assumes "distinct as" and "[] \<notin> set as"
  shows "set (mergeLoop as bs) = set as \<union> (set bs - {[]})" "distinct (mergeLoop as bs)"
    "\<exists>cs. mergeLoop as bs = as @ cs"
  using assms by (induction as bs rule: mergeLoop.induct) (auto split: if_splits)

lemma merge_facts:
  "set (mergeSessionAliases as bs) = (set as \<union> set bs) - {[]}"
  "distinct (mergeSessionAliases as bs)"
  using mergeLoop_facts [of "mergeLoop [] as" bs] mergeLoop_facts [of "[]" as]
  by (auto simp: mergeSessionAliases_def)

lemma merge_hd: "x \<noteq> [] \<Longrightarrow> \<exists>cs. mergeSessionAliases (x # as) bs = x # cs"
proof -
  assume x: "x \<noteq> []"
  obtain cs where "mergeLoop [] (x # as) = x # cs" using x mergeLoop_facts(3) [of "[x]" as] by auto
  moreover have "distinct (mergeLoop [] (x # as))" "[] \<notin> set (mergeLoop [] (x # as))"
    using mergeLoop_facts [of "[]" "x # as"] by auto
  ultimately show ?thesis using mergeLoop_facts(3) [of "mergeLoop [] (x # as)" bs]
    by (auto simp: mergeSessionAliases_def)
qed

lemma merge_hd_Nil: "x \<noteq> [] \<Longrightarrow> \<exists>cs. mergeSessionAliases [] (x # bs) = x # cs"
  using mergeLoop_facts(3) [of "[x]" bs] by (auto simp: mergeSessionAliases_def)

lemma compactLoop_subset: "set (compactLoop P h n as) \<subseteq> set as"
  by (induction as arbitrary: h n) auto

lemma compactLoop_distinct: "distinct as \<Longrightarrow> distinct (compactLoop P h n as)"
  by (induction as arbitrary: h n) (auto dest: subsetD [OF compactLoop_subset])

lemma compactLoop_length: "n \<le> 64 \<Longrightarrow> length (compactLoop P h n as) \<le> (64 - n) + (if h then 0 else 1)"
proof (induction as arbitrary: h n)
  case (Cons a as)
  show ?case
    using Cons.prems Cons.IH [of n h] Cons.IH [of n True] Cons.IH [of "Suc n" h]
    by (auto simp: maxStableSessionAliases_def not_le Suc_le_eq)
qed simp

lemma compact_facts:
  "set (compactSessionAliases as) \<subseteq> set as"
  "distinct as \<Longrightarrow> distinct (compactSessionAliases as)"
  "length (compactSessionAliases as) \<le> 65"
  using compactLoop_subset compactLoop_distinct compactLoop_length [of 0 isLocalPromptCacheSessionAlias False as]
  by (auto simp: compactSessionAliases_def compactSessionAliasesWith_def)

lemma compact_hd: "\<exists>cs. compactSessionAliases (x # as) = x # cs"
  by (simp add: compactSessionAliases_def compactSessionAliasesWith_def maxStableSessionAliases_def)

section \<open>The group invariant\<close>

definition group_ok :: "string list \<Rightarrow> bool" where
  "group_ok aliases \<longleftrightarrow> distinct aliases \<and> [] \<notin> set aliases \<and> length aliases \<le> 65"

definition cache_wf :: "SessionCache \<Rightarrow> bool" where
  "cache_wf c \<longleftrightarrow> distinct_keys (sc_entries c) \<and>
     (\<forall>k e. lookup c k = Some e \<longrightarrow>
        group_ok (se_aliases e) \<and> k \<in> set (se_aliases e) \<and> (\<forall>a \<in> set (se_aliases e). lookup c a = Some e))"

lemma cache_wfD:
  assumes "cache_wf c" and "lookup c k = Some e"
  shows "group_ok (se_aliases e)" and "k \<in> set (se_aliases e)" and "a \<in> set (se_aliases e) \<Longrightarrow> lookup c a = Some e"
  using assms unfolding cache_wf_def by blast+

lemma cache_wf_remove: "cache_wf c \<Longrightarrow> cache_wf (removeAliasGroupLocked e c)"
proof -
  assume wf: "cache_wf c"
  have "group_ok (se_aliases e2) \<and> k \<in> set (se_aliases e2)
      \<and> (\<forall>a \<in> set (se_aliases e2). lookup (removeAliasGroupLocked e c) a = Some e2)"
    if k: "lookup (removeAliasGroupLocked e c) k = Some e2" for k e2
  proof -
    have "lookup c k = Some e2" and "k \<in> set (se_aliases e) \<Longrightarrow> e2 \<noteq> e"
      using k by (auto simp: lookup_remove split: if_splits)
    with cache_wfD [OF wf this(1)] show ?thesis by (auto simp: lookup_remove)
  qed
  moreover have "distinct_keys (sc_entries (removeAliasGroupLocked e c))"
    using wf unfolding cache_wf_def by (blast intro: distinct_remove)
  ultimately show ?thesis unfolding cache_wf_def by blast
qed

lemma cache_wf_fold_remove: "cache_wf c \<Longrightarrow> cache_wf (fold removeAliasGroupLocked ps c)"
  by (induction ps arbitrary: c) (simp_all add: cache_wf_remove)

lemma group_ok_compact: "distinct as \<Longrightarrow> [] \<notin> set as \<Longrightarrow> group_ok (compactSessionAliases as)"
  using compact_facts [of as] by (auto simp: group_ok_def)

text \<open>A new group may replace old ones when its aliases are free or belong to replaced groups.\<close>

lemma cache_wf_replace:
  assumes wf: "cache_wf c" and ok: "group_ok aliases"
    and own: "\<And>a p. a \<in> set aliases \<Longrightarrow> lookup c a = Some p \<Longrightarrow> p \<in> set ps"
  shows "cache_wf (replaceAliasGroupsLocked authID t aliases ps c)"
proof -
  let ?c1 = "fold removeAliasGroupLocked ps c"
  have wf1: "cache_wf ?c1" by (rule cache_wf_fold_remove [OF wf])
  have free: "lookup ?c1 a = None" if "a \<in> set aliases" for a
    using own [OF that] cache_wfD(2) [OF wf] by (cases "lookup c a") (auto simp: fold_remove)
  show ?thesis
    unfolding cache_wf_def
  proof (intro conjI allI impI)
    show "distinct_keys (sc_entries (replaceAliasGroupsLocked authID t aliases ps c))"
      using wf by (simp add: cache_wf_def distinct_replace)
    fix k e
    assume k: "lookup (replaceAliasGroupsLocked authID t aliases ps c) k = Some e"
    show "group_ok (se_aliases e)" "k \<in> set (se_aliases e)"
      "\<forall>a \<in> set (se_aliases e). lookup (replaceAliasGroupsLocked authID t aliases ps c) a = Some e"
      using k ok free cache_wfD [OF wf1, of k e] by (fastforce simp: lookup_replace split: if_splits)+
  qed
qed

lemma cache_wf_refresh:
  assumes wf: "cache_wf c" and e: "lookup c sid = Some entry" and "sid \<noteq> []"
  shows "cache_wf (replaceAliasGroupsLocked authID t
    (compactSessionAliases (mergeSessionAliases [sid] (se_aliases entry))) [entry] c)"
proof (rule cache_wf_replace [OF wf])
  show "group_ok (compactSessionAliases (mergeSessionAliases [sid] (se_aliases entry)))"
    by (rule group_ok_compact) (simp_all add: merge_facts)
  fix a p
  assume "a \<in> set (compactSessionAliases (mergeSessionAliases [sid] (se_aliases entry)))" and "lookup c a = Some p"
  with cache_wfD(3) [OF wf e, of a] compact_facts(1) e show "p \<in> set [entry]"
    by (auto simp: merge_facts dest!: subsetD [OF compact_facts(1)])
qed

lemma setAliasesLoop_inv:
  assumes "setAliasesLoop now ids (aliases, ps, c) = (aliases', ps', c')"
    and "cache_wf c" and "distinct aliases" and "[] \<notin> set aliases"
    and "\<And>a p. a \<in> set aliases \<Longrightarrow> lookup c a = Some p \<Longrightarrow> p \<in> set ps \<or> a \<in> set ids"
  shows "cache_wf c' \<and> distinct aliases' \<and> [] \<notin> set aliases' \<and> sc_ttl c' = sc_ttl c
    \<and> (\<forall>a p. a \<in> set aliases' \<longrightarrow> lookup c' a = Some p \<longrightarrow> p \<in> set ps')"
  using assms
proof (induction ids arbitrary: aliases ps c)
  case Nil
  then show ?case by auto
next
  case (Cons i ids)
  show ?case
  proof (cases "lookup c i")
    case None
    with Cons.prems(1) have "setAliasesLoop now ids (aliases, ps, c) = (aliases', ps', c')" by simp
    then show ?thesis
      by (rule Cons.IH) (use Cons.prems None in \<open>fastforce+\<close>)
  next
    case (Some entry)
    note e = cache_wfD [OF Cons.prems(2) Some]
    show ?thesis
    proof (cases "now < se_expiresAt entry")
      case True
      with Cons.prems(1) Some have run: "setAliasesLoop now ids
          (mergeSessionAliases aliases (se_aliases entry), ps @ [entry], c) = (aliases', ps', c')" by simp
      have own: "p \<in> set (ps @ [entry]) \<or> a \<in> set ids"
        if "a \<in> set (mergeSessionAliases aliases (se_aliases entry))" "lookup c a = Some p" for a p
        using that Cons.prems(5) [of a p] Some e(3) [of a] by (auto simp: merge_facts)
      show ?thesis
        by (rule Cons.IH [OF run Cons.prems(2) merge_facts(2) _ own]) (simp_all add: merge_facts)
    next
      case False
      with Cons.prems(1) Some have run: "setAliasesLoop now ids
          (aliases, ps, removeAliasGroupLocked entry c) = (aliases', ps', c')" by simp
      have "p \<in> set ps \<or> a \<in> set ids"
        if "a \<in> set aliases" "lookup (removeAliasGroupLocked entry c) a = Some p" for a p
        using that Cons.prems(5) [of a p] Some e(2) by (auto simp: lookup_remove split: if_splits)
      from Cons.IH [OF run cache_wf_remove [OF Cons.prems(2)] Cons.prems(3,4) this] show ?thesis by simp
    qed
  qed
qed

lemma cache_wf_SetAliases: "cache_wf c \<Longrightarrow> cache_wf (SetAliases now authID ids c)"
proof -
  assume wf: "cache_wf c"
  obtain aliases ps c1 where run: "setAliasesLoop now ids (mergeSessionAliases [] ids, [], c) = (aliases, ps, c1)"
    using prod_cases3 by blast
  have inv: "cache_wf c1 \<and> distinct aliases \<and> [] \<notin> set aliases \<and> sc_ttl c1 = sc_ttl c
      \<and> (\<forall>a p. a \<in> set aliases \<longrightarrow> lookup c1 a = Some p \<longrightarrow> p \<in> set ps)"
    by (rule setAliasesLoop_inv [OF run wf]) (auto simp: merge_facts)
  have "cache_wf (replaceAliasGroupsLocked authID t (compactSessionAliases aliases) ps c1)" for t
    using inv subsetD [OF compact_facts(1)] by (intro cache_wf_replace group_ok_compact) blast+
  with wf inv run show ?thesis by (simp add: SetAliases_def Let_def)
qed

subsection \<open>Detaching one alias\<close>

lemma lookup_detach:
  assumes "distinct (se_aliases entry)"
  shows "lookup (detachAlias sid entry c) k =
    (if k \<in> set (se_aliases entry) \<and> k \<noteq> sid then
       map_option (\<lambda>cur. if se_authID cur = se_authID entry
         then cur\<lparr>se_aliases := filter (\<lambda>a. a \<noteq> sid) (se_aliases cur)\<rparr> else cur) (lookup c k)
     else lookup c k)"
proof -
  define step where "step = (\<lambda>alias c. if alias = sid then c else case lookup c alias of None \<Rightarrow> c
      | Some cur \<Rightarrow> if se_authID cur \<noteq> se_authID entry then c
          else c\<lparr>sc_entries := AList.update alias (cur\<lparr>se_aliases := filter (\<lambda>a. a \<noteq> sid) (se_aliases cur)\<rparr>) (sc_entries c)\<rparr>)"
  have st: "lookup (step a c) k = (if k = a \<and> k \<noteq> sid then map_option (\<lambda>cur. if se_authID cur = se_authID entry
         then cur\<lparr>se_aliases := filter (\<lambda>a. a \<noteq> sid) (se_aliases cur)\<rparr> else cur) (lookup c k) else lookup c k)" for a c k
    by (auto simp: step_def split: option.splits)
  have "distinct as \<Longrightarrow> lookup (fold step as c) k =
      (if k \<in> set as \<and> k \<noteq> sid then map_option (\<lambda>cur. if se_authID cur = se_authID entry
         then cur\<lparr>se_aliases := filter (\<lambda>a. a \<noteq> sid) (se_aliases cur)\<rparr> else cur) (lookup c k) else lookup c k)" for as
    by (induction as arbitrary: c) (auto simp: st)
  with assms show ?thesis unfolding detachAlias_def step_def by blast
qed

lemma distinct_detach:
  "distinct_keys (sc_entries c) \<Longrightarrow> distinct_keys (sc_entries (detachAlias sid entry c))"
proof -
  have "distinct_keys (sc_entries c) \<Longrightarrow> distinct_keys (sc_entries (fold (\<lambda>alias c. if alias = sid then c
      else case lookup c alias of None \<Rightarrow> c | Some cur \<Rightarrow> if se_authID cur \<noteq> se_authID entry then c
        else c\<lparr>sc_entries := AList.update alias (cur\<lparr>se_aliases := filter (\<lambda>a. a \<noteq> sid) (se_aliases cur)\<rparr>) (sc_entries c)\<rparr>) as c))" for as
    by (induction as arbitrary: c) (auto simp: distinct_update split: option.splits)
  then show "distinct_keys (sc_entries c) \<Longrightarrow> ?thesis" unfolding detachAlias_def .
qed

lemma cache_wf_detach:
  assumes wf: "cache_wf c" and e: "lookup c sid = Some entry"
  defines "c' \<equiv> detachAlias sid entry (c\<lparr>sc_entries := AList.delete sid (sc_entries c)\<rparr>)"
  shows "cache_wf c'" and "lookup c' sid = None"
proof -
  note ew = cache_wfD [OF wf e]
  have dis: "distinct (se_aliases entry)" using ew(1) by (simp add: group_ok_def)
  let ?e = "entry\<lparr>se_aliases := filter (\<lambda>a. a \<noteq> sid) (se_aliases entry)\<rparr>"
  have look: "lookup c' k = (if k = sid then None else if k \<in> set (se_aliases entry) then Some ?e else lookup c k)" for k
    using ew(3) by (simp add: c'_def lookup_detach [OF dis])
  show "lookup c' sid = None" by (simp add: look)
  have other: "a \<notin> set (se_aliases entry)" if "lookup c k = Some e2" "k \<notin> set (se_aliases entry)" "a \<in> set (se_aliases e2)" for k a e2
    using cache_wfD(2,3) [OF wf that(1)] ew(3) [of a] that(2,3) by auto
  have okf: "group_ok (filter (\<lambda>a. a \<noteq> sid) (se_aliases entry))"
    using ew(1) le_trans [OF length_filter_le] by (auto simp: group_ok_def)
  show "cache_wf c'"
    unfolding cache_wf_def
  proof (intro conjI allI impI)
    show "distinct_keys (sc_entries c')" using wf by (simp add: c'_def distinct_detach cache_wf_def)
    fix k e2
    assume k: "lookup c' k = Some e2"
    show "group_ok (se_aliases e2)" "k \<in> set (se_aliases e2)" "\<forall>a \<in> set (se_aliases e2). lookup c' a = Some e2"
      using k okf cache_wfD [OF wf, of k e2] other [of k e2] ew(2) by (auto simp: look split: if_splits)
  qed
qed

section \<open>Reachable caches\<close>

inductive cache_reachable :: "SessionCache \<Rightarrow> bool" where
  new: "cache_reachable (NewSessionCache ttl)"
| get: "cache_reachable c \<Longrightarrow> cache_reachable (snd (Get t1 t2 sid c))"
| refresh: "cache_reachable c \<Longrightarrow> cache_reachable (snd (GetAndRefresh now sid c))"
| setAliases: "cache_reachable c \<Longrightarrow> cache_reachable (SetAliases now authID ids c)"
| touch: "cache_reachable c \<Longrightarrow> cache_reachable (snd (Touch now sid authID c))"
| compareAndDelete: "cache_reachable c \<Longrightarrow> cache_reachable (snd (CompareAndDelete sid authID c))"
| invalidate: "cache_reachable c \<Longrightarrow> cache_reachable (Invalidate sid c)"
| invalidateAuth: "cache_reachable c \<Longrightarrow> cache_reachable (InvalidateAuth authID c)"
| clean: "cache_reachable c \<Longrightarrow> cache_reachable (cleanup now c)"

lemma cache_wf_filter:
  assumes wf: "cache_wf c"
  shows "cache_wf (c\<lparr>sc_entries := filter (\<lambda>(sid, e). P e) (sc_entries c)\<rparr>)"
proof -
  have "distinct_keys (sc_entries c)" using wf by (simp add: cache_wf_def)
  note look = map_of_filter_distinct [OF this, of "\<lambda>(sid, e). P e"]
  have "lookup c k = Some e \<and> P e"
    if "map_of (filter (\<lambda>(sid, e). P e) (sc_entries c)) k = Some e" for k e
    using that unfolding look by (auto split: option.splits if_splits)
  note kept = this
  show ?thesis
    unfolding cache_wf_def
  proof (intro conjI allI impI)
    show "distinct_keys (sc_entries (c\<lparr>sc_entries := filter (\<lambda>(sid, e). P e) (sc_entries c)\<rparr>))"
      using wf by (simp add: cache_wf_def distinct_map_filter)
    fix k e
    assume "lookup (c\<lparr>sc_entries := filter (\<lambda>(sid, e). P e) (sc_entries c)\<rparr>) k = Some e"
    then have e: "lookup c k = Some e" "P e" using kept by auto
    from cache_wfD [OF wf e(1)] e(2)
    show "group_ok (se_aliases e)" "k \<in> set (se_aliases e)"
      "\<forall>a \<in> set (se_aliases e). lookup (c\<lparr>sc_entries := filter (\<lambda>(sid, e). P e) (sc_entries c)\<rparr>) a = Some e"
      by (simp_all add: look)
  qed
qed

lemma cache_wf_Get: "cache_wf c \<Longrightarrow> cache_wf (snd (Get t1 t2 sid c))"
  by (simp add: Get_def cache_wf_remove split: option.splits)

lemma cache_wf_GetAndRefresh: "cache_wf c \<Longrightarrow> cache_wf (snd (GetAndRefresh now sid c))"
  by (simp add: GetAndRefresh_def cache_wf_remove cache_wf_refresh Let_def split: option.splits)

lemma cache_wf_Touch: "cache_wf c \<Longrightarrow> cache_wf (snd (Touch now sid authID c))"
  by (simp add: Touch_def cache_wf_refresh Let_def split: option.splits)

lemma cache_wf_CompareAndDelete: "cache_wf c \<Longrightarrow> cache_wf (snd (CompareAndDelete sid authID c))"
  by (simp add: CompareAndDelete_def cache_wf_detach split: option.splits)

lemma delete_absent: "map_of m k = None \<Longrightarrow> AList.delete k m = m"
  by (simp add: map_of_eq_None_iff)

lemma cache_wf_Invalidate: "cache_wf c \<Longrightarrow> cache_wf (Invalidate sid c)"
  by (auto simp: Invalidate_def cache_wf_detach Let_def delete_absent split: option.splits)

lemma reachable_wf: "cache_reachable c \<Longrightarrow> cache_wf c"
proof (induction rule: cache_reachable.induct)
  case (new ttl)
  then show ?case by (simp add: NewSessionCache_def cache_wf_def)
next
  case (invalidateAuth c authID)
  then show ?case using cache_wf_filter [of c "\<lambda>e. se_authID e \<noteq> authID"] by (simp add: InvalidateAuth_def)
next
  case (clean c now)
  then show ?case using cache_wf_filter [of c "\<lambda>e. now < se_expiresAt e"] by (simp add: cleanup_def)
qed (simp_all add: cache_wf_Get cache_wf_GetAndRefresh cache_wf_SetAliases cache_wf_Touch
    cache_wf_CompareAndDelete cache_wf_Invalidate)

text \<open>
  C12: in every cache that a sequence of operations can produce, each session key is an alias
  of its own entry, all aliases of a group hold the identical entry, and a group has at
  most 65 distinct, non-empty aliases (64 stable ones and one prompt-cache key).
\<close>

theorem session_cache_groups:
  assumes "cache_reachable c"
  shows "cache_wf c"
  using assms by (rule reachable_wf)

definition exampleCache :: SessionCache where
  "exampleCache = SetAliases 5 ''auth1'' [''p::s1::m'', ''p::s2::m''] (NewSessionCache 100)"

lemma exampleCache_reachable: "cache_reachable exampleCache"
  unfolding exampleCache_def by (intro cache_reachable.intros)

theorem session_cache_groups_witness:
  "map_of (sc_entries exampleCache) ''p::s2::m'' \<noteq> None \<and> cache_wf exampleCache"
proof
  show "map_of (sc_entries exampleCache) ''p::s2::m'' \<noteq> None" by code_simp
  show "cache_wf exampleCache" by (rule session_cache_groups [OF exampleCache_reachable])
qed

section \<open>Lookups return what was bound\<close>

lemma setAliasesLoop_prefix:
  "setAliasesLoop now ids (x # as, ps, c) = (aliases', ps', c') \<Longrightarrow> x \<noteq> [] \<Longrightarrow> \<exists>cs. aliases' = x # cs"
proof (induction ids arbitrary: as ps c)
  case (Cons i ids)
  show ?case
  proof (cases "lookup c i")
    case None
    with Cons show ?thesis by simp
  next
    case (Some e)
    obtain cs where "mergeSessionAliases (x # as) (se_aliases e) = x # cs" using merge_hd Cons.prems(2) by blast
    with Cons Some show ?thesis by (auto split: if_splits)
  qed
qed auto

lemma SetAliases_lookup:
  assumes "authID \<noteq> []" and "sid \<noteq> []"
  shows "\<exists>as. lookup (SetAliases now authID (sid # ids) c) sid =
    Some \<lparr>se_authID = authID, se_expiresAt = now + sc_ttl c, se_aliases = as\<rparr>"
proof -
  obtain as where as: "mergeSessionAliases [] (sid # ids) = sid # as" using merge_hd_Nil assms(2) by blast
  obtain aliases ps c1 where run: "setAliasesLoop now (sid # ids) (sid # as, [], c) = (aliases, ps, c1)"
    using prod_cases3 by blast
  then obtain cs where "aliases = sid # cs" using setAliasesLoop_prefix assms(2) by blast
  with compact_hd [of sid cs] obtain ds where "compactSessionAliases aliases = sid # ds" by auto
  with assms(1) as run show ?thesis by (simp add: SetAliases_def lookup_replace Let_def del: setAliasesLoop.simps)
qed

text \<open>
  A session just bound to a credential is found bound to it at every moment before the
  time to live has passed, and not found afterwards.
\<close>

lemma SetAliases_Get:
  assumes "authID \<noteq> []" and "sid \<noteq> []"
  shows "fst (Get t1 t2 sid (SetAliases now authID (sid # ids) c)) =
    (if t1 < now + sc_ttl c \<or> t2 < now + sc_ttl c then Some authID else None)"
  using SetAliases_lookup [OF assms, of now ids c] assms(2) by (auto simp: Get_def)

theorem SetAliases_Get_witness:
  "fst (Get 104 104 ''p::s1::m'' exampleCache) = Some ''auth1'' \<and> fst (Get 105 106 ''p::s1::m'' exampleCache) = None"
  using SetAliases_Get [of "''auth1''" "''p::s1::m''" _ _ 5 "[''p::s2::m'']" "NewSessionCache 100"]
  by (simp add: exampleCache_def NewSessionCache_def)

text \<open>
  Invalidating a session removes its binding for good: no other member of its alias
  group still lists it, so no later refresh can bring it back, and all the others keep
  their binding.
\<close>

lemma Invalidate_detaches:
  assumes "cache_reachable c" and "sid \<noteq> []"
  shows "map_of (sc_entries (Invalidate sid c)) sid = None
    \<and> (\<forall>k e. map_of (sc_entries (Invalidate sid c)) k = Some e \<longrightarrow> sid \<notin> set (se_aliases e))
    \<and> (\<forall>k. k \<noteq> sid \<longrightarrow> map_option se_authID (map_of (sc_entries (Invalidate sid c)) k)
         = map_option se_authID (map_of (sc_entries c) k))"
proof -
  have wf: "cache_wf c" by (rule reachable_wf [OF assms(1)])
  have gone: "lookup (Invalidate sid c) sid = None"
    using cache_wf_detach(2) [OF wf] assms(2) by (auto simp: Invalidate_def Let_def split: option.splits)
  moreover have "sid \<notin> set (se_aliases e)" if "lookup (Invalidate sid c) k = Some e" for k e
    using cache_wfD(3) [OF cache_wf_Invalidate [OF wf] that, of sid] gone by auto
  moreover have "map_option se_authID (lookup (Invalidate sid c) k) = map_option se_authID (lookup c k)"
    if "k \<noteq> sid" for k
    using that assms(2) cache_wfD(1) [OF wf, of sid]
    by (auto simp: Invalidate_def Let_def lookup_detach group_ok_def option.map_comp comp_def
        split: option.splits intro!: map_option_cong)
  ultimately show ?thesis by blast
qed

lemma Invalidate_detaches_witness:
  "map_of (sc_entries (Invalidate ''p::s1::m'' exampleCache)) ''p::s1::m'' = None
   \<and> map_option se_authID (map_of (sc_entries (Invalidate ''p::s1::m'' exampleCache)) ''p::s2::m'') = Some ''auth1''"
proof -
  have "map_option se_authID (map_of (sc_entries exampleCache) ''p::s2::m'') = Some ''auth1''" by code_simp
  with Invalidate_detaches [OF exampleCache_reachable, of "''p::s1::m''"] show ?thesis by simp
qed

text \<open>
  Invalidating a credential leaves no session bound to it and touches no other binding.
\<close>

lemma InvalidateAuth_evicts:
  assumes "cache_reachable c" and "authID \<noteq> []"
  shows "map_of (sc_entries (InvalidateAuth authID c)) k =
    (case map_of (sc_entries c) k of
       Some e \<Rightarrow> if se_authID e = authID then None else Some e
     | None \<Rightarrow> None)"
proof -
  have "distinct_keys (sc_entries c)" using reachable_wf [OF assms(1)] by (simp add: cache_wf_def)
  then show ?thesis
    using assms(2) by (simp add: InvalidateAuth_def map_of_filter_distinct split: option.splits)
qed

theorem InvalidateAuth_evicts_witness:
  "map_of (sc_entries (InvalidateAuth ''auth1'' exampleCache)) ''p::s2::m'' = None"
proof -
  have "map_option se_authID (map_of (sc_entries exampleCache) ''p::s2::m'') = Some ''auth1''" by code_simp
  with InvalidateAuth_evicts [OF exampleCache_reachable, of "''auth1''" "''p::s2::m''"] show ?thesis by auto
qed

end
