(* ===== verification/Session_Affinity.thy ===== *)
theory Session_Affinity
  imports Selectors Session_Cache Error_Class
begin

text \<open>
  The session-affinity selector (\<^verbatim>\<open>sdk/cliproxy/auth/selector.go\<close>,
  \<open>SessionAffinitySelector\<close>): it keeps a session on the credential it is bound to and asks
  the wrapped selector otherwise.

  \<open>extractSessionIDs\<close> reads headers and, through gjson, the request body; for a given request it is
  a function of the option metadata, the argument \<open>extractIDs\<close>. The wrapped selector is the
  argument \<open>pick\<close>, a value of the \<open>Selector\<close> interface; \<open>weighted\<close> tells whether it is a
  \<open>WeightedRoundRobinSelector\<close>. The facts are proved once for every selector that
  satisfies the contract of locale \<open>selector\<close>.
\<close>

section \<open>Model\<close>

type_synonym metadata = "(string, goval) gomap"

record 's affinity =
  sa_fallback :: 's
  sa_cache :: SessionCache

text \<open>The clock readings of one pick, in the order of the \<open>time.Now()\<close> calls.\<close>

record pick_times =
  pt_now :: time
  pt_refresh :: time
  pt_get1 :: time
  pt_get2 :: time
  pt_pick :: time
  pt_bind :: time

definition SessionAffinityProviderMetadataKey :: string where
  "SessionAffinityProviderMetadataKey = ''session_affinity_provider''"

definition SessionAffinityModelMetadataKey :: string where
  "SessionAffinityModelMetadataKey = ''session_affinity_model''"

definition NewSessionAffinitySelectorWithConfig :: "'s \<Rightarrow> duration \<Rightarrow> 's affinity" where
  "NewSessionAffinitySelectorWithConfig fallback ttl =
     \<lparr>sa_fallback = fallback, sa_cache = NewSessionCache (if ttl \<le> 0 then Hour else ttl)\<rparr>"

definition affinity_key :: "string \<Rightarrow> string \<Rightarrow> string \<Rightarrow> string" where
  "affinity_key provider session modelKey = provider @ ''::'' @ session @ ''::'' @ modelKey"

definition affinity_fallbackKey :: "string \<Rightarrow> string \<Rightarrow> string \<Rightarrow> string \<Rightarrow> string" where
  "affinity_fallbackKey provider primaryID fallbackID modelKey =
     (if fallbackID \<noteq> [] \<and> fallbackID \<noteq> primaryID then affinity_key provider fallbackID modelKey else [])"

definition affinity_bind :: "time \<Rightarrow> string \<Rightarrow> string \<Rightarrow> string \<Rightarrow> SessionCache \<Rightarrow> SessionCache" where
  "affinity_bind t cacheKey fallbackKey authID c =
     (if fallbackKey \<noteq> [] then SetAliases t authID [cacheKey, fallbackKey] c
      else Set t cacheKey authID c)"

definition affinity_metadata :: "string \<Rightarrow> string \<Rightarrow> metadata \<Rightarrow> metadata" where
  "affinity_metadata provider model md =
     AList.update SessionAffinityModelMetadataKey (VString model)
       (AList.update SessionAffinityProviderMetadataKey (VString provider) md)"

text \<open>Reselection through the wrapped selector, and the use of a cached binding.\<close>

definition affinity_reselect ::
  "(Auth list \<Rightarrow> 's \<Rightarrow> (sel_error + Auth) \<times> 's) \<Rightarrow> Auth list \<Rightarrow> (string \<Rightarrow> SessionCache \<Rightarrow> SessionCache) \<Rightarrow> metadata
    \<Rightarrow> 's affinity \<Rightarrow> SessionCache \<Rightarrow> (sel_error + Auth) \<times> metadata \<times> 's affinity" where
  "affinity_reselect pk fallbackAuths bind md s c =
     (case pk fallbackAuths (sa_fallback s) of
        (Inl err, f') \<Rightarrow> (Inl err, md, \<lparr>sa_fallback = f', sa_cache = c\<rparr>)
      | (Inr auth, f') \<Rightarrow> (Inr auth, md, \<lparr>sa_fallback = f', sa_cache = bind (a_ID auth) c\<rparr>))"

definition affinity_serve ::
  "(Auth list \<Rightarrow> 's \<Rightarrow> (sel_error + Auth) \<times> 's) \<Rightarrow> Auth list \<Rightarrow> string option \<Rightarrow> (string \<Rightarrow> SessionCache \<Rightarrow> SessionCache)
    \<Rightarrow> metadata \<Rightarrow> 's affinity \<Rightarrow> SessionCache \<Rightarrow> (sel_error + Auth) \<times> metadata \<times> 's affinity" where
  "affinity_serve pk available cached bind md s c =
     (case (case cached of Some cachedAuthID \<Rightarrow> find (\<lambda>auth. a_ID auth = cachedAuthID) available | None \<Rightarrow> None) of
        Some auth \<Rightarrow> (Inr auth, md, s\<lparr>sa_cache := bind (a_ID auth) c\<rparr>)
      | None \<Rightarrow> affinity_reselect pk (highestPriorityAuths available) bind md s c)"

definition SessionAffinity_Pick ::
  "(pick_ctx \<Rightarrow> time \<Rightarrow> string \<Rightarrow> string \<Rightarrow> Auth list \<Rightarrow> 's \<Rightarrow> (sel_error + Auth) \<times> 's) \<Rightarrow> bool \<Rightarrow> token_env
    \<Rightarrow> (metadata \<Rightarrow> string \<times> string) \<Rightarrow> pick_ctx \<Rightarrow> pick_times \<Rightarrow> string \<Rightarrow> string \<Rightarrow> metadata \<Rightarrow> Auth list
    \<Rightarrow> 's affinity \<Rightarrow> (sel_error + Auth) \<times> metadata \<times> 's affinity" where
  "SessionAffinity_Pick pick weighted env extractIDs ctx ts provider model md0 auths s =
     (let md = affinity_metadata provider model md0;
          (primaryID, fallbackID) = extractIDs md;
          candidates = (if weighted then positiveWeightAuths auths else auths);
          pk = pick ctx (pt_pick ts) provider model
      in if primaryID = [] then
           (case getSelectorAvailableAuths env ctx candidates provider model (pt_now ts) of
              Inl err \<Rightarrow> (Inl err, md, s)
            | Inr fallbackAuths \<Rightarrow>
                (case pk fallbackAuths (sa_fallback s) of (r, f') \<Rightarrow> (r, md, s\<lparr>sa_fallback := f'\<rparr>)))
         else
           (case getSelectorAvailableAuthsAcrossPriorities env ctx candidates provider model (pt_now ts) of
              Inl err \<Rightarrow> (Inl err, md, s)
            | Inr available \<Rightarrow>
                let modelKey = canonicalModelKey model;
                    cacheKey = affinity_key provider primaryID modelKey;
                    fallbackKey = affinity_fallbackKey provider primaryID fallbackID modelKey;
                    bind = affinity_bind (pt_bind ts) cacheKey fallbackKey;
                    (cached, c1) = GetAndRefresh (pt_refresh ts) cacheKey (sa_cache s)
                in if cached \<noteq> None then affinity_serve pk available cached bind md s c1
                   else if fallbackKey \<noteq> [] then
                     (case Get (pt_get1 ts) (pt_get2 ts) fallbackKey c1 of
                        (cached', c2) \<Rightarrow> affinity_serve pk available cached' bind md s c2)
                   else affinity_reselect pk (highestPriorityAuths available) bind md s c1))"

definition affinity_InvalidateAuth :: "string \<Rightarrow> 's affinity \<Rightarrow> 's affinity" where
  "affinity_InvalidateAuth authID s = s\<lparr>sa_cache := InvalidateAuth authID (sa_cache s)\<rparr>"

text \<open>The parts of a \<open>Result\<close> that \<open>OnResult\<close> reads.\<close>

record affinity_result =
  ar_AuthID :: string
  ar_Provider :: string
  ar_Model :: string
  ar_Success :: bool
  ar_Error :: "Error option"
  ar_Metadata :: metadata

definition metadata_string :: "metadata \<Rightarrow> string \<Rightarrow> string" where
  "metadata_string md k = (case map_of md k of Some (VString raw) \<Rightarrow> raw | _ \<Rightarrow> [])"

definition SessionAffinity_OnResult ::
  "json_env \<Rightarrow> (metadata \<Rightarrow> string \<times> string) \<Rightarrow> time \<Rightarrow> time \<Rightarrow> affinity_result \<Rightarrow> 's affinity \<Rightarrow> 's affinity" where
  "SessionAffinity_OnResult js extractIDs t1 t2 res s =
     (if ar_AuthID res = [] then s
      else
        let (primaryID, fallbackID) = extractIDs (ar_Metadata res)
        in if primaryID = [] \<and> fallbackID = [] then s
           else
             let rawNs = metadata_string (ar_Metadata res) SessionAffinityProviderMetadataKey;
                 ns = (if rawNs \<noteq> [] then rawNs else ar_Provider res);
                 rawModel = metadata_string (ar_Metadata res) SessionAffinityModelMetadataKey;
                 nsModel = canonicalModelKey (if rawModel \<noteq> [] then rawModel else ar_Model res);
                 cacheKey = affinity_key ns primaryID nsModel;
                 fallbackKey = affinity_fallbackKey ns primaryID fallbackID nsModel
             in if ar_Success res then
                  (let c1 = snd (Touch t1 cacheKey (ar_AuthID res) (sa_cache s));
                       c2 = (if fallbackKey \<noteq> [] then snd (Touch t2 fallbackKey (ar_AuthID res) c1) else c1)
                   in s\<lparr>sa_cache := c2\<rparr>)
                else if ar_Error res \<noteq> None \<and> shouldSkipCredentialCooldown js (ar_Error res) then s
                else
                  (let c1 = snd (CompareAndDelete cacheKey (ar_AuthID res) (sa_cache s));
                       c2 = (if fallbackKey \<noteq> [] then snd (CompareAndDelete fallbackKey (ar_AuthID res) c1) else c1)
                   in s\<lparr>sa_cache := c2\<rparr>))"

section \<open>The cache keeps its time to live\<close>

lemma ttl_fold_remove [simp]: "sc_ttl (fold removeAliasGroupLocked ps c) = sc_ttl c"
  by (induction ps arbitrary: c) simp_all

lemma ttl_replace [simp]: "sc_ttl (replaceAliasGroupsLocked a t aliases ps c) = sc_ttl c"
proof -
  have "sc_ttl (fold (\<lambda>alias c. c\<lparr>sc_entries := AList.update alias e (sc_entries c)\<rparr>) as c) = sc_ttl c"
    for as e and c :: SessionCache
    by (induction as arbitrary: c) simp_all
  then show ?thesis by (simp add: replaceAliasGroupsLocked_def Let_def)
qed

lemma ttl_GetAndRefresh [simp]: "sc_ttl (snd (GetAndRefresh t k c)) = sc_ttl c"
  by (simp add: GetAndRefresh_def Let_def split: option.splits)

lemma ttl_Get [simp]: "sc_ttl (snd (Get t1 t2 k c)) = sc_ttl c"
  by (simp add: Get_def split: option.splits)

lemma affinity_bind_lookup:
  assumes "authID \<noteq> []" and "cacheKey \<noteq> []"
  shows "\<exists>as. lookup (affinity_bind t cacheKey fallbackKey authID c) cacheKey =
    Some \<lparr>se_authID = authID, se_expiresAt = t + sc_ttl c, se_aliases = as\<rparr>"
  using SetAliases_lookup [OF assms] by (simp add: affinity_bind_def Set_def)

lemma affinity_key_nonempty [simp]: "affinity_key p x m \<noteq> []"
  by (simp add: affinity_key_def)

lemma getSelectorAcross_set:
  assumes "getSelectorAvailableAuthsAcrossPriorities env ctx auths provider model now = Inr av"
  shows "set av = {a \<in> set auths. available_to env ctx model now a}"
proof (cases "pc_prevalidated ctx \<and> auths \<noteq> []")
  case True
  with assms show ?thesis by (simp add: getSelectorAvailableAuthsWithPriorityMode_def available_to_def)
next
  case False
  with assms have av: "getAvailableAuthsWithPriorityMode env auths provider model now True = Inr av"
    by (simp add: getSelectorAvailableAuthsWithPriorityMode_def split: if_splits)
  then have "auths \<noteq> []" by (auto simp: getAvailableAuthsWithPriorityMode_def)
  with False have "available_to env ctx model now a \<longleftrightarrow> unblocked env model now a" for a
    by (simp add: available_to_def)
  with getAvailable_Inr(1) [OF av] show ?thesis by simp
qed

lemma highestPriorityAuths_sub: "set (highestPriorityAuths av) \<subseteq> set av"
  by (cases "av = []") (simp add: highestPriorityAuths_def, simp only: highestPriorityAuths_spec filter_is_subset not_False_eq_True)

section \<open>Affinity over any selector\<close>

locale affinity_selector = selector pick env usable
  for pick :: "pick_ctx \<Rightarrow> time \<Rightarrow> string \<Rightarrow> string \<Rightarrow> Auth list \<Rightarrow> 's \<Rightarrow> (sel_error + Auth) \<times> 's"
    and env and usable +
  fixes weighted :: bool
  assumes usable_weighted: "usable a \<longleftrightarrow> (weighted \<longrightarrow> authWeight a > 0)"
begin

lemma candidates_set: "set (if weighted then positiveWeightAuths auths else auths) = {a \<in> set auths. usable a}"
  by (auto simp: usable_weighted positiveWeightAuths_def)

text \<open>Every way through a pick with a session returns a member of the available slice and binds it.\<close>

lemma affinity_pick_cases:
  assumes "SessionAffinity_Pick pick weighted env extractIDs ctx ts provider model md auths s = (Inr a, md', s')"
    and "extractIDs (affinity_metadata provider model md) = (primaryID, fallbackID)" and "primaryID \<noteq> []"
  obtains av c fallbackKey where
    "getSelectorAvailableAuthsAcrossPriorities env ctx (if weighted then positiveWeightAuths auths else auths)
       provider model (pt_now ts) = Inr av"
    and "a \<in> set av"
    and "sa_cache s' = affinity_bind (pt_bind ts) (affinity_key provider primaryID (canonicalModelKey model)) fallbackKey (a_ID a) c"
    and "sc_ttl c = sc_ttl (sa_cache s)"
proof -
  obtain av where av: "getSelectorAvailableAuthsAcrossPriorities env ctx
      (if weighted then positiveWeightAuths auths else auths) provider model (pt_now ts) = Inr av"
    using assms by (auto simp: SessionAffinity_Pick_def Let_def split: sum.splits)
  define bind where "bind = affinity_bind (pt_bind ts) (affinity_key provider primaryID (canonicalModelKey model))
    (affinity_fallbackKey provider primaryID fallbackID (canonicalModelKey model))"
  define pk where "pk = pick ctx (pt_pick ts) provider model"
  have top: "b \<in> set av" if "pk (highestPriorityAuths av) f = (Inr b, f')" for f b f'
    using pick_sound [OF that [unfolded pk_def]] highestPriorityAuths_sub by blast
  have re: "a \<in> set av \<and> sa_cache s' = bind (a_ID a) c"
    if "affinity_reselect pk (highestPriorityAuths av) bind m s c = (Inr a, md', s')" for m c
    using that top by (auto simp: affinity_reselect_def split: prod.splits sum.splits)
  have serve: "a \<in> set av \<and> sa_cache s' = bind (a_ID a) c"
    if "affinity_serve pk av cached bind m s c = (Inr a, md', s')" for m c cached
    using that re by (auto simp: affinity_serve_def dest: find_Some_mem split: option.splits)
  obtain cached c1 where g: "GetAndRefresh (pt_refresh ts) (affinity_key provider primaryID (canonicalModelKey model)) (sa_cache s)
      = (cached, c1)" by (metis surj_pair)
  have t1: "sc_ttl c1 = sc_ttl (sa_cache s)" by (metis g snd_conv ttl_GetAndRefresh)
  define fk where "fk = affinity_fallbackKey provider primaryID fallbackID (canonicalModelKey model)"
  have main: "(if cached \<noteq> None then affinity_serve pk av cached bind (affinity_metadata provider model md) s c1
      else if fk \<noteq> [] then
        (case Get (pt_get1 ts) (pt_get2 ts) fk c1 of
           (cached', c2) \<Rightarrow> affinity_serve pk av cached' bind (affinity_metadata provider model md) s c2)
      else affinity_reselect pk (highestPriorityAuths av) bind (affinity_metadata provider model md) s c1) = (Inr a, md', s')"
    using assms(1) [unfolded SessionAffinity_Pick_def Let_def assms(2) prod.case if_not_P [OF assms(3)] av sum.case g]
    unfolding bind_def pk_def fk_def .
  obtain cached' c2 where g2: "Get (pt_get1 ts) (pt_get2 ts) fk c1 = (cached', c2)" by (metis surj_pair)
  have t2: "sc_ttl c2 = sc_ttl c1" by (metis g2 snd_conv ttl_Get)
  have "(a \<in> set av \<and> sa_cache s' = bind (a_ID a) c1) \<or> (a \<in> set av \<and> sa_cache s' = bind (a_ID a) c2)"
  proof (cases "cached \<noteq> None")
    case True
    with main serve show ?thesis by (metis (no_types, lifting))
  next
    case False
    with main [unfolded g2 prod.case] have "(if fk \<noteq> [] then affinity_serve pk av cached' bind (affinity_metadata provider model md) s c2
        else affinity_reselect pk (highestPriorityAuths av) bind (affinity_metadata provider model md) s c1) = (Inr a, md', s')"
      by simp
    then show ?thesis using serve re by (metis (no_types, lifting))
  qed
  then obtain c where "a \<in> set av \<and> sa_cache s' = bind (a_ID a) c" and "sc_ttl c = sc_ttl (sa_cache s)"
    using t1 t2 by metis
  with that av show thesis unfolding bind_def by blast
qed

lemma affinity_sound:
  assumes "SessionAffinity_Pick pick weighted env extractIDs ctx ts provider model md auths s = (Inr a, md', s')"
  shows "a \<in> set auths \<and> usable a \<and> available_to env ctx model (pt_now ts) a"
proof (cases "fst (extractIDs (affinity_metadata provider model md)) = []")
  case True
  obtain primaryID fallbackID where ids: "extractIDs (affinity_metadata provider model md) = (primaryID, fallbackID)"
    by (metis surj_pair)
  with assms True obtain av f' where
    av: "getSelectorAvailableAuths env ctx (if weighted then positiveWeightAuths auths else auths) provider model (pt_now ts) = Inr av"
    and "pick ctx (pt_pick ts) provider model av (sa_fallback s) = (Inr a, f')"
    by (auto simp: SessionAffinity_Pick_def Let_def split: sum.splits prod.splits)
  then have "a \<in> set av" using pick_sound by blast
  with getSelectorAvailableAuths_Inr(2) [OF av] candidates_set show ?thesis by blast
next
  case False
  then obtain primaryID fallbackID where
    "extractIDs (affinity_metadata provider model md) = (primaryID, fallbackID)" "primaryID \<noteq> []"
    by (metis fst_conv surj_pair)
  from affinity_pick_cases [OF assms this] obtain av where
    "getSelectorAvailableAuthsAcrossPriorities env ctx (if weighted then positiveWeightAuths auths else auths)
       provider model (pt_now ts) = Inr av" "a \<in> set av" by metis
  with getSelectorAcross_set candidates_set show ?thesis by fastforce
qed

lemma affinity_binds:
  assumes "SessionAffinity_Pick pick weighted env extractIDs ctx ts provider model md auths s = (Inr a, md', s')"
    and "extractIDs (affinity_metadata provider model md) = (primaryID, fallbackID)" and "primaryID \<noteq> []" and "a_ID a \<noteq> []"
  shows "\<exists>as. lookup (sa_cache s') (affinity_key provider primaryID (canonicalModelKey model)) =
    Some \<lparr>se_authID = a_ID a, se_expiresAt = pt_bind ts + sc_ttl (sa_cache s), se_aliases = as\<rparr>"
proof -
  from affinity_pick_cases [OF assms(1,2,3)] obtain c fallbackKey where
    "sa_cache s' = affinity_bind (pt_bind ts) (affinity_key provider primaryID (canonicalModelKey model)) fallbackKey (a_ID a) c"
    "sc_ttl c = sc_ttl (sa_cache s)" by metis
  with affinity_bind_lookup [OF assms(4) affinity_key_nonempty] show ?thesis by metis
qed

lemma affinity_hit:
  assumes "extractIDs (affinity_metadata provider model md) = (primaryID, fallbackID)" and "primaryID \<noteq> []"
    and "lookup (sa_cache s) (affinity_key provider primaryID (canonicalModelKey model)) = Some e"
    and "pt_refresh ts < se_expiresAt e"
    and "b \<in> set auths" and "usable b" and "available_to env ctx model (pt_now ts) b" and "a_ID b = se_authID e"
  shows "\<exists>a md' s'. SessionAffinity_Pick pick weighted env extractIDs ctx ts provider model md auths s = (Inr a, md', s')
    \<and> a_ID a = se_authID e"
proof -
  let ?cands = "if weighted then positiveWeightAuths auths else auths"
  have "b \<in> set ?cands" using assms(5,6) candidates_set by blast
  with getSelectorAvailableAuths_complete [OF _ assms(7)] obtain av where
    av: "getSelectorAvailableAuthsAcrossPriorities env ctx ?cands provider model (pt_now ts) = Inr av" by blast
  with getSelectorAcross_set [OF av] assms(7) \<open>b \<in> set ?cands\<close> have "b \<in> set av" by simp
  then obtain a where a: "find (\<lambda>auth. a_ID auth = se_authID e) av = Some a"
    using assms(8) by (cases "find (\<lambda>auth. a_ID auth = se_authID e) av") (auto simp: find_None_conv)
  obtain c1 where g: "GetAndRefresh (pt_refresh ts) (affinity_key provider primaryID (canonicalModelKey model)) (sa_cache s)
      = (Some (se_authID e), c1)"
    using assms(3,4) by (simp add: GetAndRefresh_def Let_def)
  show ?thesis
    using assms(1,2) av g a find_Some_mem [OF a] by (simp add: SessionAffinity_Pick_def affinity_serve_def Let_def)
qed

end

interpretation rra: affinity_selector "RoundRobin_Pick env" env "\<lambda>_. True" False for env
  by unfold_locales simp

interpretation ffa: affinity_selector "FillFirst_Pick env" env "\<lambda>_. True" False for env
  by unfold_locales simp

interpretation wrra: affinity_selector "WeightedRoundRobin_Pick env" env "\<lambda>a. authWeight a > 0" True for env
  by unfold_locales simp

section \<open>Properties\<close>


definition exampleTimes :: "time \<Rightarrow> pick_times" where
  "exampleTimes t = \<lparr>pt_now = t, pt_refresh = t, pt_get1 = t, pt_get2 = t, pt_pick = t, pt_bind = t\<rparr>"

definition exampleAffinity :: "RoundRobinSelector affinity" where
  "exampleAffinity = NewSessionAffinitySelectorWithConfig \<lparr>rr_lastPicked = [], rr_maxKeys = 0\<rparr> 100"

abbreviation exampleFirstPick where
  "exampleFirstPick \<equiv> SessionAffinity_Pick (RoundRobin_Pick exampleEnv) False exampleEnv (\<lambda>_. (''s1'', []))
     exampleCtx (exampleTimes 10) ''codex'' ''gpt-5'' [] exampleRing exampleAffinity"


text \<open>
  Session affinity never widens the choice: over each of the built-in selectors it
  returns only candidates it was given, that the selector accepts and that are available now.
\<close>

lemma affinity_sound_all:
  "(SessionAffinity_Pick (RoundRobin_Pick env) False env extractIDs ctx ts provider model md auths s1 = (Inr a, md', s1')
      \<longrightarrow> a \<in> set auths \<and> available_to env ctx model (pt_now ts) a)
   \<and> (SessionAffinity_Pick (FillFirst_Pick env) False env extractIDs ctx ts provider model md auths s2 = (Inr a, md', s2')
      \<longrightarrow> a \<in> set auths \<and> available_to env ctx model (pt_now ts) a)
   \<and> (SessionAffinity_Pick (WeightedRoundRobin_Pick env) True env extractIDs ctx ts provider model md auths s3 = (Inr a, md', s3')
      \<longrightarrow> a \<in> set auths \<and> 0 < authWeight a \<and> available_to env ctx model (pt_now ts) a)"
  using rra.affinity_sound [of env extractIDs ctx ts provider model md auths s1 a md' s1']
    ffa.affinity_sound [of env extractIDs ctx ts provider model md auths s2 a md' s2']
    wrra.affinity_sound [of env extractIDs ctx ts provider model md auths s3 a md' s3'] by blast

lemma affinity_sound_all_witness:
  "unblocked exampleEnv ''gpt-5'' 10 (zero_Auth\<lparr>a_ID := ''a''\<rparr>)"
proof -
  have "fst exampleFirstPick = Inr (zero_Auth\<lparr>a_ID := ''a''\<rparr>)" by code_simp
  then have first: "exampleFirstPick = (Inr (zero_Auth\<lparr>a_ID := ''a''\<rparr>), fst (snd exampleFirstPick), snd (snd exampleFirstPick))"
    by (simp add: prod_eq_iff)
  from affinity_sound_all [THEN conjunct1, THEN mp, OF first] show ?thesis
    by (simp add: available_to_def exampleCtx_def exampleTimes_def)
qed

end
