(* ===== verification/Metadata_Merge.thy ===== *)
theory Metadata_Merge
  imports Cooldown_State Access_Isolation
begin

text \<open>
  Merging a refreshed or prepared credential into the current one
  (\<^verbatim>\<open>sdk/cliproxy/auth/metadata_merge.go\<close>, \<^verbatim>\<open>metadata_keys.go\<close>): a three-way merge of the snapshot the
  executor started from (\<open>base\<close>), the credential as it is now (\<open>current\<close>) and what the executor made of
  its snapshot (\<open>updated\<close>).

  The credential record does not tell a nil map from an empty one, which the merge does for the maps of
  \<open>updated\<close>; \<open>nil_maps\<close> says which of them are nil. \<open>Storage\<close> and \<open>Runtime\<close> are opaque handles
  and left out, \<open>Clone\<close> is the identity on values. A value of a type that metadata does not hold
  (\<open>VOther\<close>) is one value.
\<close>

section \<open>metadata\_keys.go\<close>

definition CanonicalCredentialMetadataKey :: "string \<Rightarrow> string" where
  "CanonicalCredentialMetadataKey key =
     (if key = ''api-key'' then ''api_key''
      else if key = ''base-url'' then ''base_url''
      else if key = ''disable-cooling'' then ''disable_cooling''
      else if key = ''excluded-models'' then ''excluded_models''
      else if key = ''fingerprint-profile'' then ''fingerprint_profile''
      else if key = ''model-aliases'' then ''model_aliases''
      else if key = ''proxy-url'' then ''proxy_url''
      else if key = ''request-retry'' then ''request_retry''
      else if key = ''request-scoped-errors'' then ''request_scoped_errors''
      else if key = ''tool-prefix-disabled'' then ''tool_prefix_disabled''
      else key)"

definition NormalizeCredentialMetadata :: "(string, goval) gomap \<Rightarrow> (string, goval) gomap" where
  "NormalizeCredentialMetadata metadata =
     fold (\<lambda>(key, value) m.
             let canonical = CanonicalCredentialMetadataKey key in
             if canonical = key then m
             else AList.delete key (if map_of m canonical = None then AList.update canonical value m else m))
       metadata metadata"

section \<open>Comparing values\<close>

text \<open>\<open>reflect.DeepEqual\<close>: maps are compared without regard to order, and NaN differs from itself.\<close>

definition mapEqual :: "(string, 'a) gomap \<Rightarrow> (string, 'a) gomap \<Rightarrow> bool" where
  "mapEqual m n \<longleftrightarrow> length m = length n \<and> list_all (\<lambda>(k, v). map_of n k = Some v) m"

fun deepEqual :: "goval \<Rightarrow> goval \<Rightarrow> bool" where
  "deepEqual (VMap m) w =
     (case w of
        VMap n \<Rightarrow> length m = length n
          \<and> list_all (\<lambda>(k, v). case map_of n k of None \<Rightarrow> False | Some w \<Rightarrow> deepEqual v w) m
      | _ \<Rightarrow> False)"
| "deepEqual (VList xs) w = (case w of VList ys \<Rightarrow> list_all2 deepEqual xs ys | _ \<Rightarrow> False)"
| "deepEqual (VStrMap m) w = (case w of VStrMap n \<Rightarrow> mapEqual m n | _ \<Rightarrow> False)"
| "deepEqual (VFloat64 x) w = (w = VFloat64 x \<and> x \<noteq> FNaN)"
| "deepEqual (VFloat32 x) w = (w = VFloat32 x \<and> x \<noteq> FNaN)"
| "deepEqual VNil w = (w = VNil)"
| "deepEqual (VBool b) w = (w = VBool b)"
| "deepEqual (VInt i n) w = (w = VInt i n)"
| "deepEqual (VUint i n) w = (w = VUint i n)"
| "deepEqual (VNumber t) w = (w = VNumber t)"
| "deepEqual (VString t) w = (w = VString t)"
| "deepEqual (VBytes t) w = (w = VBytes t)"
| "deepEqual VOther w = (w = VOther)"

definition quotaDeepEqual :: "QuotaState \<Rightarrow> QuotaState \<Rightarrow> bool" where
  "quotaDeepEqual a b \<longleftrightarrow> a = b\<lparr>q_Signals := q_Signals a\<rparr> \<and> mapEqual (q_Signals a) (q_Signals b)"

definition stateDeepEqual :: "ModelState option \<Rightarrow> ModelState option \<Rightarrow> bool" where
  "stateDeepEqual a b =
     (case (a, b) of
        (None, None) \<Rightarrow> True
      | (Some x, Some y) \<Rightarrow> x = y\<lparr>ms_Quota := ms_Quota x\<rparr> \<and> quotaDeepEqual (ms_Quota x) (ms_Quota y)
      | _ \<Rightarrow> False)"

definition statesDeepEqual :: "(string, ModelState option) gomap \<Rightarrow> (string, ModelState option) gomap \<Rightarrow> bool" where
  "statesDeepEqual m n \<longleftrightarrow> length m = length n
     \<and> list_all (\<lambda>(k, v). case map_of n k of None \<Rightarrow> False | Some w \<Rightarrow> stateDeepEqual v w) m"

section \<open>metadata\_merge.go\<close>

definition IsAuthTokenPayloadKey :: "string \<Rightarrow> bool" where
  "IsAuthTokenPayloadKey key \<longleftrightarrow> ToLower (TrimSpace key) \<in> set
     [''access_token'', ''accesstoken'', ''refresh_token'', ''refreshtoken'', ''id_token'', ''idtoken'', ''session_id'',
      ''expired'', ''last_refresh'', ''expires_in'', ''timestamp'',
      ''account_id'', ''account_uuid'', ''organization_uuid'', ''pool_account_id'',
      ''token_type'', ''user_code'', ''verification_uri'', ''verification_uri_complete'']"

definition stringValue :: "goval option \<Rightarrow> string" where
  "stringValue v = (case v of Some (VString s) \<Rightarrow> s | _ \<Rightarrow> [])"

definition MergeExistingAuthMetadata :: "(string \<Rightarrow> string) \<Rightarrow> (string, goval) gomap \<Rightarrow> Auth \<Rightarrow> Auth" where
  "MergeExistingAuthMetadata sha existingMap target =
     (if existingMap = [] then target
      else
        let named = stringValue (map_of existingMap ''type'');
            previousProvider = (if named = [] then a_Provider target else named);
            previous = zero_Auth\<lparr>a_Provider := previousProvider, a_Metadata := existingMap\<rparr>;
            subject = AccountSubject sha target;
            id = stringValue (map_of existingMap ''pool_account_id'');
            m0 = (if subject \<noteq> [] \<and> subject = AccountSubject sha previous \<and> id \<noteq> []
                  then AList.update ''pool_account_id'' (VString id) (a_Metadata target) else a_Metadata target);
            m1 = fold (\<lambda>(k, v) m. if IsAuthTokenPayloadKey k \<or> map_of m k \<noteq> None then m else AList.update k v m)
                   existingMap m0
        in target\<lparr>a_Metadata := m1\<rparr>)"

definition authRefreshToken :: "Auth \<Rightarrow> string" where
  "authRefreshToken auth =
     (if authMetadataString auth ''refresh_token'' \<noteq> [] then authMetadataString auth ''refresh_token''
      else authMetadataString auth ''refreshToken'')"

definition credentialIDToken :: "Auth \<Rightarrow> string" where
  "credentialIDToken auth =
     (if authMetadataString auth ''id_token'' = [] then authMetadataString auth ''idToken''
      else authMetadataString auth ''id_token'')"

definition credentialAPIKey :: "Auth \<Rightarrow> string" where
  "credentialAPIKey auth =
     (let key = get_str (a_Attributes auth) ''api_key''
      in if key = [] then authMetadataString auth ''api_key'' else key)"

definition CredentialsChanged :: "Auth option \<Rightarrow> Auth option \<Rightarrow> bool" where
  "CredentialsChanged existing incoming =
     (case (existing, incoming) of
        (Some e, Some i) \<Rightarrow>
          a_Provider e \<noteq> a_Provider i
          \<or> authAccessToken e \<noteq> authAccessToken i
          \<or> authRefreshToken e \<noteq> authRefreshToken i
          \<or> credentialIDToken e \<noteq> credentialIDToken i
          \<or> credentialAPIKey e \<noteq> credentialAPIKey i
      | _ \<Rightarrow> False)"

text \<open>\<open>lifecycle_state.go\<close> and \<open>conductor_refresh.go\<close>.\<close>

definition sameCredentialSnapshot :: "Auth option \<Rightarrow> Auth option \<Rightarrow> bool" where
  "sameCredentialSnapshot base current =
     (case base of
        None \<Rightarrow> True
      | Some b \<Rightarrow>
          (case current of
             None \<Rightarrow> False
           | Some c \<Rightarrow> a_RegistrationEpoch b = a_RegistrationEpoch c
               \<and> (a_CredentialVersion b = 0 \<or> a_CredentialVersion b = a_CredentialVersion c)
               \<and> \<not> CredentialsChanged base current))"

definition authAvailabilityChanged :: "Auth option \<Rightarrow> Auth option \<Rightarrow> bool" where
  "authAvailabilityChanged base current =
     (case (base, current) of
        (Some b, Some c) \<Rightarrow>
          a_availabilityEpoch b \<noteq> a_availabilityEpoch c \<or> a_LastError b \<noteq> a_LastError c
          \<or> a_Status b \<noteq> a_Status c \<or> a_StatusMessage b \<noteq> a_StatusMessage c
          \<or> a_Unavailable b \<noteq> a_Unavailable c \<or> a_NextRetryAfter b \<noteq> a_NextRetryAfter c
          \<or> a_NonUnauthorizedRetryAfter b \<noteq> a_NonUnauthorizedRetryAfter c
          \<or> \<not> quotaDeepEqual (a_Quota b) (a_Quota c) \<or> \<not> statesDeepEqual (a_ModelStates b) (a_ModelStates c)
      | _ \<Rightarrow> False)"

subsection \<open>The merge of one map\<close>

definition mergeUpdated ::
  "('v \<Rightarrow> 'v \<Rightarrow> bool) \<Rightarrow> (string \<Rightarrow> bool) \<Rightarrow> (string, 'v) gomap \<Rightarrow> (string, 'v) gomap \<Rightarrow> (string, 'v) gomap
    \<Rightarrow> (string, 'v) gomap \<Rightarrow> (string, 'v) gomap" where
  "mergeUpdated eq skip base current updated merged =
     fold (\<lambda>(k, v) merged.
             if skip k then merged
             else
               let baseVal = map_of base k; currentVal = map_of current k;
                   changedByExecutor = (case baseVal of None \<Rightarrow> True | Some b \<Rightarrow> \<not> eq b v);
                   changedByUser = ((baseVal \<noteq> None) \<noteq> (currentVal \<noteq> None)
                     \<or> (case (baseVal, currentVal) of (Some b, Some c) \<Rightarrow> \<not> eq b c | _ \<Rightarrow> False))
               in if changedByExecutor \<and> \<not> changedByUser then AList.update k v merged else merged)
       updated merged"

definition mergeDeleted ::
  "('v \<Rightarrow> 'v \<Rightarrow> bool) \<Rightarrow> (string \<Rightarrow> bool) \<Rightarrow> (string, 'v) gomap \<Rightarrow> (string, 'v) gomap \<Rightarrow> (string, 'v) gomap
    \<Rightarrow> (string, 'v) gomap \<Rightarrow> (string, 'v) gomap" where
  "mergeDeleted eq skip base current updated merged =
     fold (\<lambda>(k, baseVal) merged.
             if skip k then merged
             else if map_of updated k = None \<and> (case map_of current k of Some c \<Rightarrow> eq baseVal c | None \<Rightarrow> False)
             then AList.delete k merged else merged)
       base merged"

definition isProxyKey :: "string \<Rightarrow> bool" where
  "isProxyKey k \<longleftrightarrow> EqualFold (TrimSpace k) ''proxy_url''"

subsection \<open>The merge of a credential\<close>

record nil_maps =
  nil_Metadata :: bool
  nil_Attributes :: bool
  nil_ModelStates :: bool

text \<open>The proxy of the struct field and the one of the metadata are merged into one.\<close>

definition metaProxy :: "Auth \<Rightarrow> string" where
  "metaProxy auth = TrimSpace (stringValue (map_of (a_Metadata auth) ''proxy_url''))"

definition mergeProxy :: "Auth option \<Rightarrow> Auth \<Rightarrow> Auth \<Rightarrow> string" where
  "mergeProxy base current updated =
     (let baseStruct = (case base of None \<Rightarrow> [] | Some b \<Rightarrow> TrimSpace (a_ProxyURL b));
          currentStruct = TrimSpace (a_ProxyURL current);
          updatedStruct = TrimSpace (a_ProxyURL updated);
          baseMetaProxy = (case base of None \<Rightarrow> [] | Some b \<Rightarrow> metaProxy b);
          currentMetaProxy = metaProxy current;
          updatedMetaProxy = metaProxy updated;
          userChangedStruct = (currentStruct \<noteq> baseStruct);
          userChangedMeta = (currentMetaProxy \<noteq> baseMetaProxy);
          execChangedStruct = (updatedStruct \<noteq> baseStruct);
          execChangedMeta = (updatedMetaProxy \<noteq> baseMetaProxy)
      in if userChangedStruct \<or> userChangedMeta then
           (if userChangedStruct \<and> \<not> userChangedMeta then currentStruct
            else if userChangedMeta \<and> \<not> userChangedStruct then currentMetaProxy
            else if currentStruct \<noteq> [] then currentStruct
            else currentMetaProxy)
         else if execChangedStruct \<or> execChangedMeta then
           (if execChangedStruct \<and> \<not> execChangedMeta then updatedStruct
            else if execChangedMeta \<and> \<not> execChangedStruct then updatedMetaProxy
            else if updatedStruct \<noteq> [] then updatedStruct
            else updatedMetaProxy)
         else if currentMetaProxy \<noteq> [] \<and> currentStruct = [] \<and> \<not> userChangedStruct then currentMetaProxy
         else currentStruct)"

definition mergeAuths :: "nil_maps \<Rightarrow> Auth option \<Rightarrow> Auth \<Rightarrow> Auth \<Rightarrow> Auth" where
  "mergeAuths nils base current updated =
     (let baseMeta = (case base of None \<Rightarrow> [] | Some b \<Rightarrow> a_Metadata b);
          meta = (if nil_Metadata nils then a_Metadata current
                  else mergeDeleted deepEqual isProxyKey baseMeta (a_Metadata current) (a_Metadata updated)
                         (mergeUpdated deepEqual isProxyKey baseMeta (a_Metadata current) (a_Metadata updated)
                            (a_Metadata current)));
          finalProxy = mergeProxy base current updated;
          basePrefix = (case base of None \<Rightarrow> [] | Some b \<Rightarrow> TrimSpace (a_Prefix b));
          currentPrefix = TrimSpace (a_Prefix current);
          updatedPrefix = TrimSpace (a_Prefix updated);
          baseAttrs = (case base of None \<Rightarrow> [] | Some b \<Rightarrow> a_Attributes b);
          attrs = (if nil_Attributes nils then a_Attributes current
                   else mergeDeleted (=) (\<lambda>_. False) baseAttrs (a_Attributes current) (a_Attributes updated)
                          (mergeUpdated (=) (\<lambda>_. False) baseAttrs (a_Attributes current) (a_Attributes updated)
                             (a_Attributes current)))
      in current\<lparr>a_ProxyURL := finalProxy,
           a_Metadata := (if finalProxy \<noteq> [] then AList.update ''proxy_url'' (VString finalProxy) meta
                          else AList.delete ''proxy_url'' meta),
           a_Prefix := (if updatedPrefix \<noteq> basePrefix \<and> currentPrefix = basePrefix then updatedPrefix else currentPrefix),
           a_Attributes := attrs\<rparr>)"

definition mergeAuthContent :: "nil_maps \<Rightarrow> Auth option \<Rightarrow> Auth option \<Rightarrow> Auth option \<Rightarrow> Auth option" where
  "mergeAuthContent nils base current updated =
     (case current of
        None \<Rightarrow> (case updated of Some u \<Rightarrow> Some u | None \<Rightarrow> base)
      | Some c \<Rightarrow>
          (case updated of
             None \<Rightarrow> Some c
           | Some u \<Rightarrow> if \<not> sameCredentialSnapshot base current then Some c else Some (mergeAuths nils base c u)))"

definition MergePreparedAuth :: "nil_maps \<Rightarrow> Auth option \<Rightarrow> Auth option \<Rightarrow> Auth option \<Rightarrow> Auth option" where
  "MergePreparedAuth nils base current updated = mergeAuthContent nils base current updated"

definition isDisabledAuth :: "Auth \<Rightarrow> bool" where
  "isDisabledAuth auth \<longleftrightarrow> a_Disabled auth \<or> a_Status auth = StatusDisabled"

text \<open>The disabled flag and, unless the credential ends up disabled, its error status.\<close>

definition mergeStatus :: "time \<Rightarrow> Auth option \<Rightarrow> Auth \<Rightarrow> Auth \<Rightarrow> Auth \<Rightarrow> Auth" where
  "mergeStatus now base current updated merged =
     (let hasNewConcurrentError = authAvailabilityChanged base (Some current);
          baseDisabled = (case base of None \<Rightarrow> False | Some b \<Rightarrow> isDisabledAuth b);
          currentDisabled = isDisabledAuth current;
          updatedDisabled = isDisabledAuth updated;
          disabledChangedByExecutor = (updatedDisabled \<noteq> baseDisabled);
          disabledChangedByUser = (currentDisabled \<noteq> baseDisabled);
          finalDisabled = (if disabledChangedByExecutor \<and> \<not> disabledChangedByUser then updatedDisabled else currentDisabled)
      in if finalDisabled then
           merged\<lparr>a_Disabled := True, a_Status := StatusDisabled,
             a_Metadata := AList.update ''disabled'' (VBool True) (a_Metadata merged)\<rparr>
         else
           let m1 = merged\<lparr>a_Disabled := False,
                 a_Status := (if a_Status merged = StatusDisabled then StatusActive else a_Status merged),
                 a_Metadata := AList.update ''disabled'' (VBool False) (a_Metadata merged)\<rparr>
           in if hasNewConcurrentError then
                m1\<lparr>a_LastError := a_LastError current, a_Status := a_Status current,
                  a_Unavailable := a_Unavailable current, a_StatusMessage := a_StatusMessage current\<rparr>
              else if q_Exceeded (a_Quota current) \<and> q_Reason (a_Quota current) = ''credential_quota''
                  \<and> q_NextRecoverAt (a_Quota current) > now then
                m1\<lparr>a_Unavailable := a_Unavailable current, a_Status := a_Status current, a_StatusMessage := a_StatusMessage current\<rparr>
              else if a_Unavailable current \<and> a_NextRetryAfter current > now then
                m1\<lparr>a_Unavailable := a_Unavailable current, a_Status := a_Status current, a_StatusMessage := a_StatusMessage current\<rparr>
              else if a_Status updated = StatusActive \<or> a_Status updated = [] then
                m1\<lparr>a_Status := StatusActive, a_Unavailable := False, a_StatusMessage := [], a_LastError := None\<rparr>
              else m1)"

definition nilState :: "ModelState option option \<Rightarrow> ModelState option" where
  "nilState v = (case v of Some st \<Rightarrow> st | None \<Rightarrow> None)"

definition mergeModelStates ::
  "(string, ModelState option) gomap \<Rightarrow> (string, ModelState option) gomap \<Rightarrow> (string, ModelState option) gomap
    \<Rightarrow> (string, ModelState option) gomap \<Rightarrow> (string, ModelState option) gomap" where
  "mergeModelStates base current updated merged =
     fold (\<lambda>(model, baseState) merged.
             if map_of updated model = None
                \<and> (case map_of current model of Some currentState \<Rightarrow> stateDeepEqual baseState currentState | None \<Rightarrow> False)
             then AList.delete model merged else merged)
       base
       (fold (\<lambda>(model, updState) merged.
                let baseState = nilState (map_of base model); currentState = nilState (map_of current model)
                in if \<not> stateDeepEqual baseState updState \<and> stateDeepEqual baseState currentState
                   then AList.update model updState merged else merged)
          updated merged)"

definition MergeRefreshedAuth :: "time \<Rightarrow> nil_maps \<Rightarrow> Auth option \<Rightarrow> Auth option \<Rightarrow> Auth option \<Rightarrow> Auth option" where
  "MergeRefreshedAuth now nils base current updated =
     (case (mergeAuthContent nils base current updated, current, updated) of
        (Some merged, Some c, Some u) \<Rightarrow>
          if \<not> sameCredentialSnapshot base current then Some merged
          else
            let m1 = merged\<lparr>a_LastRefreshedAt :=
                       (if \<not> IsZero (a_LastRefreshedAt u) then a_LastRefreshedAt u else a_LastRefreshedAt merged),
                     a_NextRefreshAfter :=
                       (if \<not> IsZero (a_NextRefreshAfter u) \<or> (case base of None \<Rightarrow> False | Some b \<Rightarrow> \<not> IsZero (a_NextRefreshAfter b))
                        then a_NextRefreshAfter u else a_NextRefreshAfter merged)\<rparr>;
                m2 = mergeStatus now base c u m1
            in Some (if \<not> nil_ModelStates nils
                        \<and> (case base of None \<Rightarrow> True | Some b \<Rightarrow> a_availabilityEpoch b = a_availabilityEpoch c)
                     then m2\<lparr>a_ModelStates := mergeModelStates (case base of None \<Rightarrow> [] | Some b \<Rightarrow> a_ModelStates b)
                            (a_ModelStates c) (a_ModelStates u) (a_ModelStates m2)\<rparr>
                     else m2)
      | (merged, _, _) \<Rightarrow> merged)"

section \<open>The merge is a three-way merge\<close>

text \<open>The reference: a change of the user wins, otherwise a change of the executor is taken.\<close>

definition threeWay :: "('v \<Rightarrow> 'v \<Rightarrow> bool) \<Rightarrow> 'v option \<Rightarrow> 'v option \<Rightarrow> 'v option \<Rightarrow> 'v option" where
  "threeWay eq b c u = (if rel_option eq b c \<and> \<not> rel_option eq b u then u else c)"

lemma mergeUpdated_map:
  assumes "distinct_keys updated"
  shows "map_of (mergeUpdated eq skip base current updated merged) k =
    (case map_of updated k of
       Some v \<Rightarrow> if \<not> skip k \<and> rel_option eq (map_of base k) (map_of current k) \<and> \<not> rel_option eq (map_of base k) (Some v)
                then Some v else map_of merged k
     | None \<Rightarrow> map_of merged k)"
  unfolding mergeUpdated_def
  by (subst fold_keyed [OF assms, where f = "\<lambda>k v old. if \<not> skip k \<and> rel_option eq (map_of base k) (map_of current k)
      \<and> \<not> rel_option eq (map_of base k) (Some v) then Some v else old"])
    (auto simp: Let_def update_conv' split: option.splits)

lemma mergeDeleted_map:
  assumes "distinct_keys base"
  shows "map_of (mergeDeleted eq skip base current updated merged) k =
    (if \<not> skip k \<and> map_of base k \<noteq> None \<and> map_of updated k = None \<and> rel_option eq (map_of base k) (map_of current k)
     then None else map_of merged k)"
  unfolding mergeDeleted_def
  by (subst fold_keyed [OF assms, where f = "\<lambda>k v old. if \<not> skip k \<and> map_of updated k = None
      \<and> rel_option eq (Some v) (map_of current k) then None else old"])
    (auto simp: delete_conv' split: option.splits)

lemma merged_map:
  assumes "distinct_keys base" and "distinct_keys updated"
  shows "map_of (mergeDeleted eq skip base current updated (mergeUpdated eq skip base current updated current)) k =
    (if skip k then map_of current k else threeWay eq (map_of base k) (map_of current k) (map_of updated k))"
  by (cases "map_of base k"; cases "map_of current k"; cases "map_of updated k")
    (simp_all add: mergeDeleted_map [OF assms(1)] mergeUpdated_map [OF assms(2)] threeWay_def)

lemma mergeModelStates_map:
  assumes "distinct_keys base" and "distinct_keys updated"
  shows "nilState (map_of (mergeModelStates base current updated current) k) =
    (let b = nilState (map_of base k); c = nilState (map_of current k); u = nilState (map_of updated k)
     in if stateDeepEqual b c \<and> \<not> stateDeepEqual b u then u else c)"
proof -
  let ?F = "\<lambda>k v old. if \<not> stateDeepEqual (nilState (map_of base k)) v
      \<and> stateDeepEqual (nilState (map_of base k)) (nilState (map_of current k)) then Some v else old"
  let ?m = "fold (\<lambda>(model, updState) merged.
                let baseState = nilState (map_of base model); currentState = nilState (map_of current model)
                in if \<not> stateDeepEqual baseState updState \<and> stateDeepEqual baseState currentState
                   then AList.update model updState merged else merged) updated current"
  have 1: "map_of ?m k = (case map_of updated k of None \<Rightarrow> map_of current k | Some v \<Rightarrow> ?F k v (map_of current k))"
    by (rule fold_keyed [OF assms(2), where f = ?F]) (simp add: Let_def update_conv')
  have 2: "map_of (mergeModelStates base current updated current) k =
      (case map_of base k of None \<Rightarrow> map_of ?m k
       | Some v \<Rightarrow> if map_of updated k = None
            \<and> (case map_of current k of Some c \<Rightarrow> stateDeepEqual v c | None \<Rightarrow> False) then None else map_of ?m k)"
    unfolding mergeModelStates_def
    by (rule fold_keyed [OF assms(1), where f = "\<lambda>k v old. if map_of updated k = None
            \<and> (case map_of current k of Some c \<Rightarrow> stateDeepEqual v c | None \<Rightarrow> False) then None else old"])
      (simp add: delete_conv')
  show ?thesis unfolding 2 1
    by (cases "map_of base k"; cases "map_of current k"; cases "map_of updated k")
      (auto simp: nilState_def stateDeepEqual_def split: option.splits)
qed

lemma mergeStatus_frame [simp]:
  "a_Attributes (mergeStatus now base c u m) = a_Attributes m" "a_ModelStates (mergeStatus now base c u m) = a_ModelStates m"
  "a_Quota (mergeStatus now base c u m) = a_Quota m" "a_NextRetryAfter (mergeStatus now base c u m) = a_NextRetryAfter m"
  "a_ProxyURL (mergeStatus now base c u m) = a_ProxyURL m" "a_ID (mergeStatus now base c u m) = a_ID m"
  "a_RegistrationEpoch (mergeStatus now base c u m) = a_RegistrationEpoch m"
  "a_availabilityEpoch (mergeStatus now base c u m) = a_availabilityEpoch m"
  "a_Prefix (mergeStatus now base c u m) = a_Prefix m"
  by (simp_all add: mergeStatus_def Let_def)

lemma mergeStatus_metadata:
  "map_of (a_Metadata (mergeStatus now base c u m)) k =
     (if k = ''disabled'' then Some (VBool (a_Disabled (mergeStatus now base c u m))) else map_of (a_Metadata m) k)"
  by (simp add: mergeStatus_def Let_def update_conv')

lemma mergeStatus_disabled:
  "a_Disabled (mergeStatus now (Some b) c u m) =
     (if isDisabledAuth c \<noteq> isDisabledAuth b then isDisabledAuth c else isDisabledAuth u)"
  by (simp add: mergeStatus_def Let_def)

lemma mergeStatus_concurrent:
  "authAvailabilityChanged base (Some c) \<Longrightarrow> \<not> a_Disabled (mergeStatus now base c u m) \<Longrightarrow>
     a_Unavailable (mergeStatus now base c u m) = a_Unavailable c \<and> a_LastError (mergeStatus now base c u m) = a_LastError c
     \<and> a_Status (mergeStatus now base c u m) = a_Status c"
  by (auto simp: mergeStatus_def Let_def split: if_split_asm)

lemma isProxyKey_proxy [simp]: "isProxyKey ''proxy_url''" "\<not> isProxyKey ''disabled''"
  by code_simp+

lemma mergeAuths_frame [simp]:
  "a_ModelStates (mergeAuths nils base c u) = a_ModelStates c" "a_Quota (mergeAuths nils base c u) = a_Quota c"
  "a_NextRetryAfter (mergeAuths nils base c u) = a_NextRetryAfter c" "a_ID (mergeAuths nils base c u) = a_ID c"
  "a_RegistrationEpoch (mergeAuths nils base c u) = a_RegistrationEpoch c"
  "a_availabilityEpoch (mergeAuths nils base c u) = a_availabilityEpoch c"
  by (simp_all add: mergeAuths_def Let_def)

lemma mergeAuths_maps:
  assumes "distinct_keys (a_Metadata b)" and "distinct_keys (a_Metadata u)"
    and "distinct_keys (a_Attributes b)" and "distinct_keys (a_Attributes u)"
  shows "\<not> isProxyKey k \<Longrightarrow> map_of (a_Metadata (mergeAuths nils (Some b) c u)) k =
      (if nil_Metadata nils then map_of (a_Metadata c) k
       else threeWay deepEqual (map_of (a_Metadata b) k) (map_of (a_Metadata c) k) (map_of (a_Metadata u) k))"
    and "map_of (a_Attributes (mergeAuths nils (Some b) c u)) k =
      (if nil_Attributes nils then map_of (a_Attributes c) k
       else threeWay (=) (map_of (a_Attributes b) k) (map_of (a_Attributes c) k) (map_of (a_Attributes u) k))"
    and "a_ProxyURL (mergeAuths nils (Some b) c u) =
      stringValue (map_of (a_Metadata (mergeAuths nils (Some b) c u)) ''proxy_url'')"
proof -
  show "map_of (a_Metadata (mergeAuths nils (Some b) c u)) k =
      (if nil_Metadata nils then map_of (a_Metadata c) k
       else threeWay deepEqual (map_of (a_Metadata b) k) (map_of (a_Metadata c) k) (map_of (a_Metadata u) k))"
    if "\<not> isProxyKey k"
  proof -
    have "k \<noteq> ''proxy_url''" using that isProxyKey_proxy(1) by blast
    then show ?thesis using that
      by (simp add: mergeAuths_def Let_def update_conv' delete_conv' merged_map [OF assms(1,2)])
  qed
  show "map_of (a_Attributes (mergeAuths nils (Some b) c u)) k =
      (if nil_Attributes nils then map_of (a_Attributes c) k
       else threeWay (=) (map_of (a_Attributes b) k) (map_of (a_Attributes c) k) (map_of (a_Attributes u) k))"
    by (simp add: mergeAuths_def Let_def merged_map [OF assms(3,4)])
qed (simp add: mergeAuths_def Let_def stringValue_def update_conv' delete_conv')

text \<open>A user who changed the proxy keeps the change.\<close>

lemma mergeProxy_user:
  "TrimSpace (a_ProxyURL c) \<noteq> TrimSpace (a_ProxyURL b) \<Longrightarrow> metaProxy c = metaProxy b \<Longrightarrow>
     mergeProxy (Some b) c u = TrimSpace (a_ProxyURL c)"
  "TrimSpace (a_ProxyURL c) = TrimSpace (a_ProxyURL b) \<Longrightarrow> metaProxy c \<noteq> metaProxy b \<Longrightarrow>
     mergeProxy (Some b) c u = metaProxy c"
  by (simp_all add: mergeProxy_def Let_def)

text \<open>The merge of two states of the same credential, field by field, over the merge of the contents and of the status.\<close>

lemma refreshed_fields:
  assumes same: "sameCredentialSnapshot (Some b) (Some c)" and m0_def: "m0 = mergeAuths nils (Some b) c u"
  obtains m m1 where "MergeRefreshedAuth now nils (Some b) (Some c) (Some u) = Some m"
    and "\<And>k. map_of (a_Metadata m) k = (if k = ''disabled'' then Some (VBool (a_Disabled m)) else map_of (a_Metadata m0) k)"
    and "a_Attributes m = a_Attributes m0" and "a_ProxyURL m = a_ProxyURL m0"
    and "a_ModelStates m = (if \<not> nil_ModelStates nils \<and> a_availabilityEpoch b = a_availabilityEpoch c
      then mergeModelStates (a_ModelStates b) (a_ModelStates c) (a_ModelStates u) (a_ModelStates c) else a_ModelStates c)"
    and "a_Quota m = a_Quota c" and "a_NextRetryAfter m = a_NextRetryAfter c" and "a_ID m = a_ID c"
    and "a_RegistrationEpoch m = a_RegistrationEpoch c" and "a_availabilityEpoch m = a_availabilityEpoch c"
    and "a_Disabled m = a_Disabled (mergeStatus now (Some b) c u m1)" and "a_Status m = a_Status (mergeStatus now (Some b) c u m1)"
    and "a_Unavailable m = a_Unavailable (mergeStatus now (Some b) c u m1)"
    and "a_LastError m = a_LastError (mergeStatus now (Some b) c u m1)"
proof -
  define m1 where "m1 = m0\<lparr>a_LastRefreshedAt :=
                       (if \<not> IsZero (a_LastRefreshedAt u) then a_LastRefreshedAt u else a_LastRefreshedAt m0),
                     a_NextRefreshAfter :=
                       (if \<not> IsZero (a_NextRefreshAfter u) \<or> \<not> IsZero (a_NextRefreshAfter b)
                        then a_NextRefreshAfter u else a_NextRefreshAfter m0)\<rparr>"
  define m2 where "m2 = mergeStatus now (Some b) c u m1"
  define m where "m = (if \<not> nil_ModelStates nils \<and> a_availabilityEpoch b = a_availabilityEpoch c
     then m2\<lparr>a_ModelStates := mergeModelStates (a_ModelStates b) (a_ModelStates c) (a_ModelStates u) (a_ModelStates m2)\<rparr> else m2)"
  have eq: "MergeRefreshedAuth now nils (Some b) (Some c) (Some u) = Some m"
    unfolding MergeRefreshedAuth_def mergeAuthContent_def m_def m2_def m1_def m0_def Let_def using same by simp
  have md: "a_Metadata m = a_Metadata m2" "a_Disabled m = a_Disabled m2" by (simp_all add: m_def)
  have meta: "map_of (a_Metadata m) k = (if k = ''disabled'' then Some (VBool (a_Disabled m)) else map_of (a_Metadata m0) k)" for k
    unfolding md by (simp add: m2_def mergeStatus_metadata m1_def)
  show thesis
    by (rule that [OF eq meta, of m1]) (simp_all add: m_def m2_def [symmetric], simp_all add: m2_def m1_def m0_def)
qed

text \<open>
  C32: a token refresh that took a while is merged into the credential as it is by then
  without losing a change made meanwhile. Each metadata value, attribute and model state is merged three
  ways: a value changed since the refresh began is kept, an unchanged one takes what the refresh made of
  it. The cooldown deadlines are the current ones, a credential disabled or enabled by the user stays
  so, a failure that came in between keeps the status it set, and the proxy of the record and of its
  metadata agree. A refresh of another registration or of other tokens changes nothing.
\<close>

theorem refresh_merge_keeps_changes:
  assumes "distinct_keys (a_Metadata b)" and "distinct_keys (a_Metadata u)"
    and "distinct_keys (a_Attributes b)" and "distinct_keys (a_Attributes u)"
    and "distinct_keys (a_ModelStates b)" and "distinct_keys (a_ModelStates u)"
  shows "(\<not> sameCredentialSnapshot (Some b) (Some c) \<longrightarrow> MergeRefreshedAuth now nils (Some b) (Some c) (Some u) = Some c)
    \<and> (sameCredentialSnapshot (Some b) (Some c) \<longrightarrow>
       (\<exists>m. MergeRefreshedAuth now nils (Some b) (Some c) (Some u) = Some m
        \<and> (\<forall>k. \<not> isProxyKey k \<and> k \<noteq> ''disabled'' \<longrightarrow> map_of (a_Metadata m) k =
             (if nil_Metadata nils then map_of (a_Metadata c) k
              else threeWay deepEqual (map_of (a_Metadata b) k) (map_of (a_Metadata c) k) (map_of (a_Metadata u) k)))
        \<and> (\<forall>k. map_of (a_Attributes m) k =
             (if nil_Attributes nils then map_of (a_Attributes c) k
              else threeWay (=) (map_of (a_Attributes b) k) (map_of (a_Attributes c) k) (map_of (a_Attributes u) k)))
        \<and> (\<forall>k. nilState (map_of (a_ModelStates m) k) =
             (let sb = nilState (map_of (a_ModelStates b) k); sc = nilState (map_of (a_ModelStates c) k);
                  su = nilState (map_of (a_ModelStates u) k)
              in if \<not> nil_ModelStates nils \<and> a_availabilityEpoch b = a_availabilityEpoch c
                    \<and> stateDeepEqual sb sc \<and> \<not> stateDeepEqual sb su then su else sc))
        \<and> a_Quota m = a_Quota c \<and> a_NextRetryAfter m = a_NextRetryAfter c \<and> a_ID m = a_ID c
        \<and> a_RegistrationEpoch m = a_RegistrationEpoch c \<and> a_availabilityEpoch m = a_availabilityEpoch c
        \<and> a_Disabled m = (if isDisabledAuth c \<noteq> isDisabledAuth b then isDisabledAuth c else isDisabledAuth u)
        \<and> (authAvailabilityChanged (Some b) (Some c) \<and> \<not> a_Disabled m \<longrightarrow>
             a_Unavailable m = a_Unavailable c \<and> a_LastError m = a_LastError c \<and> a_Status m = a_Status c)
        \<and> a_ProxyURL m = stringValue (map_of (a_Metadata m) ''proxy_url'')))"
proof (cases "sameCredentialSnapshot (Some b) (Some c)")
  case False
  then show ?thesis by (simp add: MergeRefreshedAuth_def mergeAuthContent_def)
next
  case True
  define m0 where "m0 = mergeAuths nils (Some b) c u"
  note mm = mergeAuths_maps [OF assms(1-4), where nils = nils and c = c, folded m0_def]
  obtain m m1 where eq: "MergeRefreshedAuth now nils (Some b) (Some c) (Some u) = Some m"
    and meta: "\<And>k. map_of (a_Metadata m) k = (if k = ''disabled'' then Some (VBool (a_Disabled m)) else map_of (a_Metadata m0) k)"
    and at: "a_Attributes m = a_Attributes m0" "a_ProxyURL m = a_ProxyURL m0"
    and states: "a_ModelStates m = (if \<not> nil_ModelStates nils \<and> a_availabilityEpoch b = a_availabilityEpoch c
      then mergeModelStates (a_ModelStates b) (a_ModelStates c) (a_ModelStates u) (a_ModelStates c) else a_ModelStates c)"
    and fr: "a_Quota m = a_Quota c" "a_NextRetryAfter m = a_NextRetryAfter c" "a_ID m = a_ID c"
      "a_RegistrationEpoch m = a_RegistrationEpoch c" "a_availabilityEpoch m = a_availabilityEpoch c"
    and dis: "a_Disabled m = a_Disabled (mergeStatus now (Some b) c u m1)" "a_Status m = a_Status (mergeStatus now (Some b) c u m1)"
      "a_Unavailable m = a_Unavailable (mergeStatus now (Some b) c u m1)" "a_LastError m = a_LastError (mergeStatus now (Some b) c u m1)"
    by (rule refreshed_fields [OF True m0_def, where now = now]) blast
  have st: "nilState (map_of (a_ModelStates m) k) =
             (let sb = nilState (map_of (a_ModelStates b) k); sc = nilState (map_of (a_ModelStates c) k);
                  su = nilState (map_of (a_ModelStates u) k)
              in if \<not> nil_ModelStates nils \<and> a_availabilityEpoch b = a_availabilityEpoch c
                    \<and> stateDeepEqual sb sc \<and> \<not> stateDeepEqual sb su then su else sc)" for k
    using mergeModelStates_map [OF assms(5,6), of "a_ModelStates c" k] by (simp add: states Let_def)
  have conc: "a_Unavailable m = a_Unavailable c \<and> a_LastError m = a_LastError c \<and> a_Status m = a_Status c"
    if "authAvailabilityChanged (Some b) (Some c) \<and> \<not> a_Disabled m"
    using mergeStatus_concurrent [of "Some b" c now u m1] that dis by simp
  show ?thesis
  proof (intro conjI impI exI [of _ m])
    show "MergeRefreshedAuth now nils (Some b) (Some c) (Some u) = Some m" by (rule eq)
    show "a_Disabled m = (if isDisabledAuth c \<noteq> isDisabledAuth b then isDisabledAuth c else isDisabledAuth u)"
      unfolding dis(1) by (rule mergeStatus_disabled)
    show "a_ProxyURL m = stringValue (map_of (a_Metadata m) ''proxy_url'')" using at(2) mm(3) meta by simp
  qed (use True fr at(1) mm(1,2) st meta conc in simp_all)
qed

definition exampleBase :: Auth where
  "exampleBase = zero_Auth\<lparr>a_ID := ''a'', a_Provider := ''codex'', a_Status := StatusActive,
     a_Metadata := [(''access_token'', VString ''old''), (''note'', VString ''n1'')]\<rparr>"

theorem refresh_merge_keeps_changes_witness:
  "\<exists>m. MergeRefreshedAuth 10 \<lparr>nil_Metadata = False, nil_Attributes = True, nil_ModelStates = True\<rparr> (Some exampleBase)
       (Some (exampleBase\<lparr>a_Metadata := [(''access_token'', VString ''old''), (''note'', VString ''n2'')]\<rparr>))
       (Some (exampleBase\<lparr>a_Metadata := [(''access_token'', VString ''new''), (''note'', VString ''n1'')]\<rparr>)) = Some m
     \<and> map_of (a_Metadata m) ''access_token'' = Some (VString ''new'')
     \<and> map_of (a_Metadata m) ''note'' = Some (VString ''n2'')"
proof -
  define c where "c = exampleBase\<lparr>a_Metadata := [(''access_token'', VString ''old''), (''note'', VString ''n2'')]\<rparr>"
  define u where "u = exampleBase\<lparr>a_Metadata := [(''access_token'', VString ''new''), (''note'', VString ''n1'')]\<rparr>"
  let ?n = "\<lparr>nil_Metadata = False, nil_Attributes = True, nil_ModelStates = True\<rparr>"
  have d: "distinct_keys (a_Metadata exampleBase)" "distinct_keys (a_Metadata u)" "distinct_keys (a_Attributes exampleBase)"
    "distinct_keys (a_Attributes u)" "distinct_keys (a_ModelStates exampleBase)" "distinct_keys (a_ModelStates u)"
    by (simp_all add: exampleBase_def u_def zero_Auth_def)
  have same: "sameCredentialSnapshot (Some exampleBase) (Some c)" unfolding c_def by code_simp
  have k: "\<not> isProxyKey ''access_token'' \<and> ''access_token'' \<noteq> ''disabled''" "\<not> isProxyKey ''note'' \<and> ''note'' \<noteq> ''disabled''"
    by code_simp+
  have "\<exists>m. MergeRefreshedAuth 10 ?n (Some exampleBase) (Some c) (Some u) = Some m
      \<and> (\<forall>k. \<not> isProxyKey k \<and> k \<noteq> ''disabled'' \<longrightarrow> map_of (a_Metadata m) k =
           threeWay deepEqual (map_of (a_Metadata exampleBase) k) (map_of (a_Metadata c) k) (map_of (a_Metadata u) k))"
    using refresh_merge_keeps_changes [OF d, where c = c and now = 10 and nils = ?n] same by auto
  then obtain m where m: "MergeRefreshedAuth 10 ?n (Some exampleBase) (Some c) (Some u) = Some m"
    "map_of (a_Metadata m) ''access_token'' = threeWay deepEqual (map_of (a_Metadata exampleBase) ''access_token'')
       (map_of (a_Metadata c) ''access_token'') (map_of (a_Metadata u) ''access_token'')"
    "map_of (a_Metadata m) ''note'' = threeWay deepEqual (map_of (a_Metadata exampleBase) ''note'')
       (map_of (a_Metadata c) ''note'') (map_of (a_Metadata u) ''note'')"
    using k by blast
  then have "map_of (a_Metadata m) ''access_token'' = Some (VString ''new'')" "map_of (a_Metadata m) ''note'' = Some (VString ''n2'')"
    by (simp_all add: threeWay_def exampleBase_def c_def u_def)
  then show ?thesis using m(1) by (auto simp: c_def u_def)
qed


text \<open>
  A refresh that enables a credential while a cooldown of it lasts takes over the status of the current credential,
  so that the credential stays disabled by its status although its flag says otherwise.
\<close>

lemma mergeStatus_half_enabled:
  assumes "isDisabledAuth b" and "a_Status current = StatusDisabled" and "\<not> isDisabledAuth updated"
    and "a_Unavailable current" and "now < a_NextRetryAfter current"
  shows "\<not> a_Disabled (mergeStatus now (Some b) current updated merged) \<and> a_Status (mergeStatus now (Some b) current updated merged) = StatusDisabled"
  using assms by (simp add: mergeStatus_def Let_def isDisabledAuth_def)

end
