(* ===== verification/Conductor.thy ===== *)
theory Conductor
  imports Session_Affinity Scheduler_Picks Cooldown_Records Metadata_Merge Go_Path
begin

text \<open>
  The credential manager (\<^verbatim>\<open>sdk/cliproxy/auth/conductor_lifecycle.go\<close>, \<^verbatim>\<open>conductor_cooldown.go\<close>,
  \<^verbatim>\<open>conductor_selection.go\<close>): registration, update and removal of credentials, the marking of execution
  results, the reset of a credential and the refresh of its scheduler entry, each with what it publishes to
  the scheduler and to the session bindings.

  A method is one step: its critical sections and the publication that follows them are not interleaved
  with those of other methods. Left out are the persistence of credentials and cooldowns (its error is an
  argument, it does not influence the state), the publication to the model registry, the admission limits,
  the refresh schedule, hooks and log lines. \<open>mg_affinity\<close> is the session-affinity selector when there is
  one; its fallback selector takes no part in these operations.
\<close>

section \<open>Index\<close>

definition HasSuffix :: "string \<Rightarrow> string \<Rightarrow> bool" where
  "HasSuffix s sfx \<longleftrightarrow> HasPrefix (rev s) (rev sfx)"

text \<open>\<open>sha8\<close> is the hexadecimal of the first eight bytes of the SHA-256 sum.\<close>

definition stableAuthIndex :: "(string \<Rightarrow> string) \<Rightarrow> string \<Rightarrow> string" where
  "stableAuthIndex sha8 seed0 = (let seed = TrimSpace seed0 in if seed = [] then [] else sha8 seed)"

definition indexSeed :: "(string \<Rightarrow> string option) \<Rightarrow> Auth \<Rightarrow> string" where
  "indexSeed absolute a =
     (let attr = (\<lambda>k. TrimSpace (get_str (a_Attributes a) k));
          seed = attr ''auth_index_seed''
      in if seed \<noteq> [] then ''auth_index_seed:'' @ seed
         else
           let provider = ToLower (TrimSpace (a_Provider a));
               compatName = attr ''compat_name''; baseURL = attr ''base_url''; apiKey = attr ''api_key'';
               filePath = (if attr ''path'' = [] then attr ''source'' else attr ''path'');
               filePath = (if filePath = [] then TrimSpace (a_FileName a) else filePath);
               filePath = (if filePath = [] then TrimSpace (a_ID a) else filePath);
               isFile = (filePath \<noteq> [] \<and> HasSuffix (ToLower filePath) ''.json'');
               absPath = (case absolute filePath of Some p \<Rightarrow> if TrimSpace p \<noteq> [] then p else filePath | None \<Rightarrow> filePath);
               rawType = TrimSpace (stringValue (map_of (a_Metadata a) ''type''));
               authType = ToLower (TrimSpace (if rawType = [] then TrimSpace provider else rawType))
           in if isFile \<and> authType \<noteq> [] then authType @ '':'' @ Clean absPath
              else
                let apiPrefix =
                      (if apiKey = [] then []
                       else if compatName \<noteq> [] \<or> EqualFold provider ''openai-compatibility'' then ''openai-compatibility''
                       else if EqualFold provider ''codex'' then ''codex-api-key''
                       else if EqualFold provider ''claude'' then ''claude-api-key''
                       else [])
                in if apiPrefix \<noteq> [] then apiPrefix @ '':'' @ TrimSpace baseURL @ ''+'' @ TrimSpace apiKey
                   else if TrimSpace (a_ID a) \<noteq> [] then ''id:'' @ TrimSpace (a_ID a)
                   else [])"

definition EnsureIndex :: "(string \<Rightarrow> string) \<Rightarrow> (string \<Rightarrow> string option) \<Rightarrow> Auth \<Rightarrow> Auth" where
  "EnsureIndex sha8 absolute a =
     (let existingIndex = TrimSpace (a_Index a) in
      if existingIndex \<noteq> [] then a\<lparr>a_Index := existingIndex, a_indexAssigned := True\<rparr>
      else
        let seed = indexSeed absolute a
        in if seed = [] then a else a\<lparr>a_Index := stableAuthIndex sha8 seed, a_indexAssigned := True\<rparr>)"

section \<open>State\<close>

record Manager =
  mg_auths :: "(string, Auth) gomap"
  mg_authEpochs :: "(string, uint64) gomap"
  mg_scheduler :: authScheduler
  mg_affinity :: "unit affinity option"

text \<open>What the manager takes from outside: configuration, decoders, the model registry.\<close>

record mgr_env =
  me_cooling :: cooling_env
  me_token :: token_env
  me_models :: "string \<Rightarrow> ModelInfo option list"
  me_selectionKey :: "Auth \<Rightarrow> string \<Rightarrow> string"
  me_extractIDs :: "metadata \<Rightarrow> string \<times> string"
  me_sha8 :: "string \<Rightarrow> string"
  me_abs :: "string \<Rightarrow> string option"

datatype mgr_error =
    InvalidWeight string weight_source weight_error
  | StaleRegistration
  | RegistrationChanged
  | PatchError string
  | CredentialIDChanged
  | EmptyCredentialID
  | RemoveError string
  | PersistError string

definition NewManager :: "selector_kind \<Rightarrow> unit affinity option \<Rightarrow> Manager" where
  "NewManager sel affinity =
     \<lparr>mg_auths = [], mg_authEpochs = [], mg_scheduler = newAuthScheduler sel, mg_affinity = affinity\<rparr>"

definition epochOf :: "string \<Rightarrow> Manager \<Rightarrow> uint64" where
  "epochOf i m = (case map_of (mg_authEpochs m) i of Some e \<Rightarrow> e | None \<Rightarrow> 0)"

text \<open>The epoch counter of a credential is never behind the credential itself.\<close>

definition raisedEpoch :: "string \<Rightarrow> Manager \<Rightarrow> uint64" where
  "raisedEpoch i m =
     (case map_of (mg_auths m) i of
        Some existing \<Rightarrow> if a_RegistrationEpoch existing > epochOf i m then a_RegistrationEpoch existing else epochOf i m
      | None \<Rightarrow> epochOf i m)"

definition publish :: "mgr_env \<Rightarrow> time \<Rightarrow> Auth \<Rightarrow> Manager \<Rightarrow> Manager" where
  "publish env now auth m = m\<lparr>mg_scheduler := upsertAuthLocked (me_token env) (me_models env) auth now (mg_scheduler m)\<rparr>"

text \<open>The steps that end the registration and the update of a credential.\<close>

definition coolingOff :: "mgr_env \<Rightarrow> Auth \<Rightarrow> bool" where
  "coolingOff env auth \<longleftrightarrow>
     quotaCooldownDisabledForAuthWithConfig (me_cooling env) auth \<or> a_Disabled auth \<or> a_Status auth = StatusDisabled"

definition tidyStates :: "mgr_env \<Rightarrow> time \<Rightarrow> Auth \<Rightarrow> Auth" where
  "tidyStates env now auth =
     (let auth1 = fst (normalizeModelStates auth)
      in if coolingOff env auth1 then fst (clearCooldownStateForAuth now auth1) else auth1)"

section \<open>Registration\<close>

definition mgr_Register ::
  "mgr_env \<Rightarrow> string \<Rightarrow> string option \<Rightarrow> time \<Rightarrow> Auth \<Rightarrow> Manager \<Rightarrow> Manager \<times> (mgr_error + Auth)" where
  "mgr_Register env uuid errPersist now auth0 m =
     (let auth1 = auth0\<lparr>a_Metadata := NormalizeCredentialMetadata (a_Metadata auth0)\<rparr> in
      case ValidateAuthWeight auth1 of
        Some (src, e) \<Rightarrow> (m, Inl (InvalidWeight ''register auth'' src e))
      | None \<Rightarrow>
          let auth2 = auth1\<lparr>a_ID := (if a_ID auth1 = [] then uuid else a_ID auth1),
                a_Generation := (if a_Generation auth1 = 0 then 1 else a_Generation auth1),
                a_CreatedAt := (if IsZero (a_CreatedAt auth1) then now else a_CreatedAt auth1),
                a_UpdatedAt := now\<rparr>;
              auth3 = EnsureIndex (me_sha8 env) (me_abs env) (tidyStates env now auth2);
              epoch = raisedEpoch (a_ID auth3) m + 1;
              auth4 = auth3\<lparr>a_RegistrationEpoch := epoch, a_CredentialVersion := 1, a_Generation := 1,
                a_availabilityEpoch := 1\<rparr>;
              m1 = m\<lparr>mg_auths := AList.update (a_ID auth4) auth4 (mg_auths m),
                     mg_authEpochs := AList.update (a_ID auth4) epoch (mg_authEpochs m)\<rparr>
          in (publish env now auth4 m1,
              case errPersist of Some e \<Rightarrow> Inl (PersistError e) | None \<Rightarrow> Inr auth4))"

section \<open>Update\<close>

datatype updateAuthMode =
    updateModeReplace
  | updateModeRefresh
  | updateModePrepare
  | updateModePatch "Auth \<Rightarrow> string + Auth"

text \<open>What an accepted update keeps of the existing credential.\<close>

definition inheritAuth :: "Auth \<Rightarrow> Auth \<Rightarrow> Auth" where
  "inheritAuth existing auth =
     (let auth1 = auth\<lparr>a_RegistrationEpoch := a_RegistrationEpoch existing,
            a_CredentialVersion := (if CredentialsChanged (Some existing) (Some auth)
              then a_CredentialVersion existing + 1 else a_CredentialVersion existing)\<rparr>;
          auth2 = (if \<not> a_indexAssigned auth1 \<and> a_Index auth1 = []
                   then auth1\<lparr>a_Index := a_Index existing, a_indexAssigned := a_indexAssigned existing\<rparr> else auth1)
      in auth2\<lparr>a_Success := a_Success existing, a_Failed := a_Failed existing,
           a_recentRequests := a_recentRequests existing, a_Generation := a_Generation existing + 1,
           a_availabilityEpoch :=
             (if isDisabledAuth existing \<noteq> isDisabledAuth auth2
              then a_availabilityEpoch existing + 1 else a_availabilityEpoch existing)\<rparr>)"

definition keepCooldowns :: "bool \<Rightarrow> time \<Rightarrow> Auth \<Rightarrow> Auth \<Rightarrow> Auth" where
  "keepCooldowns replaced now existing auth =
     (if isDisabledAuth existing \<or> isDisabledAuth auth then auth
      else
        let auth1 = (if replaced \<and> a_ModelStates auth = [] \<and> a_ModelStates existing \<noteq> []
                     then auth\<lparr>a_ModelStates := a_ModelStates existing\<rparr> else auth);
            auth2 = (if replaced then preserveIncomingAuthCooldown existing now auth1 else auth1)
        in if CredentialsChanged (Some existing) (Some auth2) then fst (clearUnauthorizedAuthState now auth2) else auth2)"

definition settleUpdate :: "mgr_env \<Rightarrow> bool \<Rightarrow> time \<Rightarrow> Auth \<Rightarrow> Auth \<Rightarrow> Auth" where
  "settleUpdate env replaced now existing auth =
     EnsureIndex (me_sha8 env) (me_abs env)
       (tidyStates env now ((keepCooldowns replaced now existing (inheritAuth existing auth))\<lparr>a_UpdatedAt := now\<rparr>))"

definition replaces :: "updateAuthMode \<Rightarrow> bool" where
  "replaces mode = (case mode of updateModeReplace \<Rightarrow> True | _ \<Rightarrow> False)"

text \<open>What an update asks for, or why it is answered without a change.\<close>

definition requestedPatch :: "(Auth \<Rightarrow> string + Auth) \<Rightarrow> Auth \<Rightarrow> Auth \<Rightarrow> (mgr_error + Auth option) + Auth" where
  "requestedPatch patch existing auth =
     (if a_RegistrationEpoch auth \<noteq> 0 \<and> a_RegistrationEpoch auth \<noteq> a_RegistrationEpoch existing
      then Inl (Inl RegistrationChanged)
      else case patch existing of
        Inl e \<Rightarrow> Inl (Inl (PatchError e))
      | Inr patched0 \<Rightarrow>
          if a_ID patched0 \<noteq> a_ID existing then Inl (Inl CredentialIDChanged)
          else
            let patched = patched0\<lparr>a_Metadata := NormalizeCredentialMetadata (a_Metadata patched0)\<rparr>
            in case ValidateAuthWeight patched of
                 Some (src, e) \<Rightarrow> Inl (Inl (InvalidWeight ''patch auth'' src e))
               | None \<Rightarrow> Inr patched)"

definition requestedMerge ::
  "(Auth option \<Rightarrow> Auth option \<Rightarrow> Auth option \<Rightarrow> Auth option) \<Rightarrow> Auth option \<Rightarrow> Auth \<Rightarrow> Auth
    \<Rightarrow> (mgr_error + Auth option) + Auth" where
  "requestedMerge merge base existing auth =
     (if (case base of None \<Rightarrow> True | Some b \<Rightarrow> a_ID b \<noteq> a_ID auth \<or> a_RegistrationEpoch existing \<noteq> a_RegistrationEpoch b)
      then Inl (Inl StaleRegistration)
      else if \<not> sameCredentialSnapshot base (Some existing) then Inl (Inr (Some existing))
      else Inr (case merge base (Some existing) (Some auth) of
             None \<Rightarrow> auth
           | Some a \<Rightarrow> a\<lparr>a_Metadata := NormalizeCredentialMetadata (a_Metadata a)\<rparr>))"

definition requestedUpdate ::
  "time \<Rightarrow> nil_maps \<Rightarrow> Auth option \<Rightarrow> Auth \<Rightarrow> updateAuthMode \<Rightarrow> Auth \<Rightarrow> (mgr_error + Auth option) + Auth" where
  "requestedUpdate now nils base existing mode auth =
     (case mode of
        updateModePatch patch \<Rightarrow> requestedPatch patch existing auth
      | updateModeRefresh \<Rightarrow> requestedMerge (MergeRefreshedAuth now nils) base existing auth
      | updateModePrepare \<Rightarrow> requestedMerge (MergePreparedAuth nils) base existing auth
      | updateModeReplace \<Rightarrow> Inr auth)"

definition updateInternal ::
  "mgr_env \<Rightarrow> nil_maps \<Rightarrow> string option \<Rightarrow> time \<Rightarrow> Auth option \<Rightarrow> Auth \<Rightarrow> updateAuthMode \<Rightarrow> Manager
    \<Rightarrow> Manager \<times> (mgr_error + Auth option)" where
  "updateInternal env nils errPersist now base auth0 mode m =
     (if a_ID auth0 = [] then (m, Inr None)
      else
        let auth1 = auth0\<lparr>a_Metadata := NormalizeCredentialMetadata (a_Metadata auth0)\<rparr> in
        case ValidateAuthWeight auth1 of
          Some (src, e) \<Rightarrow> (m, Inl (InvalidWeight ''update auth'' src e))
        | None \<Rightarrow>
            (case map_of (mg_auths m) (a_ID auth1) of
               None \<Rightarrow> (m, Inr None)
             | Some existing \<Rightarrow>
                 let m1 = m\<lparr>mg_authEpochs := AList.update (a_ID auth1) (raisedEpoch (a_ID auth1) m) (mg_authEpochs m)\<rparr>
                 in case requestedUpdate now nils base existing mode auth1 of
                      Inl answer \<Rightarrow> (m1, answer)
                    | Inr auth2 \<Rightarrow>
                        if a_RegistrationEpoch auth2 \<noteq> 0 \<and> a_RegistrationEpoch auth2 \<noteq> a_RegistrationEpoch existing
                        then (m1, Inl StaleRegistration)
                        else
                          let auth3 = settleUpdate env (replaces mode) now existing auth2;
                              m2 = m1\<lparr>mg_auths := AList.update (a_ID auth3) auth3 (mg_auths m1)\<rparr>
                          in (publish env now auth3 m2,
                              case errPersist of Some e \<Rightarrow> Inl (PersistError e) | None \<Rightarrow> Inr (Some auth3))))"

section \<open>Removal\<close>

text \<open>\<open>removed\<close> is what the removal from storage answers, \<open>expectedEpoch\<close> the optional guard.\<close>

definition RemoveWithPersistence ::
  "string option \<Rightarrow> uint64 option \<Rightarrow> time \<Rightarrow> string \<Rightarrow> Manager \<Rightarrow> Manager \<times> mgr_error option" where
  "RemoveWithPersistence removed expectedEpoch now id0 m =
     (let i = TrimSpace id0 in
      if i = [] then (m, Some EmptyCredentialID)
      else if (case expectedEpoch of
                 None \<Rightarrow> False
               | Some e \<Rightarrow> e \<noteq> 0 \<and> (case map_of (mg_auths m) i of None \<Rightarrow> True | Some current \<Rightarrow> a_RegistrationEpoch current \<noteq> e))
      then (m, None)
      else case removed of
        Some e \<Rightarrow> (m, Some (RemoveError e))
      | None \<Rightarrow>
          (case map_of (mg_auths m) i of
             None \<Rightarrow> (m, None)
           | Some existing \<Rightarrow>
               let tombstoneEpoch = raisedEpoch i m + 1
               in (m\<lparr>mg_auths := AList.delete i (mg_auths m),
                      mg_authEpochs := AList.update i tombstoneEpoch (mg_authEpochs m),
                      mg_scheduler := RecordRemovalTombstone i tombstoneEpoch now (mg_scheduler m),
                      mg_affinity := map_option (affinity_InvalidateAuth i) (mg_affinity m)\<rparr>, None)))"

section \<open>Results\<close>

definition affinityResult :: "Result \<Rightarrow> affinity_result" where
  "affinityResult res =
     \<lparr>ar_AuthID = r_AuthID res, ar_Provider = r_Provider res, ar_Model = r_Model res, ar_Success = r_Success res,
      ar_Error = r_Error res, ar_Metadata = r_Metadata res\<rparr>"

definition updateSessionAffinity :: "mgr_env \<Rightarrow> time \<Rightarrow> time \<Rightarrow> Result \<Rightarrow> Manager \<Rightarrow> Manager" where
  "updateSessionAffinity env t1 t2 res m =
     (let current = map_of (mg_auths m) (r_AuthID res) in
      if (r_RegistrationEpoch res \<noteq> 0 \<or> r_CredentialVersion res \<noteq> 0)
         \<and> (\<not> resultMatchesCredential res current \<or> \<not> resultMatchesAvailabilityEpoch res current) then m
      else m\<lparr>mg_affinity := map_option
             (SessionAffinity_OnResult (ce_json (me_cooling env)) (me_extractIDs env) t1 t2 (affinityResult res))
             (mg_affinity m)\<rparr>)"

definition MarkResult :: "mgr_env \<Rightarrow> Header \<Rightarrow> time \<Rightarrow> time \<Rightarrow> time \<Rightarrow> Result \<Rightarrow> Manager \<Rightarrow> Manager" where
  "MarkResult env headers now t1 t2 res m =
     (if r_AuthID res = [] then m
      else case map_of (mg_auths m) (r_AuthID res) of
        None \<Rightarrow> m
      | Some auth \<Rightarrow>
          if \<not> resultMatchesCredential res (Some auth) then m
          else
            let auth' = markResultAuth (me_cooling env) (me_selectionKey env) headers now res auth;
                m1 = m\<lparr>mg_auths := AList.update (r_AuthID res) auth' (mg_auths m)\<rparr>
            in updateSessionAffinity env t1 t2 res (publish env now auth' m1))"

definition recordAvailabilityNeutralResult :: "time \<Rightarrow> Result \<Rightarrow> Manager \<Rightarrow> Manager" where
  "recordAvailabilityNeutralResult now res m =
     (if r_AuthID res = [] then m
      else case map_of (mg_auths m) (r_AuthID res) of
        None \<Rightarrow> m
      | Some auth \<Rightarrow>
          if \<not> resultMatchesCredential res (Some auth) then m
          else m\<lparr>mg_auths := AList.update (r_AuthID res) (neutralResultAuth now res auth) (mg_auths m)\<rparr>)"

section \<open>Reset and refresh of the scheduler\<close>

definition mgr_ResetQuota ::
  "mgr_env \<Rightarrow> string option \<Rightarrow> time \<Rightarrow> string \<Rightarrow> Manager \<Rightarrow> Manager \<times> (string + (Auth \<times> string list) option)" where
  "mgr_ResetQuota env errPersist now authID m =
     (case ResetQuota (me_models env) errPersist now authID (mg_auths m) of
        (auths, answer) \<Rightarrow>
          let m1 = m\<lparr>mg_auths := auths\<rparr>
          in case (if TrimSpace authID = [] then None else map_of (mg_auths m) (TrimSpace authID)) of
               None \<Rightarrow> (m1, answer)
             | Some auth \<Rightarrow> (publish env now (resetQuotaAuth now auth) m1, answer))"

definition RefreshSchedulerEntry :: "mgr_env \<Rightarrow> time \<Rightarrow> string \<Rightarrow> Manager \<Rightarrow> Manager" where
  "RefreshSchedulerEntry env now authID m =
     (if authID = [] then m
      else case map_of (mg_auths m) authID of
        None \<Rightarrow> m
      | Some auth \<Rightarrow> publish env now auth m)"

end
