(* ===== verification/Request_Errors.thy ===== *)
theory Request_Errors
  imports Mark_Result Selectors
begin

text \<open>
  Errors of an execution as the conductor sees them (\<^verbatim>\<open>sdk/cliproxy/auth/conductor_cooldown.go\<close>): their status,
  retry hint and classification, the error a result carries, and the configured rules for errors of the
  request (\<^verbatim>\<open>conductor_request_scoped_errors.go\<close>).
\<close>

section \<open>Errors of an execution\<close>

text \<open>What the code finds out about an \<open>error\<close> with \<open>errors.As\<close> and \<open>errors.Is\<close>.\<close>

record exec_error =
  xe_view :: err_view
  xe_authError :: "Error option"
  xe_retryAfter :: "duration option"
  xe_responseBody :: string
  xe_requestScoped :: bool
  xe_requestStop :: bool
  xe_terminated :: bool
  xe_credentialScoped :: bool
  xe_wsCloseCode :: "int option"
  xe_canceled :: bool
  xe_lifecycleCause :: bool

definition statusCodeFromError :: "exec_error \<Rightarrow> int" where
  "statusCodeFromError err = (case ev_status (xe_view err) of Some status \<Rightarrow> status | None \<Rightarrow> 0)"

definition isRequestScopedError :: "exec_error \<Rightarrow> bool" where
  "isRequestScopedError err = xe_requestScoped err"

definition err_isCloudflareChallenge :: "exec_error \<Rightarrow> bool" where
  "err_isCloudflareChallenge err \<longleftrightarrow>
     \<not> statusCodeFromError err \<ge> 500 \<and> isCloudflareChallengeErrorMessage (ev_text (xe_view err))"

definition err_isInvalidGrant :: "exec_error \<Rightarrow> bool" where
  "err_isInvalidGrant err \<longleftrightarrow>
     statusCodeFromError err \<in> set [400, 401] \<and> isInvalidGrantErrorMessage (ev_text (xe_view err))"

definition err_isModelSupport :: "exec_error \<Rightarrow> bool" where
  "err_isModelSupport err \<longleftrightarrow>
     statusCodeFromError err \<in> set [400, 422] \<and> isModelSupportErrorMessage (ev_text (xe_view err))"

definition err_isRequestInvalid :: "json_env \<Rightarrow> exec_error \<Rightarrow> bool" where
  "err_isRequestInvalid js err =
     (if isRequestScopedError err then True
      else if err_isCloudflareChallenge err then False
      else if err_isInvalidGrant err then False
      else if err_isModelSupport err then False
      else
        let status = statusCodeFromError err in
        if IsRequestFault js status (Some (xe_view err)) then True
        else case xe_authError err of
          None \<Rightarrow> False
        | Some authErr \<Rightarrow> e_Message authErr \<noteq> []
            \<and> IsRequestFault js status (Some \<lparr>ev_text = e_Message authErr, ev_status = None\<rparr>))"

definition isConnectionLifecycleError :: "exec_error \<Rightarrow> bool" where
  "isConnectionLifecycleError err =
     (if (case xe_wsCloseCode err of Some code \<Rightarrow> code \<in> set [1000, 1001, 1006] | None \<Rightarrow> False) then True
      else if statusCodeFromError err \<noteq> 0 then False
      else if xe_lifecycleCause err then True
      else isConnectionLifecycleMessage (ev_text (xe_view err)))"

definition resultErrorFromError :: "json_env \<Rightarrow> exec_error \<Rightarrow> Error" where
  "resultErrorFromError js err =
     (let resultErr0 = (case xe_authError err of
                          Some sourceErr \<Rightarrow> sourceErr
                        | None \<Rightarrow> \<lparr>e_Code = [], e_Message = ev_text (xe_view err), e_Retryable = False, e_HTTPStatus = 0\<rparr>);
          resultErr = (if e_HTTPStatus resultErr0 = 0 then resultErr0\<lparr>e_HTTPStatus := statusCodeFromError err\<rparr> else resultErr0)
      in if isRequestScopedError err \<or> err_isRequestInvalid js err then resultErr\<lparr>e_Code := ErrorCodeRequestScoped\<rparr>
         else if isConnectionLifecycleError err then
           (if e_Code resultErr = [] \<or> e_Code resultErr = ErrorCodeConnectionLifecycle
            then resultErr\<lparr>e_Code := ErrorCodeConnectionLifecycle\<rparr> else resultErr)
         else resultErr)"

definition retryAfterFromError :: "exec_error \<Rightarrow> duration option" where
  "retryAfterFromError err = xe_retryAfter err"

definition isCredentialScopedError :: "exec_error \<Rightarrow> bool" where
  "isCredentialScopedError err = xe_credentialScoped err"

text \<open>The errors of a selection.\<close>

definition pickError :: "sel_error \<Rightarrow> exec_error" where
  "pickError e =
     (let base = \<lparr>xe_view = \<lparr>ev_text = [], ev_status = None\<rparr>, xe_authError = None, xe_retryAfter = None, xe_responseBody = [],
            xe_requestScoped = False, xe_requestStop = False, xe_terminated = False, xe_credentialScoped = False,
            xe_wsCloseCode = None, xe_canceled = False, xe_lifecycleCause = False\<rparr>
      in case e of
           ErrAuth a \<Rightarrow> base\<lparr>xe_view := errorView a, xe_authError := Some a, xe_requestScoped := IsRequestScoped (Some a)\<rparr>
         | ErrCooldown c \<Rightarrow> base\<lparr>xe_view := \<lparr>ev_text = ''model temporarily unavailable'', ev_status = Some 429\<rparr>,
             xe_retryAfter := mce_RetryAfter c\<rparr>)"

section \<open>Rules for errors of the request\<close>

record RequestScopedErrorRule =
  ru_Status :: int
  ru_Match :: "string list"
  ru_MatchRegexr :: "string list"
  ru_Action :: string

definition RequestScopedActionStop :: string where "RequestScopedActionStop = ''stop''"
definition RequestScopedActionStopAndCooldown :: string where "RequestScopedActionStopAndCooldown = ''stop-and-cooldown''"
definition RequestScopedActionContinue :: string where "RequestScopedActionContinue = ''continue''"
definition RequestScopedActionContinueAndCooldown :: string where
  "RequestScopedActionContinueAndCooldown = ''continue-and-cooldown''"

definition extractErrorBody :: "exec_error \<Rightarrow> string" where
  "extractErrorBody err =
     (if xe_responseBody err \<noteq> [] then xe_responseBody err
      else case xe_authError err of
        Some authErr \<Rightarrow> if e_Message authErr \<noteq> [] then e_Message authErr else ev_text (xe_view err)
      | None \<Rightarrow> ev_text (xe_view err))"

text \<open>\<open>matches\<close> is whether a pattern compiles as a regular expression and matches.\<close>

definition ruleMatches :: "(string \<Rightarrow> string \<Rightarrow> bool) \<Rightarrow> int \<Rightarrow> string \<Rightarrow> RequestScopedErrorRule \<Rightarrow> bool" where
  "ruleMatches matches statusCode body rule \<longleftrightarrow>
     \<not> (ru_Status rule \<le> 0 \<or> ru_Status rule \<noteq> statusCode)
     \<and> (list_ex (\<lambda>substr. substr \<noteq> [] \<and> Contains body substr) (ru_Match rule)
        \<or> list_ex (\<lambda>pattern. pattern \<noteq> [] \<and> matches pattern body) (ru_MatchRegexr rule))"

fun firstAction :: "(RequestScopedErrorRule \<Rightarrow> bool) \<Rightarrow> RequestScopedErrorRule list \<Rightarrow> string option" where
  "firstAction matched [] = None"
| "firstAction matched (rule # rules) =
     (if \<not> matched rule then firstAction matched rules
      else
        let action = ToLower (TrimSpace (ru_Action rule))
        in if action \<in> set [RequestScopedActionStop, RequestScopedActionStopAndCooldown, RequestScopedActionContinue,
                RequestScopedActionContinueAndCooldown]
           then Some action else firstAction matched rules)"

definition matchRequestScopedErrorAction ::
  "(string \<Rightarrow> string \<Rightarrow> bool) \<Rightarrow> RequestScopedErrorRule list \<Rightarrow> exec_error \<Rightarrow> string option" where
  "matchRequestScopedErrorAction matches rules err =
     firstAction (ruleMatches matches (statusCodeFromError err) (extractErrorBody err)) rules"

definition applyRequestScopedActionToResult :: "string option \<Rightarrow> Result \<Rightarrow> Result" where
  "applyRequestScopedActionToResult action res =
     (case (action, r_Error res) of
        (Some act, Some e) \<Rightarrow>
          if act = RequestScopedActionStop \<or> act = RequestScopedActionContinue
          then res\<lparr>r_Error := Some (e\<lparr>e_Code := ErrorCodeRequestScoped\<rparr>)\<rparr>
          else if act = RequestScopedActionStopAndCooldown \<or> act = RequestScopedActionContinueAndCooldown
          then res\<lparr>r_Error := Some (e\<lparr>e_Code := ErrorCodeForceCooldown\<rparr>)\<rparr>
          else res
      | _ \<Rightarrow> res)"

definition isRequestScopedStop :: "string option \<Rightarrow> bool" where
  "isRequestScopedStop action =
     (case action of
        Some act \<Rightarrow> act = RequestScopedActionStop \<or> act = RequestScopedActionStopAndCooldown
      | None \<Rightarrow> False)"

text \<open>A stop is a wrapper around the error; unwrapping gives the error back.\<close>

definition wrapRequestStopError :: "exec_error \<Rightarrow> exec_error" where
  "wrapRequestStopError err = err\<lparr>xe_requestStop := True\<rparr>"

definition unwrapRequestStopError :: "exec_error \<Rightarrow> exec_error" where
  "unwrapRequestStopError err = err\<lparr>xe_requestStop := False\<rparr>"

section \<open>The compaction endpoint\<close>

definition isResponsesCompactRequest :: "string \<Rightarrow> bool" where
  "isResponsesCompactRequest alt \<longleftrightarrow> alt = ''responses/compact''"

definition isResponsesCompactRequestFaultError :: "json_env \<Rightarrow> string \<Rightarrow> exec_error \<Rightarrow> bool" where
  "isResponsesCompactRequestFaultError js alt err =
     (if \<not> isResponsesCompactRequest alt then False
      else if isCredentialScopedError err \<or> err_isCloudflareChallenge err \<or> err_isInvalidGrant err then False
      else
        let status = statusCodeFromError err
        in if IsRequestFault js status (Some (xe_view err)) then True
           else status \<in> set [400, 404, 405, 409, 413, 422, 501])"

definition isResponsesCompactAvailabilityNeutralError :: "string \<Rightarrow> exec_error \<Rightarrow> Error option \<Rightarrow> bool" where
  "isResponsesCompactAvailabilityNeutralError alt err resultErr =
     (if \<not> isResponsesCompactRequest alt then False
      else if (case resultErr of Some e \<Rightarrow> e_Code e = ErrorCodeForceCooldown | None \<Rightarrow> False) then False
      else if isCredentialScopedError err \<or> err_isCloudflareChallenge err \<or> err_isInvalidGrant err then False
      else if resultErr \<noteq> None \<and> (isCloudflareChallengeResultError resultErr \<or> isInvalidGrantResultError resultErr) then False
      else
        let status = (if statusCodeFromError err = 0 \<and> resultErr \<noteq> None then statusCodeFromResult resultErr
                      else statusCodeFromError err)
        in status \<notin> set [401, 402, 403, 429])"

end
