(* ===== verification/Retry_Rounds.thy ===== *)
theory Retry_Rounds
  imports Conductor Request_Errors
begin

text \<open>
  Retry rounds (\<^verbatim>\<open>sdk/cliproxy/auth/conductor_selection.go\<close>, \<^verbatim>\<open>conductor_execution.go\<close>): when a
  round over the credentials has failed, whether another round is started, which credentials it leaves
  out, how long it waits, and the loop of rounds itself.

  Home mode is off: the branches of a remote dispatcher are not modelled. Whether a credential serves a model
  and which of its models a requested one stands for (model registry, aliases) are arguments.
\<close>

section \<open>Limits\<close>

definition parseIntAny :: "goval \<Rightarrow> int option" where
  "parseIntAny val =
     (case val of
        VInt kind n \<Rightarrow> if kind \<in> set [K_int, K_int32, K_int64] then Some n else None
      | VFloat64 f \<Rightarrow> Some (int64_of_float f)
      | VNumber s \<Rightarrow> ParseInt64 s
      | VString s \<Rightarrow> let trimmed = TrimSpace s in if trimmed = [] then None else ParseInt64 trimmed
      | _ \<Rightarrow> None)"

text \<open>The first key with an integer decides, also when its value is negative, which means no override.\<close>

fun firstInt :: "(string, goval) gomap \<Rightarrow> string list \<Rightarrow> int option" where
  "firstInt m [] = None"
| "firstInt m (key # ks) =
     (case map_of m key of
        None \<Rightarrow> firstInt m ks
      | Some val \<Rightarrow> (case parseIntAny val of Some parsed \<Rightarrow> Some parsed | None \<Rightarrow> firstInt m ks))"

definition RequestRetryOverride :: "Auth \<Rightarrow> int option" where
  "RequestRetryOverride a =
     (case firstInt (a_Metadata a) [''request_retry'', ''request-retry''] of
        Some parsed \<Rightarrow> if parsed < 0 then None else Some parsed
      | None \<Rightarrow> None)"

definition effectiveRequestRetryLimit :: "Auth \<Rightarrow> int \<Rightarrow> int" where
  "effectiveRequestRetryLimit auth defaultRetry0 =
     (let defaultRetry = (if defaultRetry0 < 0 then 0 else defaultRetry0)
      in case RequestRetryOverride auth of Some override \<Rightarrow> override | None \<Rightarrow> defaultRetry)"

definition requestRetryRoundExclusions :: "int \<Rightarrow> int \<Rightarrow> Manager \<Rightarrow> string list" where
  "requestRetryRoundExclusions retryRound defaultRequestRetry m =
     (if retryRound \<le> 0 then []
      else map (\<lambda>(_, auth). a_ID auth) (filter (\<lambda>(_, auth). TrimSpace (a_ID auth) \<noteq> []
             \<and> effectiveRequestRetryLimit auth defaultRequestRetry < retryRound) (mg_auths m)))"

section \<open>Whether a credential may be tried again\<close>

definition isCredentialRetryRoundStatus :: "int \<Rightarrow> bool" where
  "isCredentialRetryRoundStatus status \<longleftrightarrow>
     status \<in> set [403, 408, 429, claudeUpstreamOverloadedStatus, 500, 502, 503, 504]"

definition credentialRetryRoundStateEligible :: "Error option \<Rightarrow> bool \<Rightarrow> bool" where
  "credentialRetryRoundStateEligible lastErr quotaExceeded =
     (case lastErr of
        None \<Rightarrow> quotaExceeded
      | Some _ \<Rightarrow> isCredentialRetryRoundStatus (statusCodeFromResult lastErr))"

text \<open>The loop over the states of a model: \<open>None\<close> forbids a retry, otherwise whether a state blocked.\<close>

fun retryStates :: "string \<Rightarrow> time \<Rightarrow> (string, ModelState option) gomap \<Rightarrow> bool \<Rightarrow> bool option" where
  "retryStates modelKey now [] matchedBlocked = Some matchedBlocked"
| "retryStates modelKey now ((stateModel, state) # rest) matchedBlocked =
     (case state of
        None \<Rightarrow> retryStates modelKey now rest matchedBlocked
      | Some st \<Rightarrow>
          if canonicalModelKey stateModel \<noteq> modelKey then retryStates modelKey now rest matchedBlocked
          else if ms_Status st = StatusDisabled then None
          else case availabilityBlock (ms_Unavailable st) (q_Exceeded (ms_Quota st)) (ms_NextRetryAfter st)
                      (q_NextRecoverAt (ms_Quota st)) now of
            (stateBlocked, _, stateNext) \<Rightarrow>
              if \<not> stateBlocked then retryStates modelKey now rest matchedBlocked
              else if IsZero stateNext \<or> \<not> credentialRetryRoundStateEligible (ms_LastError st) (q_Exceeded (ms_Quota st))
              then None
              else retryStates modelKey now rest True)"

definition retryRoundAvailabilityForAuth :: "token_env \<Rightarrow> Auth \<Rightarrow> string \<Rightarrow> time \<Rightarrow> bool \<times> time" where
  "retryRoundAvailabilityForAuth env auth model now =
     (case isAuthBlockedForModel env auth model now of
        (blocked, reason, until) \<Rightarrow>
          if \<not> blocked then (True, 0)
          else if IsZero until \<or> reason = blockReasonDisabled then (False, 0)
          else if q_Exceeded (a_Quota auth) \<and> q_Reason (a_Quota auth) = ''credential_quota''
              \<and> q_NextRecoverAt (a_Quota auth) > now
          then (credentialRetryRoundStateEligible (a_LastError auth) True, until)
          else
            let modelKey = canonicalModelKey model;
                ownState = (if credentialRetryRoundStateEligible (a_LastError auth) (q_Exceeded (a_Quota auth))
                            then (True, until) else (False, 0))
            in if modelKey \<noteq> [] \<and> a_ModelStates auth \<noteq> [] then
                 (case retryStates modelKey now (a_ModelStates auth) False of
                    None \<Rightarrow> (False, 0)
                  | Some matchedBlocked \<Rightarrow> if matchedBlocked then (True, until) else ownState)
               else ownState)"


section \<open>Whether another round is started\<close>

text \<open>What the manager asks of a credential before it looks at its availability.\<close>

record retry_query =
  rt_providers :: "string list"
  rt_model :: string
  rt_eligibility :: authSelectionEligibility
  rt_pinnedAuthID :: string
  rt_defaultRequestRetry :: int

record retry_env =
  re_token :: token_env
  re_cooling :: cooling_env
  re_sha :: "string \<Rightarrow> string"
  re_supports :: "Auth \<Rightarrow> string \<Rightarrow> bool"
  re_selectionModel :: "Auth \<Rightarrow> string \<Rightarrow> string"

definition providerSet :: "string list \<Rightarrow> string list" where
  "providerSet providers = filter (\<lambda>key. key \<noteq> []) (map (\<lambda>p. TrimSpace (ToLower p)) providers)"

definition mayRetry :: "retry_env \<Rightarrow> retry_query \<Rightarrow> int \<Rightarrow> Auth \<Rightarrow> bool" where
  "mayRetry env q attempt auth \<longleftrightarrow>
     \<not> isDisabledAuth auth
     \<and> \<not> (rt_pinnedAuthID q \<noteq> [] \<and> a_ID auth \<noteq> rt_pinnedAuthID q)
     \<and> eligibility_allows (re_sha env) (rt_eligibility q) auth
     \<and> executorKeyFromAuth auth \<in> set (providerSet (rt_providers q))
     \<and> \<not> (rt_model q \<noteq> [] \<and> \<not> re_supports env auth (rt_model q))
     \<and> \<not> attempt \<ge> effectiveRequestRetryLimit auth (rt_defaultRequestRetry q)"

definition checkModel :: "retry_env \<Rightarrow> retry_query \<Rightarrow> Auth \<Rightarrow> string" where
  "checkModel env q auth =
     (if TrimSpace (rt_model q) \<noteq> [] then re_selectionModel env auth (rt_model q) else rt_model q)"

definition retryAllowed :: "retry_env \<Rightarrow> retry_query \<Rightarrow> int \<Rightarrow> time \<Rightarrow> Manager \<Rightarrow> bool" where
  "retryAllowed env q attempt now m =
     (if attempt < 0 \<or> rt_providers q = [] \<or> providerSet (rt_providers q) = [] then False
      else list_ex (\<lambda>(_, auth). mayRetry env q attempt auth
             \<and> fst (retryRoundAvailabilityForAuth (re_token env) auth (checkModel env q auth) now)) (mg_auths m))"

text \<open>The wait one credential asks for; \<open>None\<close> leaves it out.\<close>

definition authWait :: "retry_env \<Rightarrow> retry_query \<Rightarrow> int \<Rightarrow> string list \<Rightarrow> time \<Rightarrow> Auth \<Rightarrow> duration option" where
  "authWait env q status attempted now auth =
     (case retryRoundAvailabilityForAuth (re_token env) auth (checkModel env q auth) now of
        (retryEligible, until) \<Rightarrow>
          if \<not> retryEligible then None
          else
            let wasAttempted = (a_ID auth \<in> set attempted);
                coolingDisabled = quotaCooldownDisabledForAuthWithConfig (re_cooling env) auth
            in if \<not> wasAttempted \<or> coolingDisabled \<or> status \<noteq> 429 then
                 (if IsZero until then Some 0
                  else if until - now < 0 then None else Some (until - now))
               else if IsZero until then Some minQuotaCooldownFloor
               else Some (if until - now < minQuotaCooldownFloor then minQuotaCooldownFloor else until - now))"

text \<open>A credential that is free at once ends the search.\<close>

fun closestWait :: "(Auth \<Rightarrow> duration option) \<Rightarrow> (Auth \<Rightarrow> bool) \<Rightarrow> (string, Auth) gomap \<Rightarrow> duration option \<Rightarrow> duration option" where
  "closestWait wait immediate [] best = best"
| "closestWait wait immediate ((_, auth) # rest) best =
     (if immediate auth then Some 0
      else case wait auth of
        None \<Rightarrow> closestWait wait immediate rest best
      | Some w \<Rightarrow> closestWait wait immediate rest
          (case best of None \<Rightarrow> Some w | Some minWait \<Rightarrow> if w < minWait then Some w else best))"

definition immediateAuth :: "retry_env \<Rightarrow> retry_query \<Rightarrow> int \<Rightarrow> string list \<Rightarrow> time \<Rightarrow> Auth \<Rightarrow> bool" where
  "immediateAuth env q status attempted now auth =
     (case retryRoundAvailabilityForAuth (re_token env) auth (checkModel env q auth) now of
        (retryEligible, until) \<Rightarrow> retryEligible \<and> IsZero until
          \<and> (a_ID auth \<notin> set attempted \<or> quotaCooldownDisabledForAuthWithConfig (re_cooling env) auth \<or> status \<noteq> 429))"

definition closestCooldownWaitWithAttempted ::
  "retry_env \<Rightarrow> retry_query \<Rightarrow> int \<Rightarrow> int \<Rightarrow> string list \<Rightarrow> time \<Rightarrow> Manager \<Rightarrow> duration option" where
  "closestCooldownWaitWithAttempted env q attempt status attempted now m =
     (if rt_providers q = [] then None
      else closestWait
        (\<lambda>auth. if mayRetry env q attempt auth then authWait env q status attempted now auth else None)
        (\<lambda>auth. mayRetry env q attempt auth \<and> immediateAuth env q status attempted now auth)
        (mg_auths m) None)"

text \<open>The answer: no further round, or one after a wait.\<close>

definition boundedWait :: "duration \<Rightarrow> duration \<Rightarrow> duration option" where
  "boundedWait maxWait wait = (if wait > 0 \<and> (maxWait \<le> 0 \<or> wait > maxWait) then None else Some wait)"

definition shouldRetryAfterErrorWithAttempted ::
  "retry_env \<Rightarrow> retry_query \<Rightarrow> duration \<Rightarrow> exec_error \<Rightarrow> int \<Rightarrow> string list \<Rightarrow> time \<Rightarrow> time \<Rightarrow> Manager \<Rightarrow> duration option" where
  "shouldRetryAfterErrorWithAttempted env q maxWait err attempt attempted t1 t2 m =
     (let status = statusCodeFromError err in
      if status = 200 then None
      else if err_isRequestInvalid (ce_json (re_cooling env)) err \<or> xe_requestStop err then None
      else if \<not> isCredentialRetryRoundStatus status \<or> \<not> retryAllowed env q attempt t1 m then None
      else case closestCooldownWaitWithAttempted env q attempt status attempted t2 m of
        Some wait \<Rightarrow> boundedWait maxWait wait
      | None \<Rightarrow>
          (case retryAfterFromError err of
             Some retryAfter \<Rightarrow> if retryAfter < 0 then None else boundedWait maxWait retryAfter
           | None \<Rightarrow> Some 0))"

definition cooldownWaitJitterCap :: duration where "cooldownWaitJitterCap = 2 * Second"

text \<open>\<open>draw\<close> is \<open>rand.N\<close>: a value from zero up to, not including, its argument.\<close>

definition jitteredCooldownWait :: "(duration \<Rightarrow> duration) \<Rightarrow> duration \<Rightarrow> duration \<Rightarrow> duration" where
  "jitteredCooldownWait draw wait maxWait =
     (if wait \<le> 0 then wait
      else
        let r1 = quot wait 4;
            r2 = (if r1 > cooldownWaitJitterCap then cooldownWaitJitterCap else r1);
            r3 = (if maxWait > 0 \<and> r2 > maxWait - wait then maxWait - wait else r2)
        in if r3 \<le> 0 then wait else wait + draw r3)"


section \<open>The closest wait\<close>

text \<open>The waits the credentials of a manager ask for.\<close>

definition waits :: "(Auth \<Rightarrow> duration option) \<Rightarrow> (string, Auth) gomap \<Rightarrow> duration set" where
  "waits wait auths = {w. \<exists>auth \<in> snd ` set auths. wait auth = Some w}"

lemma finite_waits [simp]: "finite (waits wait auths)"
proof -
  have "waits wait auths \<subseteq> the ` wait ` snd ` set auths" unfolding waits_def by force
  then show ?thesis by (rule finite_subset) simp
qed

lemma waits_simps [simp]: "waits wait [] = {}" "waits wait ((k, a) # xs) = set_option (wait a) \<union> waits wait xs"
  by (auto simp: waits_def)

lemma Min_insert2: "finite A \<Longrightarrow> Min (insert (a :: int) (insert b A)) = Min (insert (min a b) A)"
  by (cases "A = {}") (simp_all add: min.assoc)

lemma closestWait_spec:
  assumes "\<And>auth. immediate auth \<Longrightarrow> wait auth = Some 0" and "\<And>auth w. wait auth = Some w \<Longrightarrow> 0 \<le> w"
    and "best = None \<or> 0 \<le> the best"
  shows "closestWait wait immediate auths best =
    (if waits wait auths \<union> set_option best = {} then None else Some (Min (waits wait auths \<union> set_option best)))"
  using assms(3)
proof (induction auths arbitrary: best)
  case Nil
  show ?case by (cases best) simp_all
next
  case (Cons x xs)
  obtain k a where x: "x = (k, a)" by (cases x)
  show ?case
  proof (cases "immediate a")
    case True
    have "0 \<le> w" if "w \<in> waits wait (x # xs) \<union> set_option best" for w
      using that assms(2) Cons.prems by (auto simp: waits_def)
    moreover have "0 \<in> waits wait (x # xs) \<union> set_option best" using assms(1) [OF True] by (simp add: x)
    moreover have "finite (waits wait (x # xs) \<union> set_option best)" by (cases best) simp_all
    ultimately have "Min (waits wait (x # xs) \<union> set_option best) = 0" by (intro Min_eqI) auto
    then show ?thesis using True assms(1) [OF True] by (simp add: x)
  next
    case False
    show ?thesis
    proof (cases "wait a")
      case None
      with False Cons show ?thesis by (simp add: x)
    next
      case (Some w)
      have w: "0 \<le> w" using assms(2) Some by blast
      show ?thesis
      proof (cases best)
        case None
        with False Some w Cons.IH [of "Some w"] show ?thesis by (simp add: x)
      next
        case best: (Some b)
        have b: "0 \<le> b" using Cons.prems best by simp
        have "closestWait wait immediate (x # xs) best = closestWait wait immediate xs (Some (min w b))"
          using False Some best by (simp add: x min_def)
        also have "\<dots> = Some (Min (insert (min w b) (waits wait xs)))" using Cons.IH [of "Some (min w b)"] w b by simp
        also have "\<dots> = Some (Min (insert w (insert b (waits wait xs))))" by (simp only: Min_insert2 finite_waits)
        finally show ?thesis using Some best by (simp add: x insert_commute)
      qed
    qed
  qed
qed

lemma blocked_until_later:
  assumes "0 \<le> now" and "isAuthBlockedForModel env auth model now = (True, reason, d)" and "d \<noteq> 0"
  shows "now < d"
proof (cases "credentialQuotaActive auth now")
  case True
  with isAuthBlockedForModel_timed(4) [OF assms(2,3)] show ?thesis by (simp add: credentialQuotaActive_def)
next
  case False
  then have "baseBlock auth model now = (True, reason, d)"
    using isAuthBlockedForModel_free [OF isAuthBlockedForModel_timed(1-3) [OF assms(2,3)]] assms(2) by simp
  then show ?thesis using baseBlock_later [OF assms(1) order_refl, of auth model d] assms(3) by simp
qed

lemma availability_until:
  assumes "retryRoundAvailabilityForAuth env auth model now = (b, until)" and "0 \<le> now"
  shows "until = 0 \<or> now < until"
proof (cases "until = 0")
  case False
  then obtain reason where "isAuthBlockedForModel env auth model now = (True, reason, until)"
    using assms(1) by (auto simp: retryRoundAvailabilityForAuth_def Let_def split: prod.split_asm if_split_asm option.split_asm)
  with blocked_until_later [OF assms(2)] False show ?thesis by blast
qed simp

lemma authWait_nonneg:
  assumes "authWait env q status attempted now auth = Some w" and "0 \<le> now"
  shows "0 \<le> w"
  using assms(1) by (auto simp: authWait_def Let_def cooldown_constants split: prod.split_asm if_split_asm)

lemma authWait_floor:
  "a_ID auth \<in> set attempted \<Longrightarrow> \<not> quotaCooldownDisabledForAuthWithConfig (re_cooling env) auth \<Longrightarrow>
     authWait env q 429 attempted now auth = Some w \<Longrightarrow> minQuotaCooldownFloor \<le> w"
  by (auto simp: authWait_def Let_def split: prod.split_asm if_split_asm)

lemma authWait_tried:
  "a_ID auth \<in> set attempted \<Longrightarrow> \<not> quotaCooldownDisabledForAuthWithConfig (re_cooling env) auth \<Longrightarrow>
     fst (retryRoundAvailabilityForAuth (re_token env) auth (checkModel env q auth) now) \<Longrightarrow>
     authWait env q 429 attempted now auth \<noteq> None"
  by (auto simp: authWait_def Let_def split: prod.split)

lemma immediate_wait: "immediateAuth env q status attempted now auth \<Longrightarrow> authWait env q status attempted now auth = Some 0"
  by (auto simp: immediateAuth_def authWait_def Let_def split: prod.split_asm)

text \<open>The reference: the waits of all credentials that may be tried again.\<close>

definition retryWaits ::
  "retry_env \<Rightarrow> retry_query \<Rightarrow> int \<Rightarrow> int \<Rightarrow> string list \<Rightarrow> time \<Rightarrow> Manager \<Rightarrow> duration set" where
  "retryWaits env q attempt status attempted now m =
     {w. \<exists>auth \<in> snd ` set (mg_auths m). mayRetry env q attempt auth \<and> authWait env q status attempted now auth = Some w}"

lemma closest_min:
  fixes env :: retry_env and attempt status :: int and attempted :: "string list" and m :: Manager
  assumes "0 \<le> now" and "rt_providers q \<noteq> []"
  defines "W \<equiv> retryWaits env q attempt status attempted now m"
  shows "closestCooldownWaitWithAttempted env q attempt status attempted now m = (if W = {} then None else Some (Min W))"
    and "finite W" and "w \<in> W \<Longrightarrow> 0 \<le> w"
proof -
  let ?wait = "\<lambda>auth. if mayRetry env q attempt auth then authWait env q status attempted now auth else None"
  have W: "W = waits ?wait (mg_auths m)"
    unfolding W_def retryWaits_def waits_def by (auto split: if_split_asm)
  show "finite W" unfolding W by (rule finite_waits)
  show "w \<in> W \<Longrightarrow> 0 \<le> w" unfolding W_def retryWaits_def using authWait_nonneg [OF _ assms(1)] by blast
  show "closestCooldownWaitWithAttempted env q attempt status attempted now m = (if W = {} then None else Some (Min W))"
    unfolding closestCooldownWaitWithAttempted_def W using assms(2)
    by (subst closestWait_spec)
      (auto simp: immediate_wait authWait_nonneg [OF _ assms(1)] split: if_split_asm)
qed

section \<open>Properties\<close>

definition drawn :: "(duration \<Rightarrow> duration) \<Rightarrow> bool" where
  "drawn draw \<longleftrightarrow> (\<forall>n. 0 < n \<longrightarrow> 0 \<le> draw n \<and> draw n < n)"

lemma jitter_bounded:
  assumes "drawn draw" and "0 \<le> wait" and "wait = 0 \<or> 0 < maxWait \<and> wait \<le> maxWait"
  shows "wait \<le> jitteredCooldownWait draw wait maxWait
    \<and> (jitteredCooldownWait draw wait maxWait = 0 \<or> jitteredCooldownWait draw wait maxWait \<le> maxWait)
    \<and> jitteredCooldownWait draw wait maxWait \<le> wait + cooldownWaitJitterCap"
proof (cases "wait = 0")
  case False
  define r2 where "r2 = min (quot wait 4) cooldownWaitJitterCap"
  define r3 where "r3 = (if maxWait > 0 \<and> r2 > maxWait - wait then maxWait - wait else r2)"
  have j: "jitteredCooldownWait draw wait maxWait = (if r3 \<le> 0 then wait else wait + draw r3)"
    using False assms(2) by (simp add: jitteredCooldownWait_def Let_def r3_def r2_def min_def)
  have "r3 \<le> maxWait - wait" "r3 \<le> cooldownWaitJitterCap" using False assms(3) by (auto simp: r3_def r2_def)
  moreover have "0 \<le> draw r3 \<and> draw r3 < r3" if "0 < r3" using assms(1) that by (simp add: drawn_def)
  moreover have "0 \<le> cooldownWaitJitterCap" by (simp add: cooldownWaitJitterCap_def duration_defs)
  ultimately show ?thesis using False assms(3) by (auto simp: j)
qed (use assms(1) in \<open>simp add: jitteredCooldownWait_def cooldownWaitJitterCap_def duration_defs\<close>)

lemma boundedWait_Some: "boundedWait maxWait wait = Some w \<Longrightarrow> w = wait \<and> (wait \<le> 0 \<or> 0 < maxWait \<and> wait \<le> maxWait)"
  by (auto simp: boundedWait_def split: if_split_asm)

lemma retry_wait:
  assumes "shouldRetryAfterErrorWithAttempted env q maxWait err attempt attempted t1 t2 m = Some w" and "0 \<le> t2"
  shows "isCredentialRetryRoundStatus (statusCodeFromError err)" and "retryAllowed env q attempt t1 m"
    and "0 \<le> w" and "w = 0 \<or> 0 < maxWait \<and> w \<le> maxWait"
proof -
  let ?c = "closestCooldownWaitWithAttempted env q attempt (statusCodeFromError err) attempted t2 m"
  show s: "isCredentialRetryRoundStatus (statusCodeFromError err)" and r: "retryAllowed env q attempt t1 m"
    using assms(1) by (auto simp: shouldRetryAfterErrorWithAttempted_def Let_def split: if_split_asm)
  have p: "rt_providers q \<noteq> []" using r by (simp add: retryAllowed_def split: if_split_asm)
  have c: "0 \<le> x" if "?c = Some x" for x
    using that closest_min [OF assms(2) p, where env = env and attempt = attempt and status = "statusCodeFromError err"
        and attempted = attempted and m = m] Min_in by (auto split: if_split_asm)
  have "0 \<le> w \<and> (w = 0 \<or> 0 < maxWait \<and> w \<le> maxWait)"
  proof (cases ?c)
    case (Some x)
    then have "boundedWait maxWait x = Some w"
      using assms(1) by (simp add: shouldRetryAfterErrorWithAttempted_def Let_def split: if_split_asm)
    with c [OF Some] show ?thesis using boundedWait_Some [of maxWait x w] by auto
  next
    case None
    then show ?thesis
      using assms(1) boundedWait_Some [of maxWait _ w]
      by (fastforce simp: shouldRetryAfterErrorWithAttempted_def Let_def split: if_split_asm option.split_asm)
  qed
  then show "0 \<le> w" "w = 0 \<or> 0 < maxWait \<and> w \<le> maxWait" by blast+
qed

text \<open>
  C37: the wait before the next round, found in one pass that stops at the first credential that is free,
  is the least wait that any credential of the manager asks for, whatever the order of the pass.
\<close>

theorem closest_wait_is_least:
  assumes "0 \<le> now" and "rt_providers q \<noteq> []"
  shows "closestCooldownWaitWithAttempted env q attempt status attempted now m =
    (if retryWaits env q attempt status attempted now m = {} then None
     else Some (Min (retryWaits env q attempt status attempted now m)))"
  by (rule closest_min(1) [OF assms])

text \<open>
  C38: another round is started only after an error of the retryable kinds and only when some credential has
  retries left; the wait before it is not negative and, jitter included, within the configured limit, so that
  without a limit there is no waiting at all.
\<close>

theorem retry_wait_bounded:
  assumes "shouldRetryAfterErrorWithAttempted env q maxWait err attempt attempted t1 t2 m = Some w"
    and "0 \<le> t2" and "drawn draw"
  shows "isCredentialRetryRoundStatus (statusCodeFromError err)
    \<and> (\<exists>auth \<in> snd ` set (mg_auths m). mayRetry env q attempt auth)
    \<and> 0 \<le> w \<and> w \<le> jitteredCooldownWait draw w maxWait
    \<and> (jitteredCooldownWait draw w maxWait = 0 \<or> jitteredCooldownWait draw w maxWait \<le> maxWait)
    \<and> jitteredCooldownWait draw w maxWait \<le> w + cooldownWaitJitterCap"
proof -
  note r = retry_wait [OF assms(1,2)]
  have "\<exists>auth \<in> snd ` set (mg_auths m). mayRetry env q attempt auth"
    using r(2) by (force simp: retryAllowed_def list_ex_iff split: if_split_asm)
  with r(1,3) jitter_bounded [OF assms(3) r(3,4)] show ?thesis by blast
qed


section \<open>Examples\<close>

definition exampleRetryEnv :: retry_env where
  "exampleRetryEnv = \<lparr>re_token = exampleEnv, re_cooling = exampleCoolingEnv, re_sha = (\<lambda>x. x), re_supports = (\<lambda>_ _. True),
     re_selectionModel = (\<lambda>_ m. canonicalModelKey m)\<rparr>"

definition exampleQuery :: retry_query where
  "exampleQuery = \<lparr>rt_providers = [''codex''], rt_model = ''gpt-5'',
     rt_eligibility = \<lparr>el_scope = None, el_requiredKind = [], el_credentialPolicy = [], el_disallowFreeAuth = False\<rparr>,
     rt_pinnedAuthID = [], rt_defaultRequestRetry = 2\<rparr>"

definition exampleRetryManager :: Manager where
  "exampleRetryManager = (NewManager NilSelector None)\<lparr>mg_auths := [(''a'', exampleFresh)]\<rparr>"

definition exampleExecError :: exec_error where
  "exampleExecError = pickError (ErrAuth (exampleError 429 ''slow down''))"

lemma drawn_zero: "drawn (\<lambda>_. 0)"
  by (simp add: drawn_def)

theorem closest_wait_is_least_witness:
  "retryWaits exampleRetryEnv exampleQuery 0 429 [] 10 exampleRetryManager \<noteq> {}
   \<and> Min (retryWaits exampleRetryEnv exampleQuery 0 429 [] 10 exampleRetryManager) = 0"
proof -
  have c: "closestCooldownWaitWithAttempted exampleRetryEnv exampleQuery 0 429 [] 10 exampleRetryManager = Some 0" by code_simp
  have "rt_providers exampleQuery \<noteq> []" by (simp add: exampleQuery_def)
  from closest_wait_is_least [OF _ this, of 10 exampleRetryEnv 0 429 "[]" exampleRetryManager] c
  show ?thesis by (simp split: if_split_asm)
qed

theorem retry_wait_bounded_witness:
  "jitteredCooldownWait (\<lambda>_. 0) 10000000000 30000000000 \<le> 30000000000"
proof -
  have s: "shouldRetryAfterErrorWithAttempted exampleRetryEnv exampleQuery 30000000000 exampleExecError 0 [''a''] 10 10 exampleRetryManager
      = Some 10000000000" by code_simp
  from retry_wait_bounded [OF s _ drawn_zero] show ?thesis by auto
qed


end
