(* ===== verification/Local_Admission.thy ===== *)
theory Local_Admission
  imports Retry_Rounds
begin

text \<open>
  Local admission of requests to a credential (\<^verbatim>\<open>sdk/cliproxy/auth/local_credential_admission.go\<close>): the limit of requests
  in flight, the bounded queue of requests that wait for a place, and the channels that wake them.

  A limiter is shared by the requests that run at the same time; each of its methods holds its lock and is one step, and
  the steps of different requests interleave in any order. An operation of the manager that visits several limiters, or
  one limiter twice, is one step as well. Channels are numbered in the order in which they are made: the
  field \<open>la_notify\<close> is the number of the present one, 0 stands for nil, and a channel is closed exactly when a later one
  has replaced it. A release function runs its body once (\<open>sync.Once\<close>).
\<close>

section \<open>Settings\<close>

record localCredentialAdmissionSettings =
  ls_maxInFlight :: int
  ls_queueCapacity :: int
  ls_queueTimeout :: duration

definition zero_settings :: localCredentialAdmissionSettings where
  "zero_settings = \<lparr>ls_maxInFlight = 0, ls_queueCapacity = 0, ls_queueTimeout = 0\<rparr>"

definition defaultLocalCredentialQueueTimeout :: duration where "defaultLocalCredentialQueueTimeout = 30 * Second"
definition maxLocalCredentialInFlight :: int where "maxLocalCredentialInFlight = 10000"
definition maxLocalCredentialQueueCapacity :: int where "maxLocalCredentialQueueCapacity = 100000"
definition maxLocalCredentialQueueTimeout :: duration where "maxLocalCredentialQueueTimeout = Hour"

lemmas admission_constants = zero_settings_def defaultLocalCredentialQueueTimeout_def maxLocalCredentialInFlight_def
  maxLocalCredentialQueueCapacity_def maxLocalCredentialQueueTimeout_def Hour_def Minute_def Second_def

definition normalizeLocalCredentialAdmissionSettings :: "localCredentialAdmissionSettings \<Rightarrow> localCredentialAdmissionSettings" where
  "normalizeLocalCredentialAdmissionSettings settings0 =
     (let settings = settings0\<lparr>ls_maxInFlight := min (max (ls_maxInFlight settings0) 0) maxLocalCredentialInFlight,
            ls_queueCapacity := min (max (ls_queueCapacity settings0) 0) maxLocalCredentialQueueCapacity\<rparr>
      in if ls_queueCapacity settings = 0 then settings\<lparr>ls_queueTimeout := 0\<rparr>
         else
           let positive = (if ls_queueTimeout settings \<le> 0 then defaultLocalCredentialQueueTimeout else ls_queueTimeout settings)
           in settings\<lparr>ls_queueTimeout := (if positive > maxLocalCredentialQueueTimeout then maxLocalCredentialQueueTimeout else positive)\<rparr>)"

fun credentialAdmissionIntOverride :: "Auth \<Rightarrow> int \<Rightarrow> string list \<Rightarrow> int" where
  "credentialAdmissionIntOverride auth fallback [] = fallback"
| "credentialAdmissionIntOverride auth fallback (key # rest) =
     (case (case map_of (a_Metadata auth) key of Some value \<Rightarrow> parseIntAny value | None \<Rightarrow> None) of
        Some parsed \<Rightarrow> parsed
      | None \<Rightarrow>
          (case (case map_of (a_Attributes auth) key of Some value \<Rightarrow> ParseInt64 (TrimSpace value) | None \<Rightarrow> None) of
             Some parsed \<Rightarrow> parsed
           | None \<Rightarrow> credentialAdmissionIntOverride auth fallback rest))"

text \<open>The limits of the configuration (\<open>cfg.ClaudeCode\<close>), when there is one.\<close>

record claude_limits =
  cl_MaxInFlight :: int
  cl_QueueCapacity :: int
  cl_QueueTimeoutSeconds :: int

text \<open>\<open>None\<close> is a credential that is not limited.\<close>

definition localCredentialAdmissionSettings_for :: "claude_limits option \<Rightarrow> Auth \<Rightarrow> localCredentialAdmissionSettings option" where
  "localCredentialAdmissionSettings_for cfg auth =
     (if \<not> EqualFold (TrimSpace (a_Provider auth)) ''claude'' then None
      else
        let base = (case cfg of
              None \<Rightarrow> zero_settings
            | Some c \<Rightarrow> \<lparr>ls_maxInFlight = cl_MaxInFlight c, ls_queueCapacity = cl_QueueCapacity c,
                ls_queueTimeout = wrap64 (cl_QueueTimeoutSeconds c * Second)\<rparr>);
            override = credentialAdmissionIntOverride auth;
            seconds = override (quot (ls_queueTimeout base) Second) [''queue_timeout_seconds'', ''queue-timeout-seconds''];
            settings = normalizeLocalCredentialAdmissionSettings
              \<lparr>ls_maxInFlight = override (ls_maxInFlight base) [''max_in_flight'', ''max-in-flight''],
               ls_queueCapacity = override (ls_queueCapacity base) [''queue_capacity'', ''queue-capacity''],
               ls_queueTimeout = wrap64 (seconds * Second)\<rparr>
        in if ls_maxInFlight settings > 0 then Some settings else None)"

section \<open>A limiter\<close>

record localCredentialAdmission =
  la_settings :: localCredentialAdmissionSettings
  la_inFlight :: int
  la_waiters :: int
  la_notify :: nat

definition new_admission :: localCredentialAdmission where
  "new_admission = \<lparr>la_settings = zero_settings, la_inFlight = 0, la_waiters = 0, la_notify = 0\<rparr>"

text \<open>Closes the present channel, when there is one, and makes the next.\<close>

definition signalLocked :: "localCredentialAdmission \<Rightarrow> localCredentialAdmission" where
  "signalLocked l = l\<lparr>la_notify := Suc (la_notify l)\<rparr>"

definition madeNotify :: "localCredentialAdmission \<Rightarrow> localCredentialAdmission" where
  "madeNotify l = (if la_notify l = 0 then l\<lparr>la_notify := 1\<rparr> else l)"

definition closed_channel :: "nat \<Rightarrow> localCredentialAdmission \<Rightarrow> bool" where
  "closed_channel c l \<longleftrightarrow> c < la_notify l"

definition vacant :: "localCredentialAdmission \<Rightarrow> bool" where
  "vacant l \<longleftrightarrow> ls_maxInFlight (la_settings l) \<le> 0 \<or> la_inFlight l < ls_maxInFlight (la_settings l)"

definition configure :: "localCredentialAdmissionSettings \<Rightarrow> localCredentialAdmission \<Rightarrow> localCredentialAdmission" where
  "configure settings l0 =
     (let l = madeNotify l0
      in if la_settings l \<noteq> settings then signalLocked (l\<lparr>la_settings := settings\<rparr>) else l)"

text \<open>What \<open>tryAcquire\<close> hands out: a place whose release does nothing, a counted place, or no place.\<close>

datatype grant = Unlimited | Slot | Refused

definition tryAcquire :: "localCredentialAdmission \<Rightarrow> grant \<times> localCredentialAdmission" where
  "tryAcquire l =
     (if ls_maxInFlight (la_settings l) \<le> 0 then (Unlimited, l)
      else if la_inFlight l \<ge> ls_maxInFlight (la_settings l) then (Refused, l)
      else (Slot, l\<lparr>la_inFlight := la_inFlight l + 1\<rparr>))"

definition releaseSlot :: "localCredentialAdmission \<Rightarrow> localCredentialAdmission" where
  "releaseSlot l = signalLocked (if la_inFlight l > 0 then l\<lparr>la_inFlight := la_inFlight l - 1\<rparr> else l)"

text \<open>The answer to a request that wants to wait: there is a place, it waits on a channel, or the queue is full.\<close>

datatype registration_answer = PlaceFree | WaitsOn nat duration | QueueFull

definition registerWaiter :: "localCredentialAdmission \<Rightarrow> registration_answer \<times> localCredentialAdmission" where
  "registerWaiter l0 =
     (let l = madeNotify l0
      in if vacant l then (PlaceFree, l)
         else if ls_queueCapacity (la_settings l) \<le> 0 \<or> la_waiters l \<ge> ls_queueCapacity (la_settings l) then (QueueFull, l)
         else (WaitsOn (la_notify l) (ls_queueTimeout (la_settings l)), l\<lparr>la_waiters := la_waiters l + 1\<rparr>))"

definition cancelWaiter :: "localCredentialAdmission \<Rightarrow> localCredentialAdmission" where
  "cancelWaiter l = (if la_waiters l > 0 then l\<lparr>la_waiters := la_waiters l - 1\<rparr> else l)"

text \<open>\<open>None\<close>: there is a place.\<close>

definition availabilitySignal :: "localCredentialAdmission \<Rightarrow> nat option \<times> localCredentialAdmission" where
  "availabilitySignal l0 = (let l = madeNotify l0 in (if vacant l then None else Some (la_notify l), l))"

section \<open>The limiters of the manager\<close>

text \<open>
  The limiters made so far and the one each key stands for: a request releases its place at the limiter that it got it
  from, also when the key has got a new one.
\<close>

record admissions =
  am_limiters :: "localCredentialAdmission list"
  am_keys :: "(string, nat) gomap"

definition updateLimiter :: "nat \<Rightarrow> (localCredentialAdmission \<Rightarrow> localCredentialAdmission) \<Rightarrow> admissions \<Rightarrow> admissions" where
  "updateLimiter n f am = (if n < length (am_limiters am) then am\<lparr>am_limiters := (am_limiters am)[n := f (am_limiters am ! n)]\<rparr> else am)"

definition loadOrStore :: "string \<Rightarrow> admissions \<Rightarrow> nat \<times> admissions" where
  "loadOrStore key am =
     (case map_of (am_keys am) key of
        Some n \<Rightarrow> (n, am)
      | None \<Rightarrow> (length (am_limiters am),
          am\<lparr>am_limiters := am_limiters am @ [new_admission], am_keys := AList.update key (length (am_limiters am)) (am_keys am)\<rparr>))"

text \<open>\<open>index\<close> is \<open>EnsureIndex\<close>, for a credential without an identifier.\<close>

definition tryAcquireLocalCredential ::
  "claude_limits option \<Rightarrow> (Auth \<Rightarrow> string) \<Rightarrow> Auth \<Rightarrow> admissions \<Rightarrow> (grant \<times> nat option) \<times> admissions" where
  "tryAcquireLocalCredential cfg index auth am =
     (case localCredentialAdmissionSettings_for cfg auth of
        None \<Rightarrow> ((Unlimited, None), am)
      | Some settings \<Rightarrow>
          let key = (if TrimSpace (a_ID auth) = [] then TrimSpace (index auth) else TrimSpace (a_ID auth))
          in if key = [] then ((Unlimited, None), am)
             else case loadOrStore key am of
               (n, am1) \<Rightarrow>
                 let l = configure settings (am_limiters am1 ! n)
                 in case tryAcquire l of (g, l1) \<Rightarrow> ((g, Some n), updateLimiter n (\<lambda>_. l1) am1))"

definition releaseLocalCredential :: "grant \<times> nat option \<Rightarrow> admissions \<Rightarrow> admissions" where
  "releaseLocalCredential place am =
     (case place of (Slot, Some n) \<Rightarrow> updateLimiter n releaseSlot am | _ \<Rightarrow> am)"

definition notifyLocalCredentialAdmissionConfigChanged :: "admissions \<Rightarrow> admissions" where
  "notifyLocalCredentialAdmissionConfigChanged am = fold (\<lambda>(_, n). updateLimiter n signalLocked) (am_keys am) am"

definition refreshLocalCredentialAdmission ::
  "claude_limits option \<Rightarrow> (string, Auth) gomap \<Rightarrow> Auth \<Rightarrow> admissions \<Rightarrow> admissions" where
  "refreshLocalCredentialAdmission cfg auths auth0 am =
     (case map_of auths (a_ID auth0) of
        None \<Rightarrow> am
      | Some auth \<Rightarrow>
          if a_RegistrationEpoch auth \<noteq> a_RegistrationEpoch auth0 then am
          else
            let key = TrimSpace (a_ID auth)
            in if key = [] then am
               else case map_of (am_keys am) key of
                 None \<Rightarrow> am
               | Some n \<Rightarrow>
                   (case localCredentialAdmissionSettings_for cfg auth of
                      None \<Rightarrow> (updateLimiter n (configure zero_settings) am)\<lparr>am_keys := AList.delete key (am_keys am)\<rparr>
                    | Some settings \<Rightarrow> updateLimiter n (configure settings) am))"

definition removeLocalCredentialAdmission :: "string \<Rightarrow> admissions \<Rightarrow> admissions" where
  "removeLocalCredentialAdmission authID am =
     (let key = TrimSpace authID
      in case map_of (am_keys am) key of
           None \<Rightarrow> am
         | Some n \<Rightarrow> (updateLimiter n (configure zero_settings) am)\<lparr>am_keys := AList.delete key (am_keys am)\<rparr>)"


section \<open>Waiting for a place\<close>

definition recordBusyLocalCredential :: "string \<Rightarrow> nat \<Rightarrow> (string, nat) gomap \<times> string list \<Rightarrow> (string, nat) gomap \<times> string list" where
  "recordBusyLocalCredential authID limiter b =
     (case b of (busy, order) \<Rightarrow>
        (AList.update authID limiter busy, if map_of busy authID = None then order @ [authID] else order))"

definition orderedBusyLocalCredentialKeys :: "(string, nat) gomap \<Rightarrow> string list \<Rightarrow> string list" where
  "orderedBusyLocalCredentialKeys busy preferred =
     (let first = rev (remdups (rev (filter (\<lambda>key. map_of busy key \<noteq> None) preferred)));
          remaining = filter (\<lambda>key. key \<notin> set first) (remdups (map fst busy))
      in first @ sort remaining)"

text \<open>The first limiter, in this order, whose queue takes the request or that has a place.\<close>

fun registerFirst :: "nat list \<Rightarrow> admissions \<Rightarrow> (nat \<times> duration option) option \<times> admissions" where
  "registerFirst [] am = (None, am)"
| "registerFirst (n # ns) am =
     (case registerWaiter (am_limiters am ! n) of
        (answer, l) \<Rightarrow>
          let am1 = updateLimiter n (\<lambda>_. l) am
          in case answer of
               QueueFull \<Rightarrow> registerFirst ns am1
             | PlaceFree \<Rightarrow> (Some (n, None), am1)
             | WaitsOn _ timeout \<Rightarrow> (Some (n, Some timeout), am1))"

text \<open>The channels of all the limiters; \<open>None\<close> when one of them has a place.\<close>

fun collectSignals :: "nat list \<Rightarrow> admissions \<Rightarrow> (nat \<times> nat) list option \<times> admissions" where
  "collectSignals [] am = (Some [], am)"
| "collectSignals (n # ns) am =
     (case availabilitySignal (am_limiters am ! n) of
        (signal, l) \<Rightarrow>
          let am1 = updateLimiter n (\<lambda>_. l) am
          in case signal of
               None \<Rightarrow> (None, am1)
             | Some c \<Rightarrow> (case collectSignals ns am1 of (r, am2) \<Rightarrow> (map_option ((#) (n, c)) r, am2)))"

text \<open>
  A request that waits holds a place in one queue and listens to the channels of all its limiters.
  \<open>remaining\<close> keeps one deadline for all the waits of a request.
\<close>

datatype wait_error = CapacityBusy duration | ContextDone

definition remaining :: "time \<Rightarrow> duration \<Rightarrow> time \<Rightarrow> duration \<times> time" where
  "remaining now timeout deadline0 =
     (let deadline = (if IsZero deadline0 then now + timeout else deadline0) in (time_Sub deadline now, deadline))"

datatype wait_start = WaitOver "wait_error option" | Waiting nat "(nat \<times> nat) list" duration

text \<open>\<open>waitForLocalCredentialCapacity\<close> up to its select. The two flags say whether the context has ended when it is asked.\<close>

definition beginCapacityWait ::
  "(string, nat) gomap \<Rightarrow> string list \<Rightarrow> bool \<Rightarrow> bool \<Rightarrow> time \<Rightarrow> time \<Rightarrow> admissions \<Rightarrow> wait_start \<times> time \<times> admissions" where
  "beginCapacityWait busy preferred ended1 ended2 now deadline am =
     (let ns = map (\<lambda>key. the (map_of busy key)) (orderedBusyLocalCredentialKeys busy preferred)
      in if busy = [] then (WaitOver (Some (CapacityBusy Second)), deadline, am)
         else if ended1 then (WaitOver (Some ContextDone), deadline, am)
         else
           (case registerFirst ns am of
              (None, am1) \<Rightarrow> (WaitOver (Some (CapacityBusy Second)), deadline, am1)
            | (Some (_, None), am1) \<Rightarrow> (WaitOver None, deadline, am1)
            | (Some (q, Some t), am1) \<Rightarrow>
                let timeout = (if t \<le> 0 then defaultLocalCredentialQueueTimeout else t)
                in (case collectSignals ns am1 of
                      (None, am2) \<Rightarrow> (WaitOver None, deadline, updateLimiter q cancelWaiter am2)
                    | (Some chans, am2) \<Rightarrow>
                        if ended2 then (WaitOver (Some ContextDone), deadline, updateLimiter q cancelWaiter am2)
                        else
                          (case remaining now timeout deadline of
                             (left, deadline1) \<Rightarrow>
                               if left \<le> 0 then (WaitOver (Some (CapacityBusy Second)), deadline1, updateLimiter q cancelWaiter am2)
                               else (Waiting q chans left, deadline1, am2)))))"

datatype select_outcome = ContextCase | TimerCase | SignalCase

text \<open>What follows the select; \<open>ended\<close> is whether the context has ended when it is asked after the timer.\<close>

definition endCapacityWait :: "nat \<Rightarrow> (nat \<times> nat) list \<Rightarrow> select_outcome \<Rightarrow> bool \<Rightarrow> admissions \<Rightarrow> wait_error option \<times> admissions" where
  "endCapacityWait q chans outcome ended am =
     (case outcome of
        ContextCase \<Rightarrow> (Some ContextDone, updateLimiter q cancelWaiter am)
      | SignalCase \<Rightarrow> (None, updateLimiter q cancelWaiter am)
      | TimerCase \<Rightarrow>
          (case collectSignals (map fst chans) am of
             (None, am1) \<Rightarrow> (None, updateLimiter q cancelWaiter am1)
           | (Some _, am1) \<Rightarrow> (Some (if ended then ContextDone else CapacityBusy Second), updateLimiter q cancelWaiter am1)))"

section \<open>Bounds of the settings\<close>

lemma normalize_fields:
  "ls_maxInFlight (normalizeLocalCredentialAdmissionSettings s) = min (max (ls_maxInFlight s) 0) maxLocalCredentialInFlight"
  "ls_queueCapacity (normalizeLocalCredentialAdmissionSettings s) = min (max (ls_queueCapacity s) 0) maxLocalCredentialQueueCapacity"
  by (simp_all add: normalizeLocalCredentialAdmissionSettings_def Let_def)

lemma normalize_bounds:
  "0 \<le> ls_maxInFlight (normalizeLocalCredentialAdmissionSettings s)"
  "ls_maxInFlight (normalizeLocalCredentialAdmissionSettings s) \<le> maxLocalCredentialInFlight"
  "0 \<le> ls_queueCapacity (normalizeLocalCredentialAdmissionSettings s)"
  "ls_queueCapacity (normalizeLocalCredentialAdmissionSettings s) \<le> maxLocalCredentialQueueCapacity"
  unfolding normalize_fields by (simp_all add: maxLocalCredentialInFlight_def maxLocalCredentialQueueCapacity_def)

lemma normalize_timeout:
  assumes "0 < ls_queueCapacity s"
  shows "0 < ls_queueTimeout (normalizeLocalCredentialAdmissionSettings s)
    \<and> ls_queueTimeout (normalizeLocalCredentialAdmissionSettings s) \<le> maxLocalCredentialQueueTimeout"
proof -
  have "min (max (ls_queueCapacity s) 0) maxLocalCredentialQueueCapacity \<noteq> 0"
    using assms by (simp add: maxLocalCredentialQueueCapacity_def min_def)
  then show ?thesis
    by (simp add: normalizeLocalCredentialAdmissionSettings_def Let_def)
      (simp add: maxLocalCredentialQueueTimeout_def defaultLocalCredentialQueueTimeout_def Hour_def Minute_def Second_def)
qed

section \<open>The places of a limiter\<close>

text \<open>
  The states of a limiter under the requests of all clients, in any order: \<open>h\<close> requests hold a counted place, \<open>w\<close> are in the
  queue. Every setting allows at most \<open>N\<close> places and \<open>C\<close> waiting requests.
\<close>

inductive admission :: "int \<Rightarrow> int \<Rightarrow> localCredentialAdmission \<Rightarrow> nat \<Rightarrow> nat \<Rightarrow> bool" for N C where
  fresh: "admission N C new_admission 0 0"
| configured: "admission N C l h w \<Longrightarrow> ls_maxInFlight s \<le> N \<Longrightarrow> ls_queueCapacity s \<le> C \<Longrightarrow> admission N C (configure s l) h w"
| acquired: "admission N C l h w \<Longrightarrow> tryAcquire l = (Slot, l') \<Longrightarrow> admission N C l' (Suc h) w"
| released: "admission N C l (Suc h) w \<Longrightarrow> admission N C (releaseSlot l) h w"
| queued: "admission N C l h w \<Longrightarrow> registerWaiter l = (WaitsOn c t, l') \<Longrightarrow> admission N C l' h (Suc w)"
| answered: "admission N C l h w \<Longrightarrow> fst (registerWaiter l) \<in> {PlaceFree, QueueFull} \<Longrightarrow> admission N C (snd (registerWaiter l)) h w"
| left: "admission N C l h (Suc w) \<Longrightarrow> admission N C (cancelWaiter l) h w"
| asked: "admission N C l h w \<Longrightarrow> admission N C (snd (availabilitySignal l)) h w"
| signalled: "admission N C l h w \<Longrightarrow> admission N C (signalLocked l) h w"

lemma madeNotify_fields [simp]:
  "la_settings (madeNotify l) = la_settings l" "la_inFlight (madeNotify l) = la_inFlight l" "la_waiters (madeNotify l) = la_waiters l"
  by (simp_all add: madeNotify_def)

lemma admission_inv:
  assumes "admission N C l h w" and "0 \<le> N" and "0 \<le> C"
  shows "la_inFlight l = int h \<and> la_waiters l = int w \<and> int h \<le> N \<and> int w \<le> C
    \<and> ls_maxInFlight (la_settings l) \<le> N \<and> ls_queueCapacity (la_settings l) \<le> C"
  using assms
proof (induction rule: admission.induct)
  case fresh
  then show ?case by (simp add: new_admission_def zero_settings_def)
next
  case (queued l h w c t l')
  then show ?case by (auto simp: registerWaiter_def Let_def split: if_split_asm)
next
  case (answered l h w)
  then show ?case by (auto simp: registerWaiter_def Let_def split: if_split_asm)
qed (auto simp: configure_def tryAcquire_def releaseSlot_def cancelWaiter_def availabilitySignal_def signalLocked_def Let_def
    split: if_split_asm)


section \<open>Wake-ups\<close>

text \<open>What the other requests, the configuration and the lifecycle of credentials do to the limiters.\<close>

datatype admission_event =
    TryAcquire "claude_limits option" Auth
  | ReleasePlace "grant \<times> nat option"
  | ConfigChanged
  | RefreshAdmission "claude_limits option" "(string, Auth) gomap" Auth
  | RemoveAdmission string
  | BeginWait "(string, nat) gomap" "string list" bool bool time time
  | EndWait nat "(nat \<times> nat) list" select_outcome bool

fun admission_apply :: "(Auth \<Rightarrow> string) \<Rightarrow> admission_event \<Rightarrow> admissions \<Rightarrow> admissions" where
  "admission_apply index (TryAcquire cfg auth) am = snd (tryAcquireLocalCredential cfg index auth am)"
| "admission_apply index (ReleasePlace place) am = releaseLocalCredential place am"
| "admission_apply index ConfigChanged am = notifyLocalCredentialAdmissionConfigChanged am"
| "admission_apply index (RefreshAdmission cfg auths auth) am = refreshLocalCredentialAdmission cfg auths auth am"
| "admission_apply index (RemoveAdmission authID) am = removeLocalCredentialAdmission authID am"
| "admission_apply index (BeginWait busy preferred ended1 ended2 now deadline) am =
     snd (snd (beginCapacityWait busy preferred ended1 ended2 now deadline am))"
| "admission_apply index (EndWait q chans outcome ended) am = snd (endCapacityWait q chans outcome ended am)"

text \<open>The channel \<open>c\<close> of a limiter without a place: it is still open only while there is none.\<close>

definition watched :: "nat \<Rightarrow> localCredentialAdmission \<Rightarrow> bool" where
  "watched c l \<longleftrightarrow> 0 < c \<and> c \<le> la_notify l \<and> (la_notify l = c \<longrightarrow> \<not> vacant l)"

lemma watched_wakes: "watched c l \<Longrightarrow> vacant l \<Longrightarrow> closed_channel c l"
  by (auto simp: watched_def closed_channel_def)

lemma madeNotify_watched [simp]: "watched c l \<Longrightarrow> madeNotify l = l"
  by (auto simp: watched_def madeNotify_def)

lemma watched_ops:
  assumes "watched c l"
  shows watched_configure: "watched c (configure s l)"
    and watched_tryAcquire: "watched c (snd (tryAcquire l))"
    and watched_releaseSlot: "watched c (releaseSlot l)"
    and watched_register: "watched c (snd (registerWaiter l))"
    and watched_cancel: "watched c (cancelWaiter l)"
    and watched_ask: "watched c (snd (availabilitySignal l))"
    and watched_signal: "watched c (signalLocked l)"
  using assms madeNotify_watched [OF assms]
  by (auto simp: configure_def tryAcquire_def releaseSlot_def registerWaiter_def cancelWaiter_def availabilitySignal_def
      signalLocked_def watched_def vacant_def Let_def split: if_split_asm)

definition watching :: "nat \<Rightarrow> nat \<Rightarrow> admissions \<Rightarrow> bool" where
  "watching n c am \<longleftrightarrow> n < length (am_limiters am) \<and> watched c (am_limiters am ! n)"

lemma watching_update:
  assumes "watching n c am" and "k = n \<Longrightarrow> watched c (f (am_limiters am ! n))"
  shows "watching n c (updateLimiter k f am)"
  using assms by (auto simp: watching_def updateLimiter_def nth_list_update)

lemma watching_keys [simp]: "watching n c (am\<lparr>am_keys := ks\<rparr>) = watching n c am"
  by (simp add: watching_def)

lemma watching_store:
  assumes "watching n c am" and "loadOrStore key am = (k, am1)"
  shows "watching n c am1"
  using assms by (auto simp: loadOrStore_def watching_def nth_append split: option.split_asm)

lemma watching_acquire:
  assumes w: "watching n c am"
  shows "watching n c (snd (tryAcquireLocalCredential cfg index auth am))"
proof (cases "localCredentialAdmissionSettings_for cfg auth")
  case (Some settings)
  define key where "key = (if TrimSpace (a_ID auth) = [] then TrimSpace (index auth) else TrimSpace (a_ID auth))"
  obtain k am1 where x: "loadOrStore key am = (k, am1)" by fastforce
  have w1: "watching n c am1" by (rule watching_store [OF w x])
  then have "watched c (am_limiters am1 ! n)" by (simp add: watching_def)
  then have l: "watched c (snd (tryAcquire (configure settings (am_limiters am1 ! n))))"
    by (intro watched_tryAcquire watched_configure)
  have "watching n c (updateLimiter k (\<lambda>_. snd (tryAcquire (configure settings (am_limiters am1 ! k)))) am1)"
    by (rule watching_update [OF w1]) (use l in simp)
  with w show ?thesis
    by (simp add: tryAcquireLocalCredential_def Some key_def [symmetric] x Let_def case_prod_beta')
qed (use w in \<open>simp add: tryAcquireLocalCredential_def\<close>)

lemma watching_registerFirst: "watching n c am \<Longrightarrow> watching n c (snd (registerFirst ns am))"
proof (induction ns arbitrary: am)
  case (Cons k ns)
  obtain answer l where x: "registerWaiter (am_limiters am ! k) = (answer, l)" by fastforce
  have "watching n c (updateLimiter k (\<lambda>_. l) am)"
    using Cons.prems watched_register [of c "am_limiters am ! n"] x by (intro watching_update) (auto simp: watching_def)
  then show ?case using Cons.IH by (simp add: x Let_def split: registration_answer.split)
qed simp

lemma watching_collect: "watching n c am \<Longrightarrow> watching n c (snd (collectSignals ns am))"
proof (induction ns arbitrary: am)
  case (Cons k ns)
  obtain signal l where x: "availabilitySignal (am_limiters am ! k) = (signal, l)" by fastforce
  have "watching n c (updateLimiter k (\<lambda>_. l) am)"
    using Cons.prems watched_ask [of c "am_limiters am ! n"] x by (intro watching_update) (auto simp: watching_def)
  then show ?case using Cons.IH by (simp add: x Let_def case_prod_beta' split: option.split)
qed simp

lemma watching_cancel: "watching n c am \<Longrightarrow> watching n c (updateLimiter q cancelWaiter am)"
  by (rule watching_update) (auto simp: watching_def watched_cancel)

lemma watching_begin: "watching n c am \<Longrightarrow> watching n c (snd (snd (beginCapacityWait busy preferred e1 e2 now deadline am)))"
  unfolding beginCapacityWait_def Let_def
  using watching_registerFirst [of n c am] watching_collect [of n c] watching_cancel [of n c]
  by (auto simp: case_prod_beta' split: option.split prod.split)

lemma watching_end: "watching n c am \<Longrightarrow> watching n c (snd (endCapacityWait q chans outcome ended am))"
  using watching_collect [of n c am "map fst chans"]
  by (auto simp: endCapacityWait_def watching_cancel case_prod_beta' split: select_outcome.split option.split)


lemma watching_configure: "watching n c am \<Longrightarrow> watching n c (updateLimiter k (configure s) am)"
  by (rule watching_update) (auto simp: watching_def watched_configure)

lemma watching_fold_signal: "watching n c am \<Longrightarrow> watching n c (fold (\<lambda>(_, k). updateLimiter k signalLocked) ks am)"
proof (induction ks arbitrary: am)
  case (Cons p ks)
  have "watching n c (updateLimiter (snd p) signalLocked am)"
    using Cons.prems by (intro watching_update) (auto simp: watching_def watched_signal)
  from Cons.IH [OF this] show ?case by (simp add: case_prod_beta')
qed simp

lemma watching_apply: "watching n c am \<Longrightarrow> watching n c (admission_apply index e am)"
proof (cases e)
  case (ReleasePlace place)
  assume w: "watching n c am"
  have "watching n c (updateLimiter k releaseSlot am)" for k
    by (rule watching_update [OF w]) (use w in \<open>auto simp: watching_def watched_releaseSlot\<close>)
  with w ReleasePlace show ?thesis by (auto simp: releaseLocalCredential_def split: prod.split grant.split option.split)
next
  case (RefreshAdmission cfg auths auth)
  assume w: "watching n c am"
  with RefreshAdmission show ?thesis
    by (auto simp: refreshLocalCredentialAdmission_def watching_configure Let_def split: option.split)
next
  case (RemoveAdmission authID)
  assume w: "watching n c am"
  with RemoveAdmission show ?thesis
    by (auto simp: removeLocalCredentialAdmission_def watching_configure Let_def split: option.split)
qed (simp_all add: watching_acquire watching_begin watching_end notifyLocalCredentialAdmissionConfigChanged_def watching_fold_signal)

lemma watching_run: "watching n c am \<Longrightarrow> watching n c (fold (admission_apply index) es am)"
  by (induction es arbitrary: am) (simp_all add: watching_apply)

lemma updateLimiter_length [simp]: "length (am_limiters (updateLimiter k f am)) = length (am_limiters am)"
  by (simp add: updateLimiter_def)

lemma ask_watched:
  assumes "availabilitySignal l = (Some c, l')"
  shows "watched c l'"
  using assms by (auto simp: availabilitySignal_def watched_def vacant_def madeNotify_def Let_def split: if_split_asm)

lemma collected_watched:
  assumes "collectSignals ns am = (Some chans, am1)" and "\<forall>n \<in> set ns. n < length (am_limiters am)"
  shows "map fst chans = ns \<and> (\<forall>(n, c) \<in> set chans. watching n c am1)"
  using assms
proof (induction ns arbitrary: am chans)
  case (Cons k ns)
  obtain signal l where x: "availabilitySignal (am_limiters am ! k) = (signal, l)" by fastforce
  obtain r am2 where y: "collectSignals ns (updateLimiter k (\<lambda>_. l) am) = (r, am2)" by fastforce
  from Cons.prems(1) x y obtain c chans' where z: "signal = Some c" "r = Some chans'" "chans = (k, c) # chans'" "am1 = am2"
    by (auto simp: Let_def split: option.split_asm)
  have IH: "map fst chans' = ns \<and> (\<forall>(n, c) \<in> set chans'. watching n c am1)"
    using Cons.IH [OF y [unfolded z(2), folded z(4)]] Cons.prems(2) by simp
  have "watching k c (updateLimiter k (\<lambda>_. l) am)"
    using ask_watched [of "am_limiters am ! k" c l] x z(1) Cons.prems(2) by (simp add: watching_def updateLimiter_def)
  then have "watching k c am1" using watching_collect [of k c "updateLimiter k (\<lambda>_. l) am" ns] y z(4) by simp
  with IH z(3) show ?case by simp
qed simp

lemma registerFirst_length: "length (am_limiters (snd (registerFirst ns am))) = length (am_limiters am)"
proof (induction ns arbitrary: am)
  case (Cons k ns)
  obtain answer l where x: "registerWaiter (am_limiters am ! k) = (answer, l)" by fastforce
  show ?case using Cons.IH [of "updateLimiter k (\<lambda>_. l) am"] by (simp add: x Let_def split: registration_answer.split)
qed simp

lemma ordered_keys: "set (orderedBusyLocalCredentialKeys busy preferred) = keys busy"
  by (auto simp: orderedBusyLocalCredentialKeys_def Let_def map_of_eq_None_iff [symmetric] dom_map_of_conv_image_fst [symmetric])

lemma begin_channels:
  assumes run: "beginCapacityWait busy preferred e1 e2 now deadline am = (Waiting q chans left, deadline1, am1)"
    and valid: "\<forall>n \<in> snd ` set busy. n < length (am_limiters am)"
  shows "(\<forall>(n, c) \<in> set chans. watching n c am1) \<and> (\<forall>key n. map_of busy key = Some n \<longrightarrow> n \<in> fst ` set chans)"
proof -
  define ns where "ns = map (\<lambda>key. the (map_of busy key)) (orderedBusyLocalCredentialKeys busy preferred)"
  have "n < length (am_limiters am)" if "n \<in> set ns" for n
  proof -
    from that obtain key where "key \<in> keys busy" "n = the (map_of busy key)" by (auto simp: ns_def ordered_keys)
    then obtain v where "map_of busy key = Some v" "n = v" by (metis map_of_eq_None_iff not_None_eq option.sel)
    then have "n \<in> snd ` set busy" by (force dest: map_of_SomeD)
    with valid show ?thesis by blast
  qed
  moreover obtain r am2 where x: "registerFirst ns am = (r, am2)" by fastforce
  ultimately have l: "\<forall>n \<in> set ns. n < length (am_limiters am2)" using registerFirst_length [of ns am] by simp
  have "collectSignals ns am2 = (Some chans, am1)"
    using run unfolding beginCapacityWait_def Let_def ns_def [symmetric] x
    by (auto split: if_split_asm option.split_asm prod.split_asm)
  note ch = collected_watched [OF this l]
  have "n \<in> fst ` set chans" if "map_of busy key = Some n" for key n
  proof -
    have "key \<in> set (orderedBusyLocalCredentialKeys busy preferred)" using that by (force simp: ordered_keys dest: map_of_SomeD)
    then have "n \<in> set ns" using that by (force simp: ns_def)
    with ch show ?thesis by (metis list.set_map)
  qed
  with ch show ?thesis by blast
qed


section \<open>Properties\<close>

text \<open>
  C35: in whatever order requests take, release and wait for places and settings change, a limiter counts exactly the
  places in use and the requests in its queue; with settings that allow at most \<open>N\<close> places and \<open>C\<close> waiting
  requests there are never more, and a place is handed out only below the present limit.
\<close>

theorem admission_bounded:
  assumes "admission N C l h w" and "0 \<le> N" and "0 \<le> C"
  shows "la_inFlight l = int h \<and> la_waiters l = int w \<and> int h \<le> N \<and> int w \<le> C
    \<and> (fst (tryAcquire l) = Slot \<longrightarrow> int h < ls_maxInFlight (la_settings l))"
  using admission_inv [OF assms] by (auto simp: tryAcquire_def split: if_split_asm)

text \<open>
  C36: no wake-up is lost. A request that waits listens to a channel of the limiter of each of its busy credentials;
  whatever happens to the limiters afterwards, as soon as one of them has a place, the channel the request listens to is
  closed, so that its select returns.
\<close>

theorem no_lost_wakeup:
  assumes "beginCapacityWait busy preferred ended1 ended2 now deadline am = (Waiting q chans left, deadline1, am1)"
    and "\<forall>n \<in> snd ` set busy. n < length (am_limiters am)"
    and "map_of busy key = Some n"
    and "vacant (am_limiters (fold (admission_apply index) es am1) ! n)"
  shows "\<exists>c. (n, c) \<in> set chans \<and> closed_channel c (am_limiters (fold (admission_apply index) es am1) ! n)"
proof -
  note ch = begin_channels [OF assms(1,2)]
  from ch assms(3) obtain c where c: "(n, c) \<in> set chans" by force
  with ch have "watching n c am1" by blast
  then have "watching n c (fold (admission_apply index) es am1)" by (rule watching_run)
  with c assms(4) show ?thesis using watched_wakes by (auto simp: watching_def)
qed

section \<open>Examples\<close>

definition oneSlot :: localCredentialAdmissionSettings where
  "oneSlot = \<lparr>ls_maxInFlight = 1, ls_queueCapacity = 1, ls_queueTimeout = Second\<rparr>"

definition exampleLimiter :: localCredentialAdmission where
  "exampleLimiter = snd (registerWaiter (snd (tryAcquire (configure oneSlot new_admission))))"

theorem admission_bounded_witness: "admission 1 1 exampleLimiter 1 1 \<and> la_inFlight exampleLimiter = 1 \<and> la_waiters exampleLimiter = 1"
proof -
  define l where "l = configure oneSlot new_admission"
  have "admission 1 1 l 0 0" unfolding l_def by (rule admission.configured [OF admission.fresh]) (simp_all add: oneSlot_def)
  moreover have "tryAcquire l = (Slot, snd (tryAcquire l))" unfolding l_def by code_simp
  ultimately have "admission 1 1 (snd (tryAcquire l)) (Suc 0) 0" by (rule admission.acquired)
  moreover have "registerWaiter (snd (tryAcquire l)) = (WaitsOn 2 Second, exampleLimiter)" unfolding l_def by code_simp
  ultimately have "admission 1 1 exampleLimiter (Suc 0) (Suc 0)" by (rule admission.queued)
  then show ?thesis using admission_bounded [of 1 1 exampleLimiter "Suc 0" "Suc 0"] by simp
qed

definition exampleAdmissions :: admissions where
  "exampleAdmissions = \<lparr>am_limiters = [snd (tryAcquire (configure oneSlot new_admission))], am_keys = [(''a'', 0)]\<rparr>"

theorem no_lost_wakeup_witness:
  "\<exists>c. (0 :: nat, c) \<in> set [(0, 2)] \<and> closed_channel c (am_limiters (fold (admission_apply a_ID) [ReleasePlace (Slot, Some 0)]
     (snd (snd (beginCapacityWait [(''a'', 0)] [] False False 10 0 exampleAdmissions)))) ! 0)"
proof -
  have b: "beginCapacityWait [(''a'', 0)] [] False False 10 0 exampleAdmissions
      = (Waiting 0 [(0, 2)] Second, 10 + Second, snd (snd (beginCapacityWait [(''a'', 0)] [] False False 10 0 exampleAdmissions)))"
    by code_simp
  have v: "vacant (am_limiters (fold (admission_apply a_ID) [ReleasePlace (Slot, Some 0)]
     (snd (snd (beginCapacityWait [(''a'', 0)] [] False False 10 0 exampleAdmissions)))) ! 0)" by code_simp
  show ?thesis by (rule no_lost_wakeup [OF b _ _ v, of "''a''"]) (simp_all add: exampleAdmissions_def)
qed

end
