(* ===== verification/Execution.thy ===== *)
theory Execution
  imports Retry_Rounds Scheduler_Mixed
begin

text \<open>
  The execution of a request over the credentials (\<^verbatim>\<open>sdk/cliproxy/auth/conductor_execution.go\<close>): the choice of
  the next credential, its preparation, the attempts with it, what is recorded of their outcome, one round
  over the credentials, and the rounds.

  Home mode is off. What the code calls outside the credential manager is a field of \<open>exec_hooks\<close>: the executors,
  interceptors, the context of the request, the clock, admission limits, alias resolution, the configured selector
  and the refresh of a credential. There is no plugin scheduler. \<open>xh_others\<close> is what other requests do to the manager
  between the choice of a credential and its use. Log lines, usage records and the metadata entries that nothing
  here reads are left out.
\<close>

section \<open>Surroundings\<close>

record ('r, 'w) exec_hooks =
  xh_mgr :: mgr_env
  xh_sha :: "string \<Rightarrow> string"
  xh_rules :: "Auth \<Rightarrow> RequestScopedErrorRule list"
  xh_regexp :: "string \<Rightarrow> string \<Rightarrow> bool"
  xh_executor :: "string \<Rightarrow> bool"
  xh_time :: "'w \<Rightarrow> time"
  xh_clock :: "'w \<Rightarrow> sched_times \<times> 'w"
  xh_headers :: "'w \<Rightarrow> Header"
  xh_ctxErr :: "'w \<Rightarrow> exec_error option"
  xh_others :: "Manager \<Rightarrow> 'w \<Rightarrow> Manager \<times> 'w"
  xh_builtIn :: bool
  xh_selectorPick :: "metadata \<Rightarrow> string \<Rightarrow> Auth list \<Rightarrow> unit affinity option \<Rightarrow> 'w
    \<Rightarrow> (sel_error + Auth) \<times> unit affinity option \<times> 'w"
  xh_models :: "Auth \<Rightarrow> string \<Rightarrow> 'w \<Rightarrow> (string list \<times> bool) \<times> 'w"
  xh_stateModel :: "Auth \<Rightarrow> string \<Rightarrow> string \<Rightarrow> bool \<Rightarrow> string"
  xh_admit :: "Auth \<Rightarrow> 'w \<Rightarrow> bool \<times> 'w"
  xh_release :: "Auth \<Rightarrow> 'w \<Rightarrow> 'w"
  xh_waitCapacity :: "string list \<Rightarrow> 'w \<Rightarrow> exec_error option \<times> 'w"
  xh_shouldPrepare :: "Auth \<Rightarrow> bool"
  xh_prepareLock :: "'w \<Rightarrow> exec_error option \<times> 'w"
  xh_prepare :: "Auth \<Rightarrow> 'w \<Rightarrow> (Auth option \<times> exec_error option) \<times> 'w"
  xh_nils :: "Auth \<Rightarrow> nil_maps"
  xh_persistErr :: "'w \<Rightarrow> string option"
  xh_updateError :: "mgr_error \<Rightarrow> exec_error"
  xh_intercept :: "Auth \<Rightarrow> string \<Rightarrow> 'w \<Rightarrow> exec_error option \<times> 'w"
  xh_execute :: "Auth \<Rightarrow> string \<Rightarrow> 'w \<Rightarrow> (exec_error + 'r) \<times> 'w"
  xh_countTokens :: "Auth \<Rightarrow> string \<Rightarrow> 'w \<Rightarrow> (exec_error + 'r) \<times> 'w"
  xh_modelNotFound :: "exec_error \<Rightarrow> string \<Rightarrow> bool"
  xh_refresh :: "Auth \<Rightarrow> Manager \<Rightarrow> 'w \<Rightarrow> Auth option \<times> Manager \<times> 'w"
  xh_supports :: "Auth \<Rightarrow> string \<Rightarrow> bool"
  xh_selectionModel :: "Auth \<Rightarrow> string \<Rightarrow> string"
  xh_rand :: "'w \<Rightarrow> duration \<Rightarrow> duration"
  xh_sleep :: "duration \<Rightarrow> 'w \<Rightarrow> exec_error option \<times> 'w"

text \<open>
  The two loops \<open>executeMixedOnce\<close> and \<open>executeCountMixedOnce\<close> are the same but for the call of the executor and
  what they do with an error; \<open>xr_count\<close> says which of the two runs.
\<close>

record exec_request =
  xr_count :: bool
  xr_providers :: "string list"
  xr_model :: string
  xr_alt :: string
  xr_selection :: sched_request

definition authSelectionModelFromOptions :: "(string, goval) gomap \<Rightarrow> string \<Rightarrow> string" where
  "authSelectionModelFromOptions meta fallback0 =
     (let fallback = TrimSpace fallback0 in
      case map_of meta ''auth_selection_model'' of
        Some (VString value) \<Rightarrow> if TrimSpace value \<noteq> [] then TrimSpace value else fallback
      | Some (VBytes value) \<Rightarrow> if TrimSpace value \<noteq> [] then TrimSpace value else fallback
      | _ \<Rightarrow> fallback)"

definition executionModelForAuthSelection :: "(string, goval) gomap \<Rightarrow> string \<Rightarrow> string option" where
  "executionModelForAuthSelection meta model0 =
     (let model = TrimSpace model0 in
      if model = [] then None
      else if authSelectionModelFromOptions meta model = model then None else Some model)"

definition routeModel :: "exec_request \<Rightarrow> string" where
  "routeModel req = authSelectionModelFromOptions (rq_metadata (xr_selection req)) (xr_model req)"

section \<open>The choice of a credential\<close>

definition eligibleProviders :: "('r, 'w) exec_hooks \<Rightarrow> string list \<Rightarrow> string list" where
  "eligibleProviders h providers =
     rev (fold (\<lambda>provider acc.
       let providerKey = TrimSpace (ToLower provider)
       in if providerKey = [] \<or> providerKey \<in> set acc \<or> \<not> xh_executor h providerKey then acc else providerKey # acc)
       providers [])"

definition routeAwareSelectionRequired :: "('r, 'w) exec_hooks \<Rightarrow> Auth \<Rightarrow> string \<Rightarrow> bool" where
  "routeAwareSelectionRequired h auth model \<longleftrightarrow>
     TrimSpace model \<noteq> [] \<and> me_selectionKey (xh_mgr h) auth model \<noteq> canonicalModelKey model"

definition needsLegacyPick :: "('r, 'w) exec_hooks \<Rightarrow> sched_request \<Rightarrow> string list \<Rightarrow> string \<Rightarrow> string list \<Rightarrow> Manager \<Rightarrow> bool" where
  "needsLegacyPick h rq eligible model tried m \<longleftrightarrow>
     TrimSpace model \<noteq> []
     \<and> list_ex (\<lambda>(_, candidate). \<not> a_Disabled candidate \<and> executorKeyFromAuth candidate \<in> set eligible
          \<and> eligibility_allows (xh_sha h) (requestEligibility rq) candidate \<and> a_ID candidate \<notin> set tried
          \<and> routeAwareSelectionRequired h candidate model) (mg_auths m)"

definition shouldRetrySchedulerPick :: "sel_error \<Rightarrow> bool" where
  "shouldRetrySchedulerPick err =
     (case err of
        ErrCooldown _ \<Rightarrow> True
      | ErrAuth e \<Rightarrow> e_Code e = ''auth_not_found'' \<or> e_Code e = ''auth_unavailable'')"

definition syncScheduler :: "mgr_env \<Rightarrow> time \<Rightarrow> Manager \<Rightarrow> Manager" where
  "syncScheduler env now m =
     m\<lparr>mg_scheduler := rebuild (me_token env) (me_models env) (map snd (mg_auths m)) now (mg_scheduler m)\<rparr>"

text \<open>One pick from the scheduler, with its clock readings.\<close>

definition schedulerPick ::
  "('r, 'w) exec_hooks \<Rightarrow> sched_request \<Rightarrow> string list \<Rightarrow> string \<Rightarrow> Manager \<Rightarrow> 'w
    \<Rightarrow> (sel_error + Auth \<times> string) \<times> Manager \<times> 'w" where
  "schedulerPick h rq providers model m w =
     (case xh_clock h w of
        (clk, w1) \<Rightarrow>
          (case pickMixed (me_token (xh_mgr h)) (xh_sha h) rq clk providers model (mg_scheduler m) of
             (r, s) \<Rightarrow> (r, m\<lparr>mg_scheduler := s\<rparr>, w1)))"

text \<open>The stored credential gets its index when the picked snapshot has none yet.\<close>

definition indexPicked :: "mgr_env \<Rightarrow> Auth \<Rightarrow> Manager \<Rightarrow> Auth \<times> Manager" where
  "indexPicked env selected m =
     (if a_indexAssigned selected then (selected, m)
      else case map_of (mg_auths m) (a_ID selected) of
        Some current \<Rightarrow>
          if a_indexAssigned current then (selected, m)
          else let current' = EnsureIndex (me_sha8 env) (me_abs env) current
               in (current', m\<lparr>mg_auths := AList.update (a_ID selected) current' (mg_auths m)\<rparr>)
      | None \<Rightarrow> (selected, m))"

text \<open>
  The path through the selector, for selectors without a scheduler and for models that a credential serves under
  another name. \<open>xh_selectorPick\<close> is the selector with its bindings of sessions.
\<close>

definition legacyModelKey :: "string \<Rightarrow> string" where
  "legacyModelKey model =
     (let modelKey = TrimSpace model; parsed = ParseSuffix modelKey
      in if modelKey = [] then [] else if sr_ModelName parsed \<noteq> [] then TrimSpace (sr_ModelName parsed) else modelKey)"

definition legacyCandidate :: "('r, 'w) exec_hooks \<Rightarrow> exec_request \<Rightarrow> string list \<Rightarrow> Auth \<Rightarrow> bool" where
  "legacyCandidate h req tried candidate \<longleftrightarrow>
     (let pinnedAuthID = pinnedAuthIDFromMetadata (rq_metadata (xr_selection req));
          providerKey = executorKeyFromAuth candidate;
          model = routeModel req
      in \<not> a_Disabled candidate
         \<and> \<not> (pinnedAuthID \<noteq> [] \<and> a_ID candidate \<noteq> pinnedAuthID)
         \<and> eligibility_allows (xh_sha h) (requestEligibility (xr_selection req)) candidate
         \<and> providerKey \<noteq> [] \<and> providerKey \<in> set (providerSet (xr_providers req))
         \<and> a_ID candidate \<notin> set tried
         \<and> xh_executor h providerKey
         \<and> \<not> (legacyModelKey model \<noteq> [] \<and> \<not> xh_supports h candidate model))"

definition availableAuthsForRouteModelWithPriorityMode ::
  "token_env \<Rightarrow> (Auth \<Rightarrow> string \<Rightarrow> string) \<Rightarrow> Auth list \<Rightarrow> string \<Rightarrow> string \<Rightarrow> time \<Rightarrow> bool \<Rightarrow> sel_error + Auth list" where
  "availableAuthsForRouteModelWithPriorityMode env selectionModel auths provider route now allPriorities =
     (if auths = [] then Inl (authError ''auth_not_found'' ''no auth candidates'')
      else
        let acc = fold (\<lambda>candidate. collectStep env (selectionModel candidate route) now candidate) auths
                    \<lparr>ac_available = [], ac_cooldownCount = 0, ac_quotaCount = 0, ac_earliest = 0\<rparr>
        in if ac_available acc = [] then
             (if ac_cooldownCount acc = length auths \<and> \<not> IsZero (ac_earliest acc)
              then Inl (cooldownErrorFor provider route (ac_earliest acc) now (ac_quotaCount acc = ac_cooldownCount acc))
              else Inl (authError ''auth_unavailable'' ''no auth available''))
           else Inr (availableAuthsFromPriorityBuckets (ac_available acc) allPriorities))"

definition restoreModelCooldownErrorModel :: "sel_error \<Rightarrow> string \<Rightarrow> sel_error" where
  "restoreModelCooldownErrorModel err requestedModel =
     (if requestedModel = [] then err
      else case err of
        ErrCooldown e \<Rightarrow> if mce_model e \<noteq> [] then err else ErrCooldown (e\<lparr>mce_model := requestedModel\<rparr>)
      | ErrAuth _ \<Rightarrow> err)"

definition pickNextMixedLegacy ::
  "('r, 'w) exec_hooks \<Rightarrow> exec_request \<Rightarrow> string list \<Rightarrow> Manager \<Rightarrow> 'w \<Rightarrow> (sel_error + Auth \<times> string) \<times> Manager \<times> 'w" where
  "pickNextMixedLegacy h req tried m w =
     (let model = routeModel req;
          selectionArg = (if xh_builtIn h then [] else model);
          candidates = filter (legacyCandidate h req tried) (map snd (mg_auths m))
      in if providerSet (xr_providers req) = [] then (Inl (authError ''provider_not_found'' ''no provider supplied''), m, w)
         else if candidates = [] then (Inl (authError ''auth_not_found'' ''no auth available''), m, w)
         else
           (case availableAuthsForRouteModelWithPriorityMode (me_token (xh_mgr h)) (xh_selectionModel h) candidates ''mixed'' model
                   (xh_time h w) (mg_affinity m \<noteq> None) of
              Inl err \<Rightarrow> (Inl err, m, w)
            | Inr selectorAuths \<Rightarrow>
                (case xh_selectorPick h (affinity_metadata ''mixed'' selectionArg (rq_metadata (xr_selection req))) selectionArg
                        selectorAuths (mg_affinity m) w of
                   (Inl err, bindings, w1) \<Rightarrow>
                     (Inl (if xh_builtIn h then restoreModelCooldownErrorModel err model else err), m\<lparr>mg_affinity := bindings\<rparr>, w1)
                 | (Inr selected, bindings, w1) \<Rightarrow>
                     let m1 = m\<lparr>mg_affinity := bindings\<rparr>; providerKey = executorKeyFromAuth selected
                     in if \<not> xh_executor h providerKey
                        then (Inl (authError ''executor_not_found'' ''executor not registered''), m1, w1)
                        else (case indexPicked (xh_mgr h) selected m1 of (auth, m2) \<Rightarrow> (Inr (auth, providerKey), m2, w1)))))"

definition pickNextMixed ::
  "('r, 'w) exec_hooks \<Rightarrow> exec_request \<Rightarrow> string list \<Rightarrow> Manager \<Rightarrow> 'w \<Rightarrow> (sel_error + Auth \<times> string) \<times> Manager \<times> 'w" where
  "pickNextMixed h req tried m w =
     (let eligible = eligibleProviders h (xr_providers req);
          model = routeModel req;
          rq = (xr_selection req)\<lparr>rq_tried := tried\<rparr>
      in if \<not> xh_builtIn h then pickNextMixedLegacy h req tried m w
         else if eligible = [] then (Inl (authError ''auth_not_found'' ''no auth available''), m, w)
         else if needsLegacyPick h rq eligible model tried m then pickNextMixedLegacy h req tried m w
         else
           case (case schedulerPick h rq eligible model m w of
                   (Inl err, m1, w1) \<Rightarrow>
                     if model \<noteq> [] \<and> shouldRetrySchedulerPick err
                     then schedulerPick h rq eligible model (syncScheduler (xh_mgr h) (xh_time h w1) m1) w1
                     else (Inl err, m1, w1)
                 | picked \<Rightarrow> picked) of
             (Inl err, m1, w1) \<Rightarrow> (Inl err, m1, w1)
           | (Inr (selected, providerKey), m1, w1) \<Rightarrow>
               if \<not> xh_executor h providerKey then (Inl (authError ''executor_not_found'' ''executor not registered''), m1, w1)
               else (case indexPicked (xh_mgr h) selected m1 of (auth, m2) \<Rightarrow> (Inr (auth, providerKey), m2, w1)))"

section \<open>Preparation\<close>

definition unavailableError503 :: "string \<Rightarrow> string \<Rightarrow> Error" where
  "unavailableError503 code message = \<lparr>e_Code = code, e_Message = message, e_Retryable = False, e_HTTPStatus = 503\<rparr>"

definition currentRequestAuth :: "Auth \<Rightarrow> Manager \<Rightarrow> Error + Auth" where
  "currentRequestAuth selected m =
     (let current = map_of (mg_auths m) (a_ID selected) in
      if a_RegistrationEpoch selected \<noteq> 0
         \<and> (case current of None \<Rightarrow> True | Some c \<Rightarrow> a_RegistrationEpoch c \<noteq> a_RegistrationEpoch selected)
      then Inl (unavailableError503 ''auth_not_found'' ''credential registration changed'')
      else
        let snapshot = (case current of Some c \<Rightarrow> c | None \<Rightarrow> selected)
        in if isDisabledAuth snapshot then Inl (unavailableError503 ''auth_disabled'' ''credential disabled'')
           else Inr snapshot)"

text \<open>The pair is the Go result: a credential, which may be absent, and an error.\<close>

definition prepareRequestAuth ::
  "('r, 'w) exec_hooks \<Rightarrow> Auth \<Rightarrow> Manager \<Rightarrow> 'w \<Rightarrow> (Auth option \<times> exec_error option) \<times> Manager \<times> 'w" where
  "prepareRequestAuth h selected m w =
     (let failed = (\<lambda>e. (None, Some (pickError (ErrAuth e)))) in
      case currentRequestAuth selected m of
        Inl e \<Rightarrow> (failed e, m, w)
      | Inr auth \<Rightarrow>
          if \<not> xh_shouldPrepare h auth then ((Some auth, None), m, w)
          else if TrimSpace (a_ID auth) = [] then (case xh_prepare h auth w of (r, w1) \<Rightarrow> (r, m, w1))
          else (case xh_prepareLock h w of
            (Some e, w1) \<Rightarrow> ((Some auth, Some e), m, w1)
          | (None, w1) \<Rightarrow>
              (case currentRequestAuth auth m of
                 Inl e \<Rightarrow> (failed e, m, w1)
               | Inr target \<Rightarrow>
                   if \<not> xh_shouldPrepare h target then ((Some target, None), m, w1)
                   else (case xh_prepare h target w1 of
                     ((_, Some e), w2) \<Rightarrow> ((Some auth, Some e), m, w2)
                   | ((updated, None), w2) \<Rightarrow>
                       (case updateInternal (xh_mgr h) (xh_nils h (case updated of Some u \<Rightarrow> u | None \<Rightarrow> target))
                              (xh_persistErr h w2) (xh_time h w2) (Some target) (case updated of Some u \<Rightarrow> u | None \<Rightarrow> target) updateModePrepare m of
                          (m1, Inl e) \<Rightarrow> ((None, Some (xh_updateError h e)), m1, w2)
                        | (m1, Inr None) \<Rightarrow>
                            (failed (unavailableError503 ''auth_not_found'' ''credential removed during preparation''), m1, w2)
                        | (m1, Inr (Some saved)) \<Rightarrow>
                            (case currentRequestAuth saved m1 of
                               Inl e \<Rightarrow> (failed e, m1, w2)
                             | Inr current \<Rightarrow> ((Some current, None), m1, w2)))))))"


section \<open>Attempts\<close>

definition claudeOAuthRequestCancellation :: "('r, 'w) exec_hooks \<Rightarrow> Auth option \<Rightarrow> exec_error option \<Rightarrow> 'w \<Rightarrow> exec_error option" where
  "claudeOAuthRequestCancellation h auth err w =
     (case auth of
        None \<Rightarrow> None
      | Some a \<Rightarrow>
          if \<not> EqualFold (TrimSpace (a_Provider a)) ''claude''
             \<or> \<not> EqualFold (TrimSpace (get_str (a_Attributes a) ''auth_kind'')) ''oauth'' then None
          else case xh_ctxErr h w of
            Some e \<Rightarrow> if xe_canceled e then Some e
                      else (case err of Some x \<Rightarrow> if xe_canceled x then Some x else None | None \<Rightarrow> None)
          | None \<Rightarrow> (case err of Some x \<Rightarrow> if xe_canceled x then Some x else None | None \<Rightarrow> None))"

definition err_isUnauthorized :: "exec_error \<Rightarrow> bool" where
  "err_isUnauthorized err =
     (if statusCodeFromError err = 401 then True
      else let raw = ToLower (ev_text (xe_view err)) in Contains raw ''status 401'' \<or> Contains raw ''401 unauthorized'')"

definition authHasRefreshCredential :: "Auth \<Rightarrow> bool" where
  "authHasRefreshCredential auth \<longleftrightarrow>
     authMetadataString auth ''refresh_token'' \<noteq> [] \<or> authMetadataString auth ''refreshToken'' \<noteq> []"

definition tryRefreshAfterUnauthorized ::
  "('r, 'w) exec_hooks \<Rightarrow> Auth \<Rightarrow> exec_error \<Rightarrow> bool \<Rightarrow> Manager \<Rightarrow> 'w \<Rightarrow> Auth option \<times> Manager \<times> 'w" where
  "tryRefreshAfterUnauthorized h auth err alreadyTried m w =
     (if alreadyTried then (None, m, w)
      else if isRequestScopedError err then (None, m, w)
      else if \<not> err_isUnauthorized err \<or> \<not> authHasRefreshCredential auth then (None, m, w)
      else case xh_refresh h auth m w of
        (Some renewed, m1, w1) \<Rightarrow> if isDisabledAuth renewed then (None, m1, w1) else (Some renewed, m1, w1)
      | (None, m1, w1) \<Rightarrow> (None, m1, w1))"

text \<open>
  A call of the executor, repeated once after a refresh when it was unauthorized. \<open>Inl\<close> is the end of
  the context of the request; otherwise the answer with the start of the call it came from.
\<close>

record 'w attempt_state =
  at_auth :: Auth
  at_refreshed :: bool
  at_manager :: Manager
  at_world :: 'w

definition executorCall :: "('r, 'w) exec_hooks \<Rightarrow> exec_request \<Rightarrow> Auth \<Rightarrow> string \<Rightarrow> 'w \<Rightarrow> (exec_error + 'r) \<times> 'w" where
  "executorCall h req = (if xr_count req then xh_countTokens h else xh_execute h)"

definition executeWithRefresh ::
  "('r, 'w) exec_hooks \<Rightarrow> exec_request \<Rightarrow> string \<Rightarrow> 'w attempt_state \<Rightarrow> (exec_error + time \<times> (exec_error + 'r)) \<times> 'w attempt_state" where
  "executeWithRefresh h req model a =
     (let start = xh_time h (at_world a) in
      case executorCall h req (at_auth a) model (at_world a) of
        (Inr resp, w1) \<Rightarrow> (Inr (start, Inr resp), a\<lparr>at_world := w1\<rparr>)
      | (Inl err, w1) \<Rightarrow>
          (case xh_ctxErr h w1 of
             Some e \<Rightarrow> (Inl e, a\<lparr>at_world := w1\<rparr>)
           | None \<Rightarrow>
               (case tryRefreshAfterUnauthorized h (at_auth a) err (at_refreshed a) (at_manager a) w1 of
                  (None, m1, w2) \<Rightarrow> (Inr (start, Inl err), a\<lparr>at_manager := m1, at_world := w2\<rparr>)
                | (Some renewed, m1, w2) \<Rightarrow>
                    (let restart = xh_time h w2;
                         b = \<lparr>at_auth = renewed, at_refreshed = True, at_manager = m1, at_world = w2\<rparr>
                     in case executorCall h req renewed model w2 of
                          (Inr resp, w3) \<Rightarrow> (Inr (restart, Inr resp), b\<lparr>at_world := w3\<rparr>)
                        | (Inl err2, w3) \<Rightarrow>
                            (case xh_ctxErr h w3 of
                               Some e \<Rightarrow> (Inl e, b\<lparr>at_world := w3\<rparr>)
                             | None \<Rightarrow> (Inr (restart, Inl err2), b\<lparr>at_world := w3\<rparr>))))))"

text \<open>The metadata carries what the pick noted for session affinity.\<close>

definition attemptResult :: "exec_request \<Rightarrow> string \<Rightarrow> string \<Rightarrow> Auth \<Rightarrow> time \<Rightarrow> Result" where
  "attemptResult req provider model auth startedAt =
     \<lparr>r_AuthID = a_ID auth, r_RegistrationEpoch = 0, r_CredentialVersion = 0, r_authSnapshot = None, r_Provider = provider,
      r_Model = model, r_RouteModel = routeModel req, r_Success = True, r_RetryAfter = None, r_CredentialScope = False,
      r_Error = None, r_Metadata = affinity_metadata ''mixed'' (routeModel req) (rq_metadata (xr_selection req)), r_AttemptStartedAt = startedAt,
      r_SkipQuotaObservation = xr_count req\<rparr>"

definition isCountTokensEndpointNotFoundError :: "('r, 'w) exec_hooks \<Rightarrow> exec_error \<Rightarrow> string \<Rightarrow> bool" where
  "isCountTokensEndpointNotFoundError h err requestedModel =
     (if statusCodeFromError err \<noteq> 404 then False
      else \<not> xh_modelNotFound h err (sr_ModelName (ParseSuffix requestedModel)))"

text \<open>A failure that counts, but says nothing about the credential. \<open>model\<close> is the model that was asked of the executor.\<close>

definition neutralFailure :: "('r, 'w) exec_hooks \<Rightarrow> exec_request \<Rightarrow> string \<Rightarrow> exec_error \<Rightarrow> Error option \<Rightarrow> bool" where
  "neutralFailure h req model err resultErr =
     (if xr_count req
      then isCountTokensEndpointNotFoundError h err model
           \<and> (case resultErr of None \<Rightarrow> True | Some e \<Rightarrow> e_Code e \<noteq> ErrorCodeForceCooldown)
      else isResponsesCompactAvailabilityNeutralError (xr_alt req) err resultErr)"

definition failureResult ::
  "('r, 'w) exec_hooks \<Rightarrow> exec_request \<Rightarrow> string \<Rightarrow> string \<Rightarrow> string \<Rightarrow> Auth \<Rightarrow> time \<Rightarrow> exec_error \<Rightarrow> Result" where
  "failureResult h req provider resultModel model auth startedAt err =
     (let scoped = isCredentialScopedError err;
          res = applyRequestScopedActionToResult (matchRequestScopedErrorAction (xh_regexp h) (xh_rules h auth) err)
            ((attemptResult req provider resultModel auth startedAt)
               \<lparr>r_Success := False, r_Error := Some (resultErrorFromError (ce_json (me_cooling (xh_mgr h))) err),
                r_RetryAfter := retryAfterFromError err, r_CredentialScope := (\<not> xr_count req \<and> scoped)\<rparr>)
      in if xr_count req \<and> \<not> neutralFailure h req model err (r_Error res) \<and> scoped
         then res\<lparr>r_CredentialScope := True\<rparr> else res)"

definition markAttempt :: "('r, 'w) exec_hooks \<Rightarrow> Result \<Rightarrow> 'w attempt_state \<Rightarrow> 'w attempt_state" where
  "markAttempt h res a =
     (let w = at_world a; now = xh_time h w
      in a\<lparr>at_manager := MarkResult (xh_mgr h) (xh_headers h w) now now now (bindResultAuth (Some (at_auth a)) res) (at_manager a)\<rparr>)"

definition markFailure ::
  "('r, 'w) exec_hooks \<Rightarrow> exec_request \<Rightarrow> string \<Rightarrow> exec_error \<Rightarrow> Result \<Rightarrow> 'w attempt_state \<Rightarrow> 'w attempt_state" where
  "markFailure h req model err res a =
     (if neutralFailure h req model err (r_Error res)
      then a\<lparr>at_manager := recordAvailabilityNeutralResult (xh_time h (at_world a)) (bindResultAuth (Some (at_auth a)) res) (at_manager a)\<rparr>
      else markAttempt h res a)"

definition faultyRequest :: "('r, 'w) exec_hooks \<Rightarrow> exec_request \<Rightarrow> exec_error \<Rightarrow> bool" where
  "faultyRequest h req err \<longleftrightarrow>
     (let js = ce_json (me_cooling (xh_mgr h))
      in (\<not> xr_count req \<and> isResponsesCompactRequestFaultError js (xr_alt req) err) \<or> err_isRequestInvalid js err)"

datatype 'r round_result = RoundResponse 'r | RoundError exec_error | RoundPanic

text \<open>The end of an attempt: the request is answered, or the next model or credential is tried.\<close>

datatype 'r attempt_end = Answered "'r round_result" | NextModel exec_error | NextCredential exec_error

definition failedAttempt :: "('r, 'w) exec_hooks \<Rightarrow> exec_request \<Rightarrow> Auth \<Rightarrow> exec_error \<Rightarrow> Result \<Rightarrow> 'r attempt_end" where
  "failedAttempt h req auth err res =
     (let action = matchRequestScopedErrorAction (xh_regexp h) (xh_rules h auth) err;
          onward = (if r_CredentialScope res then NextCredential err else NextModel err)
      in if action \<noteq> None then
           (if isRequestScopedStop action then Answered (RoundError (wrapRequestStopError err)) else onward)
         else if faultyRequest h req err then Answered (RoundError err)
         else onward)"

definition attemptModel ::
  "('r, 'w) exec_hooks \<Rightarrow> exec_request \<Rightarrow> string \<Rightarrow> bool \<Rightarrow> string \<Rightarrow> 'w attempt_state \<Rightarrow> 'r attempt_end \<times> 'w attempt_state" where
  "attemptModel h req provider pooled upstreamModel a =
     (let resultModel = xh_stateModel h (at_auth a) (routeModel req) upstreamModel pooled;
          model = (case executionModelForAuthSelection (rq_metadata (xr_selection req)) (xr_model req) of
                     Some executionModel \<Rightarrow> executionModel | None \<Rightarrow> upstreamModel)
      in case xh_intercept h (at_auth a) model (at_world a) of
           (Some e, w1) \<Rightarrow> (Answered (RoundError e), a\<lparr>at_world := w1\<rparr>)
         | (None, w1) \<Rightarrow>
             (case executeWithRefresh h req model (a\<lparr>at_world := w1\<rparr>) of
                (Inl e, b) \<Rightarrow> (Answered (RoundError e), b)
              | (Inr (startedAt, answer), b) \<Rightarrow>
                  (case claudeOAuthRequestCancellation h (Some (at_auth b)) (case answer of Inl e \<Rightarrow> Some e | Inr _ \<Rightarrow> None) (at_world b) of
                     Some e \<Rightarrow> (Answered (RoundError e), b)
                   | None \<Rightarrow>
                       (case answer of
                          Inr resp \<Rightarrow> (Answered (RoundResponse resp), markAttempt h (attemptResult req provider resultModel (at_auth b) startedAt) b)
                        | Inl err \<Rightarrow>
                            (let res = failureResult h req provider resultModel model (at_auth b) startedAt err
                             in (failedAttempt h req (at_auth b) err res, markFailure h req model err res b))))))"

text \<open>The models of a credential in turn; the outcome is an answer or the last error.\<close>

fun attemptModels ::
  "('r, 'w) exec_hooks \<Rightarrow> exec_request \<Rightarrow> string \<Rightarrow> bool \<Rightarrow> string list \<Rightarrow> exec_error option \<Rightarrow> 'w attempt_state
    \<Rightarrow> ('r round_result + exec_error option) \<times> 'w attempt_state" where
  "attemptModels h req provider pooled [] authErr a = (Inr authErr, a)"
| "attemptModels h req provider pooled (upstreamModel # models) authErr a =
     (case attemptModel h req provider pooled upstreamModel a of
        (Answered r, b) \<Rightarrow> (Inl r, b)
      | (NextCredential err, b) \<Rightarrow> (Inr (Some err), b)
      | (NextModel err, b) \<Rightarrow> attemptModels h req provider pooled models (Some err) b)"

section \<open>One round\<close>

record round_state =
  rs_tried :: "string list"
  rs_attempted :: "string list"
  rs_busy :: "string list"
  rs_lastErr :: "exec_error option"
  rs_selected :: "string list"

text \<open>What is left of a round after a credential whose models all failed.\<close>

definition afterCredential :: "('r, 'w) exec_hooks \<Rightarrow> exec_request \<Rightarrow> Auth \<Rightarrow> exec_error option \<Rightarrow> round_state \<Rightarrow> 'r round_result + round_state" where
  "afterCredential h req auth authErr st =
     (case authErr of
        None \<Rightarrow> Inr st
      | Some err \<Rightarrow>
          let action = matchRequestScopedErrorAction (xh_regexp h) (xh_rules h auth) err
          in if action \<noteq> None then
               (if isRequestScopedStop action then Inl (RoundError (wrapRequestStopError err)) else Inr (st\<lparr>rs_lastErr := Some err\<rparr>))
             else if faultyRequest h req err then Inl (RoundError err)
             else Inr (st\<lparr>rs_lastErr := Some err\<rparr>))"

text \<open>A preparation that failed without a credential is dereferenced by the code that records it.\<close>

definition afterFailedPreparation ::
  "('r, 'w) exec_hooks \<Rightarrow> exec_request \<Rightarrow> string \<Rightarrow> Auth option \<Rightarrow> exec_error \<Rightarrow> round_state \<Rightarrow> Manager \<Rightarrow> 'w
    \<Rightarrow> ('r round_result + round_state) \<times> Manager" where
  "afterFailedPreparation h req provider auth err st m w =
     (case claudeOAuthRequestCancellation h auth (Some err) w of
        Some e \<Rightarrow> (Inl (RoundError e), m)
      | None \<Rightarrow>
          (case auth of
             None \<Rightarrow> (Inl RoundPanic, m)
           | Some a \<Rightarrow>
               (let key = me_selectionKey (xh_mgr h) a (routeModel req);
                    stateModel = (if key = [] then canonicalModelKey (routeModel req) else key);
                    res = (attemptResult req provider stateModel a 0)
                      \<lparr>r_Success := False, r_Error := Some (resultErrorFromError (ce_json (me_cooling (xh_mgr h))) err)\<rparr>;
                    now = xh_time h w
                in (Inr (st\<lparr>rs_lastErr := Some err\<rparr>),
                    MarkResult (xh_mgr h) (xh_headers h w) now now now (bindResultAuth (Some a) res) m))))"

definition useCredential ::
  "('r, 'w) exec_hooks \<Rightarrow> exec_request \<Rightarrow> string \<Rightarrow> bool \<Rightarrow> string list \<Rightarrow> Auth \<Rightarrow> round_state \<Rightarrow> Manager \<Rightarrow> 'w
    \<Rightarrow> ('r round_result + round_state) \<times> Manager \<times> 'w" where
  "useCredential h req provider pooled models auth st m w =
     (case prepareRequestAuth h auth m w of
        ((prepared, Some err), m1, w1) \<Rightarrow>
          (case afterFailedPreparation h req provider prepared err st m1 w1 of
             (r, m2) \<Rightarrow> (r, m2, (case r of Inl RoundPanic \<Rightarrow> w1 | _ \<Rightarrow> xh_release h auth w1)))
      | ((None, None), m1, w1) \<Rightarrow> (Inl RoundPanic, m1, w1)
      | ((Some prepared, None), m1, w1) \<Rightarrow>
          (case attemptModels h req provider pooled models None
                  \<lparr>at_auth = prepared, at_refreshed = False, at_manager = m1, at_world = w1\<rparr> of
             (Inl r, b) \<Rightarrow> (Inl r, at_manager b, xh_release h auth (at_world b))
           | (Inr authErr, b) \<Rightarrow> (afterCredential h req (at_auth b) authErr st, at_manager b, xh_release h auth (at_world b))))"

definition roundStep ::
  "('r, 'w) exec_hooks \<Rightarrow> exec_request \<Rightarrow> int \<Rightarrow> round_state \<Rightarrow> Manager \<Rightarrow> 'w
    \<Rightarrow> ('r round_result + round_state) \<times> round_state \<times> Manager \<times> 'w" where
  "roundStep h req maxRetryCredentials st m w =
     (let noAuth = pickError (authError ''auth_not_found'' ''no auth available'');
          last = (\<lambda>e. RoundError (case rs_lastErr st of Some err \<Rightarrow> err | None \<Rightarrow> e))
      in if maxRetryCredentials > 0 \<and> int (length (rs_attempted st)) \<ge> maxRetryCredentials then (Inl (last noAuth), st, m, w)
         else
           (case pickNextMixed h req (rs_tried st) m w of
              (Inl errPick, m1, w1) \<Rightarrow>
                if rs_busy st \<noteq> [] then
                  (case xh_waitCapacity h (rs_busy st) w1 of
                     (Some e, w2) \<Rightarrow> (Inl (RoundError e), st, m1, w2)
                   | (None, w2) \<Rightarrow>
                       let st1 = st\<lparr>rs_tried := filter (\<lambda>i. i \<notin> set (rs_busy st)) (rs_tried st), rs_busy := []\<rparr>
                       in (Inr st1, st1, m1, w2))
                else (Inl (last (pickError errPick)), st, m1, w1)
            | (Inr (auth, provider), m1, w1) \<Rightarrow>
                let st1 = st\<lparr>rs_tried := List.insert (a_ID auth) (rs_tried st),
                      rs_selected := (if TrimSpace (a_ID auth) = [] then rs_selected st
                                      else List.insert (TrimSpace (a_ID auth)) (rs_selected st))\<rparr>
                in case xh_others h m1 w1 of
                  (m2, w2) \<Rightarrow>
                    (case xh_models h auth (routeModel req) w2 of
                       ((models, pooled), w3) \<Rightarrow>
                         if models = [] then (Inr st1, st1, m2, w3)
                         else
                           (case xh_admit h auth w3 of
                              (False, w4) \<Rightarrow>
                                let st2 = st1\<lparr>rs_busy := (if a_ID auth \<in> set (rs_busy st1) then rs_busy st1 else rs_busy st1 @ [a_ID auth])\<rparr>
                                in (Inr st2, st2, m2, w4)
                            | (True, w4) \<Rightarrow>
                                let st2 = st1\<lparr>rs_attempted := List.insert (a_ID auth) (rs_attempted st1)\<rparr>
                                in (case useCredential h req provider pooled models auth st2 m2 w4 of
                                      (r, m3, w5) \<Rightarrow> (r, (case r of Inr st3 \<Rightarrow> st3 | Inl _ \<Rightarrow> st2), m3, w5))))))"

partial_function (option) roundLoop ::
  "('r, 'w) exec_hooks \<Rightarrow> exec_request \<Rightarrow> int \<Rightarrow> round_state \<Rightarrow> Manager \<Rightarrow> 'w
    \<Rightarrow> ('r round_result \<times> round_state \<times> Manager \<times> 'w) option" where
  "roundLoop h req maxRetryCredentials st m w =
     (case roundStep h req maxRetryCredentials st m w of
        (Inl r, st1, m1, w1) \<Rightarrow> Some (r, st1, m1, w1)
      | (Inr st1, _, m1, w1) \<Rightarrow> roundLoop h req maxRetryCredentials st1 m1 w1)"

definition executeMixedOnce ::
  "('r, 'w) exec_hooks \<Rightarrow> exec_request \<Rightarrow> int \<Rightarrow> int \<Rightarrow> int \<Rightarrow> Manager \<Rightarrow> 'w
    \<Rightarrow> ('r round_result \<times> round_state \<times> Manager \<times> 'w) option" where
  "executeMixedOnce h req maxRetryCredentials retryRound defaultRequestRetry m w =
     (let st = \<lparr>rs_tried = requestRetryRoundExclusions retryRound defaultRequestRetry m, rs_attempted = [], rs_busy = [],
                rs_lastErr = None, rs_selected = []\<rparr>
      in if xr_providers req = []
         then Some (RoundError (pickError (authError ''provider_not_found'' ''no provider supplied'')), st, m, w)
         else roundLoop h req maxRetryCredentials st m w)"


section \<open>The rounds of a request\<close>

definition normalizeProviders :: "string list \<Rightarrow> string list" where
  "normalizeProviders providers =
     rev (fold (\<lambda>provider acc.
       let p = TrimSpace (ToLower provider) in if p = [] \<or> p \<in> set acc then acc else p # acc) providers [])"

definition retryEnvOf :: "('r, 'w) exec_hooks \<Rightarrow> retry_env" where
  "retryEnvOf h = \<lparr>re_token = me_token (xh_mgr h), re_cooling = me_cooling (xh_mgr h), re_sha = xh_sha h,
     re_supports = xh_supports h, re_selectionModel = xh_selectionModel h\<rparr>"

definition retryQueryOf :: "exec_request \<Rightarrow> int \<Rightarrow> retry_query" where
  "retryQueryOf req defaultRequestRetry =
     \<lparr>rt_providers = xr_providers req, rt_model = routeModel req, rt_eligibility = requestEligibility (xr_selection req),
      rt_pinnedAuthID = pinnedAuthIDFromMetadata (rq_metadata (xr_selection req)), rt_defaultRequestRetry = defaultRequestRetry\<rparr>"

definition waitForCooldown :: "('r, 'w) exec_hooks \<Rightarrow> duration \<Rightarrow> duration \<Rightarrow> 'w \<Rightarrow> exec_error option \<times> 'w" where
  "waitForCooldown h wait maxWait w =
     (if wait \<le> 0 then (None, w) else xh_sleep h (jitteredCooldownWait (xh_rand h w) wait maxWait) w)"

text \<open>What follows a round: the answer of the request, or the next round.\<close>

definition afterRound ::
  "('r, 'w) exec_hooks \<Rightarrow> exec_request \<Rightarrow> duration \<Rightarrow> int \<Rightarrow> int \<Rightarrow> 'r round_result \<times> round_state \<times> Manager \<times> 'w
    \<Rightarrow> ('r round_result + unit) \<times> Manager \<times> 'w" where
  "afterRound h req maxWait defaultRequestRetry attempt out =
     (case out of (r, st, m, w) \<Rightarrow>
        (case r of
           RoundError err \<Rightarrow>
             if xe_terminated err \<or> xe_requestStop err then (Inl (RoundError (unwrapRequestStopError err)), m, w)
             else
               (case shouldRetryAfterErrorWithAttempted (retryEnvOf h) (retryQueryOf req defaultRequestRetry) maxWait err attempt
                       (rs_selected st) (xh_time h w) (xh_time h w) m of
                  None \<Rightarrow> (Inl (RoundError (unwrapRequestStopError err)), m, w)
                | Some wait \<Rightarrow>
                    (case waitForCooldown h wait maxWait w of
                       (Some e, w1) \<Rightarrow> (Inl (RoundError e), m, w1)
                     | (None, w1) \<Rightarrow> (Inr (), m, w1)))
         | _ \<Rightarrow> (Inl r, m, w)))"

partial_function (option) executeRounds ::
  "('r, 'w) exec_hooks \<Rightarrow> exec_request \<Rightarrow> int \<Rightarrow> duration \<Rightarrow> int \<Rightarrow> int \<Rightarrow> Manager \<Rightarrow> 'w
    \<Rightarrow> ('r round_result \<times> Manager \<times> 'w) option" where
  "executeRounds h req maxRetryCredentials maxWait defaultRequestRetry attempt m w =
     (case executeMixedOnce h req maxRetryCredentials attempt defaultRequestRetry m w of
        None \<Rightarrow> None
      | Some out \<Rightarrow>
          (case afterRound h req maxWait defaultRequestRetry attempt out of
             (Inl r, m1, w1) \<Rightarrow> Some (r, m1, w1)
           | (Inr _, m1, w1) \<Rightarrow> executeRounds h req maxRetryCredentials maxWait defaultRequestRetry (attempt + 1) m1 w1))"

text \<open>\<open>Execute\<close> behind the authorization of the request.\<close>

definition Execute ::
  "('r, 'w) exec_hooks \<Rightarrow> exec_request \<Rightarrow> int \<Rightarrow> duration \<Rightarrow> int \<Rightarrow> Manager \<Rightarrow> 'w
    \<Rightarrow> ('r round_result \<times> Manager \<times> 'w) option" where
  "Execute h req maxRetryCredentials maxWait defaultRequestRetry m w =
     (let normalized = normalizeProviders (xr_providers req)
      in if normalized = []
         then Some (RoundError (pickError (authError ''provider_not_found'' ''no provider supplied'')), m, w)
         else executeRounds h (req\<lparr>xr_providers := normalized\<rparr>) maxRetryCredentials maxWait defaultRequestRetry 0 m w)"

text \<open>The entry for counting tokens.\<close>

definition executeCountMixedOnce ::
  "('r, 'w) exec_hooks \<Rightarrow> exec_request \<Rightarrow> int \<Rightarrow> int \<Rightarrow> int \<Rightarrow> Manager \<Rightarrow> 'w
    \<Rightarrow> ('r round_result \<times> round_state \<times> Manager \<times> 'w) option" where
  "executeCountMixedOnce h req = executeMixedOnce h (req\<lparr>xr_count := True\<rparr>)"

definition ExecuteCount ::
  "('r, 'w) exec_hooks \<Rightarrow> exec_request \<Rightarrow> int \<Rightarrow> duration \<Rightarrow> int \<Rightarrow> Manager \<Rightarrow> 'w
    \<Rightarrow> ('r round_result \<times> Manager \<times> 'w) option" where
  "ExecuteCount h req = Execute h (req\<lparr>xr_count := True\<rparr>)"

end
