(* ===== verification/Conductor_Invariant.thy ===== *)
theory Conductor_Invariant
  imports Conductor
begin

text \<open>
  The manager and its scheduler stay in step: in every reachable state the scheduler holds exactly
  the enabled credentials of the manager, each with the availability the manager knows. So what the scheduler
  picks is current, and what a result, a reset or a removal did to a credential is seen by the next pick.
\<close>

section \<open>Identity\<close>

text \<open>What the scheduler orders updates by.\<close>

definition ident :: "Auth \<Rightarrow> string \<times> uint64 \<times> uint64" where
  "ident a = (a_ID a, a_RegistrationEpoch a, a_Generation a)"

named_theorems identity

lemma ident_update [identity, simp]:
  "ident (a\<lparr>a_Status := s\<rparr>) = ident a" "ident (a\<lparr>a_StatusMessage := msg\<rparr>) = ident a" "ident (a\<lparr>a_LastError := e\<rparr>) = ident a"
  "ident (a\<lparr>a_Quota := q\<rparr>) = ident a" "ident (a\<lparr>a_UpdatedAt := t\<rparr>) = ident a" "ident (a\<lparr>a_Unavailable := u\<rparr>) = ident a"
  "ident (a\<lparr>a_NextRetryAfter := t\<rparr>) = ident a" "ident (a\<lparr>a_NonUnauthorizedRetryAfter := t\<rparr>) = ident a"
  "ident (a\<lparr>a_ModelStates := ms\<rparr>) = ident a" "ident (a\<lparr>a_Success := n\<rparr>) = ident a" "ident (a\<lparr>a_Failed := n\<rparr>) = ident a"
  "ident (a\<lparr>a_recentRequests := r\<rparr>) = ident a" "ident (a\<lparr>a_Index := x\<rparr>) = ident a" "ident (a\<lparr>a_indexAssigned := b\<rparr>) = ident a"
  "ident (a\<lparr>a_availabilityEpoch := ep\<rparr>) = ident a" "ident (a\<lparr>a_CredentialVersion := v\<rparr>) = ident a"
  "ident (a\<lparr>a_Metadata := md\<rparr>) = ident a" "ident (a\<lparr>a_Disabled := b\<rparr>) = ident a"
  by (simp_all add: ident_def)

lemma ident_steps [identity, simp]:
  "ident (clearAggregatedAvailability a) = ident a"
  "ident (updateAggregatedAvailability now a) = ident a"
  "ident (putModelState k st a) = ident a"
  "ident (markCredentialQuota k n l a) = ident a"
  "ident (clearAuthStateOnSuccess now a) = ident a"
  "ident (countResult now ok a) = ident a"
  "ident (noteAuthFailure now err a) = ident a"
  "ident (settleAuthFailure now dc prev a) = ident a"
  "ident (preserveIncomingAuthCooldown ex now a) = ident a"
  by (simp_all add: clearAggregatedAvailability_def updateAggregatedAvailability_def putModelState_def markCredentialQuota_def
      clearAuthStateOnSuccess_def countResult_def recordRecentRequest_def noteAuthFailure_def settleAuthFailure_def
      preserveIncomingAuthCooldown_def Let_def split: option.split)

lemma ident_normalize [identity, simp]: "ident (fst (normalizeModelStates a)) = ident a"
  by (subst normalizeModelStates_frame) simp

lemma ident_ensure: "ensureModelState a m = Some (a1, st) \<Longrightarrow> ident a1 = ident a"
  by (auto simp: ensureModelState_def Let_def split: if_split_asm option.split_asm)

lemma ident_modelFailureSwitch [identity, simp]: "ident (fst (modelFailureSwitch env now res dc key a st)) = ident a"
  by (rule modelFailureSwitch_cases) auto

lemma ident_authFailureSwitch [identity, simp]: "ident (snd (authFailureSwitch env err hint now dc a)) = ident a"
  by (rule authFailureSwitch_cases) auto

lemma ident_applyModelFailure [identity, simp]: "ident (applyModelFailure env now res key a) = ident a"
proof (cases "ensureModelState a key")
  case (Some p)
  obtain a1 st where p: "p = (a1, st)" by (cases p)
  then have "ident a1 = ident a" using Some ident_ensure by simp
  then show ?thesis using Some p
    by (simp add: applyModelFailure_def Let_def case_prod_beta split: option.split)
qed (simp add: applyModelFailure_def)

lemma ident_applySuccess [identity, simp]: "ident (applySuccess now res key a) = ident a"
proof (cases "ensureModelState a key")
  case (Some p)
  obtain a1 st where p: "p = (a1, st)" by (cases p)
  then have "ident a1 = ident a" using Some ident_ensure by simp
  then show ?thesis using Some p by (simp add: applySuccess_def Let_def)
qed (simp add: applySuccess_def)

lemma ident_applyAuthFailure [identity, simp]: "ident (applyAuthFailureState env err hint now dc a) = ident a"
  by (simp add: applyAuthFailureState_def Let_def case_prod_beta)

lemma ident_markAvailability [identity, simp]: "ident (markAvailability env now res key a) = ident a"
  by (simp add: markAvailability_def)

lemma ident_observeHeaders [identity, simp]: "ident (observeHeaders now res hs key a) = ident a"
  by (simp add: observeHeaders_def Let_def split: option.split)

lemma ident_generation: "ident (a\<lparr>a_Generation := g\<rparr>) = (a_ID a, a_RegistrationEpoch a, g)"
  by (simp add: ident_def)

lemma ident_markResultAuth: "ident (markResultAuth env sk hs now res a) = (a_ID a, a_RegistrationEpoch a, a_Generation a + 1)"
proof -
  let ?a2 = "markAvailability env now res (resultModelKey sk res a) (countResult now (r_Success res) a)"
  have "ident ?a2 = ident a" by simp
  then have "a_ID ?a2 = a_ID a" "a_RegistrationEpoch ?a2 = a_RegistrationEpoch a" "a_Generation ?a2 = a_Generation a"
    by (simp_all add: ident_def)
  then show ?thesis by (simp add: markResultAuth_def Let_def) (simp add: ident_def)
qed

lemma ident_neutral: "ident (neutralResultAuth now res a) = (a_ID a, a_RegistrationEpoch a, a_Generation a + 1)"
  by (simp add: neutralResultAuth_def Let_def ident_def)

lemma ident_clearCooldown:
  "ident (fst (clearCooldownStateForAuth now a)) =
     (a_ID a, a_RegistrationEpoch a, a_Generation a + (if snd (clearCooldownStateForAuth now a) then 1 else 0))"
proof -
  define a2 where "a2 = (if stateNeedsClear (a_Unavailable a) (a_NextRetryAfter a) (a_NonUnauthorizedRetryAfter a) (a_Quota a)
     then a\<lparr>a_Unavailable := False, a_NextRetryAfter := 0, a_NonUnauthorizedRetryAfter := 0,
            a_Quota := applyCooldownFields (a_Quota a) zero_QuotaState, a_UpdatedAt := now\<rparr> else a)"
  define a3 where "a3 = a2\<lparr>a_ModelStates := mapStates (clearModelCooldown now) (a_ModelStates a2)\<rparr>"
  define a4 where "a4 = (if a_ModelStates a3 \<noteq> [] then updateAggregatedAvailability now a3 else a3)"
  have "ident a2 = ident a" by (simp add: a2_def)
  then have "ident a3 = ident a" by (simp add: a3_def)
  then have "ident a4 = ident a" by (simp add: a4_def)
  then have i: "a_ID a4 = a_ID a" "a_RegistrationEpoch a4 = a_RegistrationEpoch a" "a_Generation a4 = a_Generation a"
    by (simp_all add: ident_def)
  let ?c = "stateNeedsClear (a_Unavailable a) (a_NextRetryAfter a) (a_NonUnauthorizedRetryAfter a) (a_Quota a)
    \<or> list_ex (\<lambda>state. stateNeedsClear (ms_Unavailable state) (ms_NextRetryAfter state)
         (ms_NonUnauthorizedRetryAfter state) (ms_Quota state)) (modelStateList a)"
  have "clearCooldownStateForAuth now a =
      (if ?c then (a4\<lparr>a_availabilityEpoch := a_availabilityEpoch a4 + 1, a_Generation := a_Generation a4 + 1, a_UpdatedAt := now\<rparr>, True)
       else (a4, False))"
    unfolding clearCooldownStateForAuth_def Let_def a4_def a3_def a2_def by (rule refl)
  then show ?thesis using i by (cases ?c) (simp_all add: ident_def)
qed

text \<open>A generation that the next operations can still raise.\<close>

definition room :: "uint64 \<Rightarrow> bool" where
  "room n \<longleftrightarrow> n < n + 1 \<and> n < n + 2"

definition raised :: "Auth \<Rightarrow> Auth \<Rightarrow> bool" where
  "raised a a' \<longleftrightarrow> a_ID a' = a_ID a \<and> a_RegistrationEpoch a' = a_RegistrationEpoch a
     \<and> (a_Generation a' = a_Generation a + 1 \<or> a_Generation a' = a_Generation a + 2)"

lemma raised_later: "raised a a' \<Longrightarrow> room (a_Generation a) \<Longrightarrow> a_Generation a < a_Generation a'"
  by (auto simp: raised_def room_def)

lemma ident_raised: "ident a' = (a_ID a, a_RegistrationEpoch a, a_Generation a + 1) \<Longrightarrow> raised a a'"
  by (simp add: ident_def raised_def)

lemma ident_EnsureIndex [identity, simp]: "ident (EnsureIndex f g a) = ident a"
  by (simp add: EnsureIndex_def Let_def)

lemma ident_clearUnauthorizedModelStates [identity, simp]: "ident (fst (clearUnauthorizedModelStates now a)) = ident a"
  by (simp add: clearUnauthorizedModelStates_def Let_def)

lemma ident_clearUnauthorizedAuthState [identity, simp]: "ident (fst (clearUnauthorizedAuthState now a)) = ident a"
  by (simp add: clearUnauthorizedAuthState_def Let_def case_prod_beta)

lemma ident_keepCooldowns [identity, simp]: "ident (keepCooldowns r now ex a) = ident a"
  by (simp add: keepCooldowns_def Let_def)

lemma ident_inheritAuth: "ident (inheritAuth ex a) = (a_ID a, a_RegistrationEpoch ex, a_Generation ex + 1)"
  by (simp add: inheritAuth_def Let_def ident_def)

lemma ident_tidyStates:
  "\<exists>d. ident (tidyStates env now a) = (a_ID a, a_RegistrationEpoch a, a_Generation a + d) \<and> (d = 0 \<or> d = 1)"
proof -
  have "ident (fst (normalizeModelStates a)) = ident a" by simp
  then have "a_ID (fst (normalizeModelStates a)) = a_ID a" "a_RegistrationEpoch (fst (normalizeModelStates a)) = a_RegistrationEpoch a"
    "a_Generation (fst (normalizeModelStates a)) = a_Generation a" by (simp_all add: ident_def)
  then show ?thesis
    using ident_clearCooldown [of now "fst (normalizeModelStates a)"]
    by (auto simp: tidyStates_def Let_def) (auto simp: ident_def)
qed

lemma settleUpdate_ident:
  "a_ID (settleUpdate env r now ex a) = a_ID a \<and> a_RegistrationEpoch (settleUpdate env r now ex a) = a_RegistrationEpoch ex
   \<and> (a_Generation (settleUpdate env r now ex a) = a_Generation ex + 1 \<or> a_Generation (settleUpdate env r now ex a) = a_Generation ex + 2)"
proof -
  let ?b = "(keepCooldowns r now ex (inheritAuth ex a))\<lparr>a_UpdatedAt := now\<rparr>"
  have "ident ?b = (a_ID a, a_RegistrationEpoch ex, a_Generation ex + 1)" by (simp add: ident_inheritAuth)
  moreover obtain d where "ident (tidyStates env now ?b) = (a_ID ?b, a_RegistrationEpoch ?b, a_Generation ?b + d)" "d = 0 \<or> d = 1"
    using ident_tidyStates by blast
  moreover have "ident (settleUpdate env r now ex a) = ident (tidyStates env now ?b)" by (simp add: settleUpdate_def)
  ultimately show ?thesis by (auto simp: ident_def)
qed

lemma resetQuotaAuth_raised: "raised a (resetQuotaAuth now a)"
proof -
  define a1 where "a1 = a\<lparr>a_ModelStates := map (\<lambda>(model, st).
             (model, if TrimSpace model = [] then st else map_option (resetModelState now) st)) (a_ModelStates a)\<rparr>"
  define a2 where "a2 = fst (clearCooldownStateForAuth now a1)"
  define c where "c = snd (clearCooldownStateForAuth now a1)"
  define a3 where "a3 = (if c then a2 else if a_ModelStates a2 \<noteq> [] then updateAggregatedAvailability now a2 else a2)"
  define a4 where "a4 = (if \<not> a_Disabled a3 \<and> a_Status a3 \<noteq> StatusDisabled \<and> \<not> hasModelError a3 now
                   then a3\<lparr>a_LastError := None, a_StatusMessage := [], a_Status := StatusActive\<rparr> else a3)"
  have eq: "resetQuotaAuth now a = a4\<lparr>a_availabilityEpoch := a_availabilityEpoch a4 + 1, a_Generation := a_Generation a4 + 1,
           a_UpdatedAt := now\<rparr>"
    unfolding resetQuotaAuth_def Let_def a4_def a3_def c_def a2_def a1_def case_prod_beta by (rule refl)
  have "ident a4 = ident a3" by (simp add: a4_def)
  also have "\<dots> = ident a2" by (simp add: a3_def)
  also have "\<dots> = (a_ID a, a_RegistrationEpoch a, a_Generation a + (if c then 1 else 0))"
    unfolding a2_def c_def ident_clearCooldown by (simp add: a1_def)
  finally show ?thesis by (auto simp: raised_def eq ident_def split: if_split_asm)
qed

section \<open>The invariant\<close>

definition schedulable :: "Auth \<Rightarrow> bool" where
  "schedulable a \<longleftrightarrow> executorKeyFromAuth a \<noteq> [] \<and> \<not> isDisabledAuth a"

text \<open>A credential but for its counters, which a neutral result changes without publishing.\<close>

definition routing :: "Auth \<Rightarrow> Auth" where
  "routing a = a\<lparr>a_Generation := 0, a_UpdatedAt := 0, a_Success := 0, a_Failed := 0, a_recentRequests := []\<rparr>"

definition expected :: "Manager \<Rightarrow> string \<Rightarrow> Auth option" where
  "expected m i =
     (case map_of (mg_auths m) i of None \<Rightarrow> None | Some a \<Rightarrow> if schedulable a then Some (routing a) else None)"

definition scheduled :: "Manager \<Rightarrow> string \<Rightarrow> Auth option" where
  "scheduled m i = map_option (\<lambda>meta. routing (sm_auth meta)) (registered (mg_scheduler m) i)"

definition ordered :: "Manager \<Rightarrow> bool" where
  "ordered m \<longleftrightarrow>
     (\<forall>i a. map_of (mg_auths m) i = Some a \<longrightarrow> \<not> staleFor (mg_scheduler m) a \<and> a_RegistrationEpoch a \<le> epochOf i m)
     \<and> (\<forall>i g. map_of (as_authGenerations (mg_scheduler m)) i = Some g \<longrightarrow> gm_epoch g \<le> epochOf i m)"

definition mgr_inv :: "token_env \<Rightarrow> time \<Rightarrow> Manager \<Rightarrow> bool" where
  "mgr_inv tenv t m \<longleftrightarrow> 0 \<le> t \<and> filedByID (mg_auths m) \<and> sched_inv tenv t (mg_scheduler m)
     \<and> (\<forall>i. scheduled m i = expected m i) \<and> ordered m"

lemma filedByID_get: "filedByID auths \<Longrightarrow> map_of auths i = Some a \<Longrightarrow> a_ID a = i \<and> TrimSpace i = i \<and> i \<noteq> []"
  by (auto simp: filedByID_def list_all_iff dest!: map_of_SomeD)

lemma filedByID_update:
  "filedByID auths \<Longrightarrow> a_ID a = i \<Longrightarrow> TrimSpace i = i \<Longrightarrow> i \<noteq> [] \<Longrightarrow> filedByID (AList.update i a auths)"
  unfolding filedByID_def list_all_iff by (auto simp: set_update_distinct)

lemma filedByID_delete: "filedByID auths \<Longrightarrow> filedByID (AList.delete i auths)"
  unfolding filedByID_def list_all_iff by (auto simp: AList.delete_eq distinct_map_filter)

lemma upsert_generations:
  "TrimSpace (a_ID a) = a_ID a \<Longrightarrow> a_ID a \<noteq> [] \<Longrightarrow> \<not> staleFor s a \<Longrightarrow>
     as_authGenerations (upsertAuthLocked env models a now s) =
       AList.update (a_ID a) (GenMeta (a_RegistrationEpoch a) (a_Generation a) (a_UpdatedAt a)) (as_authGenerations s)"
  by (simp add: upsertAuthLocked_def removeAuthFromProviders_def Let_def split: option.split)

lemma stale_next:
  assumes "\<not> staleFor s a" and "raised a a'" and "room (a_Generation a)"
  shows "\<not> staleFor s a'"
proof -
  have "a_Generation a < a_Generation a'" by (rule raised_later [OF assms(2,3)])
  then show ?thesis using assms(1,2) by (auto simp: isStaleScheduledAuth_def raised_def split: option.splits if_split_asm)
qed

lemma staleFor_cong: "as_authGenerations s' = as_authGenerations s \<Longrightarrow> staleFor s' a = staleFor s a"
  by (simp add: isStaleScheduledAuth_def)

section \<open>Preservation\<close>

lemma mgr_inv_later: "mgr_inv tenv t m \<Longrightarrow> t \<le> t' \<Longrightarrow> mgr_inv tenv t' m"
  unfolding mgr_inv_def using sched_inv_later by auto

lemma mgr_inv_frame:
  "mg_auths m' = mg_auths m \<Longrightarrow> mg_authEpochs m' = mg_authEpochs m \<Longrightarrow> mg_scheduler m' = mg_scheduler m \<Longrightarrow>
     mgr_inv tenv t m' = mgr_inv tenv t m"
  by (simp add: mgr_inv_def scheduled_def expected_def ordered_def epochOf_def)

lemma mgr_inv_held:
  assumes "mgr_inv tenv t m" and "map_of (mg_auths m) i = Some a"
  shows "a_ID a = i" and "TrimSpace i = i" and "i \<noteq> []" and "\<not> staleFor (mg_scheduler m) a"
    and "a_RegistrationEpoch a \<le> epochOf i m" and "raisedEpoch i m = epochOf i m"
proof -
  have f: "filedByID (mg_auths m)" and o: "ordered m" using assms(1) by (simp_all add: mgr_inv_def)
  show "a_ID a = i" "TrimSpace i = i" "i \<noteq> []" using filedByID_get [OF f assms(2)] by simp_all
  show "\<not> staleFor (mg_scheduler m) a" "a_RegistrationEpoch a \<le> epochOf i m"
    using o assms(2) unfolding ordered_def by blast+
  then show "raisedEpoch i m = epochOf i m" using assms(2) by (auto simp: raisedEpoch_def dest: leD)
qed

lemma mgr_inv_raisedEpoch: "mgr_inv tenv t m \<Longrightarrow> raisedEpoch i m = epochOf i m"
  by (cases "map_of (mg_auths m) i") (auto simp: raisedEpoch_def dest: mgr_inv_held(5))

lemma routing_sel:
  "a_ID (routing a) = a_ID a" "a_Provider (routing a) = a_Provider a" "a_Label (routing a) = a_Label a"
  "a_Attributes (routing a) = a_Attributes a" "a_Metadata (routing a) = a_Metadata a" "a_Disabled (routing a) = a_Disabled a"
  "a_Status (routing a) = a_Status a" "a_ModelStates (routing a) = a_ModelStates a" "a_Unavailable (routing a) = a_Unavailable a"
  "a_NextRetryAfter (routing a) = a_NextRetryAfter a" "a_Quota (routing a) = a_Quota a" "a_FileName (routing a) = a_FileName a"
  "a_RegistrationEpoch (routing a) = a_RegistrationEpoch a" "a_StatusMessage (routing a) = a_StatusMessage a"
  "a_LastError (routing a) = a_LastError a" "a_Prefix (routing a) = a_Prefix a"
  "a_NonUnauthorizedRetryAfter (routing a) = a_NonUnauthorizedRetryAfter a"
  by (simp_all add: routing_def)

lemma routing_neutral: "routing (neutralResultAuth now res a) = routing a"
  by (simp add: routing_def neutralResultAuth_def countResult_def recordRecentRequest_def Let_def)

lemma routing_key: "executorKeyFromAuth (routing a) = executorKeyFromAuth a"
  unfolding executorKeyFromAuth_def by (simp only: routing_sel)

lemma routing_disabled: "isDisabledAuth (routing a) = isDisabledAuth a"
  unfolding isDisabledAuth_def by (simp only: routing_sel)

lemma routing_schedulable: "schedulable (routing a) = schedulable a"
  unfolding schedulable_def routing_key routing_disabled by (rule refl)

lemma routing_kind: "authMetadataString (routing a) = authMetadataString a" "authAttribute (routing a) = authAttribute a"
  "AuthKind (routing a) = AuthKind a"
  unfolding AuthKind_def authHasOAuthMetadata_def authMetadataString_def authAttribute_def by (simp_all only: routing_sel)

lemma routing_token: "tokenExpired env (routing a) t = tokenExpired env a t"
  unfolding tokenExpired_def AccessTokenExpirationTime_def ExpirationTime_def authAccessToken_def
  by (simp only: routing_sel routing_kind)

lemma routing_unblocked: "unblocked env k t (routing a) = unblocked env k t a"
  unfolding unblocked_def isAuthBlockedForModel_def routing_token
  by (simp only: routing_sel credentialQuotaActive_def authAvailabilityBlock_def)

lemma routing_account: "AccountIdentity sha (routing a) = AccountIdentity sha a"
  unfolding AccountIdentity_def AccountSubject_def IsPluginVirtualAuth_def rawMetadataString_def by (simp only: routing_sel)

lemma routing_eligible: "eligibility_allows sha e (routing a) = eligibility_allows sha e a"
  unfolding eligibility_allows_def scope_Allows_def credentialPolicyAllows_def isFreeCodexAuth_def
  by (simp only: routing_sel routing_kind routing_account)

lemma routing_agrees:
  assumes "routing a = routing b"
  shows "a_ID a = a_ID b" "executorKeyFromAuth a = executorKeyFromAuth b" "isDisabledAuth a = isDisabledAuth b"
    "unblocked env k t a = unblocked env k t b" "eligibility_allows sha e a = eligibility_allows sha e b"
proof -
  show "a_ID a = a_ID b" using arg_cong [OF assms, of a_ID] by (simp only: routing_sel)
  show "executorKeyFromAuth a = executorKeyFromAuth b" using arg_cong [OF assms, of executorKeyFromAuth] by (simp only: routing_key)
  show "isDisabledAuth a = isDisabledAuth b" using arg_cong [OF assms, of isDisabledAuth] by (simp only: routing_disabled)
  show "unblocked env k t a = unblocked env k t b"
    using arg_cong [OF assms, of "unblocked env k t"] by (simp only: routing_unblocked)
  show "eligibility_allows sha e a = eligibility_allows sha e b"
    using arg_cong [OF assms, of "eligibility_allows sha e"] by (simp only: routing_eligible)
qed

text \<open>A credential that is not outdated, filed and published.\<close>

lemma publish_inv:
  fixes a :: Auth and m :: Manager
  assumes inv: "mgr_inv tenv t m" and env: "me_token env = tenv"
    and trim: "TrimSpace (a_ID a) = a_ID a" and ne: "a_ID a \<noteq> []"
    and fresh: "\<not> staleFor (mg_scheduler m) a"
    and epochs: "\<And>i. epochOf i m \<le> epochOf i m1" and ep: "a_RegistrationEpoch a \<le> epochOf (a_ID a) m1"
    and m1: "mg_auths m1 = AList.update (a_ID a) a (mg_auths m)" "mg_scheduler m1 = mg_scheduler m"
  shows "mgr_inv tenv t (publish env t a m1)"
proof -
  define s where "s = mg_scheduler m"
  define s' where "s' = upsertAuthLocked tenv (me_models env) a t s"
  have t: "0 \<le> t" and f: "filedByID (mg_auths m)" and si: "sched_inv tenv t s" and o: "ordered m"
    using inv by (simp_all add: mgr_inv_def s_def)
  have eq: "scheduled m i = expected m i" for i using inv by (simp add: mgr_inv_def)
  have p: "publish env t a m1 = m1\<lparr>mg_scheduler := s'\<rparr>"
    by (simp add: publish_def s'_def s_def env m1(2))
  have s': "sched_inv tenv t s'" "registered s' = registration (me_models env) a (registered s)"
    using upsertAuthLocked_inv [OF si t trim, of "me_models env"] ne fresh by (simp_all add: s'_def s_def)
  have gens: "as_authGenerations s' =
      AList.update (a_ID a) (GenMeta (a_RegistrationEpoch a) (a_Generation a) (a_UpdatedAt a)) (as_authGenerations s)"
    unfolding s'_def using upsert_generations [OF trim ne] fresh by (simp add: s_def)
  have filed: "filedByID (mg_auths m1)" unfolding m1(1) by (rule filedByID_update [OF f refl trim ne])
  have sch: "scheduled (m1\<lparr>mg_scheduler := s'\<rparr>) i = expected (m1\<lparr>mg_scheduler := s'\<rparr>) i" for i
    using eq [of i]
    by (auto simp: scheduled_def expected_def s'(2) registration_def m1(1) schedulable_def isDisabledAuth_def
        buildScheduledAuthMeta_def s_def)
  have ord: "ordered (m1\<lparr>mg_scheduler := s'\<rparr>)"
    unfolding ordered_def
  proof (intro conjI allI impI)
    fix i b
    assume b: "map_of (mg_auths (m1\<lparr>mg_scheduler := s'\<rparr>)) i = Some b"
    show "a_RegistrationEpoch b \<le> epochOf i (m1\<lparr>mg_scheduler := s'\<rparr>)"
    proof (cases "i = a_ID a")
      case True
      with b ep show ?thesis by (simp add: m1(1) epochOf_def)
    next
      case False
      then have "a_RegistrationEpoch b \<le> epochOf i m" using b o by (simp add: m1(1) ordered_def)
      also have "\<dots> \<le> epochOf i m1" by (rule epochs)
      finally show ?thesis by (simp add: epochOf_def)
    qed
    show "\<not> staleFor (mg_scheduler (m1\<lparr>mg_scheduler := s'\<rparr>)) b"
    proof (cases "i = a_ID a")
      case True
      with b show ?thesis by (simp add: m1(1) isStaleScheduledAuth_def gens)
    next
      case False
      then have held: "map_of (mg_auths m) i = Some b" using b by (simp add: m1(1))
      have "a_ID b = i" "\<not> staleFor s b" using mgr_inv_held(1,4) [OF inv held] by (simp_all add: s_def)
      with False show ?thesis by (simp add: isStaleScheduledAuth_def gens)
    qed
  next
    fix i g
    assume g: "map_of (as_authGenerations (mg_scheduler (m1\<lparr>mg_scheduler := s'\<rparr>))) i = Some g"
    show "gm_epoch g \<le> epochOf i (m1\<lparr>mg_scheduler := s'\<rparr>)"
    proof (cases "i = a_ID a")
      case True
      with g ep show ?thesis by (auto simp: gens epochOf_def)
    next
      case False
      then have "gm_epoch g \<le> epochOf i m" using g o by (simp add: gens ordered_def s_def)
      also have "\<dots> \<le> epochOf i m1" by (rule epochs)
      finally show ?thesis by (simp add: epochOf_def)
    qed
  qed
  show ?thesis unfolding p mgr_inv_def using t filed s'(1) sch ord by simp
qed


text \<open>A held credential whose generation was raised.\<close>

lemma publish_raised_inv:
  assumes inv: "mgr_inv tenv t m" and env: "me_token env = tenv"
    and held: "map_of (mg_auths m) i = Some a" and up: "raised a a'" and room: "room (a_Generation a)"
  shows "mgr_inv tenv t (publish env t a' (m\<lparr>mg_auths := AList.update i a' (mg_auths m)\<rparr>))"
proof -
  note h = mgr_inv_held [OF inv held]
  have id: "a_ID a' = i" "a_RegistrationEpoch a' = a_RegistrationEpoch a" using up h(1) by (simp_all add: raised_def)
  show ?thesis
  proof (rule publish_inv [OF inv env, of a'])
    show "TrimSpace (a_ID a') = a_ID a'" "a_ID a' \<noteq> []" using h id by simp_all
    show "\<not> staleFor (mg_scheduler m) a'" by (rule stale_next [OF h(4) up room])
  qed (use h(5) id in \<open>simp_all add: epochOf_def\<close>)
qed

lemma Register_inv:
  assumes inv: "mgr_inv tenv t m" and env: "me_token env = tenv"
    and id: "auth4 = (if a_ID auth = [] then uuid else a_ID auth)" "TrimSpace auth4 = auth4" "auth4 \<noteq> []"
    and room: "room (epochOf auth4 m)"
  shows "mgr_inv tenv t (fst (mgr_Register env uuid err t auth m))"
proof -
  define a1 where "a1 = auth\<lparr>a_Metadata := NormalizeCredentialMetadata (a_Metadata auth)\<rparr>"
  define a2 where "a2 = a1\<lparr>a_ID := (if a_ID a1 = [] then uuid else a_ID a1),
                a_Generation := (if a_Generation a1 = 0 then 1 else a_Generation a1),
                a_CreatedAt := (if IsZero (a_CreatedAt a1) then t else a_CreatedAt a1),
                a_UpdatedAt := t\<rparr>"
  define a3 where "a3 = EnsureIndex (me_sha8 env) (me_abs env) (tidyStates env t a2)"
  define e where "e = raisedEpoch (a_ID a3) m + 1"
  define a where "a = a3\<lparr>a_RegistrationEpoch := e, a_CredentialVersion := 1, a_Generation := 1, a_availabilityEpoch := 1\<rparr>"
  define m1 where "m1 = m\<lparr>mg_auths := AList.update (a_ID a) a (mg_auths m), mg_authEpochs := AList.update (a_ID a) e (mg_authEpochs m)\<rparr>"
  have r: "fst (mgr_Register env uuid err t auth m) = (case ValidateAuthWeight a1 of Some _ \<Rightarrow> m | None \<Rightarrow> publish env t a m1)"
    unfolding mgr_Register_def Let_def a1_def a2_def a3_def e_def a_def m1_def
    by (simp only: split: option.split prod.split) simp
  have "ident a3 = ident (tidyStates env t a2)" by (simp add: a3_def)
  then have "a_ID a3 = a_ID a2" using ident_tidyStates [of env t a2] by (auto simp: ident_def)
  then have ia: "a_ID a = auth4" "a_ID a3 = auth4" by (simp_all add: a_def a2_def a1_def id(1))
  have e: "e = epochOf auth4 m + 1" "epochOf auth4 m < e"
    using room mgr_inv_raisedEpoch [OF inv, of auth4] by (simp_all add: e_def ia room_def)
  have g: "gm_epoch gm \<le> epochOf auth4 m" if "map_of (as_authGenerations (mg_scheduler m)) auth4 = Some gm" for gm
    using inv that by (simp add: mgr_inv_def ordered_def)
  have "mgr_inv tenv t (publish env t a m1)"
  proof (rule publish_inv [OF inv env, of a])
    show "TrimSpace (a_ID a) = a_ID a" "a_ID a \<noteq> []" using id ia by simp_all
    have "a_RegistrationEpoch a = e" by (simp add: a_def)
    then show "\<not> staleFor (mg_scheduler m) a"
      using g e(2) by (auto simp: isStaleScheduledAuth_def ia(1) split: option.splits dest!: leD)
    show "epochOf i m \<le> epochOf i m1" for i using e(2) by (auto simp: m1_def epochOf_def ia(1))
    show "a_RegistrationEpoch a \<le> epochOf (a_ID a) m1" by (simp add: m1_def epochOf_def a_def)
  qed (simp_all add: m1_def)
  with inv show ?thesis unfolding r by (simp split: option.split)
qed


lemma mergeAuthContent_ID:
  assumes "mergeAuthContent nils base (Some c) (Some u) = Some a" shows "a_ID a = a_ID c"
  using assms by (auto simp: mergeAuthContent_def mergeAuths_frame split: if_split_asm)

lemma merge_ID:
  "MergePreparedAuth nils base (Some c) (Some u) = Some a \<Longrightarrow> a_ID a = a_ID c"
  "MergeRefreshedAuth now nils base (Some c) (Some u) = Some a \<Longrightarrow> a_ID a = a_ID c"
proof -
  show "MergePreparedAuth nils base (Some c) (Some u) = Some a \<Longrightarrow> a_ID a = a_ID c"
    using mergeAuthContent_ID by (simp add: MergePreparedAuth_def)
  assume r: "MergeRefreshedAuth now nils base (Some c) (Some u) = Some a"
  obtain b where b: "mergeAuthContent nils base (Some c) (Some u) = Some b"
    by (cases "sameCredentialSnapshot base (Some c)") (simp_all add: mergeAuthContent_def)
  show "a_ID a = a_ID c"
    using r mergeAuthContent_ID [OF b] b by (auto simp: MergeRefreshedAuth_def Let_def mergeStatus_frame split: if_split_asm)
qed

lemma requestedMerge_ID:
  assumes r: "requestedMerge merge base existing auth = Inr auth'" and "a_ID existing = a_ID auth"
    and merge: "\<And>a. merge base (Some existing) (Some auth) = Some a \<Longrightarrow> a_ID a = a_ID existing"
  shows "a_ID auth' = a_ID auth"
proof (cases "merge base (Some existing) (Some auth)")
  case None
  with r show ?thesis by (simp add: requestedMerge_def split: if_split_asm)
next
  case (Some a)
  with r have "auth' = a\<lparr>a_Metadata := NormalizeCredentialMetadata (a_Metadata a)\<rparr>"
    by (simp add: requestedMerge_def split: if_split_asm)
  with merge [OF Some] assms(2) show ?thesis by simp
qed

lemma requested_ID:
  assumes r: "requestedUpdate now nils base existing mode auth = Inr auth'" and id: "a_ID existing = a_ID auth"
  shows "a_ID auth' = a_ID auth"
proof (cases mode)
  case (updateModePatch patch)
  with r id show ?thesis
    by (auto simp: requestedUpdate_def requestedPatch_def Let_def split: if_split_asm sum.split_asm option.split_asm)
next
  case updateModeRefresh
  with r have "requestedMerge (MergeRefreshedAuth now nils) base existing auth = Inr auth'" by (simp add: requestedUpdate_def)
  then show ?thesis by (rule requestedMerge_ID [OF _ id merge_ID(2)])
next
  case updateModePrepare
  with r have "requestedMerge (MergePreparedAuth nils) base existing auth = Inr auth'" by (simp add: requestedUpdate_def)
  then show ?thesis by (rule requestedMerge_ID [OF _ id merge_ID(1)])
qed (use r in \<open>simp add: requestedUpdate_def\<close>)


text \<open>What an update leaves: nothing new, a raised epoch counter, or a credential whose generation was raised.\<close>

lemma updateInternal_cases [case_names id same epochs stored]:
  assumes id: "\<And>ex. map_of (mg_auths m) (a_ID auth) = Some ex \<Longrightarrow> a_ID ex = a_ID auth"
    and same: "P m"
    and epochs: "P (m\<lparr>mg_authEpochs := AList.update (a_ID auth) (raisedEpoch (a_ID auth) m) (mg_authEpochs m)\<rparr>)"
    and stored: "\<And>ex a. map_of (mg_auths m) (a_ID auth) = Some ex \<Longrightarrow> raised ex a \<Longrightarrow>
      P (publish env t a (m\<lparr>mg_authEpochs := AList.update (a_ID auth) (raisedEpoch (a_ID auth) m) (mg_authEpochs m),
           mg_auths := AList.update (a_ID auth) a (mg_auths m)\<rparr>))"
  shows "P (fst (updateInternal env nils err t base auth mode m))"
proof -
  define a1 where "a1 = auth\<lparr>a_Metadata := NormalizeCredentialMetadata (a_Metadata auth)\<rparr>"
  define m1 where "m1 = m\<lparr>mg_authEpochs := AList.update (a_ID a1) (raisedEpoch (a_ID a1) m) (mg_authEpochs m)\<rparr>"
  have i1: "a_ID a1 = a_ID auth" by (simp add: a1_def)
  have Pm1: "P m1" using epochs by (simp add: m1_def i1)
  show ?thesis
  proof (cases "a_ID auth = [] \<or> ValidateAuthWeight a1 \<noteq> None \<or> map_of (mg_auths m) (a_ID auth) = None")
    case True
    then have "fst (updateInternal env nils err t base auth mode m) = m"
      unfolding updateInternal_def Let_def a1_def by (auto split: option.splits)
    with same show ?thesis by simp
  next
    case False
    then have ok: "a_ID auth \<noteq> []" "ValidateAuthWeight a1 = None" by blast+
    from False have "map_of (mg_auths m) (a_ID a1) \<noteq> None" by (simp add: a1_def)
    then obtain ex where ex: "map_of (mg_auths m) (a_ID a1) = Some ex" by blast
    have eq: "fst (updateInternal env nils err t base auth mode m) =
      (case requestedUpdate t nils base ex mode a1 of
         Inl answer \<Rightarrow> m1
       | Inr a2 \<Rightarrow> if a_RegistrationEpoch a2 \<noteq> 0 \<and> a_RegistrationEpoch a2 \<noteq> a_RegistrationEpoch ex then m1
           else publish env t (settleUpdate env (replaces mode) t ex a2)
             (m1\<lparr>mg_auths := AList.update (a_ID (settleUpdate env (replaces mode) t ex a2))
                 (settleUpdate env (replaces mode) t ex a2) (mg_auths m1)\<rparr>))"
      unfolding updateInternal_def Let_def a1_def [symmetric] m1_def [symmetric] using ok ex
      by (simp split: sum.split)
    show ?thesis
    proof (cases "requestedUpdate t nils base ex mode a1")
      case (Inl answer)
      with eq Pm1 show ?thesis by simp
    next
      case (Inr a2)
      define a3 where "a3 = settleUpdate env (replaces mode) t ex a2"
      have ide: "a_ID ex = a_ID a1" unfolding i1 by (rule id [OF ex [unfolded i1]])
      have a2: "a_ID a2 = a_ID a1" by (rule requested_ID [OF Inr ide])
      note s = settleUpdate_ident [of env "replaces mode" t ex a2, folded a3_def]
      have a3: "a_ID a3 = a_ID auth" using s a2 i1 by simp
      have up: "raised ex a3" unfolding raised_def using s a2 ide by simp
      have "P (publish env t a3 (m1\<lparr>mg_auths := AList.update (a_ID a3) a3 (mg_auths m1)\<rparr>))"
        using stored [OF ex [unfolded i1] up] a3 by (simp add: i1 m1_def)
      with Inr eq Pm1 show ?thesis by (simp add: a3_def)
    qed
  qed
qed

lemma updateInternal_inv:
  assumes inv: "mgr_inv tenv t m" and env: "me_token env = tenv"
    and room: "\<forall>ex. map_of (mg_auths m) (a_ID auth) = Some ex \<longrightarrow> room (a_Generation ex)"
  shows "mgr_inv tenv t (fst (updateInternal env nils err t base auth mode m))"
proof -
  define m1 where "m1 = m\<lparr>mg_authEpochs := AList.update (a_ID auth) (raisedEpoch (a_ID auth) m) (mg_authEpochs m)\<rparr>"
  have "epochOf i m1 = epochOf i m" for i
    using mgr_inv_raisedEpoch [OF inv] by (simp add: m1_def epochOf_def)
  then have "ordered m1 = ordered m" by (simp add: ordered_def m1_def)
  then have inv1: "mgr_inv tenv t m1"
    using inv by (simp add: mgr_inv_def m1_def scheduled_def expected_def)
  show ?thesis
  proof (rule updateInternal_cases, goal_cases id same epochs stored)
    case (stored ex a)
    then have "map_of (mg_auths m1) (a_ID auth) = Some ex" by (simp add: m1_def)
    from publish_raised_inv [OF inv1 env this stored(2)] room stored(1) show ?case by (simp add: m1_def)
  qed (use inv inv1 mgr_inv_held(1) [OF inv] in \<open>simp_all add: m1_def\<close>)
qed

lemma RemoveWithPersistence_inv:
  assumes inv: "mgr_inv tenv t m" and room: "room (epochOf (TrimSpace i) m)"
  shows "mgr_inv tenv t (fst (RemoveWithPersistence removed guard t i m))"
proof (cases "fst (RemoveWithPersistence removed guard t i m) = m")
  case False
  define j where "j = TrimSpace i"
  define e where "e = epochOf j m + 1"
  define s' where "s' = RecordRemovalTombstone j e t (mg_scheduler m)"
  have re: "raisedEpoch j m = epochOf j m" by (rule mgr_inv_raisedEpoch [OF inv])
  obtain ex where ex: "map_of (mg_auths m) j = Some ex"
    and eq: "fst (RemoveWithPersistence removed guard t i m) =
      m\<lparr>mg_auths := AList.delete j (mg_auths m), mg_authEpochs := AList.update j e (mg_authEpochs m), mg_scheduler := s',
        mg_affinity := map_option (affinity_InvalidateAuth j) (mg_affinity m)\<rparr>"
    using False unfolding RemoveWithPersistence_def Let_def j_def [symmetric] re e_def [symmetric] s'_def [symmetric]
    by (auto split: if_split_asm option.split_asm)
  note h = mgr_inv_held [OF inv ex]
  have e: "epochOf j m < e" using room by (simp add: e_def j_def room_def)
  have t: "0 \<le> t" and f: "filedByID (mg_auths m)" and si: "sched_inv tenv t (mg_scheduler m)" and o: "ordered m"
    using inv by (simp_all add: mgr_inv_def)
  have gens: "gm_epoch gm \<le> epochOf i m" if "map_of (as_authGenerations (mg_scheduler m)) i = Some gm" for i gm
    using o that by (simp add: ordered_def)
  have no: "\<not> (\<exists>gm. map_of (as_authGenerations (mg_scheduler m)) j = Some gm \<and> e < gm_epoch gm)"
    using gens e by (meson leD less_le_trans order.strict_implies_order)
  have s': "sched_inv tenv t s'" "registered s' = (registered (mg_scheduler m))(j := None)"
    using RecordRemovalTombstone_inv [OF si h(2), of e t] h(3) no by (simp_all add: s'_def)
  have gens': "as_authGenerations s' = AList.update j (GenMeta e 0 t) (as_authGenerations (mg_scheduler m))"
    using no h(2,3) by (auto simp: s'_def RecordRemovalTombstone_def removeAuthFromProviders_def Let_def split: option.split)
  define m' where "m' = fst (RemoveWithPersistence removed guard t i m)"
  have m': "mg_auths m' = AList.delete j (mg_auths m)" "mg_scheduler m' = s'"
    "epochOf k m' = (if k = j then e else epochOf k m)" for k
    unfolding m'_def eq by (simp_all add: epochOf_def)
  have "scheduled m' k = expected m' k" for k
    using inv unfolding mgr_inv_def
    by (cases "k = j") (auto simp: scheduled_def expected_def m' s'(2) delete_conv')
  moreover have "ordered m'"
    unfolding ordered_def m'(3)
  proof (intro conjI allI impI)
    fix k b
    assume b: "map_of (mg_auths m') k = Some b"
    then have k: "k \<noteq> j" "map_of (mg_auths m) k = Some b" by (auto simp: m' delete_conv' split: if_split_asm)
    then show "a_RegistrationEpoch b \<le> (if k = j then e else epochOf k m)" using mgr_inv_held(5) [OF inv] by simp
    have "a_ID b = k" "\<not> staleFor (mg_scheduler m) b" using mgr_inv_held(1,4) [OF inv k(2)] by simp_all
    then show "\<not> staleFor (mg_scheduler m') b" using k(1) by (simp add: m'(2) isStaleScheduledAuth_def gens')
  next
    fix k gm
    assume "map_of (as_authGenerations (mg_scheduler m')) k = Some gm"
    then show "gm_epoch gm \<le> (if k = j then e else epochOf k m)" using gens by (auto simp: m'(2) gens' split: if_split_asm)
  qed
  ultimately show ?thesis
    using t filedByID_delete [OF f, of j] s'(1) unfolding m'_def [symmetric] mgr_inv_def m'(1,2) by simp
qed (use inv in simp)


lemma MarkResult_inv:
  assumes inv: "mgr_inv tenv t m" and env: "me_token env = tenv"
    and room: "\<forall>a. map_of (mg_auths m) (r_AuthID res) = Some a \<longrightarrow> room (a_Generation a)"
  shows "mgr_inv tenv t (MarkResult env headers t t1 t2 res m)"
proof (cases "map_of (mg_auths m) (r_AuthID res)")
  case (Some a)
  define a' where "a' = markResultAuth (me_cooling env) (me_selectionKey env) headers t res a"
  define m1 where "m1 = publish env t a' (m\<lparr>mg_auths := AList.update (r_AuthID res) a' (mg_auths m)\<rparr>)"
  have "raised a a'" unfolding a'_def by (rule ident_raised [OF ident_markResultAuth])
  then have "mgr_inv tenv t m1"
    unfolding m1_def using publish_raised_inv [OF inv env Some] room Some by blast
  moreover have "mgr_inv tenv t (updateSessionAffinity env t1 t2 res m1) = mgr_inv tenv t m1"
    by (rule mgr_inv_frame) (simp_all add: updateSessionAffinity_def Let_def)
  ultimately show ?thesis
    using inv Some by (simp add: MarkResult_def Let_def a'_def [symmetric] m1_def [symmetric])
qed (use inv in \<open>simp add: MarkResult_def\<close>)

lemma neutral_inv:
  assumes inv: "mgr_inv tenv t m"
    and room: "\<forall>a. map_of (mg_auths m) (r_AuthID res) = Some a \<longrightarrow> room (a_Generation a)"
  shows "mgr_inv tenv t (recordAvailabilityNeutralResult t res m)"
proof (cases "map_of (mg_auths m) (r_AuthID res)")
  case (Some a)
  let ?i = "r_AuthID res"
  define a' where "a' = neutralResultAuth t res a"
  define m' where "m' = m\<lparr>mg_auths := AList.update ?i a' (mg_auths m)\<rparr>"
  note h = mgr_inv_held [OF inv Some]
  have up: "raised a a'" unfolding a'_def by (rule ident_raised [OF ident_neutral])
  then have id: "a_ID a' = ?i" "a_RegistrationEpoch a' = a_RegistrationEpoch a" using h(1) by (simp_all add: raised_def)
  have ro: "routing a' = routing a" by (simp add: a'_def routing_neutral)
  have "schedulable a' = schedulable a" using routing_agrees(2,3) [OF ro] by (simp add: schedulable_def)
  then have "expected m' k = expected m k" for k using Some ro by (simp add: expected_def m'_def)
  moreover have "scheduled m' k = scheduled m k" for k by (simp add: scheduled_def m'_def)
  moreover have "ordered m'"
    unfolding ordered_def
  proof (intro conjI allI impI)
    fix k b
    assume b: "map_of (mg_auths m') k = Some b"
    have "a_RegistrationEpoch b \<le> epochOf k m \<and> \<not> staleFor (mg_scheduler m) b"
    proof (cases "k = ?i")
      case True
      then have "b = a'" using b by (simp add: m'_def)
      moreover have "\<not> staleFor (mg_scheduler m) a'" using stale_next [OF h(4) up] room Some by blast
      ultimately show ?thesis using h(5) id(2) True by simp
    next
      case False
      then have "map_of (mg_auths m) k = Some b" using b by (simp add: m'_def)
      from mgr_inv_held(4,5) [OF inv this] show ?thesis by blast
    qed
    then show "a_RegistrationEpoch b \<le> epochOf k m'" "\<not> staleFor (mg_scheduler m') b"
      unfolding m'_def epochOf_def by simp_all
  next
    fix k gm
    assume "map_of (as_authGenerations (mg_scheduler m')) k = Some gm"
    then show "gm_epoch gm \<le> epochOf k m'" using inv by (simp add: mgr_inv_def ordered_def m'_def epochOf_def)
  qed
  moreover have "filedByID (mg_auths m')"
    using filedByID_update [of "mg_auths m" a' ?i] inv h id by (simp add: mgr_inv_def m'_def)
  ultimately have "mgr_inv tenv t m'" using inv by (simp add: mgr_inv_def m'_def)
  then show ?thesis using inv Some by (simp add: recordAvailabilityNeutralResult_def a'_def m'_def)
qed (use inv in \<open>simp add: recordAvailabilityNeutralResult_def\<close>)

lemma mgr_ResetQuota_inv:
  assumes inv: "mgr_inv tenv t m" and env: "me_token env = tenv"
    and room: "\<forall>a. map_of (mg_auths m) (TrimSpace i) = Some a \<longrightarrow> room (a_Generation a)"
  shows "mgr_inv tenv t (fst (mgr_ResetQuota env err t i m))"
proof (cases "TrimSpace i = [] \<or> map_of (mg_auths m) (TrimSpace i) = None")
  case True
  then have "fst (mgr_ResetQuota env err t i m) = m"
    by (auto simp: mgr_ResetQuota_def ResetQuota_def Let_def)
  with inv show ?thesis by simp
next
  case False
  then obtain a where a: "map_of (mg_auths m) (TrimSpace i) = Some a" by blast
  have "mgr_inv tenv t (publish env t (resetQuotaAuth t a)
      (m\<lparr>mg_auths := AList.update (TrimSpace i) (resetQuotaAuth t a) (mg_auths m)\<rparr>))"
    using publish_raised_inv [OF inv env a resetQuotaAuth_raised] room a by blast
  with False a show ?thesis by (simp add: mgr_ResetQuota_def ResetQuota_def Let_def)
qed

lemma RefreshSchedulerEntry_inv:
  assumes inv: "mgr_inv tenv t m" and env: "me_token env = tenv"
  shows "mgr_inv tenv t (RefreshSchedulerEntry env t i m)"
proof (cases "map_of (mg_auths m) i")
  case (Some a)
  note h = mgr_inv_held [OF inv Some]
  have upd: "AList.update i a xs = xs" if "map_of xs i = Some a" for xs :: "(string, Auth) gomap"
    using that by (induction xs) auto
  have "mgr_inv tenv t (publish env t a m)"
    by (rule publish_inv [OF inv env]) (use h upd [OF Some] in simp_all)
  with h(3) Some show ?thesis by (simp add: RefreshSchedulerEntry_def)
qed (use inv in \<open>simp add: RefreshSchedulerEntry_def\<close>)

end
