(* ===== verification/Conductor_Picks.thy ===== *)
theory Conductor_Picks
  imports Conductor_Invariant Mark_Blocks
begin

text \<open>
  What the picks of the scheduler mean for the credentials of the manager, in every state that the
  operations of the manager can reach.
\<close>

section \<open>Picks publish nothing\<close>

named_theorems generations

lemma ensureShard_generations [generations, simp]: "as_authGenerations (snd (ensureShard env pk k now s)) = as_authGenerations s"
  by (simp add: ensureShard_def case_prod_beta split: option.split)

lemma putShard_generations [generations, simp]: "as_authGenerations (putShard pk k sh s) = as_authGenerations s"
  by (simp add: putShard_def split: option.split)

lemma generations_of: "as_authGenerations (snd r) = g \<Longrightarrow> r = (x, s') \<Longrightarrow> as_authGenerations s' = g"
  by simp

lemma pickFromProvider_generations [generations, simp]:
  "as_authGenerations (snd (pickFromProvider env pk k pw st P clk ep model s)) = as_authGenerations s"
  by (auto simp: pickFromProvider_def split: prod.split option.split intro: generations_of [OF ensureShard_generations])

lemma fold_generations:
  assumes "\<And>pk acc s. as_authGenerations (snd (f pk (acc, s))) = as_authGenerations s"
  shows "as_authGenerations (snd (fold f pks p)) = as_authGenerations (snd p)"
  using assms by (induction pks arbitrary: p) (simp_all, metis prod.collapse)

lemma collectBest_generations [generations, simp]:
  "as_authGenerations (snd (collectBest env pks k P now s)) = as_authGenerations s"
  unfolding collectBest_def by (subst fold_generations) (simp_all add: case_prod_beta)

lemma mixedUnavailableError_generations [generations, simp]:
  "as_authGenerations (snd (mixedUnavailableError env pks model P now s)) = as_authGenerations s"
  unfolding mixedUnavailableError_def case_prod_beta snd_conv
  by (subst fold_generations) (simp_all add: case_prod_beta split: option.split)

lemma visitProviders_generations [generations, simp]:
  "as_authGenerations (snd (visitProviders st p k P skip pks s)) = as_authGenerations s"
  by (induction pks arbitrary: s) (simp_all split: option.split prod.split)

lemma mixedRoundRobin_generations [generations, simp]:
  "as_authGenerations (snd (mixedRoundRobin ck pks k p P s)) = as_authGenerations s"
  by (auto simp: mixedRoundRobin_def Let_def split: option.split prod.split intro: generations_of [OF visitProviders_generations])

lemma mixedWeighted_generations [generations, simp]: "as_authGenerations (snd (mixedWeighted ck es P s)) = as_authGenerations s"
  by (simp add: mixedWeighted_def Let_def case_prod_beta)

lemma pickSingle_generations [generations, simp]:
  "as_authGenerations (snd (pickSingleWithStrategy env sha rq clk provider model st s)) = as_authGenerations s"
  by (simp add: pickSingleWithStrategy_def Let_def)

lemma snd_case_sum: "snd (case r of (Inl e, s) \<Rightarrow> (f e, s) | (Inr x, s) \<Rightarrow> (g x, s)) = snd r"
  by (simp split: prod.split sum.split)

lemma unavailable_generations:
  "as_authGenerations (snd (case mixedUnavailableError env pks model P now s1 of (e, s2) \<Rightarrow> (Inl e, s2))) = as_authGenerations s1"
  using mixedUnavailableError_generations [of env pks model P now s1] by (simp add: case_prod_beta)

lemma pickMixed_generations [generations, simp]:
  "as_authGenerations (snd (pickMixedWithStrategy env sha rq clk providers model st s)) = as_authGenerations s"
proof -
  define visit where "visit = (\<lambda>strategy b k P pks s1. if strategy = schedulerStrategyFillFirst then
           visitProviders strategy b k P (\<lambda>_. False) pks s1
         else if strategy = schedulerStrategyWeightedRoundRobin then
           mixedWeighted (cursorKeyFor pks k) (mixedEntries pks k b s1) P s1
         else mixedRoundRobin (cursorKeyFor pks k) pks k b P s1)"
  have v: "as_authGenerations (snd (visit strategy b k P pks s1)) = as_authGenerations s1" for strategy b k P pks s1
    by (simp add: visit_def)
  have m: "as_authGenerations (snd (case collectBest env pks k P now s of
        (None, s1) \<Rightarrow> (case mixedUnavailableError env pks model P now' s1 of (e, s2) \<Rightarrow> (Inl e, s2))
      | (Some b, s1) \<Rightarrow> (case visit strategy b k P pks s1 of
            (Some (picked, pk), s2) \<Rightarrow> (Inr (picked, pk), s2)
          | (None, s2) \<Rightarrow> (case mixedUnavailableError env pks model P now' s2 of (e, s2) \<Rightarrow> (Inl e, s2))))) = as_authGenerations s"
    for pks k P now now' strategy
  proof -
    obtain bo s1 where c: "collectBest env pks k P now s = (bo, s1)" by fastforce
    have s1: "as_authGenerations s1 = as_authGenerations s" using collectBest_generations [of env pks k P now s] c by simp
    show ?thesis
    proof (cases bo)
      case None
      with c s1 show ?thesis by (simp add: unavailable_generations)
    next
      case (Some b)
      obtain po s2 where p: "visit strategy b k P pks s1 = (po, s2)" by fastforce
      have "as_authGenerations s2 = as_authGenerations s" using v [of strategy b k P pks s1] p s1 by simp
      with c Some p show ?thesis by (cases po) (simp_all add: unavailable_generations split: prod.split)
    qed
  qed
  show ?thesis
    unfolding pickMixedWithStrategy_def Let_def
    by (simp only: snd_case_sum m [unfolded visit_def] pickSingle_generations pickFromProvider_generations snd_conv split: if_split)
      simp
qed

section \<open>Reachable states\<close>

text \<open>
  The operations of the manager and of its scheduler, at advancing times. Identifiers carry no surrounding
  white space, and no counter of epochs or generations is within two steps of wrapping around.
\<close>

definition held_room :: "string \<Rightarrow> Manager \<Rightarrow> bool" where
  "held_room i m = (case map_of (mg_auths m) i of None \<Rightarrow> True | Some a \<Rightarrow> room (a_Generation a))"

definition newID :: "string \<Rightarrow> Auth \<Rightarrow> string" where
  "newID uuid auth = (if a_ID auth = [] then uuid else a_ID auth)"

definition sound_id :: "string \<Rightarrow> bool" where
  "sound_id i \<longleftrightarrow> TrimSpace i = i \<and> i \<noteq> []"

inductive mgr_reachable :: "token_env \<Rightarrow> time \<Rightarrow> Manager \<Rightarrow> bool" for tenv where
  start: "0 \<le> t \<Longrightarrow> mgr_reachable tenv t (NewManager sel affinity)"
| wait: "mgr_reachable tenv t m \<Longrightarrow> t \<le> t' \<Longrightarrow> mgr_reachable tenv t' m"
| registered: "mgr_reachable tenv t m \<Longrightarrow> me_token env = tenv \<Longrightarrow> sound_id (newID uuid auth) \<Longrightarrow>
    room (epochOf (newID uuid auth) m) \<Longrightarrow>
    mgr_reachable tenv t (fst (mgr_Register env uuid err t auth m))"
| updated: "mgr_reachable tenv t m \<Longrightarrow> me_token env = tenv \<Longrightarrow> held_room (a_ID auth) m \<Longrightarrow>
    mgr_reachable tenv t (fst (updateInternal env nils err t base auth mode m))"
| removed: "mgr_reachable tenv t m \<Longrightarrow> room (epochOf (TrimSpace i) m) \<Longrightarrow>
    mgr_reachable tenv t (fst (RemoveWithPersistence answer guard t i m))"
| result: "mgr_reachable tenv t m \<Longrightarrow> me_token env = tenv \<Longrightarrow> held_room (r_AuthID res) m \<Longrightarrow>
    mgr_reachable tenv t (MarkResult env headers t t1 t2 res m)"
| neutral: "mgr_reachable tenv t m \<Longrightarrow> held_room (r_AuthID res) m \<Longrightarrow>
    mgr_reachable tenv t (recordAvailabilityNeutralResult t res m)"
| reset: "mgr_reachable tenv t m \<Longrightarrow> me_token env = tenv \<Longrightarrow> held_room (TrimSpace i) m \<Longrightarrow>
    mgr_reachable tenv t (fst (mgr_ResetQuota env err t i m))"
| refreshed: "mgr_reachable tenv t m \<Longrightarrow> me_token env = tenv \<Longrightarrow> mgr_reachable tenv t (RefreshSchedulerEntry env t i m)"
| single: "mgr_reachable tenv t m \<Longrightarrow> clocks_ok t clk \<Longrightarrow>
    mgr_reachable tenv (tm_error clk)
      (m\<lparr>mg_scheduler := snd (pickSingleWithStrategy tenv sha rq clk provider model strategy (mg_scheduler m))\<rparr>)"
| mixed: "mgr_reachable tenv t m \<Longrightarrow> clocks_ok t clk \<Longrightarrow>
    mgr_reachable tenv (tm_error clk)
      (m\<lparr>mg_scheduler := snd (pickMixedWithStrategy tenv sha rq clk providers model strategy (mg_scheduler m))\<rparr>)"

lemma mgr_inv_new: "0 \<le> t \<Longrightarrow> mgr_inv tenv t (NewManager sel affinity)"
  using new_inv [of tenv t sel]
  by (simp add: mgr_inv_def NewManager_def filedByID_def scheduled_def expected_def ordered_def registered_def newAuthScheduler_def)

lemma mgr_inv_scheduler:
  assumes "mgr_inv tenv t m" and "keeps tenv t' (mg_scheduler m) s'" and "t \<le> t'"
    and "as_authGenerations s' = as_authGenerations (mg_scheduler m)"
  shows "mgr_inv tenv t' (m\<lparr>mg_scheduler := s'\<rparr>)"
proof -
  have "staleFor s' a = staleFor (mg_scheduler m) a" for a by (rule staleFor_cong [OF assms(4)])
  then have "ordered (m\<lparr>mg_scheduler := s'\<rparr>) = ordered m" by (simp add: ordered_def epochOf_def assms(4))
  moreover have "registered s' = registered (mg_scheduler m)" "sched_inv tenv t' s'" using assms(2) by (simp_all add: keeps_def)
  ultimately show ?thesis using assms(1,3) by (simp add: mgr_inv_def scheduled_def expected_def)
qed

lemma held_room_iff: "held_room i m \<longleftrightarrow> (\<forall>a. map_of (mg_auths m) i = Some a \<longrightarrow> room (a_Generation a))"
  by (simp add: held_room_def split: option.split)

lemma mgr_reachable_inv: "mgr_reachable tenv t m \<Longrightarrow> mgr_inv tenv t m"
proof (induction rule: mgr_reachable.induct)
  case (registered t m env uuid auth err)
  then show ?case using Register_inv [OF _ _ newID_def] by (simp add: sound_id_def)
next
  case (single t m clk sha rq provider model strategy)
  then have inv: "sched_inv tenv t (mg_scheduler m)" "0 \<le> t" "t \<le> tm_error clk" by (simp_all add: mgr_inv_def clocks_ok_def)
  show ?case
    by (rule mgr_inv_scheduler [OF single.IH pickSingleWithStrategy_keeps [OF inv(1,2) single.hyps(2)] inv(3)]) simp
next
  case (mixed t m clk sha rq providers model strategy)
  then have inv: "sched_inv tenv t (mg_scheduler m)" "0 \<le> t" "t \<le> tm_error clk" by (simp_all add: mgr_inv_def clocks_ok_def)
  show ?case
    by (rule mgr_inv_scheduler [OF mixed.IH pickMixedWithStrategy_keeps [OF inv(1,2) mixed.hyps(2)] inv(3)]) simp
qed (simp_all add: mgr_inv_new mgr_inv_later updateInternal_inv RemoveWithPersistence_inv MarkResult_inv neutral_inv
    mgr_ResetQuota_inv RefreshSchedulerEntry_inv held_room_iff)

section \<open>Properties\<close>

text \<open>The credential a pick returns, as the manager knows it.\<close>

definition pickable :: "token_env \<Rightarrow> (string \<Rightarrow> string) \<Rightarrow> sched_request \<Rightarrow> time \<Rightarrow> string \<Rightarrow> string \<Rightarrow> Auth \<Rightarrow> bool" where
  "pickable tenv sha rq t provider modelKey a \<longleftrightarrow>
     \<not> isDisabledAuth a \<and> executorKeyFromAuth a = provider \<and> unblocked tenv modelKey t a
     \<and> eligibility_allows sha (requestEligibility rq) a \<and> a_ID a \<notin> set (rq_tried rq)"

lemma pick_held:
  assumes inv: "mgr_inv tenv t m" and clk: "clocks_ok t clk"
    and pick: "fst (pickSingle tenv sha rq clk provider model (mg_scheduler m)) = Inr a"
  shows "\<exists>b. map_of (mg_auths m) (a_ID a) = Some b \<and> routing a = routing b
    \<and> pickable tenv sha rq (tm_pick clk) (ToLower (TrimSpace provider)) (canonicalModelKey (canonicalModelKey model)) b"
proof -
  let ?s = "mg_scheduler m" and ?pk = "ToLower (TrimSpace provider)" and ?k = "canonicalModelKey (canonicalModelKey model)"
  have si: "sched_inv tenv t ?s" and t: "0 \<le> t" using inv by (simp_all add: mgr_inv_def)
  obtain meta where meta: "meta \<in> freeCandidates tenv sha rq (as_strategy ?s = schedulerStrategyWeightedRoundRobin) ?pk ?k (tm_pick clk) ?s"
    and a: "a = sm_auth meta"
    using pickFromProvider_contract [OF si t clk, where strategy = "as_strategy ?s" and sha = sha and rq = rq and pk = ?pk
        and k = "canonicalModelKey model"
        and pw = "rq_websocket rq \<and> providerPrefersWebsocketTransport ?pk \<and> pinnedAuthIDFromMetadata (rq_metadata rq) = []"
        and errProvider = provider and model = model] pick
    unfolding pickSingle_def pickSingleWithStrategy_def currentStrategy_def Let_def pickContract_def topChoice_def
    by (auto simp only: sum.case simp_thms if_True split: if_split_asm)
  then obtain i where i: "registered ?s i = Some meta" by (auto simp: freeCandidates_def candidates_def ran_def)
  have "scheduled m i = Some (routing a)" using i a by (simp add: scheduled_def)
  moreover have "scheduled m i = expected m i" using inv by (simp add: mgr_inv_def)
  ultimately obtain b where b: "map_of (mg_auths m) i = Some b" "schedulable b" "routing a = routing b"
    by (auto simp: expected_def split: option.split_asm if_split_asm)
  note agree = routing_agrees [OF b(3)]
  have "a_ID a = i" using mgr_inv_held(1) [OF inv b(1)] agree(1) by simp
  moreover have "executorKeyFromAuth a = ?pk" "unblocked tenv ?k (tm_pick clk) a"
    "eligibility_allows sha (requestEligibility rq) a" "a_ID a \<notin> set (rq_tried rq)"
    using meta registered_iff [OF si] i si unfolding a
    by (auto simp: freeCandidates_def candidates_def admissible_def sched_inv_def meta_ok_def)
  ultimately show ?thesis
    using b agree by (auto simp: pickable_def schedulable_def)
qed





section \<open>Examples\<close>

definition exampleMgrEnv :: mgr_env where
  "exampleMgrEnv = \<lparr>me_cooling = exampleCoolingEnv, me_token = exampleEnv, me_models = exampleModels,
     me_selectionKey = (\<lambda>_ m. canonicalModelKey m), me_extractIDs = (\<lambda>_. ([], [])), me_sha8 = (\<lambda>x. x),
     me_abs = (\<lambda>x. Some x)\<rparr>"

definition exampleManager :: Manager where
  "exampleManager =
     fst (mgr_Register exampleMgrEnv ''u'' None 10 (exampleAuth ''b'' ''1'')
       (fst (mgr_Register exampleMgrEnv ''u'' None 10 (exampleAuth ''a'' ''5'') (NewManager NilSelector None))))"

lemma exampleMgrEnv_token: "me_token exampleMgrEnv = exampleEnv"
  by (simp add: exampleMgrEnv_def)

lemma exampleManager_reachable: "mgr_reachable exampleEnv 10 exampleManager"
  unfolding exampleManager_def
  by (intro mgr_reachable.registered mgr_reachable.start; (rule exampleMgrEnv_token)?; code_simp)


abbreviation picksID :: "string \<Rightarrow> Manager \<Rightarrow> bool" where
  "picksID i m \<equiv> (case fst (pickSingle exampleEnv (\<lambda>x. x) exampleRequest exampleClock ''codex'' ''gpt-5'' (mg_scheduler m)) of
     Inr a \<Rightarrow> a_ID a = i | Inl _ \<Rightarrow> False)"

lemma picksID_obtains:
  assumes "picksID i m"
  obtains a where "fst (pickSingle exampleEnv (\<lambda>x. x) exampleRequest exampleClock ''codex'' ''gpt-5'' (mg_scheduler m)) = Inr a"
    and "a_ID a = i"
  using assms by (auto split: sum.split_asm)


definition exampleHeld :: Auth where
  "exampleHeld = (case map_of (mg_auths exampleManager) ''a'' of Some a \<Rightarrow> a | None \<Rightarrow> zero_Auth)"


end
