(* ===== verification/Execution_Ends.thy ===== *)
theory Execution_Ends
  imports Execution Conductor_Picks
begin

text \<open>
  A round of attempts ends. Every round asks for a credential that was not tried before, and there are only
  finitely many; the rounds end because every credential has a limit of retries.
\<close>

section \<open>Results keep the metadata\<close>

named_theorems metadata_kept

lemma meta_steps [metadata_kept]:
  "a_Metadata (putModelState k st a) = a_Metadata a"
  "a_Metadata (markCredentialQuota k n l a) = a_Metadata a"
  "a_Metadata (clearAuthStateOnSuccess now a) = a_Metadata a"
  "a_Metadata (noteAuthFailure now err a) = a_Metadata a"
  "a_Metadata (settleAuthFailure now dc prev a) = a_Metadata a"
  by (simp_all add: putModelState_def markCredentialQuota_def clearAuthStateOnSuccess_def noteAuthFailure_def settleAuthFailure_def
      Let_def split: option.split)

lemma meta_normalize [metadata_kept]: "a_Metadata (fst (normalizeModelStates a)) = a_Metadata a"
  by (subst normalizeModelStates_frame) simp

lemma meta_ensure: "ensureModelState a m = Some (a1, st) \<Longrightarrow> a_Metadata a1 = a_Metadata a"
  by (auto simp: ensureModelState_def Let_def metadata_kept split: if_split_asm option.split_asm)

lemma meta_modelFailureSwitch [metadata_kept]: "a_Metadata (fst (modelFailureSwitch env now res dc key a st)) = a_Metadata a"
  by (rule modelFailureSwitch_cases) (auto simp: metadata_kept)

lemma meta_authFailureSwitch [metadata_kept]: "a_Metadata (snd (authFailureSwitch env err hint now dc a)) = a_Metadata a"
  by (rule authFailureSwitch_cases) (auto simp: metadata_kept)

lemma meta_applyModelFailure [metadata_kept]: "a_Metadata (applyModelFailure env now res key a) = a_Metadata a"
proof (cases "ensureModelState a key")
  case (Some p)
  obtain a1 st where p: "p = (a1, st)" by (cases p)
  then have "a_Metadata a1 = a_Metadata a" using Some meta_ensure by simp
  then show ?thesis using Some p
    by (simp add: applyModelFailure_def Let_def case_prod_beta metadata_kept split: option.split)
qed (simp add: applyModelFailure_def)

lemma meta_applySuccess [metadata_kept]: "a_Metadata (applySuccess now res key a) = a_Metadata a"
proof (cases "ensureModelState a key")
  case (Some p)
  obtain a1 st where p: "p = (a1, st)" by (cases p)
  then have "a_Metadata a1 = a_Metadata a" using Some meta_ensure by simp
  then show ?thesis using Some p by (simp add: applySuccess_def Let_def metadata_kept)
qed (simp add: applySuccess_def metadata_kept)

lemma meta_markResultAuth: "a_Metadata (markResultAuth env sk hs now res a) = a_Metadata a"
  by (simp add: markResultAuth_def markAvailability_def applyAuthFailureState_def Let_def case_prod_beta metadata_kept)

section \<open>The invariant of a round\<close>

text \<open>
  The credentials of the manager and of the scheduler are among \<open>P\<close>, and what is asked of the metadata of a
  credential (\<open>Q\<close>) holds.
\<close>

definition exec_inv :: "token_env \<Rightarrow> string set \<Rightarrow> (Auth \<Rightarrow> bool) \<Rightarrow> time \<Rightarrow> Manager \<Rightarrow> bool" where
  "exec_inv tenv P Q t m \<longleftrightarrow> 0 \<le> t \<and> filedByID (mg_auths m) \<and> keys (mg_auths m) \<subseteq> P \<and> (\<forall>a \<in> snd ` set (mg_auths m). Q a)
     \<and> sched_inv tenv t (mg_scheduler m) \<and> dom (registered (mg_scheduler m)) \<subseteq> P"

lemma exec_inv_later: "exec_inv tenv P Q t m \<Longrightarrow> t \<le> t' \<Longrightarrow> exec_inv tenv P Q t' m"
  unfolding exec_inv_def using sched_inv_later by auto

lemma exec_inv_frame:
  "mg_auths m' = mg_auths m \<Longrightarrow> mg_scheduler m' = mg_scheduler m \<Longrightarrow> exec_inv tenv P Q t m' = exec_inv tenv P Q t m"
  by (simp add: exec_inv_def)

lemma exec_inv_held:
  assumes "exec_inv tenv P Q t m" and "map_of (mg_auths m) i = Some a"
  shows "a_ID a = i" "TrimSpace i = i" "i \<noteq> []" "i \<in> P" "Q a"
proof -
  have f: "filedByID (mg_auths m)" and k: "keys (mg_auths m) \<subseteq> P" using assms(1) by (simp_all add: exec_inv_def)
  show "a_ID a = i" "TrimSpace i = i" "i \<noteq> []" using filedByID_get [OF f assms(2)] by simp_all
  show "i \<in> P" using k map_of_SomeD [OF assms(2)] by force
  have "a \<in> snd ` set (mg_auths m)" using map_of_SomeD [OF assms(2)] by force
  then show "Q a" using assms(1) unfolding exec_inv_def by blast
qed

lemma held_update: "snd ` set (AList.update i a xs) \<subseteq> insert a (snd ` set xs)"
  by (induction xs) auto

lemma exec_inv_store:
  assumes inv: "exec_inv tenv P Q t m" and i: "a_ID a = i" "TrimSpace i = i" "i \<noteq> []" "i \<in> P" and q: "Q a"
  shows "exec_inv tenv P Q t (m\<lparr>mg_auths := AList.update i a (mg_auths m)\<rparr>)"
proof -
  have "\<forall>b \<in> snd ` set (mg_auths m). Q b" using inv by (simp add: exec_inv_def)
  then have "\<forall>b \<in> snd ` set (AList.update i a (mg_auths m)). Q b" using q held_update [of i a "mg_auths m"] by blast
  then show ?thesis using inv filedByID_update [of "mg_auths m" a i] i unfolding exec_inv_def by simp
qed

text \<open>What is asked of a credential depends on its metadata only.\<close>

definition on_metadata :: "(Auth \<Rightarrow> bool) \<Rightarrow> bool" where
  "on_metadata Q \<longleftrightarrow> (\<forall>a b. a_Metadata a = a_Metadata b \<longrightarrow> Q a = Q b)"

lemma on_metadataD: "on_metadata Q \<Longrightarrow> a_Metadata a = a_Metadata b \<Longrightarrow> Q b \<Longrightarrow> Q a"
  unfolding on_metadata_def by blast

text \<open>The scheduler alone: its invariant, and its credentials are among \<open>P\<close>.\<close>

definition known :: "token_env \<Rightarrow> string set \<Rightarrow> time \<Rightarrow> authScheduler \<Rightarrow> bool" where
  "known tenv P t s \<longleftrightarrow> 0 \<le> t \<and> sched_inv tenv t s \<and> dom (registered s) \<subseteq> P"

lemma exec_inv_known:
  "exec_inv tenv P Q t m \<longleftrightarrow> filedByID (mg_auths m) \<and> keys (mg_auths m) \<subseteq> P \<and> (\<forall>a \<in> snd ` set (mg_auths m). Q a) \<and> known tenv P t (mg_scheduler m)"
  by (auto simp: exec_inv_def known_def)

lemma upsert_known:
  assumes s: "known tenv P t s" and i: "TrimSpace (a_ID a) = a_ID a" "a_ID a \<in> P"
  shows "known tenv P t (upsertAuthLocked tenv models a t s)"
proof -
  have u: "sched_inv tenv t (upsertAuthLocked tenv models a t s)"
    "registered (upsertAuthLocked tenv models a t s) =
       (if a_ID a = [] \<or> staleFor s a then registered s else registration models a (registered s))"
    using upsertAuthLocked_inv [of tenv t s a models] s i(1) by (simp_all add: known_def)
  have "dom (registered (upsertAuthLocked tenv models a t s)) \<subseteq> P"
    unfolding u(2) registration_def using s i(2) by (auto simp: known_def split: if_split_asm)
  with u(1) s show ?thesis by (simp add: known_def)
qed

lemma rebuild_known:
  assumes t: "0 \<le> t" and auths: "\<forall>a \<in> set auths. TrimSpace (a_ID a) = a_ID a \<and> a_ID a \<in> P"
  shows "known tenv P t (rebuild tenv models auths t s)"
proof -
  have "known tenv P t (fold (\<lambda>auth s. upsertAuthLocked tenv models auth t s) auths s)" if "known tenv P t s" for s
    using that auths by (induction auths arbitrary: s) (simp_all add: upsert_known)
  moreover have "known tenv P t (s\<lparr>as_providers := [], as_authProviders := [], as_mixedCursors := [], as_mixedWeightedStates := []\<rparr>)"
    using t by (auto simp: known_def registered_def emptied_inv)
  ultimately show ?thesis unfolding rebuild_def by blast
qed

lemma exec_inv_publish:
  assumes "exec_inv tenv P Q t m" and "me_token env = tenv" and "TrimSpace (a_ID a) = a_ID a" "a_ID a \<in> P"
  shows "exec_inv tenv P Q t (publish env t a m)"
  using assms upsert_known by (simp add: exec_inv_known publish_def)

lemma exec_inv_put:
  assumes inv: "exec_inv tenv P Q t m" and env: "me_token env = tenv" and held: "map_of (mg_auths m) i = Some a"
    and id: "a_ID a' = a_ID a" and q: "Q a'"
  shows "exec_inv tenv P Q t (publish env t a' (m\<lparr>mg_auths := AList.update i a' (mg_auths m)\<rparr>))"
proof -
  note h = exec_inv_held [OF inv held]
  show ?thesis by (intro exec_inv_publish exec_inv_store inv env) (simp_all add: h id q)
qed

lemma MarkResult_exec:
  assumes inv: "exec_inv tenv P Q t m" and env: "me_token env = tenv" and Q: "on_metadata Q"
  shows "exec_inv tenv P Q t (MarkResult env hs t t1 t2 res m)"
proof (cases "map_of (mg_auths m) (r_AuthID res)")
  case (Some a)
  define a' where "a' = markResultAuth (me_cooling env) (me_selectionKey env) hs t res a"
  define m1 where "m1 = publish env t a' (m\<lparr>mg_auths := AList.update (r_AuthID res) a' (mg_auths m)\<rparr>)"
  have "a_ID a' = a_ID a" using ident_markResultAuth [of "me_cooling env" "me_selectionKey env" hs t res a] by (simp add: a'_def ident_def)
  moreover have "Q a'" using on_metadataD [OF Q meta_markResultAuth exec_inv_held(5) [OF inv Some]] by (simp add: a'_def)
  ultimately have "exec_inv tenv P Q t m1" unfolding m1_def by (rule exec_inv_put [OF inv env Some])
  moreover have "exec_inv tenv P Q t (updateSessionAffinity env t1 t2 res m1) = exec_inv tenv P Q t m1"
    by (rule exec_inv_frame) (simp_all add: updateSessionAffinity_def Let_def)
  ultimately show ?thesis
    using inv Some by (simp add: MarkResult_def Let_def a'_def [symmetric] m1_def [symmetric])
qed (use inv in \<open>simp add: MarkResult_def\<close>)

lemma meta_neutral: "a_Metadata (neutralResultAuth now res a) = a_Metadata a"
  by (simp add: neutralResultAuth_def countResult_def recordRecentRequest_def Let_def)

lemma neutral_exec:
  assumes inv: "exec_inv tenv P Q t m" and Q: "on_metadata Q"
  shows "exec_inv tenv P Q t (recordAvailabilityNeutralResult now res m)"
proof (cases "map_of (mg_auths m) (r_AuthID res)")
  case (Some a)
  note h = exec_inv_held [OF inv Some]
  have "a_ID (neutralResultAuth now res a) = r_AuthID res" using ident_neutral [of now res a] h(1) by (simp add: ident_def)
  then have "exec_inv tenv P Q t (m\<lparr>mg_auths := AList.update (r_AuthID res) (neutralResultAuth now res a) (mg_auths m)\<rparr>)"
    using h on_metadataD [OF Q meta_neutral h(5)] by (intro exec_inv_store inv) simp_all
  with inv Some show ?thesis by (simp add: recordAvailabilityNeutralResult_def)
qed (use inv in \<open>simp add: recordAvailabilityNeutralResult_def\<close>)

lemma updateInternal_exec:
  assumes inv: "exec_inv tenv P Q t m" and env: "me_token env = tenv" and Q: "\<And>a. Q a"
  shows "exec_inv tenv P Q t (fst (updateInternal env nils err t base auth mode m))"
proof (rule updateInternal_cases, goal_cases id same epochs stored)
  case (stored ex a)
  define m1 where "m1 = m\<lparr>mg_authEpochs := AList.update (a_ID auth) (raisedEpoch (a_ID auth) m) (mg_authEpochs m)\<rparr>"
  have "exec_inv tenv P Q t m1" using inv exec_inv_frame [of m1 m tenv P Q t] by (simp add: m1_def)
  moreover have "map_of (mg_auths m1) (a_ID auth) = Some ex" "a_ID a = a_ID ex" using stored by (simp_all add: m1_def raised_def)
  ultimately show ?case using exec_inv_put [OF _ env _ _ Q] by (fastforce simp: m1_def)
qed (use inv exec_inv_held(1) [OF inv] Q in \<open>simp_all add: exec_inv_def\<close>)

section \<open>The surroundings of a round\<close>

text \<open>
  Assumptions on what is called outside the manager: the clock advances, and nothing registers a credential
  outside of \<open>P\<close> meanwhile or breaks \<open>Q\<close>; when an executor prepares credentials before their use, \<open>Q\<close> holds of every
  credential. The selector chooses one of the credentials it is given, which the built-in selectors do.
\<close>

definition calm :: "('r, 'w) exec_hooks \<Rightarrow> string set \<Rightarrow> (Auth \<Rightarrow> bool) \<Rightarrow> 'w \<Rightarrow> Manager \<Rightarrow> bool" where
  "calm h P Q w m = exec_inv (me_token (xh_mgr h)) P Q (xh_time h w) m"

definition calls_ok :: "('r, 'w) exec_hooks \<Rightarrow> string set \<Rightarrow> (Auth \<Rightarrow> bool) \<Rightarrow> bool" where
  "calls_ok h P Q \<longleftrightarrow>
     (\<forall>w. clocks_ok (xh_time h w) (fst (xh_clock h w)) \<and> tm_error (fst (xh_clock h w)) \<le> xh_time h (snd (xh_clock h w)))
     \<and> (\<forall>m w. calm h P Q w m \<longrightarrow> calm h P Q (snd (xh_others h m w)) (fst (xh_others h m w)))
     \<and> (\<forall>auth m w. calm h P Q w m \<longrightarrow> calm h P Q (snd (snd (xh_refresh h auth m w))) (fst (snd (xh_refresh h auth m w))))
     \<and> (\<forall>md arg auths bindings w. xh_time h w \<le> xh_time h (snd (snd (xh_selectorPick h md arg auths bindings w)))
          \<and> (\<forall>auth. fst (xh_selectorPick h md arg auths bindings w) = Inr auth \<longrightarrow> auth \<in> set auths))
     \<and> (\<forall>auth s w. xh_time h w \<le> xh_time h (snd (xh_models h auth s w)))
     \<and> (\<forall>auth w. xh_time h w \<le> xh_time h (snd (xh_admit h auth w)))
     \<and> (\<forall>auth w. xh_time h w \<le> xh_time h (xh_release h auth w))
     \<and> (\<forall>ids w. xh_time h w \<le> xh_time h (snd (xh_waitCapacity h ids w)))
     \<and> (\<forall>w. xh_time h w \<le> xh_time h (snd (xh_prepareLock h w)))
     \<and> (\<forall>auth w. xh_time h w \<le> xh_time h (snd (xh_prepare h auth w)))
     \<and> (\<forall>auth s w. xh_time h w \<le> xh_time h (snd (xh_intercept h auth s w)))
     \<and> (\<forall>auth s w. xh_time h w \<le> xh_time h (snd (xh_execute h auth s w)))
     \<and> (\<forall>auth s w. xh_time h w \<le> xh_time h (snd (xh_countTokens h auth s w)))
     \<and> (\<forall>d w. xh_time h w \<le> xh_time h (snd (xh_sleep h d w)))"

definition hooks_ok :: "('r, 'w) exec_hooks \<Rightarrow> string set \<Rightarrow> (Auth \<Rightarrow> bool) \<Rightarrow> bool" where
  "hooks_ok h P Q \<longleftrightarrow> calls_ok h P Q \<and> on_metadata Q \<and> (\<forall>auth a. xh_shouldPrepare h auth \<longrightarrow> Q a)"

lemma hooks_calls: "hooks_ok h P Q \<Longrightarrow> calls_ok h P Q"
  by (simp add: hooks_ok_def)

lemma calm_later: "calm h P Q w m \<Longrightarrow> xh_time h w \<le> xh_time h w' \<Longrightarrow> calm h P Q w' m"
  unfolding calm_def by (rule exec_inv_later)

lemma hooks_okD:
  assumes "hooks_ok h P Q" and "calm h P Q w m"
  shows hooks_others: "calm h P Q (snd (xh_others h m w)) (fst (xh_others h m w))"
    and hooks_refresh: "calm h P Q (snd (snd (xh_refresh h auth m w))) (fst (snd (xh_refresh h auth m w)))"
    and hooks_selector: "calm h P Q (snd (snd (xh_selectorPick h md arg auths bindings w))) m"
    and hooks_models: "calm h P Q (snd (xh_models h auth s w)) m"
    and hooks_admit: "calm h P Q (snd (xh_admit h auth w)) m"
    and hooks_release: "calm h P Q (xh_release h auth w) m"
    and hooks_wait: "calm h P Q (snd (xh_waitCapacity h ids w)) m"
    and hooks_lock: "calm h P Q (snd (xh_prepareLock h w)) m"
    and hooks_prepare: "calm h P Q (snd (xh_prepare h auth w)) m"
    and hooks_intercept: "calm h P Q (snd (xh_intercept h auth s w)) m"
    and hooks_execute: "calm h P Q (snd (executorCall h req auth s w)) m"
    and hooks_sleep: "calm h P Q (snd (xh_sleep h d w)) m"
  using hooks_calls [OF assms(1)] assms(2) calm_later [OF assms(2)] unfolding calls_ok_def executorCall_def by simp_all

lemma hooks_selected:
  assumes "hooks_ok h P Q" and "fst (xh_selectorPick h md arg auths bindings w) = Inr auth"
  shows "auth \<in> set auths"
proof -
  have "\<forall>auth. fst (xh_selectorPick h md arg auths bindings w) = Inr auth \<longrightarrow> auth \<in> set auths"
    using hooks_calls [OF assms(1)] unfolding calls_ok_def by simp
  then show ?thesis using assms(2) by blast
qed

lemma hooks_metadata:
  assumes "hooks_ok h P Q"
  shows "on_metadata Q" and "xh_shouldPrepare h auth \<Longrightarrow> Q a"
  using assms unfolding hooks_ok_def by blast+

lemma hooks_clock:
  assumes "hooks_ok h P Q"
  shows "clocks_ok (xh_time h w) (fst (xh_clock h w))" "tm_error (fst (xh_clock h w)) \<le> xh_time h (snd (xh_clock h w))"
  using hooks_calls [OF assms] unfolding calls_ok_def by simp_all

section \<open>The pick of a round\<close>

lemma candidate_registered:
  assumes "sched_inv env t s" and "meta \<in> candidates sha rq w pk k s"
  shows "a_ID (sm_auth meta) \<in> dom (registered s)" and "a_ID (sm_auth meta) \<notin> set (rq_tried rq)"
proof -
  obtain i where i: "registered s i = Some meta" "sm_providerKey meta = pk" using assms(2) by (auto simp: candidates_def ran_def)
  then have at: "auths_at s pk i = Some meta" using registered_iff [OF assms(1)] by blast
  then obtain p where "map_of (as_providers s) pk = Some p" "map_of (ps_auths p) i = Some meta"
    by (auto simp: auths_at_def split: option.split_asm)
  then have "a_ID (sm_auth meta) = i" using assms(1) by (simp add: sched_inv_def provider_inv_def)
  with i show "a_ID (sm_auth meta) \<in> dom (registered s)" by auto
  show "a_ID (sm_auth meta) \<notin> set (rq_tried rq)" using assms(2) by (simp add: candidates_def admissible_def)
qed

lemma pickFromProvider_registered:
  assumes "sched_inv env t s" and "0 \<le> t" and "clocks_ok t clk"
    and "fst (pickFromProvider env pk k pw strategy (requestPredicate sha rq (strategy = schedulerStrategyWeightedRoundRobin))
      clk ep model s) = Inr a"
  shows "a_ID a \<in> dom (registered s) \<and> a_ID a \<notin> set (rq_tried rq)"
proof -
  let ?F = "freeCandidates env sha rq (strategy = schedulerStrategyWeightedRoundRobin) pk (canonicalModelKey k) (tm_pick clk) s"
  have "pickContract pw ?F (Inr a)" using pickFromProvider_contract [OF assms(1-3)] assms(4) by metis
  then obtain meta where "meta \<in> ?F" "a = sm_auth meta"
    unfolding pickContract_def topChoice_def Let_def by (auto split: if_split_asm)
  then have "meta \<in> candidates sha rq (strategy = schedulerStrategyWeightedRoundRobin) pk (canonicalModelKey k) s"
    by (simp add: freeCandidates_def)
  from candidate_registered [OF assms(1) this] \<open>a = sm_auth meta\<close> show ?thesis by simp
qed

lemma pickMixed_registered:
  assumes inv: "sched_inv env t s" and t: "0 \<le> t" and clk: "clocks_ok t clk"
    and pick: "fst (pickMixed env sha rq clk providers model s) = Inr (a, pk)"
  shows "a_ID a \<in> dom (registered s) \<and> a_ID a \<notin> set (rq_tried rq)"
proof -
  define N where "N = normalizeProviderKeys providers"
  have ne: "N \<noteq> []" using pick by (auto simp: pickMixed_def pickMixedWithStrategy_def N_def)
  show ?thesis
  proof (cases "length N = 1")
    case True
    then have "fst (pickSingleWithStrategy env sha rq clk (hd N) model schedulerStrategyCurrent s) = Inr a"
      using pick ne by (auto simp: pickMixed_def pickMixedWithStrategy_def N_def [symmetric] split: prod.split_asm sum.split_asm)
    then show ?thesis
      unfolding pickSingleWithStrategy_def Let_def by (rule pickFromProvider_registered [OF inv t clk])
  next
    case many: False
    show ?thesis
    proof (cases "pinnedAuthIDFromMetadata (rq_metadata rq) = []")
      case True
      have "mixedContract (set N) (\<lambda>pk. freeCandidates env sha rq (as_strategy s = schedulerStrategyWeightedRoundRobin) pk
          (canonicalModelKey (canonicalModelKey model)) (tm_ensure clk) s) (Inr (a, pk))"
        using pickMixed_contract [OF inv t clk True, of providers sha model] many pick unfolding N_def by metis
      then obtain meta where "a = sm_auth meta" "meta \<in> candidates sha rq (as_strategy s = schedulerStrategyWeightedRoundRobin) pk
          (canonicalModelKey (canonicalModelKey model)) s"
        by (auto simp: mixedContract_def freeCandidates_def)
      with candidate_registered [OF inv] show ?thesis by simp
    next
      case False
      define q where "q = get_str (as_authProviders s) (pinnedAuthIDFromMetadata (rq_metadata rq))"
      define st where "st = currentStrategy schedulerStrategyCurrent s"
      have "fst (pickFromProvider env q (canonicalModelKey model) False st
          (requestPredicate sha rq (st = schedulerStrategyWeightedRoundRobin)) clk ''mixed'' model s) = Inr a"
        using pick ne many False
        unfolding pickMixed_def pickMixedWithStrategy_def Let_def N_def [symmetric] q_def [symmetric] st_def [symmetric]
        by (auto split: prod.split_asm sum.split_asm if_split_asm)
      then show ?thesis by (rule pickFromProvider_registered [OF inv t clk])
    qed
  qed
qed


lemma schedulerPick_calm:
  assumes h: "hooks_ok h P Q" and c: "calm h P Q w m" and pick: "schedulerPick h rq providers model m w = (r, m1, w1)"
  shows "calm h P Q w1 m1" and "r = Inr (a, pk) \<Longrightarrow> a_ID a \<in> P \<and> a_ID a \<notin> set (rq_tried rq)"
proof -
  let ?t = "xh_time h w" and ?env = "me_token (xh_mgr h)"
  obtain clk w' where clk: "xh_clock h w = (clk, w')" by fastforce
  note ok = hooks_clock [OF h, of w, unfolded clk fst_conv snd_conv]
  have s: "sched_inv ?env ?t (mg_scheduler m)" "0 \<le> ?t" "dom (registered (mg_scheduler m)) \<subseteq> P"
    using c by (simp_all add: calm_def exec_inv_def)
  define p where "p = pickMixed ?env (xh_sha h) rq clk providers model (mg_scheduler m)"
  have r: "r = fst p" "m1 = m\<lparr>mg_scheduler := snd p\<rparr>" "w1 = w'"
    using pick by (simp_all add: schedulerPick_def clk p_def case_prod_beta')
  have "keeps ?env (tm_error clk) (mg_scheduler m) (snd p)"
    unfolding p_def pickMixed_def by (rule pickMixedWithStrategy_keeps [OF s(1,2) ok(1)])
  then have "exec_inv ?env P Q (tm_error clk) m1"
    using c s(2,3) ok(1) by (auto simp: keeps_def calm_def exec_inv_def clocks_ok_def r(2))
  then show "calm h P Q w1 m1" unfolding calm_def r(3) using ok(2) by (rule exec_inv_later)
  show "a_ID a \<in> P \<and> a_ID a \<notin> set (rq_tried rq)" if "r = Inr (a, pk)"
    using pickMixed_registered [OF s(1,2) ok(1)] that s(3) unfolding r(1) p_def by blast
qed

lemma held_known:
  assumes "calm h P Q w m" and i: "(i, a) \<in> set (mg_auths m)"
  shows "TrimSpace (a_ID a) = a_ID a \<and> a_ID a \<in> P"
proof -
  have f: "filedByID (mg_auths m)" "keys (mg_auths m) \<subseteq> P" using assms by (simp_all add: calm_def exec_inv_def)
  then have "i \<in> P" using i by force
  with i f(1) show ?thesis unfolding filedByID_def list_all_iff by auto
qed

lemma syncScheduler_calm:
  assumes "calm h P Q w m"
  shows "calm h P Q w (syncScheduler (xh_mgr h) (xh_time h w) m)"
proof -
  have f: "filedByID (mg_auths m)" "keys (mg_auths m) \<subseteq> P" "0 \<le> xh_time h w" "\<forall>a \<in> snd ` set (mg_auths m). Q a"
    using assms by (simp_all add: calm_def exec_inv_def)
  have "\<forall>a \<in> set (map snd (mg_auths m)). TrimSpace (a_ID a) = a_ID a \<and> a_ID a \<in> P" using held_known [OF assms] by auto
  from rebuild_known [OF f(3) this] f show ?thesis by (simp add: calm_def exec_inv_known syncScheduler_def)
qed

lemma indexPicked_calm:
  assumes "calm h P Q w m" and Q: "on_metadata Q"
  shows "calm h P Q w (snd (indexPicked env a m))" and "a_ID (fst (indexPicked env a m)) = a_ID a"
proof -
  have e: "a_ID (EnsureIndex (me_sha8 env) (me_abs env) c) = a_ID c"
    "a_Metadata (EnsureIndex (me_sha8 env) (me_abs env) c) = a_Metadata c" for c
    by (simp_all add: EnsureIndex_def Let_def)
  have "calm h P Q w (snd (indexPicked env a m)) \<and> a_ID (fst (indexPicked env a m)) = a_ID a"
  proof (cases "map_of (mg_auths m) (a_ID a)")
    case (Some c)
    note held = exec_inv_held [OF assms(1) [unfolded calm_def] Some]
    have "exec_inv (me_token (xh_mgr h)) P Q (xh_time h w)
        (m\<lparr>mg_auths := AList.update (a_ID a) (EnsureIndex (me_sha8 env) (me_abs env) c) (mg_auths m)\<rparr>)"
      using held on_metadataD [OF Q e(2) held(5)] by (intro exec_inv_store assms(1) [unfolded calm_def]) (simp_all add: e)
    with Some held(1) assms(1) show ?thesis by (simp add: indexPicked_def calm_def Let_def e)
  qed (use assms(1) in \<open>simp add: indexPicked_def\<close>)
  then show "calm h P Q w (snd (indexPicked env a m))" "a_ID (fst (indexPicked env a m)) = a_ID a" by auto
qed

lemma map_of_bucket: "map_of xs p = Some b \<Longrightarrow> b \<in> snd ` set xs"
  by (force dest: map_of_SomeD)

lemma update_buckets: "(\<Union>b \<in> snd ` set (AList.update k c xs). set b) \<subseteq> set c \<union> (\<Union>b \<in> snd ` set xs. set b)"
  by (induction xs) auto

lemma collected_subset:
  "(\<Union>b \<in> snd ` set (ac_available (fold (\<lambda>c. collectStep env (f c) now c) auths acc)). set b)
     \<subseteq> set auths \<union> (\<Union>b \<in> snd ` set (ac_available acc). set b)"
proof (induction auths arbitrary: acc)
  case (Cons a auths)
  have "(\<Union>b \<in> snd ` set (ac_available (collectStep env (f a) now a acc)). set b)
      \<subseteq> insert a (\<Union>b \<in> snd ` set (ac_available acc). set b)"
  proof (cases "fst (isAuthBlockedForModel env a (f a) now)")
    case True
    then show ?thesis by (auto simp: collectStep_def split: prod.split)
  next
    case False
    define U where "U = (\<Union>b \<in> snd ` set (ac_available acc). set b)"
    define old where "old = (case map_of (ac_available acc) (authPriority a) of Some b \<Rightarrow> b | None \<Rightarrow> [])"
    have "set old \<subseteq> U"
      using map_of_bucket [of "ac_available acc" "authPriority a"]
      by (cases "map_of (ac_available acc) (authPriority a)") (auto simp: old_def U_def)
    then have sub: "set (old @ [a]) \<union> U \<subseteq> insert a U" by auto
    have e: "ac_available (collectStep env (f a) now a acc) = AList.update (authPriority a) (old @ [a]) (ac_available acc)"
      using False by (cases "isAuthBlockedForModel env a (f a) now") (simp add: collectStep_def Let_def old_def)
    show ?thesis
      unfolding e U_def [symmetric] by (rule subset_trans [OF update_buckets sub [unfolded U_def], folded U_def])
  qed
  with Cons.IH [of "collectStep env (f a) now a acc"] show ?case by auto
qed simp

lemma routeAvailable_subset:
  assumes "availableAuthsForRouteModelWithPriorityMode env f auths provider model now allPriorities = Inr available"
  shows "set available \<subseteq> set auths"
proof -
  define acc where "acc = fold (\<lambda>c. collectStep env (f c model) now c) auths
      \<lparr>ac_available = [], ac_cooldownCount = 0, ac_quotaCount = 0, ac_earliest = 0\<rparr>"
  have "available = availableAuthsFromPriorityBuckets (ac_available acc) allPriorities"
    using assms by (auto simp: availableAuthsForRouteModelWithPriorityMode_def acc_def [symmetric] Let_def split: if_split_asm)
  moreover have "set (availableAuthsFromPriorityBuckets bs al) \<subseteq> (\<Union>b \<in> snd ` set bs. set b)" for bs al
    using map_of_bucket [of bs "bestPriorityOf (map fst bs)"]
    by (cases "map_of bs (bestPriorityOf (map fst bs))") (auto simp: availableAuthsFromPriorityBuckets_def Let_def)
  moreover have "(\<Union>b \<in> snd ` set (ac_available acc). set b) \<subseteq> set auths"
    unfolding acc_def using collected_subset [of env "\<lambda>c. f c model" now auths
        "\<lparr>ac_available = [], ac_cooldownCount = 0, ac_quotaCount = 0, ac_earliest = 0\<rparr>"] by simp
  ultimately show ?thesis by blast
qed

text \<open>What a pick leaves behind, on both paths.\<close>

definition fresh_pick :: "('r, 'w) exec_hooks \<Rightarrow> string set \<Rightarrow> (Auth \<Rightarrow> bool) \<Rightarrow> string list \<Rightarrow> (sel_error + Auth \<times> string) \<times> Manager \<times> 'w \<Rightarrow> bool" where
  "fresh_pick h P Q tried = (\<lambda>(r, m, w). calm h P Q w m
     \<and> (case r of Inl _ \<Rightarrow> True | Inr (a, pk) \<Rightarrow> a_ID a \<in> P \<and> a_ID a \<notin> set tried))"

lemma indexed_fresh:
  assumes "on_metadata Q" and "calm h P Q w m" and "a_ID a \<in> P" and "a_ID a \<notin> set tried"
  shows "fresh_pick h P Q tried (case indexPicked env a m of (auth, m2) \<Rightarrow> (Inr (auth, pk), m2, w))"
  using indexPicked_calm [OF assms(2,1), of env a] assms(3,4) by (simp add: fresh_pick_def case_prod_beta')

lemma legacy_fresh:
  assumes h: "hooks_ok h P Q" and c: "calm h P Q w m"
  shows "fresh_pick h P Q tried (pickNextMixedLegacy h req tried m w)"
proof -
  define arg where "arg = (if xh_builtIn h then [] else routeModel req)"
  define cs where "cs = filter (legacyCandidate h req tried) (map snd (mg_auths m))"
  define av where "av = availableAuthsForRouteModelWithPriorityMode (me_token (xh_mgr h)) (xh_selectionModel h) cs ''mixed''
      (routeModel req) (xh_time h w) (mg_affinity m \<noteq> None)"
  note unfold_legacy = pickNextMixedLegacy_def Let_def arg_def [symmetric] cs_def [symmetric] av_def [symmetric]
  have failed: "fresh_pick h P Q tried (Inl e, m, w)" for e using c by (simp add: fresh_pick_def)
  have chosen: "a_ID a \<in> P \<and> a_ID a \<notin> set tried" if "a \<in> set cs" for a
  proof -
    from that obtain i where "(i, a) \<in> set (mg_auths m)" "legacyCandidate h req tried a" by (auto simp: cs_def)
    with held_known [OF c] show ?thesis by (auto simp: legacyCandidate_def Let_def)
  qed
  show ?thesis
  proof (cases av)
    case (Inl e)
    then show ?thesis unfolding unfold_legacy by (simp add: failed)
  next
    case (Inr auths)
    obtain r b w1 where x: "xh_selectorPick h (affinity_metadata ''mixed'' arg (rq_metadata (xr_selection req))) arg auths (mg_affinity m) w
        = (r, b, w1)" by (metis prod_cases3)
    have "calm h P Q w1 m" using hooks_selector [OF h c] x by (metis snd_conv)
    then have c1: "calm h P Q w1 (m\<lparr>mg_affinity := b\<rparr>)"
      unfolding calm_def using exec_inv_frame [of "m\<lparr>mg_affinity := b\<rparr>" m] by simp
    have sub: "set auths \<subseteq> set cs" using routeAvailable_subset Inr unfolding av_def by blast
    have failed1: "fresh_pick h P Q tried (Inl e, m\<lparr>mg_affinity := b\<rparr>, w1)" for e using c1 by (simp add: fresh_pick_def)
    show ?thesis
    proof (cases r)
      case (Inl e)
      then show ?thesis unfolding unfold_legacy by (simp add: failed failed1 Inr x)
    next
      case r: (Inr a)
      have "a \<in> set auths" using hooks_selected [OF h] x r by (metis fst_conv)
      then have "fresh_pick h P Q tried (case indexPicked (xh_mgr h) a (m\<lparr>mg_affinity := b\<rparr>) of
          (auth, m2) \<Rightarrow> (Inr (auth, executorKeyFromAuth a), m2, w1))"
        using chosen sub by (intro indexed_fresh [OF hooks_metadata(1) [OF h] c1]) auto
      then show ?thesis unfolding unfold_legacy by (simp add: failed failed1 Inr x r)
    qed
  qed
qed

lemma pickNextMixed_fresh:
  assumes h: "hooks_ok h P Q" and c: "calm h P Q w m"
  shows "fresh_pick h P Q tried (pickNextMixed h req tried m w)"
proof -
  define eligible where "eligible = eligibleProviders h (xr_providers req)"
  define model where "model = routeModel req"
  define rq where "rq = (xr_selection req)\<lparr>rq_tried := tried\<rparr>"
  define again where "again = (case schedulerPick h rq eligible model m w of
      (Inl err, m1, w1) \<Rightarrow>
        if model \<noteq> [] \<and> shouldRetrySchedulerPick err
        then schedulerPick h rq eligible model (syncScheduler (xh_mgr h) (xh_time h w1) m1) w1
        else (Inl err, m1, w1)
    | picked \<Rightarrow> picked)"
  have sched: "fresh_pick h P Q tried (schedulerPick h rq eligible model m w)" if "calm h P Q w m" for m w
    using schedulerPick_calm [OF h that, of rq eligible model]
    by (cases "schedulerPick h rq eligible model m w") (auto simp: fresh_pick_def rq_def split: sum.split)
  obtain r0 m0 w0 where p0: "schedulerPick h rq eligible model m w = (r0, m0, w0)" by (metis prod_cases3)
  have g0: "fresh_pick h P Q tried (r0, m0, w0)" using sched [OF c] by (simp add: p0)
  then have c0: "calm h P Q w0 (syncScheduler (xh_mgr h) (xh_time h w0) m0)" by (intro syncScheduler_calm) (simp add: fresh_pick_def)
  have g: "fresh_pick h P Q tried again"
    unfolding again_def p0 using g0 sched [OF c0] by (auto split: sum.split)
  obtain r2 m2 w2 where a2: "again = (r2, m2, w2)" by (metis prod_cases3)
  have failed: "fresh_pick h P Q tried (Inl e, m2, w2)" "fresh_pick h P Q tried (Inl e, m, w)" for e
    using g c by (simp_all add: fresh_pick_def a2)
  have ends: "fresh_pick h P Q tried (case again of
             (Inl err, m1, w1) \<Rightarrow> (Inl err, m1, w1)
           | (Inr (selected, providerKey), m1, w1) \<Rightarrow>
               if \<not> xh_executor h providerKey then (Inl (authError ''executor_not_found'' ''executor not registered''), m1, w1)
               else (case indexPicked (xh_mgr h) selected m1 of (auth, m2) \<Rightarrow> (Inr (auth, providerKey), m2, w1)))"
  proof (cases r2)
    case (Inr p)
    obtain a pk where p: "p = (a, pk)" by fastforce
    have "fresh_pick h P Q tried (case indexPicked (xh_mgr h) a m2 of (auth, m2) \<Rightarrow> (Inr (auth, pk), m2, w2))"
      using g Inr p by (intro indexed_fresh hooks_metadata(1) [OF h]) (simp_all add: a2 fresh_pick_def)
    then show ?thesis using failed(1) Inr p by (simp add: a2)
  qed (use failed(1) a2 in simp)
  show ?thesis
    using legacy_fresh [OF h c, of tried req] ends failed(2)
    unfolding pickNextMixed_def Let_def eligible_def [symmetric] model_def [symmetric] rq_def [symmetric] again_def [symmetric]
    by presburger
qed

lemma pickNextMixed_calm:
  assumes "hooks_ok h P Q" and "calm h P Q w m" and "pickNextMixed h req tried m w = (r, m1, w1)"
  shows "calm h P Q w1 m1 \<and> (\<forall>a pk. r = Inr (a, pk) \<longrightarrow> a_ID a \<in> P \<and> a_ID a \<notin> set tried)"
  using pickNextMixed_fresh [OF assms(1,2), of tried req] assms(3) by (auto simp: fresh_pick_def)

section \<open>The use of a credential\<close>

lemma updateInternal_calm:
  "calm h P Q w m \<Longrightarrow> (\<And>a. Q a) \<Longrightarrow> updateInternal (xh_mgr h) nils err (xh_time h w) base auth mode m = (m1, r)
    \<Longrightarrow> calm h P Q w m1"
  unfolding calm_def using updateInternal_exec [of _ P Q _ m "xh_mgr h"] by (metis fst_conv)

lemma prepareRequestAuth_calm:
  assumes h: "hooks_ok h P Q" and c: "calm h P Q w m" and prep: "prepareRequestAuth h selected m w = (r, m1, w1)"
  shows "calm h P Q w1 m1"
proof -
  have one: "calm h P Q w1 m" if "xh_prepare h a w = (r, w1)" for a r w1
    using hooks_prepare [OF h c, of a] that by simp
  have lock: "calm h P Q w1 m" if "xh_prepareLock h w = (r, w1)" for r w1
    using hooks_lock [OF h c] that by simp
  have two: "calm h P Q w2 m" if "xh_prepareLock h w = (r, w1)" "xh_prepare h a w1 = (r', w2)" for a r r' w1 w2
    using hooks_prepare [OF h lock [OF that(1)], of a] that(2) by simp
  have saved: "calm h P Q w2 m2" if "xh_prepareLock h w = (e, w1)" "xh_prepare h a w1 = (r', w2)" "xh_shouldPrepare h a"
      "updateInternal (xh_mgr h) nils err (xh_time h w2) base auth mode m = (m2, r)" for e r' a w1 w2 nils err base auth mode m2 r
    by (rule updateInternal_calm [OF two [OF that(1,2)] hooks_metadata(2) [OF h that(3)] that(4)])
  show ?thesis
    using prep c unfolding prepareRequestAuth_def Let_def
    by (auto split: sum.split_asm if_split_asm prod.split_asm option.split_asm
        dest: one lock two saved)
qed

lemma MarkResult_calm:
  "on_metadata Q \<Longrightarrow> calm h P Q w m \<Longrightarrow> calm h P Q w (MarkResult (xh_mgr h) hs (xh_time h w) t1 t2 res m)"
  unfolding calm_def by (rule MarkResult_exec) simp_all

lemma neutral_calm: "on_metadata Q \<Longrightarrow> calm h P Q w m \<Longrightarrow> calm h P Q w (recordAvailabilityNeutralResult now res m)"
  unfolding calm_def by (rule neutral_exec)

abbreviation calm_at :: "('r, 'w) exec_hooks \<Rightarrow> string set \<Rightarrow> (Auth \<Rightarrow> bool) \<Rightarrow> 'w attempt_state \<Rightarrow> bool" where
  "calm_at h P Q a \<equiv> calm h P Q (at_world a) (at_manager a)"

lemma mark_calm:
  "on_metadata Q \<Longrightarrow> calm_at h P Q a \<Longrightarrow> calm_at h P Q (markAttempt h res a)"
  "on_metadata Q \<Longrightarrow> calm_at h P Q a \<Longrightarrow> calm_at h P Q (markFailure h req model err res a)"
  by (simp_all add: markAttempt_def markFailure_def Let_def MarkResult_calm neutral_calm)

lemma tryRefresh_calm:
  assumes "hooks_ok h P Q" and "calm h P Q w m" and "tryRefreshAfterUnauthorized h auth err tried m w = (r, m1, w1)"
  shows "calm h P Q w1 m1"
  using hooks_refresh [OF assms(1,2), of auth] assms(2,3)
  by (auto simp: tryRefreshAfterUnauthorized_def split: if_split_asm prod.split_asm option.split_asm)

lemma executeWithRefresh_calm:
  assumes h: "hooks_ok h P Q" and c: "calm_at h P Q a" and run: "executeWithRefresh h req model a = (r, b)"
  shows "calm_at h P Q b"
proof -
  obtain r1 w1 where x1: "executorCall h req (at_auth a) model (at_world a) = (r1, w1)" by fastforce
  have c1: "calm h P Q w1 (at_manager a)" using hooks_execute [OF h c, of req "at_auth a" model] x1 by simp
  show ?thesis
  proof (cases r1)
    case (Inl err)
    obtain renewed m2 w2 where x2: "tryRefreshAfterUnauthorized h (at_auth a) err (at_refreshed a) (at_manager a) w1 = (renewed, m2, w2)"
      by (metis prod_cases3)
    have c2: "calm h P Q w2 m2" by (rule tryRefresh_calm [OF h c1 x2])
    have c3: "calm h P Q w3 m2" if "executorCall h req au model w2 = (r3, w3)" for au r3 w3
      using hooks_execute [OF h c2, of req au model] that by simp
    show ?thesis
      using run c1 c2 unfolding executeWithRefresh_def Let_def
      by (auto simp: x1 x2 Inl split: option.split_asm prod.split_asm sum.split_asm dest: c3)
  qed (use run x1 c1 in \<open>auto simp: executeWithRefresh_def Let_def\<close>)
qed

lemma attemptModel_calm:
  assumes h: "hooks_ok h P Q" and c: "calm_at h P Q a" and run: "attemptModel h req provider pooled model a = (r, b)"
  shows "calm_at h P Q b"
proof -
  define md where "md = (case executionModelForAuthSelection (rq_metadata (xr_selection req)) (xr_model req) of
                     Some executionModel \<Rightarrow> executionModel | None \<Rightarrow> model)"
  obtain e w1 where x1: "xh_intercept h (at_auth a) md (at_world a) = (e, w1)" by fastforce
  have c1: "calm_at h P Q (a\<lparr>at_world := w1\<rparr>)" using hooks_intercept [OF h c, of "at_auth a" md] x1 by simp
  obtain r2 b2 where x2: "executeWithRefresh h req md (a\<lparr>at_world := w1\<rparr>) = (r2, b2)" by fastforce
  have c2: "calm_at h P Q b2" by (rule executeWithRefresh_calm [OF h c1 x2])
  show ?thesis
    using run c1 c2 unfolding attemptModel_def Let_def md_def [symmetric]
    by (auto simp: x1 x2 mark_calm hooks_metadata(1) [OF h] split: option.split_asm prod.split_asm sum.split_asm)
qed

lemma attemptModels_calm:
  assumes "hooks_ok h P Q" and "calm_at h P Q a" and "attemptModels h req provider pooled models authErr a = (r, b)"
  shows "calm_at h P Q b"
  using assms(2,3)
proof (induction models arbitrary: authErr a)
  case (Cons model models)
  obtain e b1 where x: "attemptModel h req provider pooled model a = (e, b1)" by fastforce
  have "calm_at h P Q b1" by (rule attemptModel_calm [OF assms(1) Cons.prems(1) x])
  with Cons.prems(2) Cons.IH show ?case by (auto simp: x split: attempt_end.split_asm)
qed simp

lemma useCredential_calm:
  assumes h: "hooks_ok h P Q" and c: "calm h P Q w m" and run: "useCredential h req provider pooled models auth st m w = (r, m1, w1)"
  shows "calm h P Q w1 m1"
proof -
  obtain prepared e m2 w2 where x: "prepareRequestAuth h auth m w = ((prepared, e), m2, w2)"
    by (metis prod.exhaust)
  have c2: "calm h P Q w2 m2" by (rule prepareRequestAuth_calm [OF h c x])
  note rel = hooks_release [OF h, of _ _ auth]
  show ?thesis
  proof (cases e)
    case (Some err)
    obtain r3 m3 where y: "afterFailedPreparation h req provider prepared err st m2 w2 = (r3, m3)" by fastforce
    have "calm h P Q w2 m3"
      using c2 y by (auto simp: afterFailedPreparation_def Let_def MarkResult_calm hooks_metadata(1) [OF h] split: option.split_asm)
    moreover have "m1 = m3 \<and> (w1 = w2 \<or> w1 = xh_release h auth w2)"
      using run y unfolding useCredential_def x Some
      by (cases prepared) (auto split: sum.split_asm round_result.split_asm)
    ultimately show ?thesis using rel by auto
  next
    case None
    show ?thesis
    proof (cases prepared)
      case (Some a)
      obtain r3 b where y: "attemptModels h req provider pooled models None
          \<lparr>at_auth = a, at_refreshed = False, at_manager = m2, at_world = w2\<rparr> = (r3, b)" by fastforce
      have "calm_at h P Q b" by (rule attemptModels_calm [OF h _ y]) (simp add: c2)
      then show ?thesis
        using run rel unfolding useCredential_def x None Some
        by (auto simp: y split: sum.split_asm)
    qed (use run c2 x None in \<open>auto simp: useCredential_def\<close>)
  qed
qed


section \<open>A round ends\<close>

text \<open>The attempted credentials of a round: known, each once, and no more than the configured number.\<close>

definition attempts_ok :: "string set \<Rightarrow> int \<Rightarrow> round_state \<Rightarrow> bool" where
  "attempts_ok P maxRetryCredentials st \<longleftrightarrow> distinct (rs_attempted st) \<and> set (rs_attempted st) \<subseteq> P
     \<and> (maxRetryCredentials > 0 \<longrightarrow> int (length (rs_attempted st)) \<le> maxRetryCredentials)"

definition admits_all :: "('r, 'w) exec_hooks \<Rightarrow> bool" where
  "admits_all h \<longleftrightarrow> (\<forall>auth w. fst (xh_admit h auth w))"

lemma useCredential_round:
  assumes "useCredential h req provider pooled models auth st m w = (Inr st', m1, w1)"
  shows "\<exists>e. st' = st\<lparr>rs_lastErr := e\<rparr>"
proof -
  have same: "\<exists>e. st = st\<lparr>rs_lastErr := e\<rparr>" by (rule exI [of _ "rs_lastErr st"]) simp
  show ?thesis
    using assms same unfolding useCredential_def afterFailedPreparation_def afterCredential_def Let_def
    by (auto split: prod.split_asm option.split_asm sum.split_asm if_split_asm)
qed

lemma attempts_ok_insert:
  assumes "attempts_ok P k st" and "\<not> (k > 0 \<and> int (length (rs_attempted st)) \<ge> k)" and "i \<in> P"
  shows "attempts_ok P k (st\<lparr>rs_tried := a, rs_selected := b, rs_attempted := List.insert i (rs_attempted st)\<rparr>)"
  using assms by (auto simp: attempts_ok_def List.insert_def)

lemma roundStep_progress:
  assumes h: "hooks_ok h P Q" and admits: "admits_all h" and c: "calm h P Q w m" and busy: "rs_busy st = []"
    and att: "attempts_ok P k st" and step: "roundStep h req k st m w = (r, st1, m1, w1)"
  shows "attempts_ok P k st1 \<and> calm h P Q w1 m1"
    and "r = Inr st' \<Longrightarrow> st' = st1 \<and> rs_busy st1 = []
      \<and> (\<exists>i \<in> P - set (rs_tried st). set (rs_tried st1) = insert i (set (rs_tried st)))"
proof -
  obtain p m2 w2 where x: "pickNextMixed h req (rs_tried st) m w = (p, m2, w2)" by (metis prod_cases3)
  note picked = pickNextMixed_calm [OF h c x]
  have "(attempts_ok P k st1 \<and> calm h P Q w1 m1) \<and> (\<forall>st'. r = Inr st' \<longrightarrow> st' = st1 \<and> rs_busy st1 = []
      \<and> (\<exists>i \<in> P - set (rs_tried st). set (rs_tried st1) = insert i (set (rs_tried st))))"
  proof (cases "(k > 0 \<and> int (length (rs_attempted st)) \<ge> k) \<or> (\<exists>e. p = Inl e)")
    case True
    then show ?thesis using step att busy x c picked by (auto simp: roundStep_def Let_def split: if_split_asm)
  next
    case False
    then obtain auth provider where p: "p = Inr (auth, provider)" by (cases p) auto
    obtain m3 w3 where o: "xh_others h m2 w2 = (m3, w3)" by fastforce
    obtain models pooled w4 where md: "xh_models h auth (routeModel req) w3 = ((models, pooled), w4)" by (metis prod.exhaust)
    obtain w5 where ad: "xh_admit h auth w4 = (True, w5)"
      using admits by (metis admits_all_def prod.collapse)
    have c3: "calm h P Q w3 m3" using hooks_others [OF h, of w2 m2] picked o by simp
    have c4: "calm h P Q w4 m3" using hooks_models [OF h c3, of auth "routeModel req"] md by simp
    have c5: "calm h P Q w5 m3" using hooks_admit [OF h c4, of auth] ad by simp
    have i: "a_ID auth \<in> P - set (rs_tried st)" using picked p by simp
    define st1' where "st1' = st\<lparr>rs_tried := List.insert (a_ID auth) (rs_tried st),
        rs_selected := (if TrimSpace (a_ID auth) = [] then rs_selected st else List.insert (TrimSpace (a_ID auth)) (rs_selected st))\<rparr>"
    define st2 where "st2 = st1'\<lparr>rs_attempted := List.insert (a_ID auth) (rs_attempted st1')\<rparr>"
    obtain r' m6 w6 where u: "useCredential h req provider pooled models auth st2 m3 w5 = (r', m6, w6)" by (metis prod_cases3)
    have c6: "calm h P Q w6 m6" by (rule useCredential_calm [OF h c5 u])
    have a1: "attempts_ok P k st1'" using att by (simp add: attempts_ok_def st1'_def)
    have a2: "attempts_ok P k st2"
      unfolding st2_def st1'_def using attempts_ok_insert [OF att _ _] False i by simp
    have t: "set (rs_tried st1') = insert (a_ID auth) (set (rs_tried st))" "rs_busy st1' = []"
      "rs_tried st2 = rs_tried st1'" "rs_busy st2 = rs_busy st1'" by (simp_all add: st1'_def st2_def busy)
    have e: "roundStep h req k st m w =
      (if models = [] then (Inr st1', st1', m3, w4) else (r', (case r' of Inr st3 \<Rightarrow> st3 | Inl _ \<Rightarrow> st2), m6, w6))"
      using False unfolding roundStep_def Let_def
      by (subst if_not_P, blast, cases "models = []")
        (simp_all only: x p o md ad u st1'_def [symmetric] st2_def [symmetric] prod.case sum.case if_True if_False bool.case simp_thms)
    show ?thesis
    proof (cases r')
      case (Inr st3)
      obtain er where "st3 = st2\<lparr>rs_lastErr := er\<rparr>" using useCredential_round [OF u [unfolded Inr]] by blast
      then have s3: "attempts_ok P k st3" "rs_tried st3 = rs_tried st1'" "rs_busy st3 = []"
        using a2 t by (simp_all add: attempts_ok_def)
      show ?thesis using step i c4 c6 a1 t s3 unfolding e Inr by (auto split: if_split_asm)
    qed (use step i c4 c6 a1 a2 t in \<open>auto simp: e split: if_split_asm\<close>)
  qed
  then show "attempts_ok P k st1 \<and> calm h P Q w1 m1" "r = Inr st' \<Longrightarrow> st' = st1 \<and> rs_busy st1 = []
      \<and> (\<exists>i \<in> P - set (rs_tried st). set (rs_tried st1) = insert i (set (rs_tried st)))" by blast+
qed

lemma roundLoop_ends:
  assumes h: "hooks_ok h P Q" and admits: "admits_all h" and P: "finite P"
    and "calm h P Q w m" "rs_busy st = []" "attempts_ok P k st"
  shows "\<exists>r st' m' w'. roundLoop h req k st m w = Some (r, st', m', w') \<and> attempts_ok P k st' \<and> calm h P Q w' m'"
  using assms(4-)
proof (induction "card (P - set (rs_tried st))" arbitrary: st m w rule: less_induct)
  case less
  obtain r st1 m1 w1 where x: "roundStep h req k st m w = (r, st1, m1, w1)" by (metis prod.exhaust)
  note step = roundStep_progress [OF h admits less.prems x]
  show ?case
  proof (cases r)
    case (Inl a)
    then show ?thesis using step(1) by (subst roundLoop.simps) (simp add: x)
  next
    case (Inr st')
    from step(2) [OF this] obtain i where i: "st' = st1" "rs_busy st1 = []" "i \<in> P - set (rs_tried st)"
      "set (rs_tried st1) = insert i (set (rs_tried st))" by blast
    then have "P - set (rs_tried st1) \<subset> P - set (rs_tried st)" by auto
    then have "card (P - set (rs_tried st1)) < card (P - set (rs_tried st))" using P by (simp add: psubset_card_mono)
    from less.hyps [OF this _ i(2)] step(1) show ?thesis
      by (subst roundLoop.simps) (simp add: x Inr i(1))
  qed
qed


lemma executeMixedOnce_ends:
  assumes "hooks_ok h P Q" and "admits_all h" and "finite P" and "calm h P Q w m"
  shows "\<exists>r st m' w'. executeMixedOnce h req k retryRound d m w = Some (r, st, m', w') \<and> attempts_ok P k st \<and> calm h P Q w' m'"
proof -
  have "\<exists>r st m' w'. roundLoop h req k \<lparr>rs_tried = requestRetryRoundExclusions retryRound d m, rs_attempted = [], rs_busy = [],
        rs_lastErr = None, rs_selected = []\<rparr> m w = Some (r, st, m', w') \<and> attempts_ok P k st \<and> calm h P Q w' m'"
    by (rule roundLoop_ends [OF assms]) (simp_all add: attempts_ok_def)
  then show ?thesis using assms(4) by (cases "xr_providers req = []") (simp_all add: executeMixedOnce_def attempts_ok_def)
qed


section \<open>A request ends\<close>

text \<open>What is asked of the credentials: no more than \<open>L\<close> retries.\<close>

definition retries_within :: "int \<Rightarrow> int \<Rightarrow> Auth \<Rightarrow> bool" where
  "retries_within defaultRequestRetry L auth \<longleftrightarrow> effectiveRequestRetryLimit auth defaultRequestRetry \<le> L"

lemma retries_on_metadata: "on_metadata (retries_within d L)"
  by (simp add: on_metadata_def retries_within_def effectiveRequestRetryLimit_def RequestRetryOverride_def)

text \<open>Another round is started only while some held credential has retries left.\<close>

lemma waitForCooldown_calm:
  assumes h: "hooks_ok h P Q" and c: "calm h P Q w m" and wait: "waitForCooldown h d maxWait w = (e, w1)"
  shows "calm h P Q w1 m"
  using hooks_sleep [OF h c, of "jitteredCooldownWait (xh_rand h w) d maxWait"] c wait
  by (simp add: waitForCooldown_def split: if_split_asm)

lemma afterRound_calm:
  assumes h: "hooks_ok h P Q" and c: "calm h P Q w m"
    and after: "afterRound h req maxWait d attempt (r, st, m, w) = (q, m1, w1)"
  shows "calm h P Q w1 m1"
  using after c waitForCooldown_calm [OF h c]
  by (simp add: afterRound_def split: round_result.split_asm if_split_asm option.split_asm prod.split_asm)

lemma afterRound_retries:
  assumes "afterRound h req maxWait d attempt (r, st, m, w) = (Inr u, m1, w1)"
  obtains err wait where "shouldRetryAfterErrorWithAttempted (retryEnvOf h) (retryQueryOf req d) maxWait err attempt
    (rs_selected st) (xh_time h w) (xh_time h w) m = Some wait"
  using assms by (simp add: afterRound_def split: round_result.split_asm if_split_asm option.split_asm prod.split_asm)

lemma afterRound_next:
  assumes c: "calm h P (retries_within d L) w m"
    and after: "afterRound h req maxWait d attempt (r, st, m, w) = (Inr u, m1, w1)"
  shows "attempt < L"
proof -
  let ?q = "retryQueryOf req d"
  obtain err wait where e:
    "shouldRetryAfterErrorWithAttempted (retryEnvOf h) ?q maxWait err attempt (rs_selected st) (xh_time h w) (xh_time h w) m = Some wait"
    using afterRound_retries [OF after] .
  have t: "0 \<le> xh_time h w" and held: "\<forall>a \<in> snd ` set (mg_auths m). retries_within d L a"
    using c by (simp_all add: calm_def exec_inv_def)
  have "list_ex (\<lambda>(_, auth). mayRetry (retryEnvOf h) ?q attempt auth) (mg_auths m)"
    using retry_wait(2) [OF e t] unfolding retryAllowed_def list_ex_iff by (auto split: if_split_asm)
  then obtain auth where a: "auth \<in> snd ` set (mg_auths m)" "mayRetry (retryEnvOf h) ?q attempt auth"
    unfolding list_ex_iff by force
  have "attempt < effectiveRequestRetryLimit auth d" using a(2) by (simp add: mayRetry_def retryQueryOf_def)
  moreover have "retries_within d L auth" using held a(1) by blast
  ultimately show ?thesis by (simp add: retries_within_def)
qed

lemma executeRounds_ends:
  assumes h: "hooks_ok h P (retries_within d L)" and admits: "admits_all h" and P: "finite P"
    and "calm h P (retries_within d L) w m"
  shows "\<exists>r m' w'. executeRounds h req k maxWait d attempt m w = Some (r, m', w') \<and> calm h P (retries_within d L) w' m'"
  using assms(4)
proof (induction "nat (L - attempt)" arbitrary: attempt m w rule: less_induct)
  case less
  obtain r st m1 w1 where once: "executeMixedOnce h req k attempt d m w = Some (r, st, m1, w1)"
    and c1: "calm h P (retries_within d L) w1 m1"
    using executeMixedOnce_ends [OF h admits P less.prems] by blast
  obtain q m2 w2 where after: "afterRound h req maxWait d attempt (r, st, m1, w1) = (q, m2, w2)" by (metis prod_cases3)
  have c2: "calm h P (retries_within d L) w2 m2" by (rule afterRound_calm [OF h c1 after])
  show ?case
  proof (cases q)
    case (Inl a)
    then show ?thesis using c2 by (subst executeRounds.simps) (simp add: once after Inl)
  next
    case (Inr u)
    have "attempt < L" by (rule afterRound_next [OF c1 after [unfolded Inr]])
    then have "nat (L - (attempt + 1)) < nat (L - attempt)" by simp
    from less.hyps [OF this c2] show ?thesis by (subst executeRounds.simps) (simp add: once after Inr)
  qed
qed


text \<open>
  A credential that is removed between its choice and its preparation: the code that records the failure dereferences
  the credential that the preparation did not return.
\<close>

lemma removed_before_preparation:
  assumes "a_RegistrationEpoch auth \<noteq> 0" and "map_of (mg_auths m) (a_ID auth) = None"
  shows "useCredential h req provider pooled models auth st m w = (Inl RoundPanic, m, w)"
  using assms by (simp add: useCredential_def prepareRequestAuth_def currentRequestAuth_def Let_def
      afterFailedPreparation_def claudeOAuthRequestCancellation_def)


section \<open>Examples\<close>

lemma mgr_inv_exec:
  assumes "mgr_inv tenv t m" and "\<forall>a \<in> snd ` set (mg_auths m). Q a"
  shows "exec_inv tenv (keys (mg_auths m)) Q t m"
proof -
  have "dom (registered (mg_scheduler m)) \<subseteq> keys (mg_auths m)"
  proof
    fix i assume "i \<in> dom (registered (mg_scheduler m))"
    then have "scheduled m i \<noteq> None" by (auto simp: scheduled_def)
    then have "expected m i \<noteq> None" using assms by (simp add: mgr_inv_def)
    then obtain a where "map_of (mg_auths m) i = Some a" by (auto simp: expected_def split: option.split_asm)
    then show "i \<in> keys (mg_auths m)" by (force dest: map_of_SomeD)
  qed
  with assms show ?thesis by (simp add: exec_inv_def mgr_inv_def)
qed

text \<open>Surroundings in which every call takes no time but the pick, the credential \<open>a\<close> is rate limited and the others answer.\<close>

definition exampleHooks :: "(string, nat) exec_hooks" where
  "exampleHooks = \<lparr>xh_mgr = exampleMgrEnv, xh_sha = (\<lambda>x. x), xh_rules = (\<lambda>_. []), xh_regexp = (\<lambda>_ _. False),
     xh_executor = (\<lambda>_. True), xh_time = (\<lambda>w. 10 + int w),
     xh_clock = (\<lambda>w. (\<lparr>tm_ensure = 10 + int w, tm_pick = 10 + int w, tm_error = 11 + int w\<rparr>, Suc w)),
     xh_headers = (\<lambda>_. []), xh_ctxErr = (\<lambda>_. None), xh_others = (\<lambda>m w. (m, w)),
     xh_builtIn = True,
     xh_selectorPick = (\<lambda>_ model auths bindings w. (fst (FillFirst_Pick exampleEnv exampleCtx (10 + int w) ''mixed'' model auths ()), bindings, w)),
     xh_models = (\<lambda>_ model w. (([model], False), w)), xh_stateModel = (\<lambda>_ model _ _. model),
     xh_admit = (\<lambda>_ w. (True, w)), xh_release = (\<lambda>_ w. w), xh_waitCapacity = (\<lambda>_ w. (None, w)),
     xh_shouldPrepare = (\<lambda>_. False), xh_prepareLock = (\<lambda>w. (None, w)), xh_prepare = (\<lambda>a w. ((Some a, None), w)),
     xh_nils = (\<lambda>_. \<lparr>nil_Metadata = False, nil_Attributes = False, nil_ModelStates = False\<rparr>), xh_persistErr = (\<lambda>_. None), xh_updateError = (\<lambda>_. exampleExecError),
     xh_intercept = (\<lambda>_ _ w. (None, w)),
     xh_execute = (\<lambda>a _ w. (if a_ID a = ''a'' then Inl exampleExecError else Inr (a_ID a), w)),
     xh_countTokens = (\<lambda>a _ w. (Inr (a_ID a), w)), xh_modelNotFound = (\<lambda>_ _. False),
     xh_refresh = (\<lambda>_ m w. (None, m, w)), xh_supports = (\<lambda>_ _. True), xh_selectionModel = (\<lambda>_ m. canonicalModelKey m),
     xh_rand = (\<lambda>_ _. 0), xh_sleep = (\<lambda>_ w. (None, w))\<rparr>"

definition exampleExecRequest :: exec_request where
  "exampleExecRequest = \<lparr>xr_count = False, xr_providers = [''codex''], xr_model = ''gpt-5'', xr_alt = [], xr_selection = exampleRequest\<rparr>"

lemma FillFirst_selects: "fst (FillFirst_Pick env ctx now provider model auths ()) = Inr a \<Longrightarrow> a \<in> set auths"
  using ff.pick_sound [of env ctx now provider model auths "()" a] by (metis prod.collapse)

lemma exampleHooks_ok: "on_metadata Q \<Longrightarrow> hooks_ok exampleHooks P Q" "admits_all exampleHooks"
  by (simp_all add: hooks_ok_def calls_ok_def admits_all_def exampleHooks_def clocks_ok_def FillFirst_selects)


lemma exampleHooks_calm:
  assumes "\<forall>a \<in> snd ` set (mg_auths exampleManager). Q a"
  shows "calm exampleHooks {''a'', ''b''} Q 0 exampleManager"
proof -
  have k: "keys (mg_auths exampleManager) = {''a'', ''b''}" by code_simp
  show ?thesis
    using mgr_inv_exec [OF mgr_reachable_inv [OF exampleManager_reachable] assms] unfolding k
    by (simp add: calm_def exampleHooks_def exampleMgrEnv_token)
qed



end
