(* ===== verification/Spec2Isabelle.thy ===== *)
theory Spec2Isabelle
  imports Thinking_Validate Recent_Requests Error_Class Access_Isolation Scheduler_Mixed Cooldown_Store Local_Admission Execution_Ends
begin

text \<open>
  Verification of the core of CodexProxy (Go): a proxy that serves AI coding clients from a pool of upstream
  credentials. A request names a model; the proxy decides which credentials the client may use, picks one that is free
  for the model, calls the provider with it, records how that went, and tries other credentials or further rounds when it
  failed. The development models that core: \<^verbatim>\<open>src/sdk/cliproxy/auth\<close>, \<^verbatim>\<open>src/internal/thinking\<close>,
  \<^verbatim>\<open>src/internal/clienterror\<close> and \<^verbatim>\<open>src/internal/credentialweight\<close>. Definitions carry the names of the Go
  functions they translate, where the name is free.

  \<^bold>\<open>Parts and theories.\<close>

  \<^item> \<open>Go_Prelude\<close>: what the code uses of Go: 64-bit integers with wrap-around, times and durations as integers of
    nanoseconds (0 is the zero time), strings as byte lists with \<open>strings.TrimSpace\<close>, \<open>ToLower\<close>, \<open>Contains\<close> and the
    like, maps as association lists in the order in which the runtime happens to iterate them, \<open>sort.Search\<close>, dynamic
    values. \<open>Go_Path\<close>: \<open>path.Clean\<close> and \<open>filepath.Join\<close>.
  \<^item> \<open>Thinking_Suffix\<close>, \<open>Model_Info\<close>, \<open>Thinking_Validate\<close> (\<^verbatim>\<open>suffix.go\<close>, \<^verbatim>\<open>convert.go\<close>, \<^verbatim>\<open>validate.go\<close>): model
    names with thinking suffixes, and the validation of thinking settings against a model. Shown: a level or budget that is
    let through is one the model supports.
  \<^item> \<open>Credential_Weight\<close>, \<open>Auth_Types\<close>, \<open>Recent_Requests\<close> (\<^verbatim>\<open>weight.go\<close>, \<^verbatim>\<open>types.go\<close>, \<^verbatim>\<open>errors.go\<close>,
    \<^verbatim>\<open>classification.go\<close>): the credential record \<open>Auth\<close> with its model states, quota and status, weights, expiry of
    access tokens, and the ring of request counters, whose snapshot is shown to be exact.
  \<^item> \<open>Availability\<close> (\<^verbatim>\<open>selector.go\<close>, \<^verbatim>\<open>quota_cooldown.go\<close>): whether, why and until when a credential is blocked for a
    model.
  \<^item> \<open>Smooth_Weighted\<close>, \<open>Selectors\<close> (\<^verbatim>\<open>selector.go\<close>): the three built-in selectors. The locale \<open>selector\<close> states what
    a selector promises; all three interpret it, and session affinity is proved on it. Shown: contracts, fairness of
    round-robin, exact proportions of the weighted selector over a cycle.
  \<^item> \<open>Session_Cache\<close>, \<open>Session_Affinity\<close> (\<^verbatim>\<open>session_cache.go\<close>, \<^verbatim>\<open>selector.go\<close>): bindings of sessions to credentials
    with aliases and expiry, and the selector that keeps to them. Shown: the alias groups stay consistent, a session
    stays with its credential, affinity never widens the choice.
  \<^item> \<open>Access_Isolation\<close> (\<^verbatim>\<open>access_isolation.go\<close>, \<^verbatim>\<open>access_policy.go\<close>, \<^verbatim>\<open>account_identity.go\<close>): account pools and which
    credentials a client may use. Shown: soundness and default denial.
  \<^item> \<open>Error_Class\<close>, \<open>Request_Errors\<close> (\<^verbatim>\<open>client_error.go\<close>, \<^verbatim>\<open>conductor_cooldown.go\<close>,
    \<^verbatim>\<open>conductor_request_scoped_errors.go\<close>): classification of failures, the error a result carries, rules for errors of the
    request.
  \<^item> \<open>Scheduler_Shard\<close>, \<open>Scheduler\<close>, \<open>Shard_Picks\<close>, \<open>Scheduler_Invariant\<close>, \<open>Scheduler_Picks\<close>, \<open>Scheduler_Mixed\<close>
    (\<^verbatim>\<open>scheduler.go\<close>): the scheduler that keeps, per provider and model, ready views by priority and a queue of blocked
    credentials, updated incrementally. Its invariant is proved over an \<open>inductive\<close> reachability; the abstract
    specification is the map of registered credentials (\<open>registered\<close>), which every operation is shown to refine, and
    the contracts \<open>pickContract\<close> and \<open>mixedContract\<close> say what a pick returns in terms of that map.
  \<^item> \<open>Quota_Signals\<close> (\<^verbatim>\<open>quota_signals.go\<close>): quota observations taken from response headers.
  \<^item> \<open>Cooldown_State\<close>, \<open>Cooldown_Facts\<close>, \<open>Mark_Result\<close>, \<open>Mark_Facts\<close>, \<open>Mark_Blocks\<close>, \<open>Mark_Properties\<close>
    (\<^verbatim>\<open>conductor_cooldown.go\<close>, \<^verbatim>\<open>credential_recovery.go\<close>, \<^verbatim>\<open>lifecycle_state.go\<close>): what a result does to its credential.
    Shown: blocks end, are never shortened, cover what they should and nothing else, and a success lifts them.
  \<^item> \<open>Cooldown_Records\<close>, \<open>Cooldown_Store\<close> (\<^verbatim>\<open>conductor_cooldown.go\<close>, \<^verbatim>\<open>cooldown_state.go\<close>): cooldowns as records, their
    files, their restoration and reset. Shown: they survive a restart, the files stay below their directory, and load
    after save is the identity.
  \<^item> \<open>Metadata_Merge\<close> (\<^verbatim>\<open>metadata_merge.go\<close>): the three-way merge of a refreshed credential.
  \<^item> \<open>Conductor\<close>, \<open>Conductor_Invariant\<close>, \<open>Conductor_Picks\<close> (\<^verbatim>\<open>conductor_lifecycle.go\<close>, \<^verbatim>\<open>conductor_cooldown.go\<close>): the
    manager that owns credentials, epochs, scheduler and session bindings. Shown, over all reachable states: the scheduler
    mirrors the manager, a pick is current, and a rate-limited credential is not picked again before its time.
  \<^item> \<open>Retry_Rounds\<close> (\<^verbatim>\<open>conductor_selection.go\<close>): whether and after which wait another round of attempts is started.
  \<^item> \<open>Execution\<close>, \<open>Execution_Ends\<close> (\<^verbatim>\<open>conductor_execution.go\<close>, \<^verbatim>\<open>conductor_selection.go\<close>): \<open>Execute\<close> and
    \<open>ExecuteCount\<close>: the choice of the next credential through the scheduler or the selector, its preparation, the calls of
    the executor with a refresh after a 401, the recording of results, one round, and the rounds. Shown: a round ends,
    and a request ends when the retries of the credentials are bounded.
  \<^item> \<open>Local_Admission\<close> (\<^verbatim>\<open>local_credential_admission.go\<close>): limits of concurrent requests per credential. Shown, for all
    interleavings: the limits hold, and no waiting request misses its wake-up.

  \<^bold>\<open>How the model relates to the code.\<close> State is a record that operations return updated; an error is the \<open>Inl\<close>
  of a sum or a constructor of the result; a nil pointer is \<open>None\<close> and a dereference of it is \<open>RoundPanic\<close>. Every method of
  the manager and of the scheduler is one step: the code holds a lock around them. Times are arguments, one for each
  reading of the clock where the readings matter (\<open>sched_times\<close>, \<open>pick_times\<close>).

  Loops over data are \<open>fold\<close> or structural recursion. The loop of a round and the loop of rounds may run
  forever in principle (a busy credential is waited for without bound), so they are \<open>partial_function (option)\<close>, and the
  end of a round and of a request are theorems under stated conditions on the surroundings (\<open>hooks_ok\<close>, \<open>admits_all\<close>).

  \<^bold>\<open>Arguments of the model\<close> are what lies outside of the modelled files or of Go: JSON and token decoding,
  SHA-256, regular expressions, the model registry and alias tables, the configuration, executors and interceptors, admission
  limits, the refresh of a credential, the order of map iteration. What the theorems need of them is written as
  hypotheses and shown to be satisfiable by the witnesses.

  \<^bold>\<open>Assumptions\<close> that several theorems make: identifiers of credentials carry no surrounding white space, clocks do not go
  back, version counters have room left (\<open>held_room\<close>), restored backoff levels are on the ladder.

  \<^bold>\<open>Not modelled.\<close> Streaming execution and Home mode (goroutines and remote dispatch), executors and translators (JSON
  rewriting and network clients), the HTTP and management interfaces, the stores behind the credentials, the refresh
  loop, the plugin host, configuration loading, the counters of the model registry, logging, usage statistics and the terminal
  interface: input and output, third-party packages, or glue around the modelled operations.
\<close>

end
